(* ===== verification/Prelude.thy ===== *)
theory Prelude
  imports Main "HOL-Library.Word" "HOL-Library.List_Lexorder"
begin

text \<open>
  What the component theories share: byte strings and the big-endian integer encodings of
  \<^verbatim>\<open>encoding/binary\<close>, the clock arithmetic, the table operations that stand for the SQL
  statements (select, update, delete, insert), the reading of a transaction as a function into a
  sum, and two locales for the shapes of reasoning every component uses: a transition system with
  an invariant, and a store whose entries can be taken once.
\<close>

section \<open>Bytes and fixed-width integers\<close>

type_synonym byte = "8 word"
type_synonym bytes = "byte list"
type_synonym uuid = "128 word"
type_synonym int64 = "64 word"

named_theorems wire_length \<open>lengths of the fixed-width encodings\<close>

text \<open>The bytes of an ASCII literal, as \<^verbatim>\<open>[]byte("...")\<close> yields them.\<close>

definition ascii :: "string \<Rightarrow> bytes" where
  "ascii s = map of_char s"

lemma length_ascii [simp, wire_length]: "length (ascii s) = length s"
  by (simp add: ascii_def)

text \<open>\<open>be_bytes n w\<close>: the low \<open>n\<close> bytes of \<open>w\<close>, most significant first
  (\<^verbatim>\<open>binary.BigEndian.PutUint32\<close>, \<^verbatim>\<open>PutUint64\<close>, and the sixteen bytes of a UUID).\<close>

definition be_bytes :: "nat \<Rightarrow> 'a::len word \<Rightarrow> bytes" where
  "be_bytes n w = rev (map (\<lambda>i. ucast (drop_bit (8 * i) w)) [0..<n])"

definition be32 :: "32 word \<Rightarrow> bytes" where "be32 w = be_bytes 4 w"
definition be64 :: "64 word \<Rightarrow> bytes" where "be64 w = be_bytes 8 w"
definition uuid_bytes :: "uuid \<Rightarrow> bytes" where "uuid_bytes w = be_bytes 16 w"

lemma length_be_bytes [simp]: "length (be_bytes n w) = n"
  by (simp add: be_bytes_def)

lemma length_be [simp, wire_length]:
  "length (be32 w) = 4" "length (be64 v) = 8" "length (uuid_bytes u) = 16"
  by (simp_all add: be32_def be64_def uuid_bytes_def)

lemma be_bytes_inject:
  fixes v w :: "'a::len word"
  assumes eq: "be_bytes n v = be_bytes n w" and wide: "LENGTH('a) \<le> 8 * n"
  shows "v = w"
proof (rule bit_word_eqI)
  fix k assume k: "k < LENGTH('a)"
  let ?i = "k div 8"
  have i: "?i < n" using k wide by auto
  have "map (\<lambda>i. ucast (drop_bit (8 * i) v) :: byte) [0..<n] =
        map (\<lambda>i. ucast (drop_bit (8 * i) w)) [0..<n]"
    using eq by (simp add: be_bytes_def)
  then have "(ucast (drop_bit (8 * ?i) v) :: byte) = ucast (drop_bit (8 * ?i) w)"
    using i by (simp add: map_eq_conv)
  then have "bit (ucast (drop_bit (8 * ?i) v) :: byte) (k mod 8) =
             bit (ucast (drop_bit (8 * ?i) w) :: byte) (k mod 8)" by simp
  then show "bit v k = bit w k"
    by (simp add: bit_simps)
qed

lemma be32_inject [simp]: "be32 v = be32 w \<longleftrightarrow> v = w"
  by (auto simp: be32_def dest: be_bytes_inject)

lemma be64_inject [simp]: "be64 v = be64 w \<longleftrightarrow> v = w"
  by (auto simp: be64_def dest: be_bytes_inject)

lemma uuid_bytes_inject [simp]: "uuid_bytes v = uuid_bytes w \<longleftrightarrow> v = w"
  by (auto simp: uuid_bytes_def dest: be_bytes_inject)

text \<open>Go's \<^verbatim>\<open>uint32(x)\<close> of an \<^verbatim>\<open>int\<close>.\<close>

definition uint32 :: "int \<Rightarrow> 32 word" where "uint32 x = word_of_int x"

lemma uint32_inject:
  assumes "0 \<le> x" "x < 2 ^ 32" "0 \<le> y" "y < 2 ^ 32"
  shows "uint32 x = uint32 y \<longleftrightarrow> x = y"
  using assms by (auto simp: uint32_def word_of_int_eq_iff take_bit_int_eq_self)

section \<open>Time\<close>

text \<open>Instants and durations are nanoseconds, the unit of Go's \<^verbatim>\<open>time.Duration\<close>.\<close>

type_synonym time = int

definition seconds :: "int \<Rightarrow> time" where "seconds n = n * 1000000000"
definition minutes :: "int \<Rightarrow> time" where "minutes n = n * 60000000000"
definition hours :: "int \<Rightarrow> time" where "hours n = n * 3600000000000"

text \<open>\<^verbatim>\<open>date_trunc('hour', t)\<close>, the quantization the schema applies to its time stamps.\<close>

definition trunc_hour :: "time \<Rightarrow> time" where
  "trunc_hour t = (t div hours 1) * hours 1"

lemma trunc_hour_bounds: "trunc_hour t \<le> t" "t < trunc_hour t + hours 1"
proof -
  have "(t div hours 1) * hours 1 + t mod hours 1 = t" by (rule div_mult_mod_eq)
  moreover have "0 \<le> t mod hours 1" "t mod hours 1 < hours 1"
    by (simp_all add: hours_def)
  ultimately show "trunc_hour t \<le> t" "t < trunc_hour t + hours 1"
    unfolding trunc_hour_def by linarith+
qed

section \<open>Tables\<close>

text \<open>
  A table is the list of its rows. A statement's \<^verbatim>\<open>WHERE\<close> clause is a predicate on rows.
  The order of the list is the order a statement without \<^verbatim>\<open>ORDER BY\<close> happens to return;
  no result below depends on it.
\<close>

definition sql_delete :: "('r \<Rightarrow> bool) \<Rightarrow> 'r list \<Rightarrow> 'r list" where
  "sql_delete p t = filter (\<lambda>r. \<not> p r) t"

definition sql_update :: "('r \<Rightarrow> bool) \<Rightarrow> ('r \<Rightarrow> 'r) \<Rightarrow> 'r list \<Rightarrow> 'r list" where
  "sql_update p f t = map (\<lambda>r. if p r then f r else r) t"

definition sql_insert :: "'r \<Rightarrow> 'r list \<Rightarrow> 'r list" where
  "sql_insert r t = t @ [r]"

definition sql_exists :: "('r \<Rightarrow> bool) \<Rightarrow> 'r list \<Rightarrow> bool" where
  "sql_exists p t = list_ex p t"

definition sql_count :: "('r \<Rightarrow> bool) \<Rightarrow> 'r list \<Rightarrow> nat" where
  "sql_count p t = length (filter p t)"

lemmas sql_defs = sql_delete_def sql_update_def sql_insert_def sql_exists_def sql_count_def

lemma sql_exists_iff [simp]: "sql_exists p t \<longleftrightarrow> (\<exists>r\<in>set t. p r)"
  by (simp add: sql_exists_def list_ex_iff)

lemma set_sql_delete [simp]: "set (sql_delete p t) = {r \<in> set t. \<not> p r}"
  by (simp add: sql_delete_def)

lemma set_sql_insert [simp]: "set (sql_insert r t) = insert r (set t)"
  by (simp add: sql_insert_def)

lemma set_sql_update [simp]: "set (sql_update p f t) = (\<lambda>r. if p r then f r else r) ` set t"
  by (simp add: sql_update_def)

lemma length_sql_update [simp]: "length (sql_update p f t) = length t"
  by (simp add: sql_update_def)

lemma map_sql_update:
  "(\<And>r. r \<in> set t \<Longrightarrow> p r \<Longrightarrow> g (f r) = g r) \<Longrightarrow> map g (sql_update p f t) = map g t"
  by (simp add: sql_update_def)

lemma sql_count_insert [simp]:
  "sql_count q (sql_insert r t) = sql_count q t + (if q r then 1 else 0)"
  by (simp add: sql_defs)

lemma sql_count_nil [simp]: "sql_count q [] = 0"
  by (simp add: sql_count_def)

lemma sql_count_cong:
  "(\<And>r. r \<in> set t \<Longrightarrow> q r = q' r) \<Longrightarrow> sql_count q t = sql_count q' t"
  by (simp add: sql_count_def cong: filter_cong)

lemma sql_count_delete:
  "sql_count q (sql_delete p t) = sql_count (\<lambda>r. q r \<and> \<not> p r) t"
  by (simp add: sql_count_def sql_delete_def conj_commute)

lemma sql_count_update:
  "sql_count q (sql_update p f t) = sql_count (\<lambda>r. q (if p r then f r else r)) t"
  by (induction t) (auto simp: sql_count_def sql_update_def)

lemma sql_count_mono:
  "(\<And>r. r \<in> set t \<Longrightarrow> q r \<Longrightarrow> q' r) \<Longrightarrow> sql_count q t \<le> sql_count q' t"
  by (induction t) (auto simp: sql_count_def)

lemma sql_count_pos: "r \<in> set t \<Longrightarrow> q r \<Longrightarrow> 0 < sql_count q t"
  by (auto simp: sql_count_def filter_empty_conv)

lemma sql_count_zero: "sql_count q t = 0 \<longleftrightarrow> (\<forall>r\<in>set t. \<not> q r)"
  by (auto simp: sql_count_def filter_empty_conv)

lemma sql_update_id: "(\<And>r. r \<in> set t \<Longrightarrow> \<not> p r) \<Longrightarrow> sql_update p f t = t"
  by (simp add: sql_update_def map_idI)

lemma sql_delete_id: "(\<And>r. r \<in> set t \<Longrightarrow> \<not> p r) \<Longrightarrow> sql_delete p t = t"
  by (simp add: sql_delete_def)

lemma distinct_map_delete: "distinct (map g t) \<Longrightarrow> distinct (map g (sql_delete p t))"
  by (auto simp: sql_delete_def distinct_map intro: inj_on_subset)

lemma distinct_map_insert:
  "distinct (map g t) \<Longrightarrow> g r \<notin> g ` set t \<Longrightarrow> distinct (map g (sql_insert r t))"
  by (simp add: sql_insert_def)

lemma find_Some_in: "find p t = Some r \<Longrightarrow> r \<in> set t \<and> p r"
  by (auto simp: find_Some_iff in_set_conv_nth)

lemma find_None_all: "find p t = None \<longleftrightarrow> (\<forall>r\<in>set t. \<not> p r)"
  by (auto simp: find_None_iff)

text \<open>Under a key constraint a lookup by key finds the row and no other.\<close>

lemma find_key:
  assumes "distinct (map g t)" "r \<in> set t"
  shows "find (\<lambda>x. g x = g r) t = Some r"
  using assms
proof (induction t)
  case (Cons a t)
  then show ?case by (cases "g a = g r") (auto simp: rev_image_eqI)
qed simp

lemma distinct_map_eq: "distinct (map g t) \<Longrightarrow> r \<in> set t \<Longrightarrow> r' \<in> set t \<Longrightarrow> g r = g r' \<Longrightarrow> r = r'"
  by (auto simp: distinct_map dest: inj_onD)

section \<open>Transactions\<close>

text \<open>
  A transaction reads a state and either rolls back with an error (\<open>Inl\<close>) or commits a result
  and the new state (\<open>Inr\<close>). \<open>run_tx\<close> is what the rest of the program observes: on a
  rollback the state is the one before \<^verbatim>\<open>Begin\<close>.
\<close>

type_synonym ('e, 'r, 's) tx = "'s \<Rightarrow> 'e + ('r \<times> 's)"

definition run_tx :: "('e, 'r, 's) tx \<Rightarrow> 's \<Rightarrow> ('e + 'r) \<times> 's" where
  "run_tx t s = (case t s of Inl e \<Rightarrow> (Inl e, s) | Inr (r, s') \<Rightarrow> (Inr r, s'))"

lemma run_tx_simps [simp]:
  "t s = Inl e \<Longrightarrow> run_tx t s = (Inl e, s)"
  "t s = Inr (r, s') \<Longrightarrow> run_tx t s = (Inr r, s')"
  by (simp_all add: run_tx_def)

lemma run_tx_cases:
  obtains (rollback) e where "t s = Inl e" "run_tx t s = (Inl e, s)"
  | (commit) r s' where "t s = Inr (r, s')" "run_tx t s = (Inr r, s')"
  by (cases "t s") (auto simp: run_tx_def)

text \<open>An invariant that every commit keeps is kept by the observable run.\<close>

lemma run_tx_inv:
  "I s \<Longrightarrow> (\<And>r s'. t s = Inr (r, s') \<Longrightarrow> I s') \<Longrightarrow> I (snd (run_tx t s))"
  by (cases t s rule: run_tx_cases) auto

section \<open>Transition systems\<close>

text \<open>
  A component seen from outside: any sequence of its operations, from any state where the
  invariant holds. What the provider promises is that one operation keeps the invariant; the
  clients use the facts about whole histories.
\<close>

locale transition_system =
  fixes step :: "'op \<Rightarrow> 's \<Rightarrow> 's" and inv :: "'s \<Rightarrow> bool"
  assumes inv_step: "inv s \<Longrightarrow> inv (step a s)"
begin

lemma inv_run: "inv s \<Longrightarrow> inv (fold step as s)"
  by (induction as arbitrary: s) (auto intro: inv_step)

lemma inv_run_prefix:
  assumes "inv s"
  shows "inv (fold step (take n as) s)"
  using assms by (rule inv_run)

lemma run_rel:
  assumes refl: "\<And>s. R s s" and trans: "\<And>s t u. R s t \<Longrightarrow> R t u \<Longrightarrow> R s u"
    and one: "\<And>s a. inv s \<Longrightarrow> a \<in> A \<Longrightarrow> R s (step a s)"
    and "inv s" "set as \<subseteq> A"
  shows "R s (fold step as s)"
  using assms(4,5)
proof (induction as arbitrary: s)
  case Nil
  show ?case by (simp add: refl)
next
  case (Cons a as)
  then have "R s (step a s)" "R (step a s) (fold step as (step a s))"
    by (auto intro: one inv_step)
  then show ?case by (auto intro: trans)
qed

end

text \<open>
  A store of expiring entries that are taken at most once: \<open>view t s k\<close> is what the store shows
  for a key at a time, taking answers that and removes the key, putting a key leaves the others
  alone, and what has expired stays expired.
\<close>

datatype ('k, 'v) store_op = Take time 'k | Put time 'k 'v

fun op_time :: "('k, 'v) store_op \<Rightarrow> time" where
  "op_time (Take t k) = t"
| "op_time (Put t k v) = t"

fun puts_key :: "'k \<Rightarrow> ('k, 'v) store_op \<Rightarrow> bool" where
  "puts_key k' (Take t k) = False"
| "puts_key k' (Put t k v) = (k = k')"

fun apply_store_op ::
  "(time \<Rightarrow> 'k \<Rightarrow> 's \<Rightarrow> 'v option \<times> 's) \<Rightarrow> (time \<Rightarrow> 'k \<Rightarrow> 'v \<Rightarrow> 's \<Rightarrow> 's) \<Rightarrow>
     ('k, 'v) store_op \<Rightarrow> 's \<Rightarrow> 's" where
  "apply_store_op tk pt (Take t k) s = snd (tk t k s)"
| "apply_store_op tk pt (Put t k v) s = pt t k v s"

locale take_once =
  fixes view :: "time \<Rightarrow> 's \<Rightarrow> 'k \<Rightarrow> 'v option"
    and take_key :: "time \<Rightarrow> 'k \<Rightarrow> 's \<Rightarrow> 'v option \<times> 's"
    and put_key :: "time \<Rightarrow> 'k \<Rightarrow> 'v \<Rightarrow> 's \<Rightarrow> 's"
  assumes take_result: "fst (take_key t k s) = view t s k"
    and take_gone: "t \<le> t' \<Longrightarrow> view t' (snd (take_key t k s)) k = None"
    and take_sub: "view t' s k' = None \<Longrightarrow> view t' (snd (take_key t k s)) k' = None"
    and put_other: "k \<noteq> k' \<Longrightarrow> view t' (put_key t k v s) k' = view t' s k'"
    and expired: "t \<le> t' \<Longrightarrow> view t s k = None \<Longrightarrow> view t' s k = None"
begin

lemma absent_run:
  assumes "view t s k = None" "\<forall>a\<in>set ops. \<not> puts_key k a" "t \<le> t'"
  shows "view t' (fold (apply_store_op take_key put_key) ops s) k = None"
  using assms(1,2)
proof (induction ops arbitrary: s)
  case Nil
  then show ?case using expired assms(3) by simp
next
  case (Cons a ops)
  have "view t (apply_store_op take_key put_key a s) k = None"
    using Cons.prems by (cases a) (auto simp: take_sub put_other)
  with Cons show ?case by simp
qed

lemma second_take_fails:
  assumes "\<forall>a\<in>set ops. \<not> puts_key k a" "t \<le> t'"
  shows "fst (take_key t' k (fold (apply_store_op take_key put_key) ops (snd (take_key t k s)))) = None"
  using absent_run [OF take_gone [OF order_refl] assms] by (simp add: take_result)

end

end
