(* ===== verification/Api_Errors.thy ===== *)
theory Api_Errors
  imports Prelude
begin

text \<open>
  The error values of the server. \<open>api_code\<close> and the functions after it are
  \<^verbatim>\<open>server/internal/apierr\<close>: one constructor per kind of envelope, with the code string
  and the HTTP status it is written with. \<open>err\<close> is Go's \<^verbatim>\<open>error\<close> interface as this
  program uses it: an API envelope, one of the sentinel values the repositories and services
  compare with \<^verbatim>\<open>errors.Is\<close>, a plain text error, or a failure the database reports
  (a violated constraint, a missing row, a value out of a column's range). Causes, details and
  log lines attached to an envelope are not part of its identity and are left out.
\<close>

datatype api_code =
  E_VALIDATION | E_AUTH | E_FORBIDDEN | E_NOT_MEMBER | E_MEMBER_REVOKED | E_NOT_FOUND
| E_CONFLICT | E_ALBUM_FULL | E_OPK_EXHAUSTED | E_EPOCH_REPLAY | E_MEMBER_SET_DRIFT
| E_EPOCH_PENDING_ROTATION | E_INVITE_EXPIRED | E_INVITE_CONSUMED | E_ACCOUNT_DELETING
| E_DELETION_PLAN_STALE | E_DELETION_ABANDONED | E_DELETION_ACCEPTED | E_SIG_INVALID
| E_MANIFEST_TAMPER | E_RATE_LIMITED | E_TS_SKEW | E_TS_NOT_MONOTONIC
| E_IDENTITY_ALREADY_SET | E_IDENTITY_NOT_SET | E_OPK_INDEX_TAKEN | E_INTERNAL
| E_NOT_IMPLEMENTED

fun code_string :: "api_code \<Rightarrow> string" where
  "code_string E_VALIDATION = ''E_VALIDATION''"
| "code_string E_AUTH = ''E_AUTH''"
| "code_string E_FORBIDDEN = ''E_FORBIDDEN''"
| "code_string E_NOT_MEMBER = ''E_NOT_MEMBER''"
| "code_string E_MEMBER_REVOKED = ''E_MEMBER_REVOKED''"
| "code_string E_NOT_FOUND = ''E_NOT_FOUND''"
| "code_string E_CONFLICT = ''E_CONFLICT''"
| "code_string E_ALBUM_FULL = ''E_ALBUM_FULL''"
| "code_string E_OPK_EXHAUSTED = ''E_OPK_EXHAUSTED''"
| "code_string E_EPOCH_REPLAY = ''E_EPOCH_REPLAY''"
| "code_string E_MEMBER_SET_DRIFT = ''E_MEMBER_SET_DRIFT''"
| "code_string E_EPOCH_PENDING_ROTATION = ''E_EPOCH_PENDING_ROTATION''"
| "code_string E_INVITE_EXPIRED = ''E_INVITE_EXPIRED''"
| "code_string E_INVITE_CONSUMED = ''E_INVITE_CONSUMED''"
| "code_string E_ACCOUNT_DELETING = ''E_ACCOUNT_DELETING''"
| "code_string E_DELETION_PLAN_STALE = ''E_DELETION_PLAN_STALE''"
| "code_string E_DELETION_ABANDONED = ''E_DELETION_ABANDONED''"
| "code_string E_DELETION_ACCEPTED = ''E_DELETION_ACCEPTED''"
| "code_string E_SIG_INVALID = ''E_SIG_INVALID''"
| "code_string E_MANIFEST_TAMPER = ''E_MANIFEST_TAMPER''"
| "code_string E_RATE_LIMITED = ''E_RATE_LIMITED''"
| "code_string E_TS_SKEW = ''E_TS_SKEW''"
| "code_string E_TS_NOT_MONOTONIC = ''E_TS_NOT_MONOTONIC''"
| "code_string E_IDENTITY_ALREADY_SET = ''E_IDENTITY_ALREADY_SET''"
| "code_string E_IDENTITY_NOT_SET = ''E_IDENTITY_NOT_SET''"
| "code_string E_OPK_INDEX_TAKEN = ''E_OPK_INDEX_TAKEN''"
| "code_string E_INTERNAL = ''E_INTERNAL''"
| "code_string E_NOT_IMPLEMENTED = ''E_NOT_IMPLEMENTED''"

fun http_status :: "api_code \<Rightarrow> nat" where
  "http_status E_VALIDATION = 400"
| "http_status E_AUTH = 401"
| "http_status E_FORBIDDEN = 403"
| "http_status E_NOT_MEMBER = 403"
| "http_status E_MEMBER_REVOKED = 403"
| "http_status E_NOT_FOUND = 404"
| "http_status E_CONFLICT = 409"
| "http_status E_ALBUM_FULL = 409"
| "http_status E_OPK_EXHAUSTED = 409"
| "http_status E_EPOCH_REPLAY = 409"
| "http_status E_MEMBER_SET_DRIFT = 409"
| "http_status E_EPOCH_PENDING_ROTATION = 409"
| "http_status E_INVITE_EXPIRED = 410"
| "http_status E_INVITE_CONSUMED = 410"
| "http_status E_ACCOUNT_DELETING = 409"
| "http_status E_DELETION_PLAN_STALE = 409"
| "http_status E_DELETION_ABANDONED = 409"
| "http_status E_DELETION_ACCEPTED = 409"
| "http_status E_SIG_INVALID = 400"
| "http_status E_MANIFEST_TAMPER = 400"
| "http_status E_RATE_LIMITED = 429"
| "http_status E_TS_SKEW = 400"
| "http_status E_TS_NOT_MONOTONIC = 409"
| "http_status E_IDENTITY_ALREADY_SET = 409"
| "http_status E_IDENTITY_NOT_SET = 409"
| "http_status E_OPK_INDEX_TAKEN = 409"
| "http_status E_INTERNAL = 500"
| "http_status E_NOT_IMPLEMENTED = 501"

text \<open>The sentinels of \<^verbatim>\<open>internal/repository\<close>.\<close>

datatype repo_err =
  ErrUserNotFound | ErrMiuchioIDTaken | ErrAlbumNotFound | ErrMemberNotFound | ErrMemberRevoked
| ErrLastAdmin | ErrCallerRevoked | ErrNotAlbumAdmin | ErrMediaNotFound | ErrNoEpoch
| ErrEpochMismatch | ErrPendingRotation | ErrMediaConfirmed | ErrMediaNotOwned
| ErrAccountDeleting | ErrDeletionPlanStale | ErrReceiptAbandoned | ErrAvatarNotFound
| ErrAvatarNotOwned | ErrAvatarConfirmed | ErrSessionNotFound

text \<open>The sentinels of the three packages under \<^verbatim>\<open>internal/e2ee\<close>.\<close>

datatype epoch_err =
  EpochErrAlbumNotFound | ErrEpochReplay | ErrMemberSetDrift | ErrWrapNotFound | ErrAdminNotFound
| EpochErrCallerRevoked | ErrCallerNotAdmin

datatype invite_err =
  ErrIKNotFound | ErrSenderRevoked | ErrSenderNotAdmin | ErrEpochMoved | InviteErrPendingRotation
| ErrTargetDeleting | ErrAlreadyMember | ErrAlbumFull

datatype prekey_err = ErrIdentityConflict | ErrTsNotMonotonic | ErrOPKIndexTaken

text \<open>The sentinels of \<^verbatim>\<open>internal/service\<close>.\<close>

datatype service_err =
  SvcErrUnauthorized | SvcErrLastAdmin | SvcErrMemberNotFound | SvcErrCallerRevoked
| SvcErrAccountDeleting | ErrInvalidOTP | ErrTooManyRequests | ErrSessionInvalid

datatype err =
  Api api_code string
| Repo repo_err | Epoch epoch_err | Invite invite_err | Prekey prekey_err | Service service_err
| ErrInvalidHandle | ErrInvalidSeal | ErrText string | ErrNoRows | DbError

text \<open>\<^verbatim>\<open>apierr.IsCode\<close>.\<close>

fun IsCode :: "err \<Rightarrow> string \<Rightarrow> bool" where
  "IsCode (Api c m) code = (code_string c = code)"
| "IsCode _ code = False"

text \<open>\<^verbatim>\<open>apierr.Write\<close>: an error that is no envelope is answered as an internal error.\<close>

fun error_envelope :: "err \<Rightarrow> api_code \<times> string" where
  "error_envelope (Api c m) = (c, m)"
| "error_envelope _ = (E_INTERNAL, ''internal error'')"

definition write_status :: "err \<Rightarrow> nat" where
  "write_status e = http_status (fst (error_envelope e))"

datatype log_level = LevelInfo | LevelWarn | LevelError

text \<open>The level \<^verbatim>\<open>logEnvelope\<close> logs an envelope at.\<close>

fun log_level_of :: "api_code \<Rightarrow> log_level" where
  "log_level_of E_INTERNAL = LevelError"
| "log_level_of E_VALIDATION = LevelInfo"
| "log_level_of E_AUTH = LevelInfo"
| "log_level_of _ = LevelWarn"

lemma http_status_range: "400 \<le> http_status c \<and> http_status c < 600"
  by (cases c) simp_all

lemma write_status_range: "400 \<le> write_status e" "write_status e < 600"
  using http_status_range by (simp_all add: write_status_def)

text \<open>A status of 500 or above is written only for an internal error or a route that is not
  wired: no refusal of a request is reported as a server failure.\<close>

lemma write_status_server_error:
  "500 \<le> write_status e \<longleftrightarrow> fst (error_envelope e) \<in> {E_INTERNAL, E_NOT_IMPLEMENTED}"
  by (cases "fst (error_envelope e)") (simp_all add: write_status_def)

end
