(* ===== verification/Wire.thy ===== *)
theory Wire
  imports Api_Errors
begin

text \<open>
  \<^verbatim>\<open>server/internal/crypto\<close> without the canonical JSON: the domain separation salts, the
  wire constants, the signature check, constant-time comparison and the safety number.
  The primitives themselves (SHA-256, HMAC, HKDF, AES-GCM, Ed25519 verification) are fields of the
  record \<open>crypto\<close>; a result that needs more of them than being functions says so in a
  hypothesis.
\<close>

record crypto =
  sha256 :: "bytes \<Rightarrow> bytes"
  hmac_sha256 :: "bytes \<Rightarrow> bytes \<Rightarrow> bytes"               \<comment> \<open>key, message\<close>
  hkdf_sha256 :: "bytes \<Rightarrow> bytes \<Rightarrow> bytes"               \<comment> \<open>master key, info: 32 bytes\<close>
  gcm_seal :: "bytes \<Rightarrow> bytes \<Rightarrow> bytes \<Rightarrow> bytes"         \<comment> \<open>key, nonce, plaintext\<close>
  gcm_open :: "bytes \<Rightarrow> bytes \<Rightarrow> bytes \<Rightarrow> bytes option"  \<comment> \<open>key, nonce, ciphertext\<close>
  ed25519_verify :: "bytes \<Rightarrow> bytes \<Rightarrow> bytes \<Rightarrow> bool"    \<comment> \<open>public key, message, signature\<close>

text \<open>Documented behaviour of the primitives: a digest is 32 bytes, and opening what was sealed
  under the same key and nonce gives the plaintext back.\<close>

definition sha256_len :: "crypto \<Rightarrow> bool" where
  "sha256_len C \<longleftrightarrow> (\<forall>m. length (sha256 C m) = 32)"

definition aead_correct :: "crypto \<Rightarrow> bool" where
  "aead_correct C \<longleftrightarrow> (\<forall>k n p. gcm_open C k n (gcm_seal C k n p) = Some p)"

section \<open>Salts and wire constants\<close>

definition SaltX3dh :: bytes where "SaltX3dh = ascii ''vault-x3dh-v1''"
definition SaltInvite :: bytes where "SaltInvite = ascii ''invite-v1''"
definition SaltSegNonce :: bytes where "SaltSegNonce = ascii ''seg-nonce-v1''"
definition SaltKeyConfirm :: bytes where "SaltKeyConfirm = ascii ''key-confirm-v1''"
definition SaltManifest :: bytes where "SaltManifest = ascii ''manifest-v1''"
definition SaltSpkRotate :: bytes where "SaltSpkRotate = ascii ''rotate-spk-v1''"
definition SaltEpochSet :: bytes where "SaltEpochSet = ascii ''epoch-set-v1''"
definition SaltPromote :: bytes where "SaltPromote = ascii ''promote-v1''"
definition SaltJoinComplete :: bytes where "SaltJoinComplete = ascii ''join-complete-v1''"
definition SaltAlbumNameHint :: bytes where "SaltAlbumNameHint = ascii ''album-name-v1''"

definition all_salts :: "bytes list" where
  "all_salts = [SaltX3dh, SaltInvite, SaltSegNonce, SaltKeyConfirm, SaltManifest, SaltSpkRotate,
     SaltEpochSet, SaltPromote, SaltJoinComplete, SaltAlbumNameHint]"

definition IkPubLen :: nat where "IkPubLen = 32"
definition LkPubLen :: nat where "LkPubLen = 32"
definition AlbumIDLen :: nat where "AlbumIDLen = 16"

definition VerAesGcm :: byte where "VerAesGcm = 1"
definition SegmentSize :: nat where "SegmentSize = 2 ^ 20"

definition ed25519_PublicKeySize :: nat where "ed25519_PublicKeySize = 32"
definition ed25519_SignatureSize :: nat where "ed25519_SignatureSize = 64"

lemmas wire_consts [simp] = IkPubLen_def LkPubLen_def AlbumIDLen_def
  ed25519_PublicKeySize_def ed25519_SignatureSize_def

definition X3dhInfo :: "bytes \<Rightarrow> bytes \<Rightarrow> bytes \<Rightarrow> err + bytes" where
  "X3dhInfo lkPubA lkPubB albumID =
     (if length lkPubA \<noteq> LkPubLen then Inl (ErrText ''crypto: lkPubA must be 32 bytes'')
      else if length lkPubB \<noteq> LkPubLen then Inl (ErrText ''crypto: lkPubB must be 32 bytes'')
      else if length albumID \<noteq> AlbumIDLen then Inl (ErrText ''crypto: albumID must be 16 bytes (raw UUID)'')
      else Inr (lkPubA @ lkPubB @ albumID))"

section \<open>Signature check and comparison\<close>

definition VerifyEd25519 :: "crypto \<Rightarrow> bytes \<Rightarrow> bytes \<Rightarrow> bytes \<Rightarrow> err + unit" where
  "VerifyEd25519 C pub msg sig =
     (if length pub \<noteq> ed25519_PublicKeySize
        then Inl (ErrText ''crypto: Ed25519 public key must be 32 bytes'')
      else if length sig \<noteq> ed25519_SignatureSize
        then Inl (ErrText ''crypto: Ed25519 signature must be 64 bytes'')
      else if \<not> ed25519_verify C pub msg sig
        then Inl (ErrText ''crypto: Ed25519 signature verification failed'')
      else Inr ())"

lemma VerifyEd25519_ok:
  "VerifyEd25519 C pub msg sig = Inr u \<longleftrightarrow>
     length pub = 32 \<and> length sig = 64 \<and> ed25519_verify C pub msg sig"
  by (simp add: VerifyEd25519_def)

text \<open>\<^verbatim>\<open>subtle.ConstantTimeCompare\<close> accumulates the bitwise differences of two slices
  of one length and reports whether none is set.\<close>

fun ct_diff :: "bytes \<Rightarrow> bytes \<Rightarrow> byte" where
  "ct_diff (a # as) (b # bs) = or (xor a b) (ct_diff as bs)"
| "ct_diff _ _ = 0"

definition ConstantTimeEq :: "bytes \<Rightarrow> bytes \<Rightarrow> bool" where
  "ConstantTimeEq a b = (if length a \<noteq> length b then False else ct_diff a b = 0)"

lemma byte_xor_zero: "xor a b = 0 \<longleftrightarrow> a = (b :: byte)"
  by (metis xor.assoc xor.left_neutral xor_self_eq)

lemma ct_diff_zero: "length a = length b \<Longrightarrow> ct_diff a b = 0 \<longleftrightarrow> a = b"
  by (induction a b rule: ct_diff.induct) (auto simp: or_eq_0_iff byte_xor_zero)

lemma ConstantTimeEq_iff: "ConstantTimeEq a b \<longleftrightarrow> a = b"
  by (auto simp: ConstantTimeEq_def ct_diff_zero)

section \<open>Decimal numerals\<close>

definition digit :: "nat \<Rightarrow> byte" where "digit d = word_of_nat (48 + d)"

text \<open>\<^verbatim>\<open>strconv.FormatUint(n, 10)\<close> and \<^verbatim>\<open>big.Int.String\<close> on a natural number.\<close>

fun decimal :: "nat \<Rightarrow> bytes" where
  "decimal n = (if n < 10 then [digit n] else decimal (n div 10) @ [digit (n mod 10)])"

declare decimal.simps [simp del]

lemma length_decimal: "0 < k \<Longrightarrow> n < 10 ^ k \<Longrightarrow> length (decimal n) \<le> k"
proof (induction n arbitrary: k rule: decimal.induct)
  case (1 n)
  show ?case
  proof (cases "n < 10")
    case True
    with "1.prems" show ?thesis by (simp add: decimal.simps [of n])
  next
    case False
    obtain j where j: "k = Suc j" using "1.prems" by (cases k) auto
    with False "1.prems" have "0 < j" by (cases j) auto
    moreover have "n div 10 < 10 ^ j" using "1.prems" j by (simp add: less_mult_imp_div_less)
    ultimately have "length (decimal (n div 10)) \<le> j" using "1.IH" False by blast
    with False j show ?thesis by (simp add: decimal.simps [of n])
  qed
qed

definition is_digit :: "byte \<Rightarrow> bool" where "is_digit b \<longleftrightarrow> 48 \<le> unat b \<and> unat b \<le> 57"

lemma is_digit_digit: "d < 10 \<Longrightarrow> is_digit (digit d)"
proof -
  assume "d < 10"
  then have "unat (digit d) = 48 + d"
    unfolding digit_def by (subst unat_of_nat) simp
  with \<open>d < 10\<close> show ?thesis by (simp add: is_digit_def)
qed

lemma decimal_digits: "\<forall>b\<in>set (decimal n). is_digit b"
proof (induction n rule: decimal.induct)
  case (1 n)
  then show ?case
    by (cases "n < 10") (auto simp: decimal.simps [of n] is_digit_digit)
qed

section \<open>Safety numbers\<close>

text \<open>\<^verbatim>\<open>new(big.Int).SetBytes(d)\<close>.\<close>

definition be_nat :: "bytes \<Rightarrow> nat" where
  "be_nat d = foldl (\<lambda>a b. a * 256 + unat b) 0 d"

lemma be_nat_bound: "foldl (\<lambda>a b. a * 256 + unat b) k (d :: bytes) < (k + 1) * 256 ^ length d"
proof (induction d arbitrary: k)
  case (Cons b d)
  have "unat b < 256" using unsigned_less [of b, where ?'a = nat] by simp
  then have "(k * 256 + unat b + 1) * 256 ^ length d \<le> ((k + 1) * 256) * 256 ^ length d"
    by (intro mult_right_mono) auto
  also have "\<dots> = (k + 1) * 256 ^ length (b # d)" by (simp add: algebra_simps)
  finally show ?case using less_le_trans [OF Cons.IH [of "k * 256 + unat b"]] by simp
qed simp

text \<open>\<^verbatim>\<open>compareBytes\<close>: the difference at the first position where the slices differ, else
  the difference of the lengths.\<close>

fun compareBytes :: "bytes \<Rightarrow> bytes \<Rightarrow> int" where
  "compareBytes (a # as) (b # bs) =
     (if a \<noteq> b then int (unat a) - int (unat b) else compareBytes as bs)"
| "compareBytes as bs = int (length as) - int (length bs)"

lemma compareBytes_antisym: "compareBytes a b = - compareBytes b a"
  by (induction a b rule: compareBytes.induct) auto

lemma compareBytes_zero: "compareBytes a b = 0 \<longleftrightarrow> a = b"
  by (induction a b rule: compareBytes.induct) (auto simp: word_uint_eq_iff)

definition safetyNumberDigits :: nat where "safetyNumberDigits = 30"
definition safetyNumberPad :: nat where "safetyNumberPad = 78"

text \<open>The digits of a digest: its number in decimal, zero-padded to 78, the leading 30.\<close>

definition leading_digits :: "bytes \<Rightarrow> bytes" where
  "leading_digits d =
     (let n = decimal (be_nat d);
          n' = (if length n < safetyNumberPad
                then replicate (safetyNumberPad - length n) (digit 0) @ n else n)
      in take safetyNumberDigits n')"

definition SafetyNumber :: "crypto \<Rightarrow> bytes \<Rightarrow> bytes \<Rightarrow> bytes \<Rightarrow> err + bytes" where
  "SafetyNumber C ikPubA ikPubB albumID =
     (if length ikPubA \<noteq> IkPubLen then Inl (ErrText ''crypto: ikPubA must be 32 bytes'')
      else if length ikPubB \<noteq> IkPubLen then Inl (ErrText ''crypto: ikPubB must be 32 bytes'')
      else if length albumID \<noteq> AlbumIDLen then Inl (ErrText ''crypto: albumID must be 16 bytes'')
      else
        let (lo, hi) = (if compareBytes ikPubA ikPubB > 0 then (ikPubB, ikPubA) else (ikPubA, ikPubB));
            d = sha256 C (lo @ hi @ albumID)
        in Inr (leading_digits d))"

text \<open>The loop of \<^verbatim>\<open>SafetyNumberFormatted\<close>: groups of five, a space before every group but
  the first.\<close>

fun group5 :: "nat \<Rightarrow> bytes \<Rightarrow> bytes" where
  "group5 0 d = []"
| "group5 (Suc k) d = take 5 d @ (if k = 0 then [] else 32 # group5 k (drop 5 d))"

definition SafetyNumberFormatted :: "crypto \<Rightarrow> bytes \<Rightarrow> bytes \<Rightarrow> bytes \<Rightarrow> err + bytes" where
  "SafetyNumberFormatted C ikPubA ikPubB albumID =
     (case SafetyNumber C ikPubA ikPubB albumID of
        Inl e \<Rightarrow> Inl e
      | Inr d \<Rightarrow> Inr (group5 ((length d + 4) div 5) d))"

lemma SafetyNumber_order:
  assumes "length a = 32" "length b = 32" "length alb = 16"
  shows "SafetyNumber C a b alb = SafetyNumber C b a alb"
proof -
  have "(if compareBytes a b > 0 then (b, a) else (a, b)) =
        (if compareBytes b a > 0 then (a, b) else (b, a))"
    using compareBytes_antisym [of a b] compareBytes_zero [of a b] by auto
  then show ?thesis using assms unfolding SafetyNumber_def by simp
qed

lemma length_leading_digits: "length (leading_digits d) = 30"
  by (simp add: leading_digits_def safetyNumberDigits_def safetyNumberPad_def Let_def)

lemma leading_digits_digits: "x \<in> set (leading_digits d) \<Longrightarrow> is_digit x"
  using decimal_digits [of "be_nat d"] is_digit_digit [of 0]
  by (auto simp: leading_digits_def Let_def dest!: in_set_takeD split: if_splits)

lemma SafetyNumber_digits:
  assumes "SafetyNumber C a b alb = Inr s"
  shows "length s = 30 \<and> (\<forall>x\<in>set s. is_digit x)"
  using assms length_leading_digits leading_digits_digits
  by (auto simp: SafetyNumber_def Let_def split: if_splits)

text \<open>A digest of 32 bytes has at most 78 digits, so the number is padded, never cut on the
  right: it is the leading 30 of exactly 78 positions.\<close>

lemma digest_digits: "length d = 32 \<Longrightarrow> length (decimal (be_nat d)) \<le> 78"
proof (rule length_decimal)
  assume "length d = 32"
  then have "be_nat d < 256 ^ 32" using be_nat_bound [of 0 d] by (simp add: be_nat_def)
  also have "(256::nat) ^ 32 < 10 ^ 78" by simp
  finally show "be_nat d < 10 ^ 78" .
qed simp

lemma length_group5: "0 < k \<Longrightarrow> length d = 5 * k \<Longrightarrow> length (group5 k d) = 6 * k - 1"
proof (induction k arbitrary: d)
  case (Suc k)
  then show ?case by (cases "k = 0") (auto simp: min_def)
qed simp

end
