(* ===== verification/Userlink.thy ===== *)
theory Userlink
  imports Wire
begin

text \<open>
  \<^verbatim>\<open>server/internal/userlink\<close>: the keyed link between an account and its member
  tokens. \<open>linker_Hash\<close> is the one-way handle forward queries use, \<open>linker_Seal\<close> and
  \<open>linker_Open\<close> the reversible blob reverse queries use. HMAC, HKDF and AES-GCM are the
  fields of \<open>crypto\<close>; the \<open>hasher\<close> holds the two derived keys. \<open>env\<close> bundles what the
  repositories are constructed with.
\<close>

definition HandleLen :: nat where "HandleLen = 32"
definition SealedLen :: nat where "SealedLen = 32"

definition infoHandle :: bytes where "infoHandle = ascii ''user-handle-v1''"
definition infoEnc :: bytes where "infoEnc = ascii ''user-id-enc-v1''"
definition nonceInfo :: bytes where "nonceInfo = ascii ''user-id-enc-nonce-v1''"

record hasher =
  handleKey :: bytes
  encKey :: bytes

definition linker_New :: "crypto \<Rightarrow> bytes \<Rightarrow> err + hasher" where
  "linker_New C masterKey =
     (if length masterKey < 32 then Inl (ErrText ''userlink: master key must be >= 32 bytes'')
      else Inr \<lparr>handleKey = hkdf_sha256 C masterKey infoHandle,
                encKey = hkdf_sha256 C masterKey infoEnc\<rparr>)"

definition linker_Hash :: "crypto \<Rightarrow> hasher \<Rightarrow> uuid \<Rightarrow> bytes" where
  "linker_Hash C h userID = hmac_sha256 C (handleKey h) (uuid_bytes userID)"

definition deriveNonce :: "crypto \<Rightarrow> bytes \<Rightarrow> bytes" where
  "deriveNonce C memberToken = take 12 (sha256 C (nonceInfo @ memberToken))"

definition linker_Seal :: "crypto \<Rightarrow> hasher \<Rightarrow> uuid \<Rightarrow> bytes \<Rightarrow> err + bytes" where
  "linker_Seal C h userID memberToken =
     (if length memberToken < 12 then Inl (ErrText ''userlink: memberToken must be >= 12 bytes'')
      else Inr (gcm_seal C (encKey h) (deriveNonce C memberToken) (uuid_bytes userID)))"

text \<open>\<^verbatim>\<open>copy(u[:], pt)\<close>: sixteen bytes read as a UUID.\<close>

definition uuid_of_bytes :: "bytes \<Rightarrow> uuid" where
  "uuid_of_bytes b = word_of_nat (be_nat b)"

definition linker_Open :: "crypto \<Rightarrow> hasher \<Rightarrow> bytes \<Rightarrow> bytes \<Rightarrow> err + uuid" where
  "linker_Open C h sealed memberToken =
     (if length memberToken < 12 then Inl (ErrText ''userlink: memberToken must be >= 12 bytes'')
      else case gcm_open C (encKey h) (deriveNonce C memberToken) sealed of
             None \<Rightarrow> Inl ErrInvalidSeal
           | Some pt \<Rightarrow> if length pt \<noteq> 16 then Inl ErrInvalidSeal else Inr (uuid_of_bytes pt))"

lemma be_nat_snoc: "be_nat (d @ [b]) = be_nat d * 256 + unat b"
  by (simp add: be_nat_def)

lemma be_nat_be_bytes:
  fixes w :: "'a::len word"
  shows "be_nat (be_bytes n w) = unat w mod 256 ^ n"
proof (induction n arbitrary: w)
  case 0
  show ?case by (simp add: be_nat_def be_bytes_def)
next
  case (Suc n)
  have split: "be_bytes (Suc n) w = be_bytes n (drop_bit 8 w) @ [ucast w]"
    by (simp add: be_bytes_def upt_conv_Cons map_Suc_upt [symmetric] comp_def add.commute
        del: upt_Suc map_Suc_upt)
  have high: "unat (drop_bit 8 w) = unat w div 256"
    by (simp only: unsigned_drop_bit_eq unsigned_take_bit_eq [symmetric] take_bit_word_eq_self le_refl)
      (simp add: drop_bit_eq_div)
  have low: "unat (ucast w :: byte) = unat w mod 256"
    by (simp add: unsigned_ucast_eq take_bit_eq_mod)
  have "be_nat (be_bytes (Suc n) w) =
        (unat w div 256) mod 256 ^ n * 256 + unat w mod 256"
    unfolding split be_nat_snoc Suc.IH high low ..
  also have "\<dots> = unat w mod 256 ^ Suc n"
    by (simp add: mod_mult2_eq mult.commute)
  finally show ?case .
qed

lemma uuid_of_bytes_inverse [simp]: "uuid_of_bytes (uuid_bytes u) = u"
proof -
  have "unat u < 256 ^ 16" using unsigned_less [of u, where ?'a = nat] by simp
  then show ?thesis
    by (simp add: uuid_of_bytes_def uuid_bytes_def be_nat_be_bytes)
qed

lemma linker_Open_Seal:
  assumes "aead_correct C" "linker_Seal C h u t = Inr sealed"
  shows "linker_Open C h sealed t = Inr u"
  using assms by (auto simp: linker_Seal_def linker_Open_def aead_correct_def split: if_splits)

text \<open>What the program is built with: the primitives, the link keys, and the text form of an
  identifier (\<^verbatim>\<open>String\<close> and \<^verbatim>\<open>Parse\<close> of the UUID
  package).\<close>

record env =
  cryp :: crypto
  linker :: hasher
  uuid_String :: "uuid \<Rightarrow> bytes"
  uuid_Parse :: "bytes \<Rightarrow> uuid option"

text \<open>Documented behaviour of the package: parsing reads back what it printed.\<close>

definition uuid_text :: "env \<Rightarrow> bool" where
  "uuid_text E \<longleftrightarrow> (\<forall>u. uuid_Parse E (uuid_String E u) = Some u)"

lemma uuid_text_inject: "uuid_text E \<Longrightarrow> uuid_String E u = uuid_String E v \<longleftrightarrow> u = v"
  unfolding uuid_text_def by (metis option.inject)

definition lhash :: "env \<Rightarrow> uuid \<Rightarrow> bytes" where
  "lhash E u = linker_Hash (cryp E) (linker E) u"

definition lseal :: "env \<Rightarrow> uuid \<Rightarrow> bytes \<Rightarrow> err + bytes" where
  "lseal E u t = linker_Seal (cryp E) (linker E) u t"

definition lopen :: "env \<Rightarrow> bytes \<Rightarrow> bytes \<Rightarrow> err + uuid" where
  "lopen E s t = linker_Open (cryp E) (linker E) s t"

end
