(* ===== verification/Database.thy ===== *)
theory Database
  imports Userlink
begin

text \<open>
  The database every repository works on: one record per table row with the columns of
  \<^verbatim>\<open>server/migrations\<close> (the structs of \<^verbatim>\<open>internal/model\<close> are the
  same rows), the queries several repositories share, and the helpers of
  \<^verbatim>\<open>repository/rotation.go\<close>, \<^verbatim>\<open>repository/removal_repo.go\<close>, the object
  cleanup queue of \<^verbatim>\<open>repository/media_repo.go\<close> and the delete helpers of
  \<^verbatim>\<open>repository/avatar_repo.go\<close>.

  A repository method is a transaction \<open>db \<Rightarrow> err + 'r \<times> db\<close>. The code serializes
  everything that touches an album on \<^verbatim>\<open>SELECT id FROM albums ... FOR UPDATE\<close> and
  everything that touches an account's life on its \<^verbatim>\<open>users\<close> row, and the other
  statements are single ones, so a transaction is one atomic step here. Random values
  (\<^verbatim>\<open>uuid.New\<close>, \<^verbatim>\<open>rand.Read\<close>) and the clock are arguments. A violated
  key or reference constraint is \<open>Inl DbError\<close>; loss of the database connection is not
  modelled. Nullable columns are options. Tables no Go code reads (\<^verbatim>\<open>manifests\<close>,
  \<^verbatim>\<open>invite_blobs\<close>, \<^verbatim>\<open>invite_links\<close>) are left out.
\<close>

section \<open>Rows\<close>

datatype role = Admin | CoAdmin | Member

record user =
  u_id :: uuid
  email_hmac :: bytes
  u_miuchio_id :: bytes
  ik_pub :: "bytes option"
  lk_pub :: "bytes option"
  spk_pub :: "bytes option"
  spk_sig :: "bytes option"
  spk_ts :: "int64 option"
  u_created_at :: time
  u_updated_at :: time
  deleting_at :: "time option"

record session =
  s_id :: uuid
  s_user :: uuid
  token_hash :: bytes
  expires_at :: time
  s_created_at :: time

record opk =
  o_id :: uuid
  o_user :: uuid
  opk_idx :: int
  key_pub :: bytes
  consumed :: bool
  o_created_at :: time

record spk_rotation =
  r_user :: uuid
  old_spk_ts :: "int64 option"
  new_spk_ts :: int64

record album =
  a_id :: uuid
  name_ct :: bytes
  a_created_at :: time
  a_updated_at :: time
  media_generation :: int
  last_activity_seq :: int
  rotation_required :: bool

record amid =
  i_token :: bytes
  user_handle :: bytes
  user_id_enc :: bytes
  i_album :: uuid
  joined_at :: time
  last_received_epoch :: "int option"
  last_received_at :: "time option"

record member =
  m_album :: uuid
  m_token :: bytes
  role :: role
  revoked_at :: "time option"
  m_name_ct :: "bytes option"

record epoch_row =
  e_album :: uuid
  epoch :: int
  started_at :: time
  epoch_sig :: bytes

record wrap =
  w_album :: uuid
  w_epoch :: int
  recipient_token :: bytes
  ek_pub :: bytes
  opk_idx_used :: "int option"
  wrap_nonce :: bytes
  wrap_tag_ct :: bytes
  sender_token :: bytes
  sender_sig :: bytes
  delivered_at :: time

record media =
  md_id :: uuid
  md_album :: uuid
  uploader_token :: bytes
  storage_key :: bytes
  thumb_key :: "bytes option"
  md_wrap_nonce :: bytes
  md_wrap_tag_ct :: bytes
  epoch_tag :: int
  blob_size :: int
  blob_sha256 :: bytes
  media_type :: bytes
  mime_type :: "bytes option"
  confirmed :: bool
  md_created_at :: time
  reservation_id :: uuid
  album_seq :: "int option"
  thumb_wrap_nonce :: "bytes option"
  thumb_wrap_tag_ct :: "bytes option"
  thumb_size :: "int option"
  thumb_sha256 :: "bytes option"

record cleanup_row =
  c_key :: bytes
  attempts :: nat
  next_attempt_at :: time

record avatar =
  avatar_id :: uuid
  av_album :: uuid
  av_token :: bytes
  av_key :: bytes
  av_size :: int
  av_sha256 :: bytes
  key_ct :: bytes
  av_confirmed :: bool
  av_created_at :: time

record deletion =
  d_user :: uuid
  d_attempts :: nat
  d_next_attempt_at :: time

record receipt =
  receipt_hash :: bytes
  abandoned :: bool
  accepted_at :: time

record db =
  users :: "user list"
  sessions :: "session list"
  opks :: "opk list"
  spk_rotations :: "spk_rotation list"
  albums :: "album list"
  amids :: "amid list"
  members :: "member list"
  epochs :: "epoch_row list"
  wraps :: "wrap list"
  medias :: "media list"
  cleanup :: "cleanup_row list"
  avatars :: "avatar list"
  deletions :: "deletion list"
  receipts :: "receipt list"
  activity_seq :: int

definition empty_db :: db where
  "empty_db = \<lparr>users = [], sessions = [], opks = [], spk_rotations = [], albums = [], amids = [],
     members = [], epochs = [], wraps = [], medias = [], cleanup = [], avatars = [],
     deletions = [], receipts = [], activity_seq = 0\<rparr>"

text \<open>An \<^verbatim>\<open>INT\<close> column holds 32-bit values; the driver refuses others.\<close>

definition int4 :: "int \<Rightarrow> bool" where
  "int4 x \<longleftrightarrow> - 2147483648 \<le> x \<and> x \<le> 2147483647"

text \<open>A nullable column scanned into a slice.\<close>

definition opt_bytes :: "bytes option \<Rightarrow> bytes" where
  "opt_bytes x = (case x of None \<Rightarrow> [] | Some b \<Rightarrow> b)"

section \<open>Shared queries\<close>

definition find_user :: "db \<Rightarrow> uuid \<Rightarrow> user option" where
  "find_user d u = find (\<lambda>r. u_id r = u) (users d)"

definition find_album :: "db \<Rightarrow> uuid \<Rightarrow> album option" where
  "find_album d a = find (\<lambda>r. a_id r = a) (albums d)"

definition find_amid :: "db \<Rightarrow> bytes \<Rightarrow> amid option" where
  "find_amid d t = find (\<lambda>r. i_token r = t) (amids d)"

definition find_member :: "db \<Rightarrow> uuid \<Rightarrow> bytes \<Rightarrow> member option" where
  "find_member d a t = find (\<lambda>m. m_album m = a \<and> m_token m = t) (members d)"

definition is_active :: "uuid \<Rightarrow> member \<Rightarrow> bool" where
  "is_active a m \<longleftrightarrow> m_album m = a \<and> revoked_at m = None"

definition active_tokens :: "db \<Rightarrow> uuid \<Rightarrow> bytes list" where
  "active_tokens d a = map m_token (filter (is_active a) (members d))"

definition active_count :: "db \<Rightarrow> uuid \<Rightarrow> nat" where
  "active_count d a = sql_count (is_active a) (members d)"

definition active_admins :: "db \<Rightarrow> uuid \<Rightarrow> nat" where
  "active_admins d a = sql_count (\<lambda>m. m_album m = a \<and> role m = Admin \<and> revoked_at m = None) (members d)"

definition album_epochs :: "db \<Rightarrow> uuid \<Rightarrow> int list" where
  "album_epochs d a = map epoch (filter (\<lambda>e. e_album e = a) (epochs d))"

text \<open>\<^verbatim>\<open>SELECT MAX(epoch)\<close> is \<^verbatim>\<open>NULL\<close> on no rows.\<close>

fun sql_max :: "int list \<Rightarrow> int option" where
  "sql_max [] = None"
| "sql_max (x # xs) = (case sql_max xs of None \<Rightarrow> Some x | Some y \<Rightarrow> Some (max x y))"

definition cur_epoch :: "db \<Rightarrow> uuid \<Rightarrow> int option" where
  "cur_epoch d a = sql_max (album_epochs d a)"

text \<open>\<^verbatim>\<open>SELECT COALESCE(MAX(epoch), -1)\<close>.\<close>

definition max_epoch :: "db \<Rightarrow> uuid \<Rightarrow> int" where
  "max_epoch d a = (case cur_epoch d a of None \<Rightarrow> -1 | Some e \<Rightarrow> e)"

definition has_wrap :: "db \<Rightarrow> uuid \<Rightarrow> int \<Rightarrow> bytes \<Rightarrow> bool" where
  "has_wrap d a e t = sql_exists (\<lambda>w. w_album w = a \<and> w_epoch w = e \<and> recipient_token w = t) (wraps d)"

section \<open>Rotation debt: \<^verbatim>\<open>repository/rotation.go\<close>\<close>

text \<open>The inferred half: the wraps of the current epoch do not cover exactly the active
  members.\<close>

definition wrap_drift :: "db \<Rightarrow> uuid \<Rightarrow> bool" where
  "wrap_drift d a = (case cur_epoch d a of None \<Rightarrow> False | Some c \<Rightarrow>
     sql_exists (\<lambda>m. is_active a m \<and> \<not> has_wrap d a c (m_token m)) (members d) \<or>
     sql_exists (\<lambda>w. w_album w = a \<and> w_epoch w = c \<and>
        \<not> sql_exists (\<lambda>m. is_active a m \<and> m_token m = recipient_token w) (members d)) (wraps d))"

text \<open>The whole expression. On an album that is gone the durable half is \<^verbatim>\<open>NULL\<close>, and
  \<^verbatim>\<open>NULL OR FALSE\<close> is \<^verbatim>\<open>NULL\<close>, which cannot be scanned into a bool
  (\<open>None\<close>).\<close>

definition RotationRequiredExpr :: "db \<Rightarrow> uuid \<Rightarrow> bool option" where
  "RotationRequiredExpr d a =
     (case find_album d a of
        Some al \<Rightarrow> Some (rotation_required al \<or> wrap_drift d a)
      | None \<Rightarrow> if wrap_drift d a then Some True else None)"

section \<open>Object cleanup queue: \<^verbatim>\<open>repository/media_repo.go\<close>\<close>

text \<open>\<^verbatim>\<open>INSERT ... ON CONFLICT (storage_key) DO NOTHING\<close>, once per key.\<close>

definition enqueue_key :: "time \<Rightarrow> bytes \<Rightarrow> cleanup_row list \<Rightarrow> cleanup_row list" where
  "enqueue_key now k q =
     (if sql_exists (\<lambda>r. c_key r = k) q then q
      else sql_insert \<lparr>c_key = k, attempts = 0, next_attempt_at = now\<rparr> q)"

definition enqueueObjectCleanup :: "time \<Rightarrow> bytes list \<Rightarrow> db \<Rightarrow> db" where
  "enqueueObjectCleanup now keys d = d\<lparr>cleanup := fold (enqueue_key now) keys (cleanup d)\<rparr>"

definition cleanupKeys :: "bytes \<Rightarrow> bytes option \<Rightarrow> bytes list" where
  "cleanupKeys sk tk =
     (if sk \<noteq> [] then [sk] else []) @
     (case tk of Some t \<Rightarrow> if t \<noteq> [] then [t] else [] | None \<Rightarrow> [])"

definition media_keys :: "media \<Rightarrow> bytes list" where
  "media_keys r = cleanupKeys (storage_key r) (thumb_key r)"

section \<open>Deletes that queue their objects: \<^verbatim>\<open>removal_repo.go\<close>, \<^verbatim>\<open>avatar_repo.go\<close>\<close>

record media_removal =
  MediaIDs :: "uuid list"
  Keys :: "bytes list"

text \<open>\<^verbatim>\<open>removeMedia\<close>: the statement deletes the rows of \<open>p\<close> and returns their ids and
  keys, which are queued before the caller commits.\<close>

definition removeMedia :: "time \<Rightarrow> (media \<Rightarrow> bool) \<Rightarrow> db \<Rightarrow> media_removal \<times> db" where
  "removeMedia now p d =
     (let rows = filter p (medias d);
          out = \<lparr>MediaIDs = map md_id rows, Keys = concat (map media_keys rows)\<rparr>
      in (out, enqueueObjectCleanup now (Keys out) (d\<lparr>medias := sql_delete p (medias d)\<rparr>)))"

definition removeAvatars :: "time \<Rightarrow> (avatar \<Rightarrow> bool) \<Rightarrow> db \<Rightarrow> bytes list \<times> db" where
  "removeAvatars now p d =
     (let keys = map av_key (filter p (avatars d))
      in (keys, enqueueObjectCleanup now keys (d\<lparr>avatars := sql_delete p (avatars d)\<rparr>)))"

text \<open>\<^verbatim>\<open>activeUserIDs\<close>: the join of the active members with their identity rows, the
  sealed links opened, a link that does not open skipped.\<close>

definition open_all :: "env \<Rightarrow> amid list \<Rightarrow> uuid list" where
  "open_all E rows = concat (map (\<lambda>i. case lopen E (user_id_enc i) (i_token i) of
     Inl _ \<Rightarrow> [] | Inr u \<Rightarrow> [u]) rows)"

definition active_identities :: "db \<Rightarrow> uuid \<Rightarrow> amid list" where
  "active_identities d a = concat (map (\<lambda>m. filter (\<lambda>i. i_token i = m_token m) (amids d))
     (filter (is_active a) (members d)))"

definition activeUserIDs :: "env \<Rightarrow> uuid \<Rightarrow> bytes \<Rightarrow> db \<Rightarrow> uuid list" where
  "activeUserIDs E a exceptToken d =
     open_all E (filter (\<lambda>i. i_token i \<noteq> exceptToken) (active_identities d a))"

text \<open>\<^verbatim>\<open>DELETE FROM albums WHERE id = $1\<close> with the cascades of the schema. The one
  reference that does not cascade is \<^verbatim>\<open>media.uploader_token\<close>: a medium of another album
  naming a token that goes would make the statement fail.\<close>

definition delete_album :: "uuid \<Rightarrow> db \<Rightarrow> err + db" where
  "delete_album a d =
     (let gone = map i_token (filter (\<lambda>i. i_album i = a) (amids d));
          md = sql_delete (\<lambda>r. md_album r = a) (medias d)
      in if sql_exists (\<lambda>r. uploader_token r \<in> set gone) md then Inl DbError
         else Inr (d\<lparr>albums := sql_delete (\<lambda>r. a_id r = a) (albums d),
                   amids := sql_delete (\<lambda>i. i_album i = a) (amids d),
                   members := sql_delete (\<lambda>m. m_album m = a \<or> m_token m \<in> set gone) (members d),
                   epochs := sql_delete (\<lambda>e. e_album e = a) (epochs d),
                   wraps := sql_delete (\<lambda>w. w_album w = a \<or> recipient_token w \<in> set gone) (wraps d),
                   medias := md,
                   avatars := sql_delete (\<lambda>v. av_album v = a \<or> av_token v \<in> set gone) (avatars d)\<rparr>))"

text \<open>\<^verbatim>\<open>DELETE FROM album_member_identities WHERE member_token = $1\<close>.\<close>

definition delete_amid :: "bytes \<Rightarrow> db \<Rightarrow> err + db" where
  "delete_amid t d =
     (if sql_exists (\<lambda>i. i_token i = t) (amids d) \<and> sql_exists (\<lambda>r. uploader_token r = t) (medias d)
        then Inl DbError
      else if \<not> sql_exists (\<lambda>i. i_token i = t) (amids d) then Inr d
      else Inr (d\<lparr>amids := sql_delete (\<lambda>i. i_token i = t) (amids d),
                members := sql_delete (\<lambda>m. m_token m = t) (members d),
                wraps := sql_delete (\<lambda>w. recipient_token w = t) (wraps d),
                avatars := sql_delete (\<lambda>v. av_token v = t) (avatars d)\<rparr>))"

text \<open>\<^verbatim>\<open>DELETE FROM users WHERE id = $1\<close>.\<close>

definition delete_user :: "uuid \<Rightarrow> db \<Rightarrow> db" where
  "delete_user u d = d\<lparr>users := sql_delete (\<lambda>r. u_id r = u) (users d),
     sessions := sql_delete (\<lambda>r. s_user r = u) (sessions d),
     opks := sql_delete (\<lambda>r. o_user r = u) (opks d),
     spk_rotations := sql_delete (\<lambda>r. r_user r = u) (spk_rotations d),
     deletions := sql_delete (\<lambda>r. d_user r = u) (deletions d)\<rparr>"

record album_removal =
  MemberUserIDs :: "uuid list"
  RemovedKeys :: "bytes list"

definition removeAlbum :: "env \<Rightarrow> time \<Rightarrow> uuid \<Rightarrow> bytes \<Rightarrow> (err, album_removal, db) tx" where
  "removeAlbum E now a exceptToken d =
     (let us = activeUserIDs E a exceptToken d;
          (md, d1) = removeMedia now (\<lambda>r. md_album r = a) d;
          (av, d2) = removeAvatars now (\<lambda>v. av_album v = a) d1
      in case delete_album a d2 of Inl e \<Rightarrow> Inl e
         | Inr d3 \<Rightarrow> Inr (\<lparr>MemberUserIDs = us, RemovedKeys = Keys md @ av\<rparr>, d3))"

definition lockAlbum :: "uuid \<Rightarrow> db \<Rightarrow> err + album" where
  "lockAlbum a d = (case find_album d a of None \<Rightarrow> Inl (Repo ErrAlbumNotFound) | Some al \<Rightarrow> Inr al)"

definition lockActiveMember :: "uuid \<Rightarrow> bytes \<Rightarrow> db \<Rightarrow> err + unit" where
  "lockActiveMember a t d =
     (case lockAlbum a d of Inl e \<Rightarrow> Inl e
      | Inr _ \<Rightarrow> (case find_member d a t of
          None \<Rightarrow> Inl (Repo ErrCallerRevoked)
        | Some m \<Rightarrow> if revoked_at m \<noteq> None then Inl (Repo ErrCallerRevoked) else Inr ()))"

section \<open>Memberships\<close>

text \<open>The identity of a user in an album: the row with the user's handle, joined with its
  membership.\<close>

definition membership_of :: "db \<Rightarrow> bytes \<Rightarrow> uuid \<Rightarrow> (amid \<times> member) option" where
  "membership_of d h a =
     (case find (\<lambda>i. user_handle i = h \<and> i_album i = a \<and> find_member d a (i_token i) \<noteq> None) (amids d) of
        None \<Rightarrow> None
      | Some i \<Rightarrow> map_option (\<lambda>m. (i, m)) (find_member d a (i_token i)))"

text \<open>\<^verbatim>\<open>INSERT INTO album_member_identities\<close>: a second row for the token or for the
  handle in the album is a unique violation (\<open>None\<close>).\<close>

definition insert_amid :: "amid \<Rightarrow> db \<Rightarrow> db option" where
  "insert_amid i d =
     (if sql_exists (\<lambda>x. i_token x = i_token i \<or>
            (user_handle x = user_handle i \<and> i_album x = i_album i)) (amids d)
      then None else Some (d\<lparr>amids := sql_insert i (amids d)\<rparr>))"

definition insert_member :: "member \<Rightarrow> db \<Rightarrow> err + db" where
  "insert_member m d =
     (if find_member d (m_album m) (m_token m) \<noteq> None
        \<or> find_amid d (m_token m) = None \<or> find_album d (m_album m) = None
      then Inl DbError else Inr (d\<lparr>members := sql_insert m (members d)\<rparr>))"

end
