(* ===== verification/Epochs.thy ===== *)
theory Epochs
  imports Database
begin

text \<open>
  \<^verbatim>\<open>server/internal/e2ee/epoch\<close>: the epoch repository and service. An epoch is one
  album key; \<open>SetEpoch\<close> validates an admin's rotation request and \<open>InsertEpoch\<close> stores the
  epoch with one wrapped key per recipient, rechecking signer, sequence and recipient set under
  the album lock.
\<close>

section \<open>Repository\<close>

record wrap_insert =
  wi_recipient :: bytes
  wi_ek_pub :: bytes
  wi_opk :: "int option"
  wi_nonce :: bytes
  wi_tag_ct :: bytes
  wi_sig :: bytes

record insert_epoch_input =
  ie_album :: uuid
  ie_epoch :: int
  ie_sig :: bytes
  ie_sender :: bytes
  ie_wraps :: "wrap_insert list"
  ie_expected_hash :: bytes

text \<open>\<^verbatim>\<open>CurrentEpoch\<close>: \<^verbatim>\<open>(epoch, exists, started_at)\<close> of the latest row;
  \<open>None\<close> is \<^verbatim>\<open>exists = false\<close>.\<close>

definition CurrentEpoch :: "uuid \<Rightarrow> db \<Rightarrow> (int \<times> time) option" where
  "CurrentEpoch a d = (case cur_epoch d a of None \<Rightarrow> None
     | Some c \<Rightarrow> map_option (\<lambda>e. (epoch e, started_at e))
                  (find (\<lambda>e. e_album e = a \<and> epoch e = c) (epochs d)))"

text \<open>The identity key behind a member token: the identity row, its sealed link, the user.\<close>

definition ik_of_token :: "env \<Rightarrow> bytes \<Rightarrow> db \<Rightarrow> bytes option" where
  "ik_of_token E t d =
     (case find_amid d t of None \<Rightarrow> None
      | Some i \<Rightarrow> (case lopen E (user_id_enc i) t of Inl _ \<Rightarrow> None
         | Inr u \<Rightarrow> (case find_user d u of None \<Rightarrow> None
            | Some usr \<Rightarrow> (case ik_pub usr of None \<Rightarrow> None
               | Some ik \<Rightarrow> if length ik = 0 then None else Some ik))))"

definition AdminIKByMemberToken :: "env \<Rightarrow> bytes \<Rightarrow> db \<Rightarrow> err + bytes" where
  "AdminIKByMemberToken E t d =
     (case ik_of_token E t d of None \<Rightarrow> Inl (Epoch ErrAdminNotFound) | Some ik \<Rightarrow> Inr ik)"

definition member_set_preimage :: "bytes list \<Rightarrow> bytes" where
  "member_set_preimage tokens = be32 (uint32 (int (length tokens))) @ concat (sort tokens)"

definition MemberSetHash :: "crypto \<Rightarrow> bytes list \<Rightarrow> bytes" where
  "MemberSetHash C tokens = sha256 C (member_set_preimage tokens)"

text \<open>One \<^verbatim>\<open>INSERT INTO album_epoch_wraps\<close>: the row must be new under its key and name
  a known recipient and album.\<close>

definition insert_wrap :: "wrap \<Rightarrow> db \<Rightarrow> err + db" where
  "insert_wrap w d =
     (if has_wrap d (w_album w) (w_epoch w) (recipient_token w)
        \<or> \<not> sql_exists (\<lambda>i. i_token i = recipient_token w) (amids d)
        \<or> \<not> sql_exists (\<lambda>al. a_id al = w_album w) (albums d)
      then Inl DbError else Inr (d\<lparr>wraps := sql_insert w (wraps d)\<rparr>))"

fun insert_wraps :: "wrap list \<Rightarrow> db \<Rightarrow> err + db" where
  "insert_wraps [] d = Inr d"
| "insert_wraps (w # ws) d = (case insert_wrap w d of Inl e \<Rightarrow> Inl e | Inr d' \<Rightarrow> insert_wraps ws d')"

definition wrap_row :: "time \<Rightarrow> insert_epoch_input \<Rightarrow> wrap_insert \<Rightarrow> wrap" where
  "wrap_row now inp w =
     \<lparr>w_album = ie_album inp, w_epoch = ie_epoch inp, recipient_token = wi_recipient w,
      ek_pub = wi_ek_pub w, opk_idx_used = wi_opk w, wrap_nonce = wi_nonce w,
      wrap_tag_ct = wi_tag_ct w, sender_token = ie_sender inp, sender_sig = wi_sig w,
      delivered_at = trunc_hour now\<rparr>"

definition InsertEpoch :: "env \<Rightarrow> time \<Rightarrow> insert_epoch_input \<Rightarrow> (err, unit, db) tx" where
  "InsertEpoch E now inp d =
     (case find_album d (ie_album inp) of None \<Rightarrow> Inl (Epoch EpochErrAlbumNotFound)
      | Some _ \<Rightarrow>
        (case find_member d (ie_album inp) (ie_sender inp) of
           None \<Rightarrow> Inl (Epoch EpochErrCallerRevoked)
         | Some m \<Rightarrow>
           if revoked_at m \<noteq> None then Inl (Epoch EpochErrCallerRevoked)
           else if role m \<noteq> Admin then Inl (Epoch ErrCallerNotAdmin)
           else if ie_epoch inp \<noteq> max_epoch d (ie_album inp) + 1 then Inl (Epoch ErrEpochReplay)
           else if MemberSetHash (cryp E) (active_tokens d (ie_album inp)) \<noteq> ie_expected_hash inp
             then Inl (Epoch ErrMemberSetDrift)
           else if \<not> int4 (ie_epoch inp) then Inl DbError
           else
             let d1 = d\<lparr>epochs := sql_insert \<lparr>e_album = ie_album inp, epoch = ie_epoch inp,
                        started_at = trunc_hour now, epoch_sig = ie_sig inp\<rparr> (epochs d)\<rparr>
             in (case insert_wraps (map (wrap_row now inp) (ie_wraps inp)) d1 of
                   Inl e \<Rightarrow> Inl e
                 | Inr d2 \<Rightarrow> Inr ((), d2\<lparr>albums := sql_update (\<lambda>al. a_id al = ie_album inp)
                     (\<lambda>al. al\<lparr>rotation_required := False\<rparr>) (albums d2)\<rparr>))))"

definition repo_GetWrap :: "uuid \<Rightarrow> int \<Rightarrow> bytes \<Rightarrow> db \<Rightarrow> err + wrap" where
  "repo_GetWrap a n recipient d =
     (if \<not> int4 n then Inl DbError
      else case find (\<lambda>w. w_album w = a \<and> w_epoch w = n \<and> recipient_token w = recipient) (wraps d) of
             None \<Rightarrow> Inl (Epoch ErrWrapNotFound) | Some w \<Rightarrow> Inr w)"

definition RotationRequired :: "uuid \<Rightarrow> db \<Rightarrow> err + bool" where
  "RotationRequired a d =
     (case RotationRequiredExpr d a of None \<Rightarrow> Inl DbError | Some b \<Rightarrow> Inr b)"

definition UserIDByAlbumMemberToken :: "env \<Rightarrow> uuid \<Rightarrow> bytes \<Rightarrow> db \<Rightarrow> err + uuid" where
  "UserIDByAlbumMemberToken E a t d =
     (case find (\<lambda>i. i_album i = a \<and> i_token i = t) (amids d) of
        None \<Rightarrow> Inl (Repo ErrMemberNotFound)
      | Some i \<Rightarrow> (case lopen E (user_id_enc i) t of
          Inl _ \<Rightarrow> Inl (Repo ErrMemberNotFound) | Inr u \<Rightarrow> Inr u))"

definition UserIDsByMemberTokens :: "env \<Rightarrow> bytes list \<Rightarrow> db \<Rightarrow> uuid list" where
  "UserIDsByMemberTokens E tokens d =
     (if tokens = [] then [] else open_all E (filter (\<lambda>i. i_token i \<in> set tokens) (amids d)))"

definition stale_receipt :: "time \<Rightarrow> int \<Rightarrow> amid \<Rightarrow> bool" where
  "stale_receipt now newEpoch i \<longleftrightarrow>
     (case last_received_epoch i of None \<Rightarrow> True | Some e \<Rightarrow> e < newEpoch - 1) \<and>
     (case last_received_at i of None \<Rightarrow> True | Some t \<Rightarrow> t < now - hours 24)"

definition PendingMembers :: "time \<Rightarrow> uuid \<Rightarrow> int \<Rightarrow> db \<Rightarrow> bytes list" where
  "PendingMembers now a newEpoch d =
     map i_token (filter (stale_receipt now newEpoch) (active_identities d a))"

section \<open>Service\<close>

record wrap_input =
  in_recipient :: bytes
  in_ek_pub :: bytes
  in_opk :: "int option"
  in_wrap :: bytes
  in_sig :: bytes

record set_epoch_input =
  se_epoch :: int
  se_member_set_hash :: bytes
  se_wraps :: "wrap_input list"
  se_envelope_sig :: bytes

definition verAesGcm :: byte where "verAesGcm = 1"
definition gcmNonceLen :: nat where "gcmNonceLen = 12"
definition gcmTagLen :: nat where "gcmTagLen = 16"
definition tokenLen :: nat where "tokenLen = 32"
definition keyLen :: nat where "keyLen = 32"
definition sigLen :: nat where "sigLen = 64"

lemmas epoch_consts [simp] = verAesGcm_def gcmNonceLen_def gcmTagLen_def tokenLen_def keyLen_def
  sigLen_def

text \<open>The loop over \<^verbatim>\<open>in.Wraps\<close>; \<open>seen\<close> holds the recipients of the entries
  before this one.\<close>

fun check_wraps :: "bytes list \<Rightarrow> wrap_input list \<Rightarrow> err option" where
  "check_wraps seen [] = None"
| "check_wraps seen (w # ws) =
     (if length (in_recipient w) \<noteq> tokenLen
        then Some (Api E_VALIDATION ''wraps[].recipient_token must be 32 bytes'')
      else if length (in_ek_pub w) \<noteq> keyLen
        then Some (Api E_VALIDATION ''wraps[].ek_pub must be 32 bytes'')
      else if length (in_sig w) \<noteq> sigLen
        then Some (Api E_VALIDATION ''wraps[].sender_sig must be 64 bytes'')
      else if length (in_wrap w) < 1 + gcmNonceLen + gcmTagLen
        then Some (Api E_VALIDATION ''wraps[].wrap is shorter than VER+NONCE+TAG'')
      else if hd (in_wrap w) \<noteq> verAesGcm
        then Some (Api E_VALIDATION ''wraps[].wrap must start with VER=0x01 (AES-GCM)'')
      else if (case in_opk w of None \<Rightarrow> False | Some i \<Rightarrow> i < 0)
        then Some (Api E_VALIDATION ''wraps[].opk_idx_used must be >= 0 when present'')
      else if in_recipient w \<in> set seen
        then Some (Api E_VALIDATION ''wraps[].recipient_token duplicated in request'')
      else check_wraps (in_recipient w # seen) ws)"

definition opk_word :: "int option \<Rightarrow> 32 word" where
  "opk_word i = (case i of None \<Rightarrow> 0xFFFFFFFF | Some k \<Rightarrow> word_of_int k)"

definition wrap_bytes :: "wrap_input \<Rightarrow> bytes" where
  "wrap_bytes w = in_recipient w @ in_ek_pub w @ be32 (opk_word (in_opk w))
     @ be32 (uint32 (int (length (in_wrap w)))) @ in_wrap w
     @ be32 (uint32 (int (length (in_sig w)))) @ in_sig w"

definition wraps_preimage :: "wrap_input list \<Rightarrow> bytes" where
  "wraps_preimage ws = be32 (uint32 (int (length ws))) @ concat (map wrap_bytes (sort_key in_recipient ws))"

definition WrapsHash :: "crypto \<Rightarrow> wrap_input list \<Rightarrow> bytes" where
  "WrapsHash C ws = sha256 C (wraps_preimage ws)"

definition EnvelopeSignMsg :: "uuid \<Rightarrow> int \<Rightarrow> bytes \<Rightarrow> bytes \<Rightarrow> bytes" where
  "EnvelopeSignMsg albumID ep memberSetHash wrapsHash =
     SaltEpochSet @ uuid_bytes albumID @ be32 (uint32 ep) @ memberSetHash @ wrapsHash"

definition to_wrap_insert :: "wrap_input \<Rightarrow> wrap_insert" where
  "to_wrap_insert w =
     \<lparr>wi_recipient = in_recipient w, wi_ek_pub = in_ek_pub w, wi_opk = in_opk w,
      wi_nonce = take gcmNonceLen (drop 1 (in_wrap w)),
      wi_tag_ct = drop (1 + gcmNonceLen) (in_wrap w), wi_sig = in_sig w\<rparr>"

text \<open>The errors of the repository as the service reports them.\<close>

definition set_epoch_error :: "err \<Rightarrow> err" where
  "set_epoch_error e =
     (case e of
        Epoch ErrEpochReplay \<Rightarrow> Api E_EPOCH_REPLAY ''epoch must equal current+1''
      | Epoch ErrMemberSetDrift \<Rightarrow> Api E_MEMBER_SET_DRIFT ''active member set drifted between request and commit''
      | Epoch EpochErrAlbumNotFound \<Rightarrow> Api E_NOT_FOUND ''album not found''
      | Epoch EpochErrCallerRevoked \<Rightarrow> Api E_MEMBER_REVOKED ''your access to this album has been revoked''
      | Epoch ErrCallerNotAdmin \<Rightarrow> Api E_FORBIDDEN ''only the admin can rotate epoch''
      | _ \<Rightarrow> e)"

text \<open>The checks of \<open>SetEpoch\<close> that read no state but the signer's key, in the code's order,
  and the request handed to the repository.\<close>

definition SetEpoch_validate ::
  "env \<Rightarrow> uuid \<Rightarrow> bytes \<Rightarrow> role \<Rightarrow> set_epoch_input \<Rightarrow> db \<Rightarrow> err + insert_epoch_input" where
  "SetEpoch_validate E albumID callerToken callerRole inp d =
     (if callerRole \<noteq> Admin then Inl (Api E_FORBIDDEN ''only the admin can rotate epoch'')
      else if se_epoch inp < 0 then Inl (Api E_VALIDATION ''epoch must be >= 0'')
      else if length (se_member_set_hash inp) \<noteq> 32
        then Inl (Api E_VALIDATION ''member_set_hash must be 32 bytes'')
      else if length (se_envelope_sig inp) \<noteq> sigLen
        then Inl (Api E_VALIDATION ''envelope_sig must be 64 bytes'')
      else if se_wraps inp = [] then Inl (Api E_VALIDATION ''wraps must be a non-empty array'')
      else case check_wraps [] (se_wraps inp) of Some e \<Rightarrow> Inl e
      | None \<Rightarrow>
        if MemberSetHash (cryp E) (map in_recipient (se_wraps inp)) \<noteq> se_member_set_hash inp
          then Inl (Api E_VALIDATION ''member_set_hash does not match recipient_tokens'')
        else
          let signedMsg = EnvelopeSignMsg albumID (se_epoch inp) (se_member_set_hash inp)
                            (WrapsHash (cryp E) (se_wraps inp))
          in (case AdminIKByMemberToken E callerToken d of
                Inl e \<Rightarrow> Inl (if e = Epoch ErrAdminNotFound
                           then Api E_IDENTITY_NOT_SET ''caller has no published identity'' else e)
              | Inr ikPub \<Rightarrow>
                (case VerifyEd25519 (cryp E) ikPub signedMsg (se_envelope_sig inp) of
                   Inl _ \<Rightarrow> Inl (Api E_SIG_INVALID ''envelope_sig verification failed'')
                 | Inr _ \<Rightarrow> Inr \<lparr>ie_album = albumID, ie_epoch = se_epoch inp,
                     ie_sig = se_envelope_sig inp, ie_sender = callerToken,
                     ie_wraps = map to_wrap_insert (se_wraps inp),
                     ie_expected_hash = se_member_set_hash inp\<rparr>)))"

definition SetEpoch ::
  "env \<Rightarrow> time \<Rightarrow> uuid \<Rightarrow> bytes \<Rightarrow> role \<Rightarrow> set_epoch_input \<Rightarrow> db \<Rightarrow> (err + bytes list) \<times> db" where
  "SetEpoch E now albumID callerToken callerRole inp d =
     (case SetEpoch_validate E albumID callerToken callerRole inp d of
        Inl e \<Rightarrow> (Inl e, d)
      | Inr req \<Rightarrow>
        (case InsertEpoch E now req d of
           Inl e \<Rightarrow> (Inl (set_epoch_error e), d)
         | Inr (_, d') \<Rightarrow> (Inr (PendingMembers now albumID (se_epoch inp) d'), d')))"

definition svc_GetWrap :: "uuid \<Rightarrow> int \<Rightarrow> bytes \<Rightarrow> db \<Rightarrow> err + wrap" where
  "svc_GetWrap a n callerToken d =
     (if n < 0 then Inl (Api E_VALIDATION ''epoch must be >= 0'')
      else case repo_GetWrap a n callerToken d of
             Inl e \<Rightarrow> Inl (if e = Epoch ErrWrapNotFound
                        then Api E_NOT_FOUND ''no wrap at this epoch for this recipient'' else e)
           | Inr w \<Rightarrow> Inr w)"

text \<open>The blob the handler returns to the recipient is the uploaded one, reassembled.\<close>

definition wrap_blob :: "wrap \<Rightarrow> bytes" where
  "wrap_blob w = verAesGcm # wrap_nonce w @ wrap_tag_ct w"

end
