(* ===== verification/Users.thy ===== *)
theory Users
  imports Database
begin

text \<open>\<^verbatim>\<open>repository/user_repo.go\<close>.\<close>

definition GetByEmailHMAC :: "bytes \<Rightarrow> db \<Rightarrow> err + user" where
  "GetByEmailHMAC h d =
     (case find (\<lambda>r. email_hmac r = h) (users d) of
        None \<Rightarrow> Inl (Repo ErrUserNotFound) | Some u \<Rightarrow> Inr u)"

definition user_GetByID :: "uuid \<Rightarrow> db \<Rightarrow> err + user" where
  "user_GetByID u d = (case find_user d u of None \<Rightarrow> Inl (Repo ErrUserNotFound) | Some r \<Rightarrow> Inr r)"

text \<open>A violated unique index is reported for the first one in creation order: the primary key,
  the email digest, then the handle, the only one with an error of its own. \<open>fresh\<close> is
  \<^verbatim>\<open>uuid.New()\<close>, used for a nil id; the stored row and the returned one are the
  same.\<close>

definition user_Create :: "time \<Rightarrow> uuid \<Rightarrow> user \<Rightarrow> (err, user, db) tx" where
  "user_Create now fresh usr d =
     (let r = usr\<lparr>u_id := if u_id usr = 0 then fresh else u_id usr,
                  u_created_at := now, u_updated_at := now, deleting_at := None\<rparr>
      in if sql_exists (\<lambda>x. u_id x = u_id r) (users d) then Inl DbError
         else if sql_exists (\<lambda>x. email_hmac x = email_hmac r) (users d) then Inl DbError
         else if sql_exists (\<lambda>x. u_miuchio_id x = u_miuchio_id r) (users d)
           then Inl (Repo ErrMiuchioIDTaken)
         else Inr (r, d\<lparr>users := sql_insert r (users d)\<rparr>))"

definition FindUserIDByMiuchioID :: "bytes \<Rightarrow> db \<Rightarrow> err + uuid" where
  "FindUserIDByMiuchioID mid d =
     (case find (\<lambda>r. u_miuchio_id r = mid) (users d) of
        None \<Rightarrow> Inl (Repo ErrUserNotFound) | Some r \<Rightarrow> Inr (u_id r))"

text \<open>The key constraints of the table.\<close>

definition wf_users :: "db \<Rightarrow> bool" where
  "wf_users d \<longleftrightarrow> distinct (map u_id (users d)) \<and> distinct (map email_hmac (users d))
     \<and> distinct (map u_miuchio_id (users d))"

lemma user_Create_Inr:
  assumes "user_Create now fresh usr d = Inr (r, d')"
  shows "d' = d\<lparr>users := sql_insert r (users d)\<rparr>" "deleting_at r = None"
    "email_hmac r = email_hmac usr" "u_miuchio_id r = u_miuchio_id usr"
    "u_id r \<notin> u_id ` set (users d)" "email_hmac r \<notin> email_hmac ` set (users d)"
    "u_miuchio_id r \<notin> u_miuchio_id ` set (users d)"
  using assms by (auto simp: user_Create_def Let_def split: if_splits)

lemma user_Create_wf:
  assumes "wf_users d" "user_Create now fresh usr d = Inr (r, d')"
  shows "wf_users d'"
  using assms user_Create_Inr [OF assms(2)] by (simp add: wf_users_def distinct_map_insert)

lemma find_user_key: "wf_users d \<Longrightarrow> r \<in> set (users d) \<Longrightarrow> find_user d (u_id r) = Some r"
  by (auto simp: wf_users_def find_user_def intro: find_key)

lemma FindUserIDByMiuchioID_key:
  "wf_users d \<Longrightarrow> r \<in> set (users d) \<Longrightarrow> FindUserIDByMiuchioID (u_miuchio_id r) d = Inr (u_id r)"
  by (simp add: wf_users_def FindUserIDByMiuchioID_def find_key)

end
