(* ===== verification/Utf8.thy ===== *)
theory Utf8
  imports Wire
begin

text \<open>
  What the code uses of Go's strings: a string is a byte sequence, \<^verbatim>\<open>range s\<close> and
  \<^verbatim>\<open>utf8.ValidString\<close> decode it with the table of \<^verbatim>\<open>unicode/utf8\<close>
  (an invalid byte counts as one rune \<^verbatim>\<open>U+FFFD\<close> of width one), and
  \<^verbatim>\<open>WriteRune\<close> encodes a rune. A rune is a natural number.
\<close>

definition RuneError :: nat where "RuneError = 0xFFFD"

text \<open>The admissible second bytes for each leading byte.\<close>

definition second_ok :: "nat \<Rightarrow> nat \<Rightarrow> bool" where
  "second_ok b0 b1 =
     (if b0 = 0xE0 then 0xA0 \<le> b1 \<and> b1 \<le> 0xBF
      else if b0 = 0xED then 0x80 \<le> b1 \<and> b1 \<le> 0x9F
      else if b0 = 0xF0 then 0x90 \<le> b1 \<and> b1 \<le> 0xBF
      else if b0 = 0xF4 then 0x80 \<le> b1 \<and> b1 \<le> 0x8F
      else 0x80 \<le> b1 \<and> b1 \<le> 0xBF)"

definition cont :: "nat \<Rightarrow> bool" where "cont b \<longleftrightarrow> 0x80 \<le> b \<and> b \<le> 0xBF"

text \<open>\<^verbatim>\<open>DecodeRune\<close> on the bytes as numbers: the rune and its width; \<open>None\<close> for an
  encoding error.\<close>

fun decode_nat :: "nat list \<Rightarrow> (nat \<times> nat) option" where
  "decode_nat [] = None"
| "decode_nat (b0 # bs) =
     (if b0 < 0x80 then Some (b0, 1)
      else if 0xC2 \<le> b0 \<and> b0 \<le> 0xDF then
        (case bs of b1 # _ \<Rightarrow>
           if second_ok b0 b1 then Some ((b0 - 0xC0) * 64 + (b1 - 0x80), 2) else None
         | _ \<Rightarrow> None)
      else if 0xE0 \<le> b0 \<and> b0 \<le> 0xEF then
        (case bs of b1 # b2 # _ \<Rightarrow>
           if second_ok b0 b1 \<and> cont b2
           then Some ((b0 - 0xE0) * 4096 + (b1 - 0x80) * 64 + (b2 - 0x80), 3) else None
         | _ \<Rightarrow> None)
      else if 0xF0 \<le> b0 \<and> b0 \<le> 0xF4 then
        (case bs of b1 # b2 # b3 # _ \<Rightarrow>
           if second_ok b0 b1 \<and> cont b2 \<and> cont b3
           then Some ((b0 - 0xF0) * 262144 + (b1 - 0x80) * 4096 + (b2 - 0x80) * 64 + (b3 - 0x80), 4)
           else None
         | _ \<Rightarrow> None)
      else None)"

text \<open>The loop of \<^verbatim>\<open>for _, r := range s\<close>: the runes in order, with a flag that is set
  where the byte was invalid. Each round consumes at least one byte, so as many rounds as bytes
  are enough.\<close>

fun runes_fuel :: "nat \<Rightarrow> nat list \<Rightarrow> (nat \<times> bool) list" where
  "runes_fuel 0 bs = []"
| "runes_fuel (Suc n) bs =
     (if bs = [] then []
      else case decode_nat bs of
        None \<Rightarrow> (RuneError, False) # runes_fuel n (tl bs)
      | Some (r, k) \<Rightarrow> (r, True) # runes_fuel n (drop k bs))"

definition rune_flags :: "bytes \<Rightarrow> (nat \<times> bool) list" where
  "rune_flags s = runes_fuel (length s) (map unat s)"

definition runes :: "bytes \<Rightarrow> nat list" where
  "runes s = map fst (rune_flags s)"

definition ValidString :: "bytes \<Rightarrow> bool" where
  "ValidString s \<longleftrightarrow> list_all snd (rune_flags s)"

text \<open>\<^verbatim>\<open>WriteRune\<close>; a surrogate or a number beyond the last code point is written as
  \<^verbatim>\<open>U+FFFD\<close>.\<close>

definition scalar :: "nat \<Rightarrow> bool" where
  "scalar r \<longleftrightarrow> r < 0xD800 \<or> (0xE000 \<le> r \<and> r < 0x110000)"

definition encode_nat :: "nat \<Rightarrow> nat list" where
  "encode_nat r0 = (let r = (if scalar r0 then r0 else RuneError) in
     if r < 0x80 then [r]
     else if r < 0x800 then [0xC0 + r div 64, 0x80 + r mod 64]
     else if r < 0x10000 then [0xE0 + r div 4096, 0x80 + r div 64 mod 64, 0x80 + r mod 64]
     else [0xF0 + r div 262144, 0x80 + r div 4096 mod 64, 0x80 + r div 64 mod 64, 0x80 + r mod 64])"

definition encode_rune :: "nat \<Rightarrow> bytes" where
  "encode_rune r = map word_of_nat (encode_nat r)"

section \<open>Decoding inverts encoding\<close>

lemma encode_nat_nonempty [simp]: "encode_nat r \<noteq> []"
  by (simp add: encode_nat_def Let_def)

lemma sextets:
  fixes r :: nat
  shows "r div 4096 * 4096 + r div 64 mod 64 * 64 + r mod 64 = r"
    and "r div 262144 * 262144 + r div 4096 mod 64 * 4096 + r div 64 mod 64 * 64 + r mod 64 = r"
proof -
  have q: "r div 64 div 64 = r div 4096" "r div 4096 div 64 = r div 262144"
    by (simp_all add: div_mult2_eq [symmetric])
  have "r div 64 * 64 + r mod 64 = r" "r div 4096 * 64 + r div 64 mod 64 = r div 64"
    "r div 262144 * 64 + r div 4096 mod 64 = r div 4096"
    using div_mult_mod_eq [of "r div 64" 64] div_mult_mod_eq [of "r div 4096" 64] q by simp_all
  then show "r div 4096 * 4096 + r div 64 mod 64 * 64 + r mod 64 = r"
    and "r div 262144 * 262144 + r div 4096 mod 64 * 4096 + r div 64 mod 64 * 64 + r mod 64 = r"
    by linarith+
qed

lemma div_mod_64: "z < (64::nat) \<Longrightarrow> (q * 64 + z) div 64 = q \<and> (q * 64 + z) mod 64 = z"
  by simp

lemma sextets_unique:
  fixes x w y z :: nat
  assumes "w < 64" "y < 64" "z < 64" "r = x * 262144 + w * 4096 + y * 64 + z"
  shows "r div 262144 = x" "r div 4096 mod 64 = w" "r div 64 mod 64 = y" "r mod 64 = z"
proof -
  have "r = (x * 4096 + w * 64 + y) * 64 + z" using assms by simp
  then have a: "r div 64 = (x * 64 + w) * 64 + y" "r mod 64 = z"
    using div_mod_64 [OF assms(3), of "x * 4096 + w * 64 + y"] by (simp_all add: algebra_simps)
  then have b: "r div 64 div 64 = x * 64 + w" "r div 64 mod 64 = y"
    using div_mod_64 [OF assms(2), of "x * 64 + w"] by simp_all
  then have "r div 64 div 64 div 64 = x" "r div 64 div 64 mod 64 = w"
    using div_mod_64 [OF assms(1), of x] by simp_all
  then show "r div 262144 = x" "r div 4096 mod 64 = w" "r div 64 mod 64 = y" "r mod 64 = z"
    using a(2) b by (simp_all only: div_mult2_eq [symmetric]) simp_all
qed

lemma decode_three:
  "h \<le> 15 \<Longrightarrow> m \<le> 63 \<Longrightarrow> l \<le> 63 \<Longrightarrow> (h = 0 \<Longrightarrow> 32 \<le> m) \<Longrightarrow> (h = 13 \<Longrightarrow> m \<le> 31) \<Longrightarrow>
    decode_nat ((0xE0 + h) # (0x80 + m) # (0x80 + l) # bs) = Some (h * 4096 + m * 64 + l, 3)"
  by (auto simp: second_ok_def cont_def)

lemma decode_four:
  "h \<le> 4 \<Longrightarrow> a \<le> 63 \<Longrightarrow> m \<le> 63 \<Longrightarrow> l \<le> 63 \<Longrightarrow> (h = 0 \<Longrightarrow> 16 \<le> a) \<Longrightarrow> (h = 4 \<Longrightarrow> a \<le> 15) \<Longrightarrow>
    decode_nat ((0xF0 + h) # (0x80 + a) # (0x80 + m) # (0x80 + l) # bs) =
      Some (h * 262144 + a * 4096 + m * 64 + l, 4)"
  by (auto simp: second_ok_def cont_def)

lemma decode_encode: "scalar r \<Longrightarrow> decode_nat (encode_nat r @ bs) = Some (r, length (encode_nat r))"
proof -
  assume s: "scalar r"
  consider "r < 0x80" | "0x80 \<le> r" "r < 0x800" | "0x800 \<le> r" "r < 0x10000"
    | "0x10000 \<le> r" "r < 0x110000"
    using s by (force simp: scalar_def)
  then show ?thesis
  proof cases
    case 1
    then show ?thesis using s by (simp add: encode_nat_def)
  next
    case 2
    have "r div 64 * 64 + r mod 64 = r" by simp
    moreover have "2 \<le> r div 64" "r div 64 \<le> 31" "r mod 64 \<le> 63" using 2 by auto
    ultimately show ?thesis using s 2
      by (simp add: encode_nat_def second_ok_def)
  next
    case 3
    let ?h = "r div 4096" and ?m = "r div 64 mod 64" and ?l = "r mod 64"
    have eq: "?h * 4096 + ?m * 64 + ?l = r" by (rule sextets)
    have le: "?h \<le> 15" "?m \<le> 63" "?l \<le> 63" using 3 by auto
    moreover have "?h = 0 \<Longrightarrow> 32 \<le> ?m" using 3 eq le by linarith
    moreover have "?h = 13 \<Longrightarrow> ?m \<le> 31" using s 3 eq le unfolding scalar_def by linarith
    ultimately show ?thesis using s 3 eq decode_three [of ?h ?m ?l]
      by (simp add: encode_nat_def)
  next
    case 4
    let ?h = "r div 262144" and ?a = "r div 4096 mod 64" and ?m = "r div 64 mod 64" and ?l = "r mod 64"
    have eq: "?h * 262144 + ?a * 4096 + ?m * 64 + ?l = r" by (rule sextets)
    have le: "?h \<le> 4" "?a \<le> 63" "?m \<le> 63" "?l \<le> 63" using 4 by auto
    moreover have "?h = 0 \<Longrightarrow> 16 \<le> ?a" using 4 eq le by linarith
    moreover have "?h = 4 \<Longrightarrow> ?a \<le> 15" using 4 eq le by linarith
    ultimately show ?thesis using s 4 eq decode_four [of ?h ?a ?m ?l]
      by (simp add: encode_nat_def)
  qed
qed

lemma decode_width: "decode_nat bs = Some (r, k) \<Longrightarrow> 0 < k \<and> k \<le> length bs"
  by (cases bs) (auto split: if_splits list.splits)

text \<open>Encoding inverts decoding: only the shortest form of a scalar is accepted.\<close>

lemma encode_decode:
  assumes "decode_nat bs = Some (r, k)"
  shows "scalar r \<and> encode_nat r = take k bs"
proof -
  obtain b0 cs where bs: "bs = b0 # cs" using assms by (cases bs) auto
  consider "b0 < 0x80" | "0xC2 \<le> b0" "b0 \<le> 0xDF" | "0xE0 \<le> b0" "b0 \<le> 0xEF"
    | "0xF0 \<le> b0" "b0 \<le> 0xF4"
    using assms unfolding bs by (force split: if_splits)
  then show ?thesis
  proof cases
    case 1
    then show ?thesis using assms bs by (auto simp: scalar_def encode_nat_def)
  next
    case 2
    then obtain b1 ds where d: "cs = b1 # ds" "second_ok b0 b1" "k = 2"
        "r = (b0 - 0xC0) * 64 + (b1 - 0x80)"
      using assms bs by (auto split: if_splits list.splits)
    have b1: "0x80 \<le> b1" "b1 \<le> 0xBF" using d(2) 2 by (auto simp: second_ok_def split: if_splits)
    obtain x y where xy: "b0 = 0xC0 + x" "b1 = 0x80 + y" "2 \<le> x" "x \<le> 31" "y < 64"
      using 2 b1 le_Suc_ex [of "0xC0" b0] le_Suc_ex [of "0x80" b1] by auto
    have "r = x * 64 + y" using d xy by simp
    with xy d bs show ?thesis by (simp add: scalar_def encode_nat_def)
  next
    case 3
    then obtain b1 b2 ds where d: "cs = b1 # b2 # ds" "second_ok b0 b1" "cont b2" "k = 3"
        "r = (b0 - 0xE0) * 4096 + (b1 - 0x80) * 64 + (b2 - 0x80)"
      using assms bs by (auto split: if_splits list.splits)
    have b: "0x80 \<le> b1" "b1 \<le> 0xBF" "0x80 \<le> b2" "b2 \<le> 0xBF"
      using d(2,3) 3 by (auto simp: second_ok_def cont_def split: if_splits)
    obtain x y z where xy: "b0 = 0xE0 + x" "b1 = 0x80 + y" "b2 = 0x80 + z" "x \<le> 15" "y < 64" "z < 64"
      using 3 b le_Suc_ex [of "0xE0" b0] le_Suc_ex [of "0x80" b1] le_Suc_ex [of "0x80" b2] by auto
    have r: "r = x * 4096 + y * 64 + z" using d xy by simp
    have lo: "x = 0 \<Longrightarrow> 32 \<le> y" and hi: "x = 13 \<Longrightarrow> y < 32"
      using d(2) xy by (auto simp: second_ok_def split: if_splits)
    have "0x800 \<le> r" "r < 0x10000" using r lo xy by (cases "x = 0"; linarith)+
    moreover have "scalar r"
      unfolding scalar_def using r hi xy by (cases "x \<le> 12"; cases "x = 13"; simp; linarith)
    moreover have "r div 4096 = x" "r div 64 mod 64 = y" "r mod 64 = z"
      using sextets_unique [of x y z r 0] xy r by simp_all
    ultimately show ?thesis using d bs xy by (simp add: encode_nat_def)
  next
    case 4
    then obtain b1 b2 b3 ds where d: "cs = b1 # b2 # b3 # ds" "second_ok b0 b1" "cont b2" "cont b3"
        "k = 4" "r = (b0 - 0xF0) * 262144 + (b1 - 0x80) * 4096 + (b2 - 0x80) * 64 + (b3 - 0x80)"
      using assms bs by (auto split: if_splits list.splits)
    have b: "0x80 \<le> b1" "b1 \<le> 0xBF" "0x80 \<le> b2" "b2 \<le> 0xBF" "0x80 \<le> b3" "b3 \<le> 0xBF"
      using d(2-4) 4 by (auto simp: second_ok_def cont_def split: if_splits)
    obtain x w y z where xy: "b0 = 0xF0 + x" "b1 = 0x80 + w" "b2 = 0x80 + y" "b3 = 0x80 + z"
        "x \<le> 4" "w < 64" "y < 64" "z < 64"
      using 4 b le_Suc_ex [of "0xF0" b0] le_Suc_ex [of "0x80" b1] le_Suc_ex [of "0x80" b2]
        le_Suc_ex [of "0x80" b3] by auto
    have r: "r = x * 262144 + w * 4096 + y * 64 + z" using d xy by simp
    have lo: "x = 0 \<Longrightarrow> 16 \<le> w" and hi: "x = 4 \<Longrightarrow> w < 16"
      using d(2) xy by (auto simp: second_ok_def split: if_splits)
    have "0x10000 \<le> r" using r lo xy by (cases "x = 0"; linarith)
    moreover have "r < 0x110000" using r hi xy by (cases "x = 4"; linarith)
    moreover from calculation have "scalar r" by (simp add: scalar_def)
    moreover have "r div 262144 = x" "r div 4096 mod 64 = w" "r div 64 mod 64 = y" "r mod 64 = z"
      using sextets_unique [OF xy(6-8) r] by simp_all
    ultimately show ?thesis using d bs xy by (simp add: encode_nat_def)
  qed
qed

end
