(* ===== verification/Handles.thy ===== *)
theory Handles
  imports Utf8
begin

text \<open>
  \<^verbatim>\<open>server/internal/handle\<close>: the eight-character public handle of an account, Crockford
  base32 over 40 random bits. The lemmas show that generation loses no bit and reaches every
  canonical handle, and that normalization accepts exactly the canonical form behind the display
  form.
\<close>

section \<open>Generation\<close>

definition alphabet :: bytes where "alphabet = ascii ''0123456789ABCDEFGHJKMNPQRSTVWXYZ''"

definition handle_Length :: nat where "handle_Length = 8"

text \<open>The eight five-bit fields of five bytes, as the array literal of \<^verbatim>\<open>Generate\<close> has
  them.\<close>

fun handle_fields :: "byte \<times> byte \<times> byte \<times> byte \<times> byte \<Rightarrow> byte list" where
  "handle_fields (b0, b1, b2, b3, b4) =
     [drop_bit 3 b0,
      or (push_bit 2 (and b0 0x07)) (drop_bit 6 b1),
      and (drop_bit 1 b1) 0x1f,
      or (push_bit 4 (and b1 0x01)) (drop_bit 4 b2),
      or (push_bit 1 (and b2 0x0f)) (drop_bit 7 b3),
      and (drop_bit 2 b3) 0x1f,
      or (push_bit 3 (and b3 0x03)) (drop_bit 5 b4),
      and b4 0x1f]"

definition handle_Generate :: "byte \<times> byte \<times> byte \<times> byte \<times> byte \<Rightarrow> bytes" where
  "handle_Generate b = map (\<lambda>f. alphabet ! unat f) (handle_fields b)"

section \<open>Normalization and display\<close>

text \<open>\<^verbatim>\<open>strings.IndexRune(alphabet, r)\<close>.\<close>

definition index_rune :: "nat \<Rightarrow> nat option" where
  "index_rune r = find (\<lambda>i. unat (alphabet ! i) = r) [0..<length alphabet]"

definition fold_rune :: "nat \<Rightarrow> nat" where
  "fold_rune r0 =
     (let r = (if 97 \<le> r0 \<and> r0 \<le> 122 then r0 - 32 else r0)
      in if r = 73 \<or> r = 76 then 49 else if r = 79 then 48 else r)"

fun normalize_loop :: "nat list \<Rightarrow> bytes \<Rightarrow> err + bytes" where
  "normalize_loop [] out = (if length out \<noteq> handle_Length then Inl ErrInvalidHandle else Inr out)"
| "normalize_loop (r # rs) out =
     (if r \<in> {45, 32, 9, 10, 13} then normalize_loop rs out
      else case index_rune (fold_rune r) of
        None \<Rightarrow> Inl ErrInvalidHandle
      | Some i \<Rightarrow>
          let out' = out @ [alphabet ! i]
          in if length out' > handle_Length then Inl ErrInvalidHandle else normalize_loop rs out')"

definition Normalize :: "bytes \<Rightarrow> err + bytes" where
  "Normalize s = normalize_loop (runes s) []"

definition handle_Format :: "bytes \<Rightarrow> bytes" where
  "handle_Format canonical =
     (if length canonical \<noteq> handle_Length then canonical
      else take 4 canonical @ ascii ''-'' @ drop 4 canonical)"

text \<open>The canonical handles: what the \<^verbatim>\<open>users\<close> table holds.\<close>

definition canonical_handle :: "bytes \<Rightarrow> bool" where
  "canonical_handle s \<longleftrightarrow> length s = handle_Length \<and> set s \<subseteq> set alphabet"

section \<open>The alphabet\<close>

lemma alphabet_eq: "alphabet = [48, 49, 50, 51, 52, 53, 54, 55, 56, 57, 65, 66, 67, 68, 69, 70,
   71, 72, 74, 75, 77, 78, 80, 81, 82, 83, 84, 86, 87, 88, 89, 90]"
  by (simp add: alphabet_def ascii_def)

lemma length_alphabet [simp]: "length alphabet = 32"
  by (simp add: alphabet_def)

lemma distinct_alphabet: "distinct alphabet"
  by (simp add: alphabet_eq)

lemma alphabet_runes:
  assumes "a \<in> set alphabet"
  shows "unat a < 0x80 \<and> unat a \<notin> {45, 32, 9, 10, 13} \<and> fold_rune (unat a) = unat a"
proof -
  have "list_all (\<lambda>a. unat a < 0x80 \<and> unat a \<notin> {45, 32, 9, 10, 13} \<and> fold_rune (unat a) = unat a) alphabet"
    by (simp add: alphabet_eq fold_rune_def)
  with assms show ?thesis by (simp add: list_all_iff)
qed

lemma index_rune_Some: "index_rune r = Some i \<Longrightarrow> i < 32 \<and> unat (alphabet ! i) = r"
  using find_Some_in by (fastforce simp: index_rune_def)

lemma index_rune_alphabet:
  assumes "a \<in> set alphabet"
  obtains i where "index_rune (unat a) = Some i" "alphabet ! i = a"
proof -
  obtain k where k: "k < length alphabet" "alphabet ! k = a"
    using assms by (auto simp: in_set_conv_nth)
  then have "index_rune (unat a) \<noteq> None"
    by (auto simp: index_rune_def find_None_all)
  then obtain i where "index_rune (unat a) = Some i" by blast
  moreover from this have "alphabet ! i = a"
    using index_rune_Some by (metis word_unat_eq_iff)
  ultimately show thesis by (rule that)
qed

section \<open>Round trips\<close>

lemma runes_fuel_ascii:
  "\<forall>b\<in>set bs. b < 0x80 \<Longrightarrow> length bs \<le> n \<Longrightarrow> runes_fuel n bs = map (\<lambda>b. (b, True)) bs"
proof (induction bs arbitrary: n)
  case Nil
  show ?case by (cases n) simp_all
next
  case (Cons b bs)
  then obtain m where "n = Suc m" "length bs \<le> m" by (cases n) auto
  with Cons show ?case by simp
qed

lemma runes_ascii: "\<forall>b\<in>set s. unat b < 0x80 \<Longrightarrow> runes s = map unat s"
  by (simp add: runes_def rune_flags_def runes_fuel_ascii comp_def)

lemma normalize_loop_alphabet:
  "set s \<subseteq> set alphabet \<Longrightarrow> length out + length s \<le> 8 \<Longrightarrow>
   normalize_loop (map unat s @ rs) out = normalize_loop rs (out @ s)"
proof (induction s arbitrary: out)
  case (Cons a s)
  obtain i where i: "index_rune (unat a) = Some i" "alphabet ! i = a"
    using Cons.prems by (auto elim: index_rune_alphabet)
  have "unat a \<notin> {45, 32, 9, 10, 13}" "fold_rune (unat a) = unat a"
    using alphabet_runes Cons.prems by auto
  then have "normalize_loop (map unat (a # s) @ rs) out = normalize_loop (map unat s @ rs) (out @ [a])"
    using i Cons.prems by (simp add: handle_Length_def)
  also have "\<dots> = normalize_loop rs (out @ a # s)" using Cons by simp
  finally show ?case .
qed simp

lemma alphabet_ascii: "set s \<subseteq> set alphabet \<Longrightarrow> \<forall>b\<in>set s. unat b < 0x80"
  using alphabet_runes by blast

lemma Normalize_canonical:
  assumes "canonical_handle s"
  shows "Normalize s = Inr s"
proof -
  have s: "length s = 8" "set s \<subseteq> set alphabet"
    using assms by (simp_all add: canonical_handle_def handle_Length_def)
  then have "runes s = map unat s" by (simp add: runes_ascii alphabet_ascii)
  with s normalize_loop_alphabet [of s "[]" "[]"] show ?thesis
    by (simp add: Normalize_def handle_Length_def)
qed

lemma Normalize_Format_canonical:
  assumes "canonical_handle s"
  shows "Normalize (handle_Format s) = Inr s"
proof -
  have s: "length s = 8" "set s \<subseteq> set alphabet"
    using assms by (simp_all add: canonical_handle_def handle_Length_def)
  have sub: "set (take 4 s) \<subseteq> set alphabet" "set (drop 4 s) \<subseteq> set alphabet"
    using s set_take_subset [of 4 s] set_drop_subset [of 4 s] by auto
  have "runes (handle_Format s) = map unat (take 4 s) @ 45 # map unat (drop 4 s) @ []"
    using s alphabet_ascii [OF sub(1)] alphabet_ascii [OF sub(2)]
    by (subst runes_ascii) (auto simp: handle_Format_def handle_Length_def ascii_def)
  also have "normalize_loop \<dots> [] = normalize_loop (45 # map unat (drop 4 s) @ []) (take 4 s)"
    using normalize_loop_alphabet [OF sub(1), of "[]"] s by simp
  also have "\<dots> = normalize_loop [] (take 4 s @ drop 4 s)"
    using normalize_loop_alphabet [OF sub(2), of "take 4 s" "[]"] s by simp
  finally show ?thesis using s by (simp add: Normalize_def handle_Length_def)
qed

lemma normalize_loop_canonical:
  "normalize_loop rs out = Inr s \<Longrightarrow> set out \<subseteq> set alphabet \<Longrightarrow> canonical_handle s"
proof (induction rs out rule: normalize_loop.induct)
  case (1 out)
  then show ?case by (auto simp: canonical_handle_def split: if_splits)
next
  case (2 r rs out)
  show ?case
  proof (cases "r \<in> {45, 32, 9, 10, 13}")
    case True
    with "2.prems" have "normalize_loop rs out = Inr s" by simp
    with 2(1) [OF True] "2.prems"(2) show ?thesis by blast
  next
    case False
    with "2.prems" obtain i where i: "index_rune (fold_rune r) = Some i"
      by (cases "index_rune (fold_rune r)") auto
    with False "2.prems" have len: "\<not> length (out @ [alphabet ! i]) > handle_Length"
      and rest: "normalize_loop rs (out @ [alphabet ! i]) = Inr s"
      by (simp_all add: Let_def split: if_splits)
    have "alphabet ! i \<in> set alphabet" using index_rune_Some [OF i] by simp
    with 2(2) [OF False i refl len rest] "2.prems"(2) show ?thesis by simp
  qed
qed

lemma Normalize_sound: "Normalize s = Inr t \<Longrightarrow> canonical_handle t"
  using normalize_loop_canonical [of "runes s" "[]" t] by (simp add: Normalize_def)

section \<open>Generation reaches every canonical handle once\<close>

text \<open>Five bytes back from eight five-bit fields.\<close>

fun unfields :: "byte list \<Rightarrow> byte \<times> byte \<times> byte \<times> byte \<times> byte" where
  "unfields [f0, f1, f2, f3, f4, f5, f6, f7] =
     (or (push_bit 3 f0) (drop_bit 2 f1),
      or (push_bit 6 f1) (or (push_bit 1 f2) (drop_bit 4 f3)),
      or (push_bit 4 f3) (drop_bit 1 f4),
      or (push_bit 7 f4) (or (push_bit 2 f5) (drop_bit 3 f6)),
      or (push_bit 5 f6) f7)"
| "unfields _ = (0, 0, 0, 0, 0)"

lemma byte_bit_cases: "(k::nat) < 8 \<longleftrightarrow> k = 0 \<or> k = 1 \<or> k = 2 \<or> k = 3 \<or> k = 4 \<or> k = 5 \<or> k = 6 \<or> k = 7"
  by linarith

lemma bit_double: "bit (x * 2) n \<longleftrightarrow> n \<noteq> 0 \<and> n < 8 \<and> bit x (n - 1)" for x :: byte
  using bit_double_iff [of x n] by (auto simp: mult.commute possible_bit_word)

lemma bit_byte_high: "8 \<le> n \<Longrightarrow> \<not> bit x n" for x :: byte
  by (simp add: impossible_bit)

lemma bit_byte_Suc:
  "bit x (Suc (Suc 0)) = bit x 2" "bit x (Suc (Suc (Suc 0))) = bit x 3" for x :: byte
  by (simp_all add: eval_nat_numeral)

lemmas field_bits = bit_simps bit_double bit_byte_high bit_byte_Suc

lemma take_bit_5: "take_bit 5 f = f \<longleftrightarrow> f < 32" for f :: byte
proof -
  have "take_bit 5 f = f \<longleftrightarrow> unat f mod 32 = unat f"
    by (simp only: word_unat_eq_iff unsigned_take_bit_eq) (simp add: take_bit_eq_mod)
  then show ?thesis by (simp add: word_less_nat_alt mod_eq_self_iff_div_eq_0 div_eq_0_iff)
qed

lemma unfields_fields: "unfields (handle_fields b) = b"
proof -
  obtain b0 b1 b2 b3 b4 where b: "b = (b0, b1, b2, b3, b4)" by (cases b)
  show ?thesis unfolding b handle_fields.simps unfields.simps prod.inject
    by (intro conjI bit_word_eqI; simp add: byte_bit_cases; elim disjE; simp add: field_bits)
qed

lemma fields_unfields:
  assumes "length fs = 8" "\<forall>f\<in>set fs. f < 32"
  shows "handle_fields (unfields fs) = fs"
proof -
  have high: "\<not> bit f k" if "f \<in> set fs" "5 \<le> k" for f k
  proof -
    have "take_bit 5 f = f"
      using assms(2) that(1) by (simp add: take_bit_5)
    with that(2) show ?thesis by (metis bit_take_bit_iff leD)
  qed
  obtain f0 f1 f2 f3 f4 f5 f6 f7 where fs: "fs = [f0, f1, f2, f3, f4, f5, f6, f7]"
    using assms(1) by (auto simp: length_Suc_conv eval_nat_numeral)
  show ?thesis
    using high unfolding fs handle_fields.simps unfields.simps list.inject
    by (intro conjI TrueI refl bit_word_eqI; simp add: byte_bit_cases; elim disjE;
        simp add: field_bits)
qed

lemma fields_bound: "f \<in> set (handle_fields b) \<Longrightarrow> f < 32"
proof -
  assume "f \<in> set (handle_fields b)"
  then have "take_bit 5 f = f"
    by (cases b) (auto intro!: bit_word_eqI simp: field_bits byte_bit_cases)
  then show "f < 32" by (simp add: take_bit_5)
qed

lemma alphabet_nth_inj:
  "(f :: byte) < 32 \<Longrightarrow> g < 32 \<Longrightarrow> alphabet ! unat f = alphabet ! unat g \<longleftrightarrow> f = g"
  using nth_eq_iff_index_eq [OF distinct_alphabet, of "unat f" "unat g"]
  by (simp add: word_less_nat_alt unsigned_word_eqI word_unat_eq_iff [symmetric])

lemma length_fields [simp]: "length (handle_fields b) = 8"
  by (cases b) simp

lemma Generate_canonical: "canonical_handle (handle_Generate b)"
proof -
  have "alphabet ! unat f \<in> set alphabet" if "f \<in> set (handle_fields b)" for f
    using fields_bound [OF that] by (simp add: word_less_nat_alt)
  then show ?thesis
    by (auto simp: canonical_handle_def handle_Generate_def handle_Length_def)
qed

lemma Generate_inject: "handle_Generate a = handle_Generate b \<longleftrightarrow> a = b"
proof
  assume eq: "handle_Generate a = handle_Generate b"
  have "handle_fields a = handle_fields b"
  proof (rule nth_equalityI)
    fix i assume i: "i < length (handle_fields a)"
    have "alphabet ! unat (handle_fields a ! i) = alphabet ! unat (handle_fields b ! i)"
      using arg_cong [OF eq, of "\<lambda>xs. xs ! i"] i by (simp add: handle_Generate_def)
    moreover have "handle_fields a ! i < 32" "handle_fields b ! i < 32"
      using i fields_bound [OF nth_mem, of i] by simp_all
    ultimately show "handle_fields a ! i = handle_fields b ! i" by (simp add: alphabet_nth_inj)
  qed simp
  then show "a = b" by (metis unfields_fields)
qed simp

lemma Generate_surj:
  assumes "canonical_handle s"
  obtains b where "handle_Generate b = s"
proof -
  have s: "length s = 8" "\<forall>c\<in>set s. \<exists>k<32. alphabet ! k = c"
    using assms by (auto simp: canonical_handle_def handle_Length_def in_set_conv_nth subset_iff)
  define pos where "pos c = (SOME k. k < 32 \<and> alphabet ! k = c)" for c
  have pos: "pos c < 32 \<and> alphabet ! pos c = c" if "c \<in> set s" for c
    unfolding pos_def using s(2) that by (intro someI_ex [of "\<lambda>k. k < 32 \<and> alphabet ! k = c"]) blast
  define fs where "fs = map (\<lambda>c. word_of_nat (pos c) :: byte) s"
  have small: "unat (word_of_nat (pos c) :: byte) = pos c" if "c \<in> set s" for c
    using pos [OF that] by (subst unat_of_nat) simp
  have "\<forall>f\<in>set fs. f < 32" by (auto simp: fs_def word_less_nat_alt small pos)
  then have "handle_fields (unfields fs) = fs" using s(1) by (intro fields_unfields) (simp_all add: fs_def)
  then have "handle_Generate (unfields fs) = s"
    by (simp add: handle_Generate_def fs_def small pos map_idI)
  then show thesis by (rule that)
qed

end
