(* ===== verification/Encoding.thy ===== *)
theory Encoding
  imports Wire
begin

text \<open>
  The textual encodings the code writes: the
  canonical \<^verbatim>\<open>xxxxxxxx-xxxx-xxxx-xxxx-xxxxxxxxxxxx\<close> form of an identifier (an
  instance for the parameter \<^verbatim>\<open>uuid_String\<close>), and base64 in the standard (padded) and the raw URL alphabet. Both are injective, which is what
  storage keys, ticket keys and opaque JSON fields need of them.
\<close>

section \<open>Hexadecimal and UUIDs\<close>

definition hexdigit :: "nat \<Rightarrow> byte" where
  "hexdigit d = (if d < 10 then word_of_nat (48 + d) else word_of_nat (87 + d))"

definition hex :: "bytes \<Rightarrow> bytes" where
  "hex bs = concat (map (\<lambda>b. [hexdigit (unat b div 16), hexdigit (unat b mod 16)]) bs)"

definition uuid_canonical :: "uuid \<Rightarrow> bytes" where
  "uuid_canonical u = (let h = hex (uuid_bytes u) in
     take 8 h @ 45 # take 4 (drop 8 h) @ 45 # take 4 (drop 12 h) @ 45 # take 4 (drop 16 h)
     @ 45 # drop 20 h)"

lemma unat_hexdigit: "d < 16 \<Longrightarrow> unat (hexdigit d) = (if d < 10 then 48 + d else 87 + d)"
  unfolding hexdigit_def by (cases "d < 10") (simp_all only: if_True if_False unat_of_nat, simp_all)

lemma hexdigit_inj:
  assumes "a < 16" "b < 16"
  shows "hexdigit a = hexdigit b \<longleftrightarrow> a = b"
proof
  assume "hexdigit a = hexdigit b"
  then have "unat (hexdigit a) = unat (hexdigit b)" by (simp only:)
  then have "(if a < 10 then 48 + a else 87 + a) = (if b < 10 then 48 + b else 87 + b)"
    unfolding unat_hexdigit [OF assms(1)] unat_hexdigit [OF assms(2)] .
  then show "a = b" by (simp split: if_splits)
qed simp

lemma length_hex [simp]: "length (hex bs) = 2 * length bs"
  by (induction bs) (simp_all add: hex_def)

lemma hex_inject: "hex a = hex b \<longleftrightarrow> a = b"
proof (induction a arbitrary: b)
  case Nil
  show ?case by (cases b) (simp_all add: hex_def)
next
  case (Cons x a)
  show ?case
  proof (cases b)
    case (Cons y b')
    have "unat w div 16 < 16" for w :: byte
      using unsigned_less [of w, where ?'a = nat] by (simp add: less_mult_imp_div_less)
    then have "hex (x # a) = hex (y # b') \<longleftrightarrow>
        unat x div 16 = unat y div 16 \<and> unat x mod 16 = unat y mod 16 \<and> hex a = hex b'"
      by (simp add: hex_def hexdigit_inj)
    also have "\<dots> \<longleftrightarrow> x = y \<and> a = b'"
      unfolding Cons.IH word_unat_eq_iff by (metis div_mod_decomp)
    finally show ?thesis using Cons by simp
  qed (simp add: hex_def)
qed

lemma length_uuid_canonical [simp]: "length (uuid_canonical u) = 36"
  by (simp add: uuid_canonical_def Let_def)

lemma uuid_canonical_inject [simp]: "uuid_canonical u = uuid_canonical v \<longleftrightarrow> u = v"
proof
  let ?h = "\<lambda>u. hex (uuid_bytes u)"
  have len: "length (?h w) = 32" for w by simp
  assume "uuid_canonical u = uuid_canonical v"
  then have "take 8 (?h u) = take 8 (?h v)" "take 4 (drop 8 (?h u)) = take 4 (drop 8 (?h v))"
    "take 4 (drop 12 (?h u)) = take 4 (drop 12 (?h v))"
    "take 4 (drop 16 (?h u)) = take 4 (drop 16 (?h v))" "drop 20 (?h u) = drop 20 (?h v)"
    by (simp_all add: uuid_canonical_def Let_def)
  moreover have "h = take 8 h @ take 4 (drop 8 h) @ take 4 (drop 12 h) @ take 4 (drop 16 h) @ drop 20 h"
    for h :: bytes
  proof -
    have "drop 16 h = take 4 (drop 16 h) @ drop 20 h" for h :: bytes
      using append_take_drop_id [of 4 "drop 16 h"] by simp
    moreover have "drop 12 h = take 4 (drop 12 h) @ drop 16 h" for h :: bytes
      using append_take_drop_id [of 4 "drop 12 h"] by simp
    moreover have "drop 8 h = take 4 (drop 8 h) @ drop 12 h" for h :: bytes
      using append_take_drop_id [of 4 "drop 8 h"] by simp
    ultimately show ?thesis by (metis append_take_drop_id)
  qed
  ultimately have "?h u = ?h v" by metis
  then show "u = v" by (simp add: hex_inject)
qed simp

section \<open>Base64\<close>

definition b64_std :: bytes where
  "b64_std = ascii ''ABCDEFGHIJKLMNOPQRSTUVWXYZabcdefghijklmnopqrstuvwxyz0123456789+/''"

definition b64_url :: bytes where
  "b64_url = ascii ''ABCDEFGHIJKLMNOPQRSTUVWXYZabcdefghijklmnopqrstuvwxyz0123456789-_''"

text \<open>The six-bit groups, three bytes at a time; one or two last bytes give two or three groups.\<close>

fun sixes :: "nat list \<Rightarrow> nat list" where
  "sixes (a # b # c # r) =
     (a div 4) # (a mod 4 * 16 + b div 16) # (b mod 16 * 4 + c div 64) # (c mod 64) # sixes r"
| "sixes [a, b] = [a div 4, a mod 4 * 16 + b div 16, b mod 16 * 4]"
| "sixes [a] = [a div 4, a mod 4 * 16]"
| "sixes [] = []"

definition RawURLEncode :: "bytes \<Rightarrow> bytes" where
  "RawURLEncode bs = map ((!) b64_url) (sixes (map unat bs))"

definition b64_pad :: "bytes \<Rightarrow> bytes" where
  "b64_pad bs = replicate ((3 - length bs mod 3) mod 3) 61"

definition StdEncode :: "bytes \<Rightarrow> bytes" where
  "StdEncode bs = map ((!) b64_std) (sixes (map unat bs)) @ b64_pad bs"

text \<open>\<^verbatim>\<open>base64.URLEncoding\<close>: the URL alphabet with padding.\<close>

definition URLEncode :: "bytes \<Rightarrow> bytes" where
  "URLEncode bs = RawURLEncode bs @ b64_pad bs"

lemma six_bounds:
  fixes a b c :: nat
  assumes "a < 256" "b < 256" "c < 256"
  shows "a div 4 < 64" "a mod 4 * 16 + b div 16 < 64" "b mod 16 * 4 + c div 64 < 64"
    "a mod 4 * 16 < 64" "b mod 16 * 4 < 64" "c mod 64 < 64"
proof -
  have "b div 16 < 16" "c div 64 < 4" "a mod 4 < 4" "b mod 16 < 16"
    using assms by (simp_all add: less_mult_imp_div_less)
  then show "a mod 4 * 16 + b div 16 < 64" "b mod 16 * 4 + c div 64 < 64"
    "a mod 4 * 16 < 64" "b mod 16 * 4 < 64" by linarith+
qed (use assms in \<open>simp_all add: less_mult_imp_div_less\<close>)

lemma sixes_bound: "\<forall>x\<in>set xs. x < 256 \<Longrightarrow> \<forall>y\<in>set (sixes xs). y < 64"
proof (induction xs rule: sixes.induct)
  case (1 a b c r)
  then show ?case using six_bounds [of a b c] by simp
next
  case (2 a b)
  then show ?case using six_bounds [of a b 0] by simp
next
  case (3 a)
  then show ?case using six_bounds [of a 0 0] by simp
qed simp

text \<open>Pieces of a number below and above a digit determine it.\<close>

lemma split_eq:
  fixes p p' q q' k :: nat
  assumes "p * k + q = p' * k + q'" "q < k" "q' < k"
  shows "p = p'" "q = q'"
proof -
  have "(p * k + q) div k = p" "(p' * k + q') div k = p'" using assms(2,3) by simp_all
  with assms(1) show "p = p'" by simp
  with assms(1) show "q = q'" by simp
qed

lemma six_inject:
  fixes a b c :: nat
  assumes "b < 256" "b' < 256" "c < 256" "c' < 256"
  shows "a div 4 = a' div 4 \<Longrightarrow> a mod 4 * 16 + b div 16 = a' mod 4 * 16 + b' div 16 \<Longrightarrow>
      a = a' \<and> b div 16 = b' div 16"
    and "b div 16 = b' div 16 \<Longrightarrow> b mod 16 * 4 + c div 64 = b' mod 16 * 4 + c' div 64 \<Longrightarrow>
      b = b' \<and> c div 64 = c' div 64"
    and "c div 64 = c' div 64 \<Longrightarrow> c mod 64 = c' mod 64 \<Longrightarrow> c = c'"
proof -
  have lt: "b div 16 < 16" "b' div 16 < 16" "c div 64 < 4" "c' div 64 < 4"
    using assms by (simp_all add: less_mult_imp_div_less)
  show "a = a' \<and> b div 16 = b' div 16"
    if "a div 4 = a' div 4" "a mod 4 * 16 + b div 16 = a' mod 4 * 16 + b' div 16"
    using split_eq [OF that(2) lt(1,2)] that(1) by (metis div_mod_decomp)
  show "b = b' \<and> c div 64 = c' div 64"
    if "b div 16 = b' div 16" "b mod 16 * 4 + c div 64 = b' mod 16 * 4 + c' div 64"
    using split_eq [OF that(2) lt(3,4)] that(1) by (metis div_mod_decomp)
  show "c = c'" if "c div 64 = c' div 64" "c mod 64 = c' mod 64"
    using that by (metis div_mod_decomp)
qed

lemma sixes_inject:
  "sixes xs = sixes ys \<Longrightarrow> \<forall>x\<in>set xs. x < 256 \<Longrightarrow> \<forall>y\<in>set ys. y < 256 \<Longrightarrow> xs = ys"
proof (induction xs arbitrary: ys rule: sixes.induct)
  case (1 a b c r)
  then obtain a' b' c' r' where ys: "ys = a' # b' # c' # r'"
    by (cases ys rule: sixes.cases) simp_all
  have eqs: "a div 4 = a' div 4" "a mod 4 * 16 + b div 16 = a' mod 4 * 16 + b' div 16"
    "b mod 16 * 4 + c div 64 = b' mod 16 * 4 + c' div 64" "c mod 64 = c' mod 64" "sixes r = sixes r'"
    using "1.prems"(1) unfolding ys sixes.simps list.inject by blast+
  have "b < 256" "b' < 256" "c < 256" "c' < 256" using "1.prems" ys by simp_all
  note six = six_inject [OF this]
  have "a = a'" "b div 16 = b' div 16" using six(1) [OF eqs(1,2)] by blast+
  moreover from six(2) [OF this(2) eqs(3)] have "b = b'" "c div 64 = c' div 64" by blast+
  moreover from six(3) [OF this(2) eqs(4)] have "c = c'" .
  moreover have "r = r'" using "1.IH" [OF eqs(5)] "1.prems" ys by simp
  ultimately show ?case using ys by (simp only:)
next
  case (2 a b)
  then obtain a' b' where ys: "ys = [a', b']" by (cases ys rule: sixes.cases) simp_all
  have eqs: "a div 4 = a' div 4" "a mod 4 * 16 + b div 16 = a' mod 4 * 16 + b' div 16"
    "b mod 16 * 4 = b' mod 16 * 4"
    using "2.prems"(1) unfolding ys sixes.simps list.inject by blast+
  have "b < 256" "b' < 256" "0 < (256::nat)" using "2.prems" ys by simp_all
  note six = six_inject [OF this(1,2,3,3)]
  have "a = a'" "b div 16 = b' div 16" using six(1) [OF eqs(1,2)] by blast+
  moreover from six(2) [OF this(2)] eqs(3) have "b = b'" by simp
  ultimately show ?case using ys by (simp only:)
next
  case (3 a)
  then obtain a' where ys: "ys = [a']" by (cases ys rule: sixes.cases) simp_all
  have eqs: "a div 4 = a' div 4" "a mod 4 * 16 = a' mod 4 * 16"
    using "3.prems"(1) unfolding ys sixes.simps list.inject by blast+
  then have "a = a'" using six_inject(1) [of 0 0 0 0 a a'] by simp
  then show ?case using ys by (simp only:)
next
  case 4
  then show ?case by (cases ys rule: sixes.cases) simp_all
qed

lemma RawURLEncode_inject: "RawURLEncode a = RawURLEncode b \<longleftrightarrow> a = b"
proof
  assume eq: "RawURLEncode a = RawURLEncode b"
  have inj: "inj_on ((!) b64_url) {x. x < 64}"
  proof (rule inj_onI)
    fix x y assume "x \<in> {x. x < 64}" "y \<in> {x. x < 64}" "b64_url ! x = b64_url ! y"
    moreover have "distinct b64_url" "length b64_url = 64"
      by (simp_all add: b64_url_def ascii_def)
    ultimately show "x = y" by (simp add: nth_eq_iff_index_eq)
  qed
  have byte: "\<forall>x\<in>set (map unat w). x < 256" for w :: bytes
    using unsigned_less [where ?'b = 8 and ?'a = nat] by auto
  have "sixes (map unat a) = sixes (map unat b)"
    using eq sixes_bound [OF byte [of a]] sixes_bound [OF byte [of b]]
    by (intro map_inj_on [OF eq [unfolded RawURLEncode_def]] inj_on_subset [OF inj]) auto
  then have "map unat a = map unat b" using sixes_inject byte by blast
  then show "a = b" by (simp add: inj_map_eq_map inj_on_def word_unat_eq_iff)
qed simp

end
