(* ===== verification/Realtime.thy ===== *)
theory Realtime
  imports Userlink Encoding
begin

text \<open>
  \<^verbatim>\<open>server/internal/ws\<close>: events and their closed set of types, the hub that fans an
  event out to the bounded outboxes of a user's connections, and the single-use tickets a client
  opens a connection with. A connection is a number (the pointer the code compares); the socket
  itself is not modelled, its reader is the step that takes an event out of an outbox.
\<close>

section \<open>Events\<close>

definition EventEpochChanged :: string where "EventEpochChanged = ''e2ee.epoch_changed''"
definition EventManifestUpdated :: string where "EventManifestUpdated = ''e2ee.manifest_updated''"
definition EventMemberAdded :: string where "EventMemberAdded = ''e2ee.member_added''"
definition EventMemberRevoked :: string where "EventMemberRevoked = ''e2ee.member_revoked''"
definition EventMemberUpdated :: string where "EventMemberUpdated = ''e2ee.member_updated''"
definition EventMediaAdded :: string where "EventMediaAdded = ''e2ee.media_added''"
definition EventMediaDeleted :: string where "EventMediaDeleted = ''e2ee.media_deleted''"
definition EventAlbumDeleted :: string where "EventAlbumDeleted = ''e2ee.album_deleted''"
definition EventOPKLow :: string where "EventOPKLow = ''e2ee.opk_low''"

lemmas event_names = EventEpochChanged_def EventManifestUpdated_def EventMemberAdded_def
  EventMemberRevoked_def EventMemberUpdated_def EventMediaAdded_def EventMediaDeleted_def
  EventAlbumDeleted_def EventOPKLow_def

definition allowedEventTypes :: "string list" where
  "allowedEventTypes = [EventEpochChanged, EventManifestUpdated, EventMemberAdded,
     EventMemberRevoked, EventMemberUpdated, EventMediaAdded, EventMediaDeleted, EventAlbumDeleted,
     EventOPKLow]"

text \<open>The payloads are JSON objects; a time stamp is kept as one, an identifier in a
  \<^verbatim>\<open>uuid.UUID\<close> field prints as its text.\<close>

datatype payload_value =
  PText bytes | PInt int | PBool bool | PTime time | PNull | PTexts "bytes list"
| PObj "(string \<times> payload_value) list"

type_synonym payload = "(string \<times> payload_value) list"

record event =
  ev_type :: string
  ev_payload :: payload

definition NewEvent :: "string \<Rightarrow> payload \<Rightarrow> err + event" where
  "NewEvent typ p =
     (if typ \<notin> set allowedEventTypes then Inl (ErrText ''ws: unknown event type'')
      else Inr \<lparr>ev_type = typ, ev_payload = p\<rparr>)"

text \<open>What a caller of \<^verbatim>\<open>EmitToUsers\<close> asks for.\<close>

record emission =
  to_users :: "uuid list"
  em_type :: string
  em_payload :: payload

section \<open>Hub\<close>

definition sendBufSize :: nat where "sendBufSize = 64"

record hub =
  conns :: "uuid \<Rightarrow> nat list"
  outbox :: "nat \<Rightarrow> event list"

definition NewHub :: hub where "NewHub = \<lparr>conns = (\<lambda>_. []), outbox = (\<lambda>_. [])\<rparr>"

text \<open>A missing key of the Go map reads as the empty slice, so deleting the key of a user with no
  connection left is setting it to the empty list.\<close>

definition Register :: "uuid \<Rightarrow> nat \<Rightarrow> hub \<Rightarrow> hub" where
  "Register u c h = h\<lparr>conns := (conns h)(u := conns h u @ [c])\<rparr>"

definition Unregister :: "uuid \<Rightarrow> nat \<Rightarrow> hub \<Rightarrow> hub" where
  "Unregister u c h = h\<lparr>conns := (conns h)(u := filter (\<lambda>e. e \<noteq> c) (conns h u))\<rparr>"

text \<open>\<^verbatim>\<open>send\<close> never blocks: a full outbox drops the event.\<close>

definition send :: "event \<Rightarrow> nat \<Rightarrow> hub \<Rightarrow> hub" where
  "send e c h = (if length (outbox h c) < sendBufSize
     then h\<lparr>outbox := (outbox h)(c := outbox h c @ [e])\<rparr> else h)"

definition Broadcast :: "uuid list \<Rightarrow> event \<Rightarrow> hub \<Rightarrow> hub" where
  "Broadcast us e h = fold (\<lambda>u h. fold (send e) (conns h u) h) us h"

definition EmitToUsers :: "emission \<Rightarrow> hub \<Rightarrow> (err + unit) \<times> hub" where
  "EmitToUsers em h =
     (case NewEvent (em_type em) (em_payload em) of
        Inl e \<Rightarrow> (Inl e, h) | Inr ev \<Rightarrow> (Inr (), Broadcast (to_users em) ev h))"

text \<open>The write loop of \<^verbatim>\<open>Run\<close> receives the oldest event of the outbox.\<close>

definition conn_receive :: "nat \<Rightarrow> hub \<Rightarrow> event option \<times> hub" where
  "conn_receive c h = (case outbox h c of [] \<Rightarrow> (None, h)
     | e # es \<Rightarrow> (Some e, h\<lparr>outbox := (outbox h)(c := es)\<rparr>))"

datatype hub_op = HRegister uuid nat | HUnregister uuid nat | HEmit emission | HReceive nat

fun hub_step :: "hub_op \<Rightarrow> hub \<Rightarrow> hub" where
  "hub_step (HRegister u c) h = Register u c h"
| "hub_step (HUnregister u c) h = Unregister u c h"
| "hub_step (HEmit em) h = snd (EmitToUsers em h)"
| "hub_step (HReceive c) h = snd (conn_receive c h)"

definition hub_bounded :: "hub \<Rightarrow> bool" where
  "hub_bounded h \<longleftrightarrow> (\<forall>c. length (outbox h c) \<le> sendBufSize \<and>
     (\<forall>e\<in>set (outbox h c). ev_type e \<in> set allowedEventTypes))"

lemma conns_send [simp]: "conns (send e c h) = conns h"
  by (simp add: send_def)

lemma conns_sends [simp]: "conns (fold (send e) cs h) = conns h"
  by (induction cs arbitrary: h) simp_all

lemma Broadcast_simps:
  "Broadcast [] e h = h"
  "Broadcast (u # us) e h = Broadcast us e (fold (send e) (conns h u) h)"
  by (simp_all add: Broadcast_def)

lemma conns_Broadcast [simp]: "conns (Broadcast us e h) = conns h"
  by (induction us arbitrary: h) (simp_all add: Broadcast_simps)

lemma Broadcast_sends: "Broadcast us e h = fold (send e) (concat (map (conns h) us)) h"
  by (induction us arbitrary: h) (simp_all add: Broadcast_simps)

lemma outbox_send:
  "outbox (send e c h) k = (if k = c \<and> length (outbox h c) < sendBufSize
     then outbox h c @ [e] else outbox h k)"
  by (simp add: send_def)

text \<open>Each occurrence of a connection among the recipients adds the event once, up to the size of
  the outbox; nothing that was queued is lost or reordered.\<close>

lemma outbox_sends:
  assumes "length (outbox h k) \<le> sendBufSize"
  shows "outbox (fold (send e) cs h) k =
     outbox h k @ replicate (min (count_list cs k) (sendBufSize - length (outbox h k))) e"
  using assms
proof (induction cs arbitrary: h)
  case (Cons c cs)
  let ?h = "send e c h"
  have len: "length (outbox ?h k) \<le> sendBufSize" using Cons.prems by (simp add: outbox_send)
  show ?case
  proof (cases "k = c \<and> length (outbox h c) < sendBufSize")
    case True
    then have "outbox ?h k = outbox h k @ [e]" by (simp add: outbox_send)
    with Cons.IH [OF len] True show ?thesis
      by (simp add: min_def Suc_diff_Suc [symmetric] replicate_app_Cons_same)
  next
    case False
    then have "outbox ?h k = outbox h k" by (auto simp: outbox_send)
    with Cons.IH [OF len] False Cons.prems show ?thesis by (auto simp: min_def)
  qed
qed simp

lemma NewEvent_type: "NewEvent typ p = Inr ev \<Longrightarrow> ev_type ev \<in> set allowedEventTypes"
  by (auto simp: NewEvent_def split: if_splits)

lemma Broadcast_bounded:
  assumes "hub_bounded h" "ev_type e \<in> set allowedEventTypes"
  shows "hub_bounded (Broadcast us e h)"
proof -
  have "length (outbox h c) + min n (sendBufSize - length (outbox h c)) \<le> sendBufSize" for c n
  proof -
    have "length (outbox h c) \<le> sendBufSize" using assms(1) by (simp add: hub_bounded_def)
    then show ?thesis by linarith
  qed
  then show ?thesis using assms unfolding hub_bounded_def Broadcast_sends
    by (auto simp: outbox_sends)
qed

lemma hub_step_bounded: "hub_bounded h \<Longrightarrow> hub_bounded (hub_step a h)"
proof (cases a)
  case (HEmit em)
  assume "hub_bounded h"
  then show ?thesis unfolding HEmit
    by (auto simp: EmitToUsers_def intro!: Broadcast_bounded dest: NewEvent_type split: sum.split)
next
  case (HReceive c)
  assume "hub_bounded h"
  then show ?thesis unfolding HReceive hub_bounded_def
    by (auto simp: conn_receive_def split: list.split) (metis Suc_leD length_Cons, metis list.set_intros(2))
qed (simp_all add: Register_def Unregister_def hub_bounded_def)

interpretation hub: transition_system hub_step hub_bounded
  by unfold_locales (rule hub_step_bounded)

section \<open>Tickets\<close>

text \<open>A Redis string key with a time to live: \<^verbatim>\<open>GET\<close> shows it until it expires.\<close>

type_synonym 'v ttl_map = "bytes \<rightharpoonup> 'v \<times> time"

definition redis_get :: "time \<Rightarrow> 'v ttl_map \<Rightarrow> bytes \<Rightarrow> 'v option" where
  "redis_get now m k = (case m k of None \<Rightarrow> None | Some (v, e) \<Rightarrow> if now < e then Some v else None)"

definition redis_set :: "time \<Rightarrow> bytes \<Rightarrow> 'v \<Rightarrow> time \<Rightarrow> 'v ttl_map \<Rightarrow> 'v ttl_map" where
  "redis_set now k v ttl m = m(k \<mapsto> (v, now + ttl))"

definition redis_del :: "bytes \<Rightarrow> 'v ttl_map \<Rightarrow> 'v ttl_map" where
  "redis_del k m = m(k := None)"

lemma redis_get_expired: "t \<le> t' \<Longrightarrow> redis_get t m k = None \<Longrightarrow> redis_get t' m k = None"
  by (auto simp: redis_get_def split: option.splits if_splits)

lemma redis_get_set: "redis_get t (redis_set now k v ttl m) k' =
   (if k' = k then if t < now + ttl then Some v else None else redis_get t m k')"
  by (simp add: redis_get_def redis_set_def)

lemma redis_get_del: "redis_get t (redis_del k m) k' = (if k' = k then None else redis_get t m k')"
  by (simp add: redis_get_def redis_del_def)

definition ticketTTL :: time where "ticketTTL = seconds 60"
definition ticketPrefix :: bytes where "ticketPrefix = ascii ''ws-ticket:''"

text \<open>\<open>raw\<close> is what \<^verbatim>\<open>rand.Read\<close> filled in.\<close>

definition ticket_Issue ::
  "env \<Rightarrow> time \<Rightarrow> bytes \<Rightarrow> uuid \<Rightarrow> bytes ttl_map \<Rightarrow> (bytes \<times> time) \<times> bytes ttl_map" where
  "ticket_Issue E now raw userID m =
     (let ticket = RawURLEncode raw
      in ((ticket, now + ticketTTL),
          redis_set now (ticketPrefix @ ticket) (uuid_String E userID) ticketTTL m))"

definition consumeScript :: "time \<Rightarrow> bytes \<Rightarrow> bytes ttl_map \<Rightarrow> bytes option \<times> bytes ttl_map" where
  "consumeScript now k m =
     (case redis_get now m k of None \<Rightarrow> (None, m) | Some v \<Rightarrow> (Some v, redis_del k m))"

definition ticket_Consume ::
  "env \<Rightarrow> time \<Rightarrow> bytes \<Rightarrow> bytes ttl_map \<Rightarrow> uuid option \<times> bytes ttl_map" where
  "ticket_Consume E now ticket m =
     (case consumeScript now (ticketPrefix @ ticket) m of
        (None, m') \<Rightarrow> (None, m')
      | (Some v, m') \<Rightarrow> (uuid_Parse E v, m'))"

text \<open>The store as a client sees it: what a ticket stands for.\<close>

definition ticket_view :: "env \<Rightarrow> time \<Rightarrow> bytes ttl_map \<Rightarrow> bytes \<Rightarrow> uuid option" where
  "ticket_view E now m ticket =
     (case redis_get now m (ticketPrefix @ ticket) of None \<Rightarrow> None | Some v \<Rightarrow> uuid_Parse E v)"

definition ticket_put :: "env \<Rightarrow> time \<Rightarrow> bytes \<Rightarrow> uuid \<Rightarrow> bytes ttl_map \<Rightarrow> bytes ttl_map" where
  "ticket_put E now ticket userID m =
     redis_set now (ticketPrefix @ ticket) (uuid_String E userID) ticketTTL m"

lemma ticket_Issue_put:
  "ticket_Issue E now raw u m = ((RawURLEncode raw, now + ticketTTL), ticket_put E now (RawURLEncode raw) u m)"
  by (simp add: ticket_Issue_def ticket_put_def Let_def)

lemma ticket_view_expired: "t \<le> t' \<Longrightarrow> ticket_view E t m k = None \<Longrightarrow> ticket_view E t' m k = None"
  by (auto simp: ticket_view_def redis_get_def split: option.splits if_splits)

lemma redis_get_later: "t \<le> t' \<Longrightarrow> redis_get t' m k = Some v \<Longrightarrow> redis_get t m k = Some v"
  by (auto simp: redis_get_def split: option.splits if_splits)

interpretation tickets: take_once "ticket_view E" "ticket_Consume E" "ticket_put E" for E
  by unfold_locales
    (auto simp: ticket_view_def ticket_Consume_def consumeScript_def ticket_put_def redis_get_set
      redis_get_del split: option.splits dest: redis_get_expired redis_get_later)

end
