(* ===== verification/Invites.thy ===== *)
theory Invites
  imports Epochs Users Handles Realtime
begin

text \<open>
  \<^verbatim>\<open>server/internal/e2ee/invite\<close>: an admin delivers every epoch key of an album to an
  existing account, which makes it a member; the new member acknowledges with a signed receipt.
\<close>

section \<open>Repository\<close>

record envelope =
  env_epoch :: int
  env_nonce :: bytes
  env_tag_ct :: bytes
  env_sig :: bytes

record deliver_member_input =
  dm_album :: uuid
  dm_user :: uuid
  dm_sender :: bytes
  dm_ek_pub :: bytes
  dm_opk :: "int option"
  dm_envelopes :: "envelope list"

definition MaxAlbumMembers :: nat where "MaxAlbumMembers = 10"

definition inv_CurrentEpoch :: "uuid \<Rightarrow> db \<Rightarrow> int" where
  "inv_CurrentEpoch a d = max_epoch d a"

definition IKByMemberToken :: "env \<Rightarrow> bytes \<Rightarrow> db \<Rightarrow> err + bytes" where
  "IKByMemberToken E t d =
     (case ik_of_token E t d of None \<Rightarrow> Inl (Invite ErrIKNotFound) | Some ik \<Rightarrow> Inr ik)"

definition MarkReceived :: "time \<Rightarrow> bytes \<Rightarrow> int \<Rightarrow> (err, unit, db) tx" where
  "MarkReceived now t ep d =
     (if \<not> int4 ep then Inl DbError
      else Inr ((), d\<lparr>amids := sql_update (\<lambda>i. i_token i = t)
        (\<lambda>i. i\<lparr>last_received_epoch := Some (max (case last_received_epoch i of None \<Rightarrow> -1 | Some e \<Rightarrow> e) ep),
              last_received_at := Some now\<rparr>) (amids d)\<rparr>))"

definition ActiveMemberUserIDs :: "env \<Rightarrow> uuid \<Rightarrow> db \<Rightarrow> uuid list" where
  "ActiveMemberUserIDs E a d = open_all E (active_identities d a)"

text \<open>The check under the album lock. \<open>account_open\<close> is the two lookups of the user map: the
  account exists and is not being deleted.\<close>

definition account_open :: "db \<Rightarrow> uuid \<Rightarrow> bool" where
  "account_open d u = (case find_user d u of None \<Rightarrow> False | Some r \<Rightarrow> deleting_at r = None)"

definition recheckUnderLock :: "env \<Rightarrow> deliver_member_input \<Rightarrow> db \<Rightarrow> err + unit" where
  "recheckUnderLock E inp d =
     (case find_member d (dm_album inp) (dm_sender inp) of
        None \<Rightarrow> Inl (Invite ErrSenderRevoked)
      | Some m \<Rightarrow> (case find_amid d (dm_sender inp) of
          None \<Rightarrow> Inl (Invite ErrSenderRevoked)
        | Some i \<Rightarrow>
          if revoked_at m \<noteq> None then Inl (Invite ErrSenderRevoked)
          else if role m \<noteq> Admin then Inl (Invite ErrSenderNotAdmin)
          else (case lopen E (user_id_enc i) (dm_sender inp) of
            Inl _ \<Rightarrow> Inl (Invite ErrSenderRevoked)
          | Inr sender \<Rightarrow>
            if \<not> account_open d sender then Inl (Invite ErrSenderRevoked)
            else if \<not> account_open d (dm_user inp) then Inl (Invite ErrTargetDeleting)
            else if dm_envelopes inp = [] \<or>
                env_epoch (last (dm_envelopes inp)) \<noteq> max_epoch d (dm_album inp)
              then Inl (Invite ErrEpochMoved)
            else (case RotationRequiredExpr d (dm_album inp) of
                None \<Rightarrow> Inl DbError
              | Some owed \<Rightarrow> if owed then Inl (Invite InviteErrPendingRotation) else Inr ()))))"

text \<open>\<^verbatim>\<open>INSERT INTO album_epoch_wraps ... ON CONFLICT DO UPDATE\<close>; the delivery time of
  a replaced row stays.\<close>

definition upsert_wrap :: "wrap \<Rightarrow> db \<Rightarrow> err + db" where
  "upsert_wrap w d =
     (if has_wrap d (w_album w) (w_epoch w) (recipient_token w)
      then Inr (d\<lparr>wraps := sql_update
        (\<lambda>x. w_album x = w_album w \<and> w_epoch x = w_epoch w \<and> recipient_token x = recipient_token w)
        (\<lambda>x. w\<lparr>delivered_at := delivered_at x\<rparr>) (wraps d)\<rparr>)
      else insert_wrap w d)"

fun upsert_wraps :: "wrap list \<Rightarrow> db \<Rightarrow> err + db" where
  "upsert_wraps [] d = Inr d"
| "upsert_wraps (w # ws) d = (case upsert_wrap w d of Inl e \<Rightarrow> Inl e | Inr d' \<Rightarrow> upsert_wraps ws d')"

definition envelope_row :: "time \<Rightarrow> deliver_member_input \<Rightarrow> bytes \<Rightarrow> envelope \<Rightarrow> wrap" where
  "envelope_row now inp token e =
     \<lparr>w_album = dm_album inp, w_epoch = env_epoch e, recipient_token = token,
      ek_pub = dm_ek_pub inp, opk_idx_used = dm_opk inp, wrap_nonce = env_nonce e,
      wrap_tag_ct = env_tag_ct e, sender_token = dm_sender inp, sender_sig = env_sig e,
      delivered_at = trunc_hour now\<rparr>"

definition consume_opk :: "uuid \<Rightarrow> int \<Rightarrow> db \<Rightarrow> db" where
  "consume_opk u idx d = d\<lparr>opks := sql_update (\<lambda>r. o_user r = u \<and> opk_idx r = idx)
     (\<lambda>r. r\<lparr>consumed := True\<rparr>) (opks d)\<rparr>"

text \<open>The write half, after identity and membership are settled.\<close>

definition deliver_wraps :: "time \<Rightarrow> deliver_member_input \<Rightarrow> bytes \<Rightarrow> (err, bytes, db) tx" where
  "deliver_wraps now inp token d =
     (if \<exists>e\<in>set (dm_envelopes inp). \<not> int4 (env_epoch e) then Inl DbError
      else if (case dm_opk inp of None \<Rightarrow> False | Some i \<Rightarrow> \<not> int4 i) then Inl DbError
      else case upsert_wraps (map (envelope_row now inp token) (dm_envelopes inp)) d of
        Inl e \<Rightarrow> Inl e
      | Inr d' \<Rightarrow> Inr (token, case dm_opk inp of None \<Rightarrow> d' | Some i \<Rightarrow> consume_opk (dm_user inp) i d'))"

definition reactivate_member :: "uuid \<Rightarrow> bytes \<Rightarrow> db \<Rightarrow> db" where
  "reactivate_member a t d = d\<lparr>members := sql_update (\<lambda>m. m_album m = a \<and> m_token m = t)
     (\<lambda>m. m\<lparr>revoked_at := None, role := Member, m_name_ct := None\<rparr>) (members d)\<rparr>"

text \<open>\<open>fresh\<close> is what \<^verbatim>\<open>rand.Read\<close> filled the new token with.\<close>

definition DeliverMember ::
  "env \<Rightarrow> time \<Rightarrow> bytes \<Rightarrow> deliver_member_input \<Rightarrow> (err, bytes, db) tx" where
  "DeliverMember E now fresh inp d =
     (case find_album d (dm_album inp) of None \<Rightarrow> Inl ErrNoRows
      | Some _ \<Rightarrow>
        (case recheckUnderLock E inp d of Inl e \<Rightarrow> Inl e
         | Inr _ \<Rightarrow>
           let h = lhash E (dm_user inp)
           in (case membership_of d h (dm_album inp) of
                 Some (i, m) \<Rightarrow>
                   if revoked_at m = None then Inl (Invite ErrAlreadyMember)
                   else if active_count d (dm_album inp) \<ge> MaxAlbumMembers then Inl (Invite ErrAlbumFull)
                   else deliver_wraps now inp (i_token i) (reactivate_member (dm_album inp) (i_token i) d)
               | None \<Rightarrow>
                   (case lseal E (dm_user inp) fresh of Inl e \<Rightarrow> Inl e
                    | Inr sealed \<Rightarrow>
                      (case insert_amid \<lparr>i_token = fresh, user_handle = h, user_id_enc = sealed,
                          i_album = dm_album inp, joined_at = trunc_hour now,
                          last_received_epoch = None, last_received_at = None\<rparr> d of
                         None \<Rightarrow> Inl (Invite ErrAlreadyMember)
                       | Some d1 \<Rightarrow>
                         if active_count d1 (dm_album inp) \<ge> MaxAlbumMembers
                           then Inl (Invite ErrAlbumFull)
                         else (case insert_member \<lparr>m_album = dm_album inp, m_token = fresh,
                               role = Member, revoked_at = None, m_name_ct = None\<rparr> d1 of
                             Inl e \<Rightarrow> Inl e
                           | Inr d2 \<Rightarrow> deliver_wraps now inp fresh d2))))))"

section \<open>Service\<close>

record deliver_user_input =
  du_target :: bytes
  du_ek_pub :: bytes
  du_opk :: "int option"
  du_envelopes :: "envelope list"

text \<open>The loop over the sorted envelopes; \<open>i\<close> is the index of the first.\<close>

fun check_envelopes :: "int \<Rightarrow> envelope list \<Rightarrow> err option" where
  "check_envelopes i [] = None"
| "check_envelopes i (e # es) =
     (if env_epoch e \<noteq> i
        then Some (Api E_VALIDATION ''envelopes must contiguously cover epochs 0..current'')
      else if length (env_nonce e) \<noteq> 12
        then Some (Api E_VALIDATION ''envelopes[].wrap_nonce must be 12 bytes'')
      else if length (env_tag_ct e) \<noteq> 48
        then Some (Api E_VALIDATION ''envelopes[].wrap_tag_ct must be 48 bytes'')
      else if length (env_sig e) \<noteq> 64
        then Some (Api E_VALIDATION ''envelopes[].sender_sig must be 64 bytes'')
      else check_envelopes (i + 1) es)"

definition deliver_error :: "err \<Rightarrow> err" where
  "deliver_error e =
     (case e of
        Invite ErrAlreadyMember \<Rightarrow> Api E_CONFLICT ''target is already a member of this album''
      | Invite ErrAlbumFull \<Rightarrow> Api E_ALBUM_FULL ''invite: album has reached the maximum number of members''
      | Invite ErrSenderRevoked \<Rightarrow> Api E_MEMBER_REVOKED ''your access to this album has been revoked''
      | Invite ErrSenderNotAdmin \<Rightarrow> Api E_FORBIDDEN ''only the admin can invite''
      | Invite ErrEpochMoved \<Rightarrow> Api E_EPOCH_REPLAY ''envelopes must cover up to the current epoch''
      | Invite InviteErrPendingRotation \<Rightarrow>
          Api E_EPOCH_PENDING_ROTATION ''album keys are being replaced ; invite again once they update''
      | Invite ErrTargetDeleting \<Rightarrow> Api E_NOT_FOUND ''user not found''
      | _ \<Rightarrow> e)"

definition DeliverExistingUser ::
  "env \<Rightarrow> time \<Rightarrow> bytes \<Rightarrow> uuid \<Rightarrow> bytes \<Rightarrow> role \<Rightarrow> deliver_user_input \<Rightarrow> (err, bytes \<times> uuid, db) tx" where
  "DeliverExistingUser E now fresh albumID callerToken callerRole inp d =
     (if callerRole \<noteq> Admin then Inl (Api E_FORBIDDEN ''only the admin can invite'')
      else if length (du_ek_pub inp) \<noteq> 32 then Inl (Api E_VALIDATION ''ek_pub must be 32 bytes'')
      else if (case du_opk inp of None \<Rightarrow> False | Some i \<Rightarrow> i < 0)
        then Inl (Api E_VALIDATION ''opk_idx_used must be >= 0 when present'')
      else case Normalize (du_target inp) of Inl _ \<Rightarrow> Inl (Api E_NOT_FOUND ''user not found'')
      | Inr norm \<Rightarrow>
        (case FindUserIDByMiuchioID norm d of
           Inl e \<Rightarrow> Inl (if e = Repo ErrUserNotFound then Api E_NOT_FOUND ''user not found'' else e)
         | Inr userID \<Rightarrow>
           let current = inv_CurrentEpoch albumID d;
               sorted = sort_key env_epoch (du_envelopes inp)
           in if current < 0 then Inl (Api E_VALIDATION ''album has no epochs to deliver'')
              else if du_envelopes inp = [] then Inl (Api E_VALIDATION ''envelopes must be a non-empty array'')
              else if env_epoch (last sorted) \<noteq> current
                then Inl (Api E_EPOCH_REPLAY ''envelopes must cover up to the current epoch'')
              else if int (length sorted) \<noteq> current + 1
                then Inl (Api E_VALIDATION ''envelopes must contiguously cover epochs 0..current'')
              else case check_envelopes 0 sorted of Some e \<Rightarrow> Inl e
              | None \<Rightarrow>
                (case DeliverMember E now fresh \<lparr>dm_album = albumID, dm_user = userID,
                    dm_sender = callerToken, dm_ek_pub = du_ek_pub inp, dm_opk = du_opk inp,
                    dm_envelopes = sorted\<rparr> d of
                   Inl e \<Rightarrow> Inl (deliver_error e)
                 | Inr (token, d') \<Rightarrow> Inr ((token, userID), d'))))"

definition joinCompletePrefix :: bytes where "joinCompletePrefix = ascii ''join-complete-v1''"

definition JoinCompleteMsg :: "uuid \<Rightarrow> int \<Rightarrow> bytes \<Rightarrow> bytes" where
  "JoinCompleteMsg albumID ep ekPubAdmin =
     joinCompletePrefix @ uuid_bytes albumID @ be32 (uint32 ep) @ ekPubAdmin"

definition JoinComplete ::
  "env \<Rightarrow> time \<Rightarrow> uuid \<Rightarrow> bytes \<Rightarrow> int \<Rightarrow> bytes \<Rightarrow> bytes \<Rightarrow> (err, unit, db) tx" where
  "JoinComplete E now albumID callerToken ep ekPubAdmin sig d =
     (if ep < 0 then Inl (Api E_VALIDATION ''epoch must be >= 0'')
      else if length ekPubAdmin \<noteq> 32 then Inl (Api E_VALIDATION ''ek_pub_admin must be 32 bytes'')
      else if length sig \<noteq> 64 then Inl (Api E_VALIDATION ''sig must be 64 bytes'')
      else case IKByMemberToken E callerToken d of
        Inl e \<Rightarrow> Inl (if e = Invite ErrIKNotFound
                   then Api E_SIG_INVALID ''cannot resolve caller identity'' else e)
      | Inr ikPub \<Rightarrow>
        (case VerifyEd25519 (cryp E) ikPub (JoinCompleteMsg albumID ep ekPubAdmin) sig of
           Inl _ \<Rightarrow> Inl (Api E_SIG_INVALID ''join-complete signature verification failed'')
         | Inr _ \<Rightarrow> MarkReceived now callerToken ep d))"

section \<open>Fan-out\<close>

text \<open>What the handlers broadcast after a committed rotation and a committed invite.\<close>

definition epoch_fanout :: "env \<Rightarrow> uuid \<Rightarrow> int \<Rightarrow> bytes list \<Rightarrow> db \<Rightarrow> emission list" where
  "epoch_fanout E albumID ep tokens d =
     (let us = UserIDsByMemberTokens E tokens d
      in if us = [] then []
         else [\<lparr>to_users = us, em_type = EventEpochChanged,
                em_payload = [(''album_id'', PText (uuid_String E albumID)), (''epoch'', PInt ep)]\<rparr>])"

definition invite_fanout :: "env \<Rightarrow> uuid \<Rightarrow> int \<Rightarrow> uuid \<Rightarrow> db \<Rightarrow> emission list" where
  "invite_fanout E albumID current newMember d =
     \<lparr>to_users = [newMember], em_type = EventEpochChanged,
      em_payload = [(''album_id'', PText (uuid_String E albumID)), (''epoch'', PInt current),
        (''joined'', PBool True)]\<rparr> #
     (let existing = filter (\<lambda>u. u \<noteq> newMember) (ActiveMemberUserIDs E albumID d)
      in if existing = [] then []
         else [\<lparr>to_users = existing, em_type = EventMemberAdded,
                em_payload = [(''album_id'', PText (uuid_String E albumID))]\<rparr>])"

end
