(* ===== verification/Albums.thy ===== *)
theory Albums
  imports Invites "HOL-Library.Product_Lexorder"
begin

text \<open>
  \<^verbatim>\<open>repository/album_repo.go\<close>, the album half of
  \<^verbatim>\<open>repository/removal_repo.go\<close>, \<^verbatim>\<open>service/album_service.go\<close>,
  \<^verbatim>\<open>middleware/membership.go\<close> and the decisions of
  \<^verbatim>\<open>handler/album.go\<close> after its request is decoded: the album's life, its roster
  and the shelf summaries. A handler is a function to its answer, the events it emits and the
  state.
\<close>

section \<open>Repository\<close>

text \<open>The number drawn from the sequence of activity is the next one when the transaction commits; that
  a transaction which is rolled back after its draw has used one up is an operation of
  \<^verbatim>\<open>Server\<close>, as for the confirmation of a photo.\<close>

definition CreateWithAdmin ::
  "env \<Rightarrow> time \<Rightarrow> uuid \<Rightarrow> bytes \<Rightarrow> bytes \<Rightarrow> uuid \<Rightarrow> (err, album \<times> bytes, db) tx" where
  "CreateWithAdmin E now newID token nameCT creator d =
     (case find_user d creator of None \<Rightarrow> Inl (Repo ErrUserNotFound)
      | Some usr \<Rightarrow>
        if deleting_at usr \<noteq> None then Inl (Repo ErrAccountDeleting)
        else
          let seq = activity_seq d + 1;
              al = \<lparr>a_id = newID, name_ct = nameCT, a_created_at = trunc_hour now,
                    a_updated_at = trunc_hour now, media_generation = 0, last_activity_seq = seq,
                    rotation_required = False\<rparr>
          in if find_album d newID \<noteq> None then Inl DbError
             else let d1 = d\<lparr>activity_seq := seq, albums := sql_insert al (albums d)\<rparr>
             in (case lseal E creator token of Inl e \<Rightarrow> Inl e
                 | Inr sealed \<Rightarrow>
                   (case insert_amid \<lparr>i_token = token, user_handle = lhash E creator,
                       user_id_enc = sealed, i_album = newID, joined_at = trunc_hour now,
                       last_received_epoch = None, last_received_at = None\<rparr> d1 of
                      None \<Rightarrow> Inl DbError
                    | Some d2 \<Rightarrow>
                      (case insert_member \<lparr>m_album = newID, m_token = token, role = Admin,
                          revoked_at = None, m_name_ct = None\<rparr> d2 of
                         Inl e \<Rightarrow> Inl e
                       | Inr d3 \<Rightarrow> Inr ((al, token), d3)))))"

definition album_GetByID :: "uuid \<Rightarrow> db \<Rightarrow> err + album" where
  "album_GetByID a d = (case find_album d a of None \<Rightarrow> Inl (Repo ErrAlbumNotFound) | Some al \<Rightarrow> Inr al)"

definition LookupMember :: "env \<Rightarrow> uuid \<Rightarrow> uuid \<Rightarrow> db \<Rightarrow> err + (bytes \<times> role)" where
  "LookupMember E userID albumID d =
     (case membership_of d (lhash E userID) albumID of
        None \<Rightarrow> Inl (Repo ErrMemberNotFound)
      | Some (i, m) \<Rightarrow> if revoked_at m \<noteq> None then Inl (Repo ErrMemberRevoked)
                     else Inr (i_token i, role m))"

definition UpdateMemberNameCT :: "uuid \<Rightarrow> bytes \<Rightarrow> bytes \<Rightarrow> db \<Rightarrow> db" where
  "UpdateMemberNameCT a t nameCT d = d\<lparr>members := sql_update (\<lambda>m. m_album m = a \<and> m_token m = t)
     (\<lambda>m. m\<lparr>m_name_ct := Some nameCT\<rparr>) (members d)\<rparr>"

definition UpdateName :: "time \<Rightarrow> uuid \<Rightarrow> bytes \<Rightarrow> db \<Rightarrow> db" where
  "UpdateName now a nameCT d = d\<lparr>albums := sql_update (\<lambda>al. a_id al = a)
     (\<lambda>al. al\<lparr>name_ct := nameCT, a_updated_at := trunc_hour now\<rparr>) (albums d)\<rparr>"

definition revoke_row :: "time \<Rightarrow> uuid \<Rightarrow> bytes \<Rightarrow> db \<Rightarrow> db" where
  "revoke_row now a t d = d\<lparr>members := sql_update
     (\<lambda>m. m_album m = a \<and> m_token m = t \<and> revoked_at m = None)
     (\<lambda>m. m\<lparr>revoked_at := Some now\<rparr>) (members d)\<rparr>"

definition require_rotation :: "uuid \<Rightarrow> db \<Rightarrow> db" where
  "require_rotation a d = d\<lparr>albums := sql_update (\<lambda>al. a_id al = a)
     (\<lambda>al. al\<lparr>rotation_required := True\<rparr>) (albums d)\<rparr>"

text \<open>The result is the role of the target and whether it was revoked before.\<close>

definition RevokeMemberTx ::
  "time \<Rightarrow> uuid \<Rightarrow> bytes \<Rightarrow> bytes \<Rightarrow> (err, role \<times> bool, db) tx" where
  "RevokeMemberTx now a callerToken targetToken d =
     (case find_album d a of None \<Rightarrow> Inl (Repo ErrAlbumNotFound)
      | Some _ \<Rightarrow>
        (case find_member d a callerToken of None \<Rightarrow> Inl (Repo ErrCallerRevoked)
         | Some c \<Rightarrow>
           if revoked_at c \<noteq> None then Inl (Repo ErrCallerRevoked)
           else (case find_member d a targetToken of None \<Rightarrow> Inl (Repo ErrMemberNotFound)
             | Some m \<Rightarrow>
               if revoked_at m \<noteq> None then Inr ((role m, True), d)
               else if role m = Admin \<and> active_admins d a \<le> 1 then Inl (Repo ErrLastAdmin)
               else Inr ((role m, False),
                 snd (removeAvatars now (\<lambda>v. av_album v = a \<and> av_token v = targetToken)
                   (require_rotation a (revoke_row now a targetToken d)))))))"

definition DeleteAlbumTx :: "env \<Rightarrow> time \<Rightarrow> uuid \<Rightarrow> bytes \<Rightarrow> (err, album_removal, db) tx" where
  "DeleteAlbumTx E now a callerToken d =
     (case lockAlbum a d of Inl e \<Rightarrow> Inl e
      | Inr _ \<Rightarrow>
        (case find_member d a callerToken of None \<Rightarrow> Inl (Repo ErrCallerRevoked)
         | Some m \<Rightarrow>
           if revoked_at m \<noteq> None then Inl (Repo ErrCallerRevoked)
           else if role m \<noteq> Admin then Inl (Repo ErrNotAlbumAdmin)
           else removeAlbum E now a callerToken d))"

section \<open>Shelf and roster\<close>

record avatar_ref =
  ar_id :: uuid
  ar_size :: int
  ar_sha256 :: bytes
  ar_key_ct :: bytes

record preview_media =
  pm_id :: uuid
  pm_epoch :: int
  pm_nonce :: "bytes option"
  pm_tag_ct :: "bytes option"
  pm_size :: "int option"
  pm_sha256 :: "bytes option"

record member_preview =
  mp_token :: bytes
  mp_name_ct :: "bytes option"
  mp_avatar :: "avatar_ref option"

record album_summary =
  su_media_count :: nat
  su_active_members :: nat
  su_latest :: "time option"
  su_generation :: int
  su_rotation :: "bool option"
  su_media :: "preview_media list"
  su_members :: "member_preview list"

record album_info =
  inf_album :: album
  inf_role :: role
  inf_token :: bytes
  inf_summary :: album_summary

definition confirmed_media :: "db \<Rightarrow> uuid \<Rightarrow> media list" where
  "confirmed_media d a = filter (\<lambda>r. md_album r = a \<and> confirmed r) (medias d)"

definition current_avatar :: "db \<Rightarrow> uuid \<Rightarrow> bytes \<Rightarrow> avatar option" where
  "current_avatar d a t = find (\<lambda>v. av_album v = a \<and> av_token v = t \<and> av_confirmed v) (avatars d)"

definition avatar_columns_ref :: "avatar option \<Rightarrow> avatar_ref option" where
  "avatar_columns_ref v = map_option (\<lambda>v. \<lparr>ar_id = avatar_id v, ar_size = av_size v,
     ar_sha256 = av_sha256 v, ar_key_ct = key_ct v\<rparr>) v"

definition MemberPreviewLimit :: nat where "MemberPreviewLimit = 10"

text \<open>Descending orders are orders on negated keys; \<^verbatim>\<open>NULLS LAST\<close> is a leading
  flag.\<close>

definition previewMediaFor :: "db \<Rightarrow> uuid \<Rightarrow> preview_media list" where
  "previewMediaFor d a =
     map (\<lambda>r. \<lparr>pm_id = md_id r, pm_epoch = epoch_tag r, pm_nonce = thumb_wrap_nonce r,
               pm_tag_ct = thumb_wrap_tag_ct r, pm_size = thumb_size r, pm_sha256 = thumb_sha256 r\<rparr>)
       (take 3 (sort_key (\<lambda>r. (case album_seq r of None \<Rightarrow> (1::int, 0) | Some s \<Rightarrow> (0, - s), - uint (md_id r)))
         (filter (\<lambda>r. thumb_wrap_nonce r \<noteq> None) (confirmed_media d a))))"

definition memberPreviewsFor :: "db \<Rightarrow> uuid \<Rightarrow> member_preview list" where
  "memberPreviewsFor d a =
     map (\<lambda>(m, i). \<lparr>mp_token = m_token m, mp_name_ct = m_name_ct m,
               mp_avatar = avatar_columns_ref (current_avatar d a (m_token m))\<rparr>)
       (take MemberPreviewLimit (sort_key (\<lambda>(m, i). (joined_at i, m_token m))
         (concat (map (\<lambda>m. map (\<lambda>i. (m, i)) (filter (\<lambda>i. i_token i = m_token m) (amids d)))
           (filter (is_active a) (members d))))))"

fun max_time :: "time list \<Rightarrow> time option" where
  "max_time [] = None"
| "max_time (t # ts) = (case max_time ts of None \<Rightarrow> Some t | Some u \<Rightarrow> Some (max t u))"

definition album_info_of :: "db \<Rightarrow> amid \<Rightarrow> member \<Rightarrow> album \<Rightarrow> album_info" where
  "album_info_of d i m al =
     \<lparr>inf_album = al, inf_role = role m, inf_token = i_token i,
      inf_summary = \<lparr>su_media_count = length (confirmed_media d (a_id al)),
        su_active_members = active_count d (a_id al),
        su_latest = max_time (map md_created_at (confirmed_media d (a_id al))),
        su_generation = media_generation al,
        su_rotation = RotationRequiredExpr d (a_id al),
        su_media = previewMediaFor d (a_id al), su_members = memberPreviewsFor d (a_id al)\<rparr>\<rparr>"

definition shelf_order :: "album_info \<Rightarrow> int \<times> int \<times> int \<times> int" where
  "shelf_order x = (let al = inf_album x in
     (- last_activity_seq al,
      - (case su_latest (inf_summary x) of None \<Rightarrow> a_created_at al | Some t \<Rightarrow> t),
      - a_created_at al, uint (a_id al)))"

definition ListForUser :: "env \<Rightarrow> uuid \<Rightarrow> db \<Rightarrow> album_info list" where
  "ListForUser E userID d =
     sort_key shelf_order (concat (map (\<lambda>al.
       concat (map (\<lambda>i. case find_member d (a_id al) (i_token i) of
           None \<Rightarrow> [] | Some m \<Rightarrow> if revoked_at m = None then [album_info_of d i m al] else [])
         (filter (\<lambda>i. i_album i = a_id al \<and> user_handle i = lhash E userID) (amids d))))
       (albums d)))"

record member_profile =
  mw_token :: bytes
  mw_role :: role
  mw_revoked :: bool
  mw_joined :: time
  mw_ik :: "bytes option"
  mw_lk :: "bytes option"
  mw_name_ct :: "bytes option"
  mw_avatar :: "avatar_ref option"

text \<open>The roster in join order; a row whose link does not open is skipped, one whose account is
  gone keeps empty keys.\<close>

definition roster_row :: "env \<Rightarrow> db \<Rightarrow> uuid \<Rightarrow> member \<times> amid \<Rightarrow> member_profile list" where
  "roster_row E d a = (\<lambda>(m, i).
     case lopen E (user_id_enc i) (m_token m) of Inl _ \<Rightarrow> []
     | Inr u \<Rightarrow> [\<lparr>mw_token = m_token m, mw_role = role m, mw_revoked = (revoked_at m \<noteq> None),
         mw_joined = joined_at i,
         mw_ik = (case find_user d u of None \<Rightarrow> None | Some r \<Rightarrow> ik_pub r),
         mw_lk = (case find_user d u of None \<Rightarrow> None | Some r \<Rightarrow> lk_pub r),
         mw_name_ct = m_name_ct m,
         mw_avatar = avatar_columns_ref (current_avatar d a (m_token m))\<rparr>])"

definition repo_ListMembers :: "env \<Rightarrow> uuid \<Rightarrow> db \<Rightarrow> member_profile list" where
  "repo_ListMembers E a d =
     concat (map (roster_row E d a) (sort_key (\<lambda>(m, i). joined_at i)
       (concat (map (\<lambda>m. map (\<lambda>i. (m, i)) (filter (\<lambda>i. i_token i = m_token m) (amids d)))
         (filter (\<lambda>m. m_album m = a) (members d))))))"

section \<open>Service\<close>

text \<open>The object cleaner runs after the commit; it is the media service's
  \<^verbatim>\<open>CleanupObjectKeys\<close> and a parameter here.\<close>

definition CreateAlbum ::
  "env \<Rightarrow> time \<Rightarrow> uuid \<Rightarrow> bytes \<Rightarrow> bytes \<Rightarrow> uuid \<Rightarrow> (err, album \<times> bytes \<times> role, db) tx" where
  "CreateAlbum E now newID token nameCT creator d =
     (if nameCT = [] then Inl (ErrText ''name_ct is required'')
      else case CreateWithAdmin E now newID token nameCT creator d of
        Inl e \<Rightarrow> Inl e | Inr ((al, t), d') \<Rightarrow> Inr ((al, t, Admin), d'))"

definition GetAlbum :: "env \<Rightarrow> uuid \<Rightarrow> uuid \<Rightarrow> db \<Rightarrow> err + (album \<times> role \<times> bytes)" where
  "GetAlbum E albumID userID d =
     (case LookupMember E userID albumID d of
        Inl e \<Rightarrow> Inl (if e = Repo ErrMemberNotFound then Service SvcErrUnauthorized else e)
      | Inr (token, r) \<Rightarrow>
        (case album_GetByID albumID d of Inl e \<Rightarrow> Inl e | Inr al \<Rightarrow> Inr (al, r, token)))"

definition UpdateAlbum :: "env \<Rightarrow> time \<Rightarrow> uuid \<Rightarrow> uuid \<Rightarrow> bytes \<Rightarrow> (err, unit, db) tx" where
  "UpdateAlbum E now albumID userID nameCT d =
     (case LookupMember E userID albumID d of
        Inl _ \<Rightarrow> Inl (Service SvcErrUnauthorized)
      | Inr (_, r) \<Rightarrow>
        if r \<noteq> Admin then Inl (Service SvcErrUnauthorized)
        else if nameCT = [] then Inl (ErrText ''name_ct is required'')
        else Inr ((), UpdateName now albumID nameCT d))"

definition delete_album_error :: "err \<Rightarrow> err" where
  "delete_album_error e =
     (case e of Repo ErrCallerRevoked \<Rightarrow> Service SvcErrCallerRevoked
      | Repo ErrNotAlbumAdmin \<Rightarrow> Service SvcErrUnauthorized
      | Repo ErrAlbumNotFound \<Rightarrow> Service SvcErrUnauthorized
      | _ \<Rightarrow> e)"

definition DeleteAlbum :: "env \<Rightarrow> time \<Rightarrow> uuid \<Rightarrow> uuid \<Rightarrow> (err, album_removal, db) tx" where
  "DeleteAlbum E now albumID userID d =
     (case LookupMember E userID albumID d of
        Inl _ \<Rightarrow> Inl (Service SvcErrUnauthorized)
      | Inr (token, r) \<Rightarrow>
        if r \<noteq> Admin then Inl (Service SvcErrUnauthorized)
        else (case DeleteAlbumTx E now albumID token d of
            Inl e \<Rightarrow> Inl (delete_album_error e) | Inr x \<Rightarrow> Inr x))"

definition remove_member_error :: "err \<Rightarrow> err" where
  "remove_member_error e =
     (case e of Repo ErrCallerRevoked \<Rightarrow> Service SvcErrCallerRevoked
      | Repo ErrMemberNotFound \<Rightarrow> Service SvcErrMemberNotFound
      | Repo ErrAlbumNotFound \<Rightarrow> Service SvcErrMemberNotFound
      | Repo ErrLastAdmin \<Rightarrow> Service SvcErrLastAdmin
      | _ \<Rightarrow> e)"

definition RemoveMember ::
  "env \<Rightarrow> time \<Rightarrow> uuid \<Rightarrow> uuid \<Rightarrow> bytes \<Rightarrow> (err, bytes \<times> bool, db) tx" where
  "RemoveMember E now albumID callerUserID targetToken d =
     (case LookupMember E callerUserID albumID d of
        Inl _ \<Rightarrow> Inl (Service SvcErrUnauthorized)
      | Inr (callerToken, callerRole) \<Rightarrow>
        if callerToken \<noteq> targetToken \<and> callerRole \<noteq> Admin then Inl (Service SvcErrUnauthorized)
        else (case RevokeMemberTx now albumID callerToken targetToken d of
            Inl e \<Rightarrow> Inl (remove_member_error e)
          | Inr ((_, already), d') \<Rightarrow> Inr ((targetToken, already), d')))"

definition svc_UpdateMemberNameCT :: "uuid \<Rightarrow> bytes \<Rightarrow> bytes \<Rightarrow> (err, unit, db) tx" where
  "svc_UpdateMemberNameCT albumID memberToken nameCT d =
     (if memberToken = [] then Inl (Service SvcErrUnauthorized)
      else if nameCT = [] then Inl (ErrText ''name_ct is required'')
      else Inr ((), UpdateMemberNameCT albumID memberToken nameCT d))"

section \<open>Middleware and handlers\<close>

text \<open>\<^verbatim>\<open>RequireMember\<close>: the member context of a request, or the error it is answered
  with. \<open>userID\<close> is what the authentication middleware put in the context.\<close>

definition RequireMember ::
  "env \<Rightarrow> uuid option \<Rightarrow> bytes option \<Rightarrow> db \<Rightarrow> err + (uuid \<times> bytes \<times> role)" where
  "RequireMember E userID pathVar d =
     (case userID of None \<Rightarrow> Inl (Api E_AUTH ''authentication required'')
      | Some u \<Rightarrow>
        (case pathVar of None \<Rightarrow> Inl (Api E_VALIDATION ''missing album id in path: id'')
         | Some raw \<Rightarrow>
           if raw = [] then Inl (Api E_VALIDATION ''missing album id in path: id'')
           else (case uuid_Parse E raw of None \<Rightarrow> Inl (Api E_VALIDATION ''invalid album id'')
             | Some albumID \<Rightarrow>
               (case LookupMember E u albumID d of
                  Inl e \<Rightarrow> Inl (if e = Repo ErrMemberNotFound
                      then Api E_NOT_MEMBER ''not a member of this album''
                    else if e = Repo ErrMemberRevoked
                      then Api E_MEMBER_REVOKED ''your access to this album has been revoked''
                    else Api E_INTERNAL ''member lookup failed'')
                | Inr (token, r) \<Rightarrow> Inr (albumID, token, r)))))"

definition handle_UpdateAlbum ::
  "env \<Rightarrow> time \<Rightarrow> uuid \<Rightarrow> uuid \<Rightarrow> bytes \<Rightarrow> (err, unit, db) tx" where
  "handle_UpdateAlbum E now userID albumID nameCT d =
     (if nameCT = [] then Inl (Api E_VALIDATION ''name_ct must be base64-encoded ciphertext'')
      else case UpdateAlbum E now albumID userID nameCT d of
        Inl e \<Rightarrow> Inl (if e = Service SvcErrUnauthorized
                   then Api E_FORBIDDEN ''only the admin can update this album''
                   else Api E_INTERNAL ''failed to update album'')
      | Inr x \<Rightarrow> Inr x)"

definition handle_DeleteAlbum ::
  "env \<Rightarrow> time \<Rightarrow> uuid \<Rightarrow> uuid \<Rightarrow> (err, bytes list \<times> emission list, db) tx" where
  "handle_DeleteAlbum E now userID albumID d =
     (case DeleteAlbum E now albumID userID d of
        Inl e \<Rightarrow> Inl (if e = Service SvcErrUnauthorized
                   then Api E_FORBIDDEN ''only admin can delete this album''
                   else if e = Service SvcErrCallerRevoked
                   then Api E_MEMBER_REVOKED ''your access to this album has been revoked''
                   else Api E_INTERNAL ''failed to delete album'')
      | Inr (rm, d') \<Rightarrow>
        Inr ((RemovedKeys rm,
          if MemberUserIDs rm = [] then []
          else [\<lparr>to_users = MemberUserIDs rm, em_type = EventAlbumDeleted,
                 em_payload = [(''album_id'', PText (uuid_String E albumID))]\<rparr>]), d'))"

definition notifyRevoked :: "env \<Rightarrow> uuid \<Rightarrow> bytes \<Rightarrow> db \<Rightarrow> emission list" where
  "notifyRevoked E albumID removedToken d =
     (let tokens = removedToken #
            map mw_token (filter (\<lambda>m. \<not> mw_revoked m) (repo_ListMembers E albumID d));
          us = UserIDsByMemberTokens E tokens d
      in if us = [] then []
         else [\<lparr>to_users = us, em_type = EventMemberRevoked,
                em_payload = [(''album_id'', PText (uuid_String E albumID)),
                  (''member_token'', PText (StdEncode removedToken))]\<rparr>])"

definition handle_RemoveAlbumMember ::
  "env \<Rightarrow> time \<Rightarrow> uuid \<Rightarrow> uuid \<Rightarrow> bytes \<Rightarrow> (err, emission list, db) tx" where
  "handle_RemoveAlbumMember E now userID albumID targetToken d =
     (case RemoveMember E now albumID userID targetToken d of
        Inl e \<Rightarrow> Inl (case e of
            Service SvcErrLastAdmin \<Rightarrow>
              Api E_FORBIDDEN ''cannot remove the last remaining admin; delete the album instead''
          | Service SvcErrMemberNotFound \<Rightarrow> Api E_NOT_FOUND ''no such member in this album''
          | Service SvcErrCallerRevoked \<Rightarrow>
              Api E_MEMBER_REVOKED ''your access to this album has been revoked''
          | Service SvcErrUnauthorized \<Rightarrow> Api E_FORBIDDEN ''only the admin can remove another member''
          | _ \<Rightarrow> Api E_INTERNAL ''failed to remove member'')
      | Inr ((_, already), d') \<Rightarrow>
        Inr (if already then [] else notifyRevoked E albumID targetToken d', d'))"

end
