(* ===== verification/Media.thy ===== *)
theory Media
  imports Albums
begin

text \<open>
  \<^verbatim>\<open>repository/media_repo.go\<close>, the media half of
  \<^verbatim>\<open>repository/removal_repo.go\<close> and \<^verbatim>\<open>service/media_service.go\<close>:
  the reservation, confirmation and deletion of an upload, the queue of objects to delete and its
  sweep. The answers of the object storage (presigning, \<^verbatim>\<open>HEAD\<close>, deletion) are the
  parameter \<open>objstore\<close>.
\<close>

section \<open>Repository\<close>

record cleanup_batch =
  MediaCount :: nat
  BatchKeys :: "bytes list"

text \<open>What a retry of one's own pending upload keeps: the object keys whose bytes are the same.
  The result is the row to insert and the keys to queue.\<close>

definition same_thumb :: "media \<Rightarrow> media \<Rightarrow> bool" where
  "same_thumb prev m \<longleftrightarrow> thumb_key prev \<noteq> None \<and> thumb_key m \<noteq> None
     \<and> thumb_sha256 prev = thumb_sha256 m \<and> thumb_size prev \<noteq> None \<and> thumb_size m \<noteq> None
     \<and> thumb_size prev = thumb_size m"

definition reuse_keys :: "media \<Rightarrow> media \<Rightarrow> media \<times> bytes list" where
  "reuse_keys prev m =
     (let same = blob_sha256 prev = blob_sha256 m \<and> blob_size prev = blob_size m;
          m1 = (if same then m\<lparr>storage_key := storage_key prev\<rparr> else m);
          stale1 = (if same then [] else [storage_key prev]);
          m2 = (if same_thumb prev m then m1\<lparr>thumb_key := thumb_key prev\<rparr> else m1);
          stale2 = (if same_thumb prev m then []
                    else case thumb_key prev of None \<Rightarrow> [] | Some k \<Rightarrow> if k \<noteq> [] then [k] else [])
      in (m2, stale1 @ stale2))"

definition valid_media_type :: "bytes \<Rightarrow> bool" where
  "valid_media_type t \<longleftrightarrow> t = ascii ''photo'' \<or> t = ascii ''video''"

text \<open>\<^verbatim>\<open>INSERT INTO media\<close>: key, uploader reference, type check, column range.\<close>

definition insert_media :: "media \<Rightarrow> db \<Rightarrow> err + db" where
  "insert_media m d =
     (if sql_exists (\<lambda>r. md_id r = md_id m) (medias d)
        \<or> find_amid d (uploader_token m) = None \<or> find_album d (md_album m) = None
        \<or> \<not> valid_media_type (media_type m) \<or> \<not> int4 (epoch_tag m)
      then Inl DbError else Inr (d\<lparr>medias := sql_insert m (medias d)\<rparr>))"

definition reserve_insert :: "time \<Rightarrow> uuid \<Rightarrow> media \<Rightarrow> (err, media, db) tx" where
  "reserve_insert now newRes m d =
     (let row = m\<lparr>reservation_id := newRes, confirmed := False, album_seq := None,
                  md_created_at := trunc_hour now\<rparr>
      in case insert_media row d of Inl e \<Rightarrow> Inl e | Inr d' \<Rightarrow> Inr (row, d'))"

definition ReserveUploadRow ::
  "time \<Rightarrow> uuid \<Rightarrow> uuid \<Rightarrow> media \<Rightarrow> int \<Rightarrow> (err, media, db) tx" where
  "ReserveUploadRow now newID newRes m0 epochTag d =
     (let m = (if md_id m0 = 0 then m0\<lparr>md_id := newID\<rparr> else m0)
      in case find_album d (md_album m) of None \<Rightarrow> Inl (Repo ErrAlbumNotFound)
      | Some _ \<Rightarrow>
        let cur = max_epoch d (md_album m)
        in if cur < 0 then Inl (Repo ErrNoEpoch)
        else if epochTag \<noteq> cur then Inl (Repo ErrEpochMismatch)
        else (case RotationRequiredExpr d (md_album m) of None \<Rightarrow> Inl DbError
        | Some pending \<Rightarrow>
          if pending then Inl (Repo ErrPendingRotation)
          else (case find (\<lambda>r. md_id r = md_id m \<and> md_album r = md_album m) (medias d) of
            None \<Rightarrow> reserve_insert now newRes m d
          | Some prev \<Rightarrow>
            if confirmed prev then Inl (Repo ErrMediaConfirmed)
            else if uploader_token prev \<noteq> uploader_token m then Inl (Repo ErrMediaNotOwned)
            else
              let (m', stale) = reuse_keys prev m;
                  d1 = d\<lparr>medias := sql_delete (\<lambda>r. md_id r = md_id m \<and> md_album r = md_album m) (medias d)\<rparr>
              in reserve_insert now newRes m' (enqueueObjectCleanup now stale d1))))"

definition pending_row :: "uuid \<Rightarrow> uuid \<Rightarrow> uuid \<Rightarrow> media \<Rightarrow> bool" where
  "pending_row mediaID albumID res r \<longleftrightarrow>
     md_id r = mediaID \<and> md_album r = albumID \<and> \<not> confirmed r \<and> reservation_id r = res"

text \<open>The draw from the sequence of activity is part of the commit; a draw that is rolled back is an
  operation of \<^verbatim>\<open>Server\<close>.\<close>

definition MarkConfirmed :: "uuid \<Rightarrow> uuid \<Rightarrow> uuid \<Rightarrow> (err, int, db) tx" where
  "MarkConfirmed mediaID albumID res d =
     (case find_album d albumID of None \<Rightarrow> Inl (Repo ErrAlbumNotFound)
      | Some al \<Rightarrow>
        (case find (pending_row mediaID albumID res) (medias d) of
           None \<Rightarrow> Inl (Repo ErrMediaNotFound)
         | Some row \<Rightarrow>
           (case RotationRequiredExpr d albumID of None \<Rightarrow> Inl DbError
            | Some required \<Rightarrow>
              if required then Inl (Repo ErrPendingRotation)
              else if epoch_tag row \<noteq> max_epoch d albumID then Inl (Repo ErrEpochMismatch)
              else
                let g = media_generation al + 1;
                    seq = activity_seq d + 1;
                    md1 = sql_update (pending_row mediaID albumID res) (\<lambda>r. r\<lparr>confirmed := True\<rparr>) (medias d);
                    md2 = sql_update (\<lambda>r. md_id r = mediaID) (\<lambda>r. r\<lparr>album_seq := Some g\<rparr>) md1
                in Inr (g, d\<lparr>medias := md2, activity_seq := seq,
                     albums := sql_update (\<lambda>x. a_id x = albumID)
                       (\<lambda>x. x\<lparr>media_generation := media_generation x + 1, last_activity_seq := seq\<rparr>)
                       (albums d)\<rparr>))))"

definition MediaGeneration :: "uuid \<Rightarrow> db \<Rightarrow> err + int" where
  "MediaGeneration a d = (case find_album d a of None \<Rightarrow> Inl ErrNoRows | Some al \<Rightarrow> Inr (media_generation al))"

definition QueuePendingCleanup ::
  "time \<Rightarrow> uuid \<Rightarrow> uuid \<Rightarrow> bytes \<Rightarrow> uuid \<Rightarrow> db \<Rightarrow> cleanup_batch \<times> db" where
  "QueuePendingCleanup now mediaID albumID uploader res d =
     (let p = (\<lambda>r. pending_row mediaID albumID res r \<and> uploader_token r = uploader)
      in case find p (medias d) of
           None \<Rightarrow> (\<lparr>MediaCount = 0, BatchKeys = []\<rparr>, d)
         | Some r \<Rightarrow>
           (\<lparr>MediaCount = 1, BatchKeys = media_keys r\<rparr>,
            enqueueObjectCleanup now (media_keys r) (d\<lparr>medias := sql_delete p (medias d)\<rparr>)))"

text \<open>\<open>locked\<close> are the rows another transaction holds: \<^verbatim>\<open>SKIP LOCKED\<close> passes
  over them.\<close>

definition stale_ids :: "time \<Rightarrow> int \<Rightarrow> uuid list \<Rightarrow> db \<Rightarrow> uuid list" where
  "stale_ids cutoff limit locked d =
     map md_id (take (nat limit) (sort_key (\<lambda>r. (md_created_at r, uint (md_id r)))
       (filter (\<lambda>r. \<not> confirmed r \<and> md_created_at r \<le> cutoff \<and> md_id r \<notin> set locked) (medias d))))"

definition QueueStalePendingCleanup ::
  "time \<Rightarrow> time \<Rightarrow> int \<Rightarrow> uuid list \<Rightarrow> db \<Rightarrow> cleanup_batch \<times> db" where
  "QueueStalePendingCleanup now cutoff limit locked d =
     (if limit \<le> 0 then (\<lparr>MediaCount = 0, BatchKeys = []\<rparr>, d)
      else let ids = stale_ids cutoff limit locked d;
               (out, d') = removeMedia now (\<lambda>r. md_id r \<in> set ids \<and> \<not> confirmed r) d
           in (\<lparr>MediaCount = length (MediaIDs out), BatchKeys = Keys out\<rparr>, d'))"

definition ListObjectCleanupKeys :: "time \<Rightarrow> int \<Rightarrow> db \<Rightarrow> bytes list" where
  "ListObjectCleanupKeys now limit d =
     (if limit \<le> 0 then []
      else map c_key (take (nat limit) (sort_key (\<lambda>r. (attempts r, next_attempt_at r, c_key r))
        (filter (\<lambda>r. next_attempt_at r \<le> now) (cleanup d)))))"

definition DeleteObjectCleanupKey :: "bytes \<Rightarrow> db \<Rightarrow> db" where
  "DeleteObjectCleanupKey k d = d\<lparr>cleanup := sql_delete (\<lambda>r. c_key r = k) (cleanup d)\<rparr>"

definition cleanup_backoff :: "nat \<Rightarrow> time" where
  "cleanup_backoff n = minutes (min (15 * 2 ^ min n 8) 60)"

definition RescheduleObjectCleanupKey :: "time \<Rightarrow> bytes \<Rightarrow> db \<Rightarrow> nat \<times> db" where
  "RescheduleObjectCleanupKey now k d =
     (case find (\<lambda>r. c_key r = k) (cleanup d) of
        None \<Rightarrow> (0, d)
      | Some r \<Rightarrow> (attempts r + 1, d\<lparr>cleanup := sql_update (\<lambda>r. c_key r = k)
          (\<lambda>r. r\<lparr>attempts := attempts r + 1,
                 next_attempt_at := now + cleanup_backoff (attempts r)\<rparr>) (cleanup d)\<rparr>))"

definition media_GetByID :: "uuid \<Rightarrow> uuid \<Rightarrow> db \<Rightarrow> err + media" where
  "media_GetByID mediaID albumID d =
     (case find (\<lambda>r. md_id r = mediaID \<and> md_album r = albumID) (medias d) of
        None \<Rightarrow> Inl (Repo ErrMediaNotFound) | Some r \<Rightarrow> Inr r)"

definition ListConfirmed :: "uuid \<Rightarrow> db \<Rightarrow> media list" where
  "ListConfirmed a d =
     sort_key (\<lambda>r. (case album_seq r of None \<Rightarrow> (1::int, 0) | Some s \<Rightarrow> (0, - s),
                   - md_created_at r, - uint (md_id r))) (confirmed_media d a)"

definition DeleteOwnedMedia ::
  "time \<Rightarrow> uuid \<Rightarrow> uuid \<Rightarrow> bytes \<Rightarrow> (err, media_removal, db) tx" where
  "DeleteOwnedMedia now albumID mediaID uploader d =
     (case lockAlbum albumID d of Inl e \<Rightarrow> Inl e
      | Inr _ \<Rightarrow>
        (case find (\<lambda>r. md_id r = mediaID \<and> md_album r = albumID \<and> confirmed r) (medias d) of
           None \<Rightarrow> Inl (Repo ErrMediaNotFound)
         | Some r \<Rightarrow>
           if uploader_token r \<noteq> uploader then Inl (Repo ErrMediaNotOwned)
           else Inr (removeMedia now (\<lambda>r. md_id r = mediaID \<and> md_album r = albumID) d)))"

section \<open>Object cleanup\<close>

record objstore =
  presign_upload :: "bytes \<Rightarrow> bytes \<Rightarrow> int \<Rightarrow> bytes \<Rightarrow> (bytes \<times> (bytes \<times> bytes) list) option"
  presign_download :: "bytes \<Rightarrow> bytes option"
  head_object :: "bytes \<Rightarrow> (int \<times> bytes) option"
  delete_ok :: "bytes \<Rightarrow> bool"

definition ObjectCleanupAlertAttempts :: nat where "ObjectCleanupAlertAttempts = 10"

record cleanup_stats =
  deleted_keys :: "bytes list"
  n_failed :: nat
  n_stuck :: nat

text \<open>One key after the other: delete the object, then acknowledge; a failed delete is backed
  off. \<open>deleted_keys\<close> are the objects removed from the storage; the code counts them.\<close>

fun cleanupObjectKeys ::
  "objstore \<Rightarrow> time \<Rightarrow> bytes list \<Rightarrow> db \<Rightarrow> cleanup_stats \<times> db" where
  "cleanupObjectKeys S now [] d = (\<lparr>deleted_keys = [], n_failed = 0, n_stuck = 0\<rparr>, d)"
| "cleanupObjectKeys S now (k # ks) d =
     (if \<not> delete_ok S k then
        let (n, d1) = RescheduleObjectCleanupKey now k d;
            (st, d2) = cleanupObjectKeys S now ks d1
        in (st\<lparr>n_failed := n_failed st + 1,
               n_stuck := n_stuck st + (if n \<ge> ObjectCleanupAlertAttempts then 1 else 0)\<rparr>, d2)
      else
        let (st, d2) = cleanupObjectKeys S now ks (DeleteObjectCleanupKey k d)
        in (st\<lparr>deleted_keys := k # deleted_keys st\<rparr>, d2))"

section \<open>Service\<close>

record upload_input =
  up_media_id :: uuid
  up_blob_size :: int
  up_blob_sha256 :: bytes
  up_mime_type :: bytes
  up_media_type :: bytes
  up_wrap_nonce :: bytes
  up_wrap_tag_ct :: bytes
  up_epoch_tag :: int
  up_thumb_size :: int
  up_thumb_sha256 :: bytes
  up_thumb_wrap_nonce :: bytes
  up_thumb_wrap_tag_ct :: bytes

definition wrapNonceLen :: nat where "wrapNonceLen = 12"
definition wrapTagCTLen :: nat where "wrapTagCTLen = 48"
definition sha256Len :: nat where "sha256Len = 32"
definition maxThumbSize :: int where "maxThumbSize = 500 * 1024"
definition MaxBlobBytes :: int where "MaxBlobBytes = 64 * 1024 * 1024"

definition HasPrefix :: "bytes \<Rightarrow> bytes \<Rightarrow> bool" where
  "HasPrefix s p \<longleftrightarrow> take (length p) s = p"

definition validateUploadInput :: "upload_input \<Rightarrow> err option" where
  "validateUploadInput inp =
     (if \<not> valid_media_type (up_media_type inp)
        then Some (Api E_VALIDATION (''media_type must be '' @ [CHR 39] @ ''photo'' @ [CHR 39] @ '' or ''
               @ [CHR 39] @ ''video'' @ [CHR 39]))
      else if up_blob_size inp \<le> 0 then Some (Api E_VALIDATION ''blob_size must be > 0'')
      else if up_blob_size inp > MaxBlobBytes
        then Some (Api E_VALIDATION ''blob_size exceeds the maximum media size'')
      else if up_thumb_size inp > MaxBlobBytes
        then Some (Api E_VALIDATION ''thumb_size exceeds the maximum media size'')
      else if length (up_blob_sha256 inp) \<noteq> sha256Len
        then Some (Api E_VALIDATION ''blob_sha256 must be 32 bytes'')
      else if length (up_wrap_nonce inp) \<noteq> wrapNonceLen
        then Some (Api E_VALIDATION ''wrap_nonce must be 12 bytes'')
      else if length (up_wrap_tag_ct inp) \<noteq> wrapTagCTLen
        then Some (Api E_VALIDATION ''wrap_tag_ct must be 48 bytes (tag + ciphertext of 32 byte DEK)'')
      else if up_epoch_tag inp < 0 then Some (Api E_VALIDATION ''epoch_tag must be >= 0'')
      else if up_mime_type inp \<noteq> [] \<and> \<not> HasPrefix (up_mime_type inp) (ascii ''image/'')
          \<and> \<not> HasPrefix (up_mime_type inp) (ascii ''video/'')
        then Some (Api E_VALIDATION ''mime_type must be image/* or video/*'')
      else if up_thumb_wrap_nonce inp \<noteq> [] \<or> up_thumb_wrap_tag_ct inp \<noteq> []
          \<or> up_thumb_size inp > 0 \<or> up_thumb_sha256 inp \<noteq> [] then
        (if length (up_thumb_wrap_nonce inp) \<noteq> wrapNonceLen
           then Some (Api E_VALIDATION ''thumb_wrap_nonce must be 12 bytes'')
         else if length (up_thumb_wrap_tag_ct inp) \<noteq> wrapTagCTLen
           then Some (Api E_VALIDATION ''thumb_wrap_tag_ct must be 48 bytes'')
         else if length (up_thumb_sha256 inp) \<noteq> sha256Len
           then Some (Api E_VALIDATION ''thumb_sha256 must be 32 bytes'')
         else if up_thumb_size inp \<le> 0 then Some (Api E_VALIDATION ''thumb_size must be > 0'')
         else if up_thumb_size inp > maxThumbSize
           then Some (Api E_VALIDATION ''thumb_size exceeds 500KB cap'')
         else None)
      else None)"

definition has_thumb :: "upload_input \<Rightarrow> bool" where
  "has_thumb inp \<longleftrightarrow> up_thumb_wrap_nonce inp \<noteq> []"

text \<open>The row handed to the repository; the keys are the hex of sixteen random bytes each.\<close>

definition newStorageKey :: "bytes \<Rightarrow> bytes" where "newStorageKey rnd = hex rnd"

definition content_type :: "upload_input \<Rightarrow> bytes" where
  "content_type inp = (if up_mime_type inp = [] then ascii ''application/octet-stream'' else up_mime_type inp)"

definition upload_row :: "uuid \<Rightarrow> bytes \<Rightarrow> bytes \<Rightarrow> uuid \<Rightarrow> bytes \<Rightarrow> upload_input \<Rightarrow> media" where
  "upload_row newID key thumbKey albumID uploader inp =
     \<lparr>md_id = if up_media_id inp = 0 then newID else up_media_id inp, md_album = albumID,
      uploader_token = uploader, storage_key = key,
      thumb_key = if has_thumb inp then Some thumbKey else None,
      md_wrap_nonce = up_wrap_nonce inp, md_wrap_tag_ct = up_wrap_tag_ct inp,
      epoch_tag = up_epoch_tag inp, blob_size = up_blob_size inp,
      blob_sha256 = up_blob_sha256 inp, media_type = up_media_type inp,
      mime_type = Some (content_type inp), confirmed = False, md_created_at = 0,
      reservation_id = 0, album_seq = None,
      thumb_wrap_nonce = if has_thumb inp then Some (up_thumb_wrap_nonce inp) else None,
      thumb_wrap_tag_ct = if has_thumb inp then Some (up_thumb_wrap_tag_ct inp) else None,
      thumb_size = if has_thumb inp then Some (up_thumb_size inp) else None,
      thumb_sha256 = if has_thumb inp then Some (up_thumb_sha256 inp) else None\<rparr>"

definition reserve_error :: "err \<Rightarrow> err" where
  "reserve_error e =
     (case e of
        Repo ErrNoEpoch \<Rightarrow> Api E_VALIDATION ''album has no epoch yet ; cannot upload media''
      | Repo ErrEpochMismatch \<Rightarrow> Api E_EPOCH_REPLAY ''epoch_tag does not match current epoch''
      | Repo ErrPendingRotation \<Rightarrow>
          Api E_EPOCH_PENDING_ROTATION ''album has a pending epoch rotation ; uploads are frozen until it completes''
      | Repo ErrAlbumNotFound \<Rightarrow> Api E_NOT_FOUND ''album not found''
      | Repo ErrMediaConfirmed \<Rightarrow> Api E_VALIDATION ''media_id is already confirmed''
      | Repo ErrMediaNotOwned \<Rightarrow> Api E_FORBIDDEN ''media_id is reserved by another uploader''
      | _ \<Rightarrow> Api E_INTERNAL ''failed to write pending media'')"

definition retirePending :: "objstore \<Rightarrow> time \<Rightarrow> media \<Rightarrow> db \<Rightarrow> cleanup_stats \<times> db" where
  "retirePending S now row d =
     (let (batch, d1) = QueuePendingCleanup now (md_id row) (md_album row) (uploader_token row)
                          (reservation_id row) d
      in cleanupObjectKeys S now (BatchKeys batch) d1)"

record upload_result =
  ur_media_id :: uuid
  ur_url :: bytes
  ur_header :: "(bytes \<times> bytes) list"
  ur_storage_key :: bytes
  ur_thumb_url :: bytes
  ur_thumb_header :: "(bytes \<times> bytes) list"

text \<open>The presigning after the commit; a failure retires the row that was just reserved.\<close>

definition presign_row :: "objstore \<Rightarrow> time \<Rightarrow> upload_input \<Rightarrow> media \<Rightarrow> db \<Rightarrow> (err + upload_result) \<times> db" where
  "presign_row S now inp row d =
     (case presign_upload S (storage_key row) (content_type inp) (up_blob_size inp)
         (StdEncode (up_blob_sha256 inp)) of
        None \<Rightarrow> (Inl (Api E_INTERNAL ''failed to presign upload''), snd (retirePending S now row d))
      | Some (url, hdr) \<Rightarrow>
        let res = \<lparr>ur_media_id = md_id row, ur_url = url, ur_header = hdr,
                   ur_storage_key = storage_key row, ur_thumb_url = [], ur_thumb_header = []\<rparr>
        in if \<not> has_thumb inp then (Inr res, d)
        else let tk = (case thumb_key row of Some k \<Rightarrow> k | None \<Rightarrow> [])
        in (case presign_upload S tk (ascii ''image/webp'') (up_thumb_size inp)
              (StdEncode (up_thumb_sha256 inp)) of
             None \<Rightarrow> (Inl (Api E_INTERNAL ''failed to presign thumb upload''), snd (retirePending S now row d))
           | Some (turl, thdr) \<Rightarrow> (Inr (res\<lparr>ur_thumb_url := turl, ur_thumb_header := thdr\<rparr>), d)))"

definition RequestUploadURL ::
  "objstore \<Rightarrow> time \<Rightarrow> uuid \<Rightarrow> uuid \<Rightarrow> bytes \<Rightarrow> bytes \<Rightarrow> uuid \<Rightarrow> bytes \<Rightarrow> upload_input \<Rightarrow> db
     \<Rightarrow> (err + upload_result) \<times> db" where
  "RequestUploadURL S now newID newRes rnd rndThumb albumID uploader inp d =
     (case validateUploadInput inp of Some e \<Rightarrow> (Inl e, d)
      | None \<Rightarrow>
        (case CurrentEpoch albumID d of
           None \<Rightarrow> (Inl (Api E_VALIDATION ''album has no epoch yet ; cannot upload media''), d)
         | Some (cur, _) \<Rightarrow>
           if up_epoch_tag inp \<noteq> cur
             then (Inl (Api E_EPOCH_REPLAY ''epoch_tag does not match current epoch''), d)
           else (case RotationRequired albumID d of
               Inl _ \<Rightarrow> (Inl (Api E_INTERNAL ''failed to check rotation state''), d)
             | Inr True \<Rightarrow> (Inl (Api E_EPOCH_PENDING_ROTATION
                 ''album has a pending epoch rotation ; uploads are frozen until it completes''), d)
             | Inr False \<Rightarrow>
               (case ReserveUploadRow now newID newRes
                   (upload_row newID (newStorageKey rnd) (newStorageKey rndThumb) albumID uploader inp)
                   (up_epoch_tag inp) d of
                  Inl e \<Rightarrow> (Inl (reserve_error e), d)
                | Inr (row, d') \<Rightarrow> presign_row S now inp row d'))))"

text \<open>What \<^verbatim>\<open>HEAD\<close> must answer for the objects of a row. The first component tells
  whether the row is dropped on the error.\<close>

definition check_objects :: "objstore \<Rightarrow> media \<Rightarrow> (bool \<times> err) option" where
  "check_objects S row =
     (case head_object S (storage_key row) of
        None \<Rightarrow> Some (False, Api E_VALIDATION ''upload not found on storage'')
      | Some (sz, sha) \<Rightarrow>
        if sz \<noteq> blob_size row
          then Some (True, Api E_VALIDATION ''uploaded blob size mismatch ; pending row dropped'')
        else if sha \<noteq> [] \<and> sha \<noteq> StdEncode (blob_sha256 row)
          then Some (True, Api E_VALIDATION ''uploaded blob sha256 mismatch ; pending row dropped'')
        else (case thumb_key row of None \<Rightarrow> None
          | Some tk \<Rightarrow>
            (case head_object S tk of
               None \<Rightarrow> Some (True, Api E_VALIDATION ''thumb upload not found on storage ; pending row dropped'')
             | Some (tsz, tsha) \<Rightarrow>
               if Some tsz \<noteq> thumb_size row
                 then Some (True, Api E_VALIDATION ''uploaded thumb size mismatch ; pending row dropped'')
               else if tsha \<noteq> [] \<and>
                   tsha \<noteq> StdEncode (case thumb_sha256 row of None \<Rightarrow> [] | Some x \<Rightarrow> x)
                 then Some (True, Api E_VALIDATION ''uploaded thumb sha256 mismatch ; pending row dropped'')
               else None)))"

definition media_record :: "env \<Rightarrow> media \<Rightarrow> int \<Rightarrow> payload" where
  "media_record E row g =
     [(''id'', PText (uuid_String E (md_id row))), (''album_id'', PText (uuid_String E (md_album row))),
      (''uploader_token'', PText (StdEncode (uploader_token row))),
      (''wrap_nonce'', PText (StdEncode (md_wrap_nonce row))),
      (''wrap_tag_ct'', PText (StdEncode (md_wrap_tag_ct row))),
      (''epoch_tag'', PInt (epoch_tag row)), (''blob_size'', PInt (blob_size row)),
      (''blob_sha256'', PText (StdEncode (blob_sha256 row))),
      (''media_type'', PText (media_type row)),
      (''mime_type'', case mime_type row of None \<Rightarrow> PNull | Some t \<Rightarrow> PText t),
      (''created_at'', PTime (md_created_at row)), (''album_seq'', PInt g)] @
     (case thumb_size row of None \<Rightarrow> []
      | Some sz \<Rightarrow> [(''thumb_wrap_nonce'', PText (StdEncode (opt_bytes (thumb_wrap_nonce row)))),
          (''thumb_wrap_tag_ct'', PText (StdEncode (opt_bytes (thumb_wrap_tag_ct row)))),
          (''thumb_size'', PInt sz),
          (''thumb_sha256'', PText (StdEncode (opt_bytes (thumb_sha256 row))))])"

definition media_added_fanout :: "env \<Rightarrow> uuid \<Rightarrow> media \<Rightarrow> int \<Rightarrow> db \<Rightarrow> emission list" where
  "media_added_fanout E uploaderUserID row g d =
     (let ids = filter (\<lambda>u. u \<noteq> uploaderUserID) (ActiveMemberUserIDs E (md_album row) d)
      in if ids = [] then []
         else [\<lparr>to_users = ids, em_type = EventMediaAdded,
                em_payload = [(''album_id'', PText (uuid_String E (md_album row))),
                  (''media_id'', PText (uuid_String E (md_id row))),
                  (''record'', PObj (media_record E row g)), (''media_generation'', PInt g)]\<rparr>])"

text \<open>The error branch of \<^verbatim>\<open>MarkConfirmed\<close>.\<close>

definition confirm_error :: "uuid \<Rightarrow> uuid \<Rightarrow> err \<Rightarrow> db \<Rightarrow> err + int" where
  "confirm_error mediaID albumID e d =
     (if e = Repo ErrPendingRotation then Inl (Api E_EPOCH_PENDING_ROTATION
          ''album has a pending epoch rotation ; the upload must be rewrapped'')
      else if e = Repo ErrEpochMismatch then Inl (Api E_EPOCH_REPLAY
          ''epoch_tag does not match current epoch ; the upload must be rewrapped'')
      else if e = Repo ErrMediaNotFound then
        (case media_GetByID mediaID albumID d of
           Inr again \<Rightarrow>
             (case (confirmed again, album_seq again) of
                (True, Some s) \<Rightarrow> Inr s
              | (True, None) \<Rightarrow>
                (case MediaGeneration albumID d of Inr g \<Rightarrow> Inr g
                 | Inl _ \<Rightarrow> Inl (Api E_CONFLICT ''media reservation is no longer current ; re-upload''))
              | _ \<Rightarrow> Inl (Api E_CONFLICT ''media reservation is no longer current ; re-upload''))
         | Inl _ \<Rightarrow> Inl (Api E_NOT_FOUND ''media upload was aborted''))
      else Inl (Api E_INTERNAL ''failed to mark confirmed''))"

text \<open>\<open>d_read\<close> is the state the row is read in, \<open>d\<close> the one the confirmation runs in:
  other requests commit between them while the storage answers.\<close>

definition ConfirmUpload ::
  "env \<Rightarrow> objstore \<Rightarrow> time \<Rightarrow> uuid \<Rightarrow> uuid \<Rightarrow> uuid \<Rightarrow> bytes \<Rightarrow> db \<Rightarrow> db
     \<Rightarrow> (err + int) \<times> emission list \<times> db" where
  "ConfirmUpload E S now albumID mediaID uploaderUserID uploader d_read d =
     (case media_GetByID mediaID albumID d_read of
        Inl _ \<Rightarrow> (Inl (Api E_NOT_FOUND ''media not found''), [], d)
      | Inr row \<Rightarrow>
        if uploader_token row \<noteq> uploader
          then (Inl (Api E_FORBIDDEN ''media was reserved by another uploader''), [], d)
        else if confirmed row then
          (case album_seq row of Some s \<Rightarrow> (Inr s, [], d)
           | None \<Rightarrow> (case MediaGeneration albumID d of
               Inr g \<Rightarrow> (Inr g, [], d)
             | Inl _ \<Rightarrow> (Inl (Api E_INTERNAL ''failed to read generation''), [], d)))
        else (case check_objects S row of
            Some (dropped, e) \<Rightarrow>
              (Inl e, [], if dropped then snd (retirePending S now row d) else d)
          | None \<Rightarrow>
            (case MarkConfirmed mediaID albumID (reservation_id row) d of
               Inl e \<Rightarrow> (confirm_error mediaID albumID e d, [], d)
             | Inr (g, d') \<Rightarrow> (Inr g, media_added_fanout E uploaderUserID row g d', d'))))"

definition DownloadURLTTL :: time where "DownloadURLTTL = minutes 30"

definition RequestDownloadURL ::
  "objstore \<Rightarrow> time \<Rightarrow> uuid \<Rightarrow> uuid \<Rightarrow> bytes \<Rightarrow> db \<Rightarrow> err + (bytes \<times> time)" where
  "RequestDownloadURL S now albumID mediaID asset d =
     (case media_GetByID mediaID albumID d of
        Inl _ \<Rightarrow> Inl (Api E_NOT_FOUND ''media not found'')
      | Inr row \<Rightarrow>
        if \<not> confirmed row then Inl (Api E_NOT_FOUND ''media not yet confirmed'')
        else (case (if asset = ascii ''thumb'' then thumb_key row else Some (storage_key row)) of
            None \<Rightarrow> Inl (Api E_NOT_FOUND ''media has no thumb'')
          | Some key \<Rightarrow>
            (case presign_download S key of
               None \<Rightarrow> Inl (Api E_INTERNAL ''failed to presign download'')
             | Some url \<Rightarrow> Inr (url, now + DownloadURLTTL))))"

definition media_deleted_fanout :: "env \<Rightarrow> uuid \<Rightarrow> uuid list \<Rightarrow> db \<Rightarrow> emission list" where
  "media_deleted_fanout E albumID ids d =
     (if ids = [] then []
      else [\<lparr>to_users = ActiveMemberUserIDs E albumID d, em_type = EventMediaDeleted,
             em_payload = [(''album_id'', PText (uuid_String E albumID)),
               (''media_ids'', PTexts (map (uuid_String E) ids))]\<rparr>])"

definition DeleteMedia ::
  "env \<Rightarrow> objstore \<Rightarrow> time \<Rightarrow> uuid \<Rightarrow> uuid \<Rightarrow> bytes \<Rightarrow> db \<Rightarrow> (err + unit) \<times> emission list \<times> db" where
  "DeleteMedia E S now albumID mediaID callerToken d =
     (case DeleteOwnedMedia now albumID mediaID callerToken d of
        Inl e \<Rightarrow>
          (Inl (if e = Repo ErrMediaNotFound \<or> e = Repo ErrAlbumNotFound
                then Api E_NOT_FOUND ''media not found''
                else if e = Repo ErrMediaNotOwned
                then Api E_FORBIDDEN ''only the uploader can delete this media''
                else Api E_INTERNAL ''failed to delete media''), [], d)
      | Inr (rm, d1) \<Rightarrow>
        let d2 = snd (cleanupObjectKeys S now (Keys rm) d1)
        in (Inr (), media_deleted_fanout E albumID (MediaIDs rm) d2, d2))"

definition AbortPendingUpload ::
  "objstore \<Rightarrow> time \<Rightarrow> uuid \<Rightarrow> uuid \<Rightarrow> bytes \<Rightarrow> db \<Rightarrow> (err + unit) \<times> db" where
  "AbortPendingUpload S now albumID mediaID uploader d =
     (case media_GetByID mediaID albumID d of
        Inl _ \<Rightarrow> (Inr (), d)
      | Inr row \<Rightarrow>
        let (batch, d1) = QueuePendingCleanup now mediaID albumID uploader (reservation_id row) d
        in (Inr (), snd (cleanupObjectKeys S now (BatchKeys batch) d1)))"

definition PendingUploadStaleAfter :: time where "PendingUploadStaleAfter = hours 2"
definition PendingCleanupBatchSize :: int where "PendingCleanupBatchSize = 100"

text \<open>The result counts the retired rows and reports the cleanup of the due keys.\<close>

definition SweepStalePendingUploads ::
  "objstore \<Rightarrow> time \<Rightarrow> time \<Rightarrow> int \<Rightarrow> db \<Rightarrow> (nat \<times> cleanup_stats) \<times> db" where
  "SweepStalePendingUploads S now cutoff batchSize d =
     (let (batch, d1) = QueueStalePendingCleanup now cutoff batchSize [] d;
          keys = ListObjectCleanupKeys now (batchSize * 2) d1;
          (st, d2) = cleanupObjectKeys S now keys d1
      in ((MediaCount batch, st), d2))"

definition RunPendingUploadCleanup_round :: "objstore \<Rightarrow> time \<Rightarrow> db \<Rightarrow> (nat \<times> cleanup_stats) \<times> db" where
  "RunPendingUploadCleanup_round S now d =
     SweepStalePendingUploads S now (now - PendingUploadStaleAfter) PendingCleanupBatchSize d"

end
