(* ===== verification/Avatars.thy ===== *)
theory Avatars
  imports Media
begin

text \<open>
  \<^verbatim>\<open>repository/avatar_repo.go\<close> and \<^verbatim>\<open>service/avatar_service.go\<close>: the
  encrypted profile picture of a member, at most one current and one pending per membership.
\<close>

section \<open>Repository\<close>

text \<open>A reused key is live again: it leaves the queue it was put in by the same transaction.\<close>

definition unqueueObjectCleanup :: "bytes list \<Rightarrow> bytes \<Rightarrow> db \<Rightarrow> db" where
  "unqueueObjectCleanup queued keep d =
     (if keep \<in> set queued then d\<lparr>cleanup := sql_delete (\<lambda>r. c_key r = keep) (cleanup d)\<rparr> else d)"

definition insert_avatar :: "avatar \<Rightarrow> db \<Rightarrow> err + db" where
  "insert_avatar v d =
     (if sql_exists (\<lambda>x. avatar_id x = avatar_id v) (avatars d)
        \<or> find_amid d (av_token v) = None \<or> find_album d (av_album v) = None
      then Inl DbError else Inr (d\<lparr>avatars := sql_insert v (avatars d)\<rparr>))"

definition pending_avatar_of :: "uuid \<Rightarrow> bytes \<Rightarrow> avatar \<Rightarrow> bool" where
  "pending_avatar_of a t v \<longleftrightarrow> av_album v = a \<and> av_token v = t \<and> \<not> av_confirmed v"

definition avatar_Reserve :: "time \<Rightarrow> avatar \<Rightarrow> (err, avatar, db) tx" where
  "avatar_Reserve now v d =
     (case lockActiveMember (av_album v) (av_token v) d of Inl e \<Rightarrow> Inl e
      | Inr _ \<Rightarrow>
        let prev = find (\<lambda>x. avatar_id x = avatar_id v) (avatars d)
        in if (case prev of None \<Rightarrow> False
               | Some p \<Rightarrow> av_album p \<noteq> av_album v \<or> av_token p \<noteq> av_token v)
             then Inl (Repo ErrAvatarNotOwned)
           else if (case prev of None \<Rightarrow> False | Some p \<Rightarrow> av_confirmed p)
             then Inl (Repo ErrAvatarConfirmed)
           else
             let v1 = (case prev of None \<Rightarrow> v
                   | Some p \<Rightarrow> if av_size p = av_size v \<and> av_sha256 p = av_sha256 v
                             then v\<lparr>av_key := av_key p\<rparr> else v);
                 (stale, d1) = removeAvatars now (pending_avatar_of (av_album v) (av_token v)) d;
                 d2 = unqueueObjectCleanup stale (av_key v1) d1;
                 v2 = v1\<lparr>av_confirmed := False, av_created_at := trunc_hour now\<rparr>
             in (case insert_avatar v2 d2 of Inl e \<Rightarrow> Inl e | Inr d3 \<Rightarrow> Inr (v2, d3)))"

definition avatar_Get :: "uuid \<Rightarrow> uuid \<Rightarrow> db \<Rightarrow> err + avatar" where
  "avatar_Get albumID avatarID d =
     (case find (\<lambda>v. avatar_id v = avatarID \<and> av_album v = albumID) (avatars d) of
        None \<Rightarrow> Inl (Repo ErrAvatarNotFound) | Some v \<Rightarrow> Inr v)"

definition avatar_Confirm :: "time \<Rightarrow> uuid \<Rightarrow> bytes \<Rightarrow> uuid \<Rightarrow> (err, bytes list, db) tx" where
  "avatar_Confirm now albumID token avatarID d =
     (case lockActiveMember albumID token d of Inl e \<Rightarrow> Inl e
      | Inr _ \<Rightarrow>
        (case find (\<lambda>v. avatar_id v = avatarID \<and> av_album v = albumID \<and> av_token v = token) (avatars d) of
           None \<Rightarrow> Inl (Repo ErrAvatarNotFound)
         | Some v \<Rightarrow>
           if av_confirmed v then Inr ([], d)
           else
             let (replaced, d1) = removeAvatars now
                   (\<lambda>x. av_album x = albumID \<and> av_token x = token \<and> avatar_id x \<noteq> avatarID) d
             in Inr (replaced, d1\<lparr>avatars := sql_update (\<lambda>x. avatar_id x = avatarID)
                  (\<lambda>x. x\<lparr>av_confirmed := True\<rparr>) (avatars d1)\<rparr>)))"

definition avatar_DropPending :: "time \<Rightarrow> uuid \<Rightarrow> bytes \<Rightarrow> uuid \<Rightarrow> db \<Rightarrow> bytes list \<times> db" where
  "avatar_DropPending now albumID token avatarID d =
     removeAvatars now (\<lambda>v. avatar_id v = avatarID \<and> pending_avatar_of albumID token v) d"

definition avatar_Remove :: "time \<Rightarrow> uuid \<Rightarrow> bytes \<Rightarrow> db \<Rightarrow> bytes list \<times> db" where
  "avatar_Remove now albumID token d =
     removeAvatars now (\<lambda>v. av_album v = albumID \<and> av_token v = token) d"

definition avatar_QueueStalePending ::
  "time \<Rightarrow> time \<Rightarrow> int \<Rightarrow> uuid list \<Rightarrow> db \<Rightarrow> bytes list \<times> db" where
  "avatar_QueueStalePending now cutoff limit locked d =
     (if limit \<le> 0 then ([], d)
      else let ids = map avatar_id (take (nat limit)
                 (sort_key (\<lambda>v. (av_created_at v, uint (avatar_id v)))
                   (filter (\<lambda>v. \<not> av_confirmed v \<and> av_created_at v \<le> cutoff \<and> avatar_id v \<notin> set locked) (avatars d))))
           in removeAvatars now (\<lambda>v. avatar_id v \<in> set ids \<and> \<not> av_confirmed v) d)"

section \<open>Service\<close>

definition MaxAvatarBytes :: int where "MaxAvatarBytes = 256 * 1024"
definition avatarKeyCTLen :: nat where "avatarKeyCTLen = 4 + 1 + wrapNonceLen + wrapTagCTLen"

record avatar_input =
  ai_id :: uuid
  ai_size :: int
  ai_sha256 :: bytes
  ai_key_ct :: bytes

definition avatar_RequestUploadURL ::
  "objstore \<Rightarrow> time \<Rightarrow> bytes \<Rightarrow> uuid \<Rightarrow> bytes \<Rightarrow> avatar_input \<Rightarrow> db
     \<Rightarrow> (err + (bytes \<times> (bytes \<times> bytes) list)) \<times> db" where
  "avatar_RequestUploadURL S now rnd albumID token inp d =
     (if ai_id inp = 0 then (Inl (Api E_VALIDATION ''avatar_id is required''), d)
      else if ai_size inp \<le> 0 \<or> ai_size inp > MaxAvatarBytes
        then (Inl (Api E_VALIDATION ''blob_size is out of range for an avatar''), d)
      else if length (ai_sha256 inp) \<noteq> sha256Len
        then (Inl (Api E_VALIDATION ''blob_sha256 must be 32 bytes''), d)
      else if length (ai_key_ct inp) \<noteq> avatarKeyCTLen
        then (Inl (Api E_VALIDATION ''key_ct has the wrong length''), d)
      else case avatar_Reserve now
          \<lparr>avatar_id = ai_id inp, av_album = albumID, av_token = token, av_key = newStorageKey rnd,
           av_size = ai_size inp, av_sha256 = ai_sha256 inp, key_ct = ai_key_ct inp,
           av_confirmed = False, av_created_at = 0\<rparr> d of
        Inl e \<Rightarrow>
          (Inl (if e = Repo ErrCallerRevoked \<or> e = Repo ErrAlbumNotFound
                then Api E_MEMBER_REVOKED ''your access to this album has been revoked''
                else if e = Repo ErrAvatarNotOwned
                then Api E_FORBIDDEN ''avatar_id is used by another upload''
                else if e = Repo ErrAvatarConfirmed
                then Api E_CONFLICT ''avatar is already confirmed''
                else Api E_INTERNAL ''failed to reserve avatar''), d)
      | Inr (row, d') \<Rightarrow>
        (case presign_upload S (av_key row) (ascii ''application/octet-stream'') (ai_size inp)
            (StdEncode (ai_sha256 inp)) of
           None \<Rightarrow> (Inl (Api E_INTERNAL ''failed to presign avatar upload''), d')
         | Some pre \<Rightarrow> (Inr pre, d')))"

definition avatar_cleanup :: "objstore \<Rightarrow> time \<Rightarrow> bytes list \<Rightarrow> db \<Rightarrow> db" where
  "avatar_cleanup S now keys d = (if keys = [] then d else snd (cleanupObjectKeys S now keys d))"

definition avatar_drop :: "objstore \<Rightarrow> time \<Rightarrow> uuid \<Rightarrow> bytes \<Rightarrow> uuid \<Rightarrow> db \<Rightarrow> db" where
  "avatar_drop S now albumID token avatarID d =
     (let (keys, d1) = avatar_DropPending now albumID token avatarID d
      in avatar_cleanup S now keys d1)"

definition emitUpdated :: "env \<Rightarrow> uuid \<Rightarrow> uuid \<Rightarrow> bytes \<Rightarrow> db \<Rightarrow> emission list" where
  "emitUpdated E albumID callerUserID token d =
     (let ids = filter (\<lambda>u. u \<noteq> callerUserID) (ActiveMemberUserIDs E albumID d)
      in if ids = [] then []
         else [\<lparr>to_users = ids, em_type = EventMemberUpdated,
                em_payload = [(''album_id'', PText (uuid_String E albumID)),
                  (''member_token'', PText (StdEncode token))]\<rparr>])"

text \<open>The row is read in \<open>d_read\<close>; the confirmation runs in \<open>d\<close>.\<close>

definition svc_avatar_Confirm ::
  "env \<Rightarrow> objstore \<Rightarrow> time \<Rightarrow> uuid \<Rightarrow> uuid \<Rightarrow> bytes \<Rightarrow> uuid \<Rightarrow> db \<Rightarrow> db
     \<Rightarrow> (err + unit) \<times> emission list \<times> db" where
  "svc_avatar_Confirm E S now albumID callerUserID token avatarID d_read d =
     (case avatar_Get albumID avatarID d_read of
        Inl _ \<Rightarrow> (Inl (Api E_NOT_FOUND ''avatar upload not found''), [], d)
      | Inr row \<Rightarrow>
        if av_token row \<noteq> token
          then (Inl (Api E_FORBIDDEN ''avatar was reserved by another member''), [], d)
        else if \<not> av_confirmed row \<and> head_object S (av_key row) = None
          then (Inl (Api E_VALIDATION ''avatar upload not found on storage''), [], d)
        else if \<not> av_confirmed row \<and> (case head_object S (av_key row) of None \<Rightarrow> False
            | Some (sz, sha) \<Rightarrow> sz \<noteq> av_size row \<or> (sha \<noteq> [] \<and> sha \<noteq> StdEncode (av_sha256 row)))
          then (Inl (Api E_VALIDATION
                  ''uploaded avatar does not match its reservation ; pending row dropped''), [],
                avatar_drop S now albumID token avatarID d)
        else (case avatar_Confirm now albumID token avatarID d of
            Inl e \<Rightarrow>
              (Inl (if e = Repo ErrCallerRevoked \<or> e = Repo ErrAlbumNotFound
                    then Api E_MEMBER_REVOKED ''your access to this album has been revoked''
                    else if e = Repo ErrAvatarNotFound
                    then Api E_CONFLICT ''avatar reservation is no longer current ; re-upload''
                    else Api E_INTERNAL ''failed to confirm avatar''), [], d)
          | Inr (replaced, d1) \<Rightarrow>
            let d2 = avatar_cleanup S now replaced d1
            in (Inr (), if av_confirmed row then [] else emitUpdated E albumID callerUserID token d2, d2)))"

definition svc_avatar_Remove ::
  "env \<Rightarrow> objstore \<Rightarrow> time \<Rightarrow> uuid \<Rightarrow> uuid \<Rightarrow> bytes \<Rightarrow> db \<Rightarrow> (err + unit) \<times> emission list \<times> db" where
  "svc_avatar_Remove E S now albumID callerUserID token d =
     (let (keys, d1) = avatar_Remove now albumID token d;
          d2 = avatar_cleanup S now keys d1
      in (Inr (), if keys = [] then [] else emitUpdated E albumID callerUserID token d2, d2))"

definition avatar_DownloadURL :: "objstore \<Rightarrow> time \<Rightarrow> uuid \<Rightarrow> uuid \<Rightarrow> db \<Rightarrow> err + (bytes \<times> time)" where
  "avatar_DownloadURL S now albumID avatarID d =
     (case avatar_Get albumID avatarID d of
        Inl _ \<Rightarrow> Inl (Api E_NOT_FOUND ''avatar not found'')
      | Inr row \<Rightarrow>
        if \<not> av_confirmed row then Inl (Api E_NOT_FOUND ''avatar not found'')
        else (case presign_download S (av_key row) of
            None \<Rightarrow> Inl (Api E_INTERNAL ''failed to presign avatar download'')
          | Some url \<Rightarrow> Inr (url, now + DownloadURLTTL)))"

definition avatar_RunPendingCleanup_round :: "objstore \<Rightarrow> time \<Rightarrow> db \<Rightarrow> db" where
  "avatar_RunPendingCleanup_round S now d =
     (let (keys, d1) = avatar_QueueStalePending now (now - PendingUploadStaleAfter)
                         PendingCleanupBatchSize [] d
      in avatar_cleanup S now keys d1)"

end
