(* ===== verification/Account_Deletion.thy ===== *)
theory Account_Deletion
  imports Avatars
begin

text \<open>
  \<^verbatim>\<open>repository/account_deletion_repo.go\<close> and
  \<^verbatim>\<open>service/account_deletion.go\<close>: the plan a user confirms, its acceptance with a
  receipt the device keeps, and the job that leaves every album and deletes the account. The job
  derives each album's outcome again under the album lock.
\<close>

section \<open>Repository\<close>

datatype outcome = OutcomeLeave | OutcomeDeleteAlbum | OutcomeDeleteShared | OutcomeErase

record membership =
  ms_album :: uuid
  ms_token :: bytes
  ms_role :: role
  ms_active :: bool
  ms_members :: nat
  ms_own_media :: nat

definition Outcome :: "membership \<Rightarrow> outcome" where
  "Outcome m =
     (if \<not> ms_active m then OutcomeErase
      else if ms_members m \<le> 1 then OutcomeDeleteAlbum
      else if ms_role m = Admin then OutcomeDeleteShared
      else OutcomeLeave)"

definition membership_row :: "db \<Rightarrow> amid \<Rightarrow> membership" where
  "membership_row d i =
     \<lparr>ms_album = i_album i, ms_token = i_token i,
      ms_role = (case find_member d (i_album i) (i_token i) of None \<Rightarrow> Member | Some m \<Rightarrow> role m),
      ms_active = (case find_member d (i_album i) (i_token i) of None \<Rightarrow> False
                   | Some m \<Rightarrow> revoked_at m = None),
      ms_members = active_count d (i_album i),
      ms_own_media = sql_count (\<lambda>r. md_album r = i_album i \<and> uploader_token r = i_token i
                       \<and> confirmed r) (medias d)\<rparr>"

definition memberships :: "env \<Rightarrow> uuid \<Rightarrow> uuid option \<Rightarrow> db \<Rightarrow> membership list" where
  "memberships E userID albumID d =
     map (membership_row d) (sort_key (\<lambda>i. uint (i_album i))
       (filter (\<lambda>i. user_handle i = lhash E userID \<and> (albumID = None \<or> albumID = Some (i_album i)))
         (amids d)))"

definition Memberships :: "env \<Rightarrow> uuid \<Rightarrow> db \<Rightarrow> membership list" where
  "Memberships E userID d = memberships E userID None d"

definition find_receipt :: "bytes \<Rightarrow> db \<Rightarrow> receipt option" where
  "find_receipt h d = find (\<lambda>r. receipt_hash r = h) (receipts d)"

definition claimReceipt :: "time \<Rightarrow> bytes \<Rightarrow> (err, unit, db) tx" where
  "claimReceipt now h d =
     (case find_receipt h d of
        None \<Rightarrow> Inr ((), d\<lparr>receipts := sql_insert
          \<lparr>receipt_hash = h, abandoned = False, accepted_at = trunc_hour now\<rparr> (receipts d)\<rparr>)
      | Some r \<Rightarrow> if abandoned r then Inl (Repo ErrReceiptAbandoned) else Inr ((), d))"

text \<open>\<^verbatim>\<open>INSERT INTO account_deletions ... ON CONFLICT DO NOTHING\<close>.\<close>

definition queue_deletion :: "time \<Rightarrow> uuid \<Rightarrow> deletion list \<Rightarrow> deletion list" where
  "queue_deletion now u q =
     (if sql_exists (\<lambda>r. d_user r = u) q then q
      else sql_insert \<lparr>d_user = u, d_attempts = 0, d_next_attempt_at = now\<rparr> q)"

definition Accept :: "env \<Rightarrow> time \<Rightarrow> uuid \<Rightarrow> uuid list \<Rightarrow> bytes \<Rightarrow> (err, unit, db) tx" where
  "Accept E now userID confirmedShared h d =
     (case find_user d userID of None \<Rightarrow> Inl (Repo ErrUserNotFound)
      | Some u \<Rightarrow>
        (case claimReceipt now h d of Inl e \<Rightarrow> Inl e
         | Inr (_, d1) \<Rightarrow>
           if deleting_at u \<noteq> None then Inr ((), d1)
           else if \<exists>m\<in>set (memberships E userID None d1).
               Outcome m = OutcomeDeleteShared \<and> ms_album m \<notin> set confirmedShared
             then Inl (Repo ErrDeletionPlanStale)
           else Inr ((), d1\<lparr>users := sql_update (\<lambda>r. u_id r = userID)
                    (\<lambda>r. r\<lparr>deleting_at := Some (trunc_hour now)\<rparr>) (users d1),
                  deletions := queue_deletion now userID (deletions d1),
                  sessions := sql_delete (\<lambda>s. s_user s = userID) (sessions d1)\<rparr>)))"

definition repo_ReceiptAccepted :: "bytes \<Rightarrow> db \<Rightarrow> bool" where
  "repo_ReceiptAccepted h d = sql_exists (\<lambda>r. receipt_hash r = h \<and> \<not> abandoned r) (receipts d)"

definition repo_AbandonReceipt :: "time \<Rightarrow> bytes \<Rightarrow> db \<Rightarrow> bool \<times> db" where
  "repo_AbandonReceipt now h d =
     (case find_receipt h d of
        None \<Rightarrow> (False, d\<lparr>receipts := sql_insert
          \<lparr>receipt_hash = h, abandoned = True, accepted_at = trunc_hour now\<rparr> (receipts d)\<rparr>)
      | Some r \<Rightarrow> (\<not> abandoned r, d))"

definition PruneReceipts :: "time \<Rightarrow> db \<Rightarrow> db" where
  "PruneReceipts cutoff d = d\<lparr>receipts := sql_delete (\<lambda>r. accepted_at r < cutoff) (receipts d)\<rparr>"

definition deletion_backoff :: "nat \<Rightarrow> time" where
  "deletion_backoff n = minutes (min (5 * 2 ^ min n 6) 360)"

definition due_jobs :: "time \<Rightarrow> db \<Rightarrow> deletion list" where
  "due_jobs now d = sort_key (\<lambda>r. (d_next_attempt_at r, uint (d_user r)))
     (filter (\<lambda>r. d_next_attempt_at r \<le> now) (deletions d))"

definition ClaimDue :: "time \<Rightarrow> db \<Rightarrow> uuid option \<times> db" where
  "ClaimDue now d =
     (case due_jobs now d of [] \<Rightarrow> (None, d)
      | j # _ \<Rightarrow> (Some (d_user j), d\<lparr>deletions := sql_update (\<lambda>r. d_user r = d_user j)
          (\<lambda>r. r\<lparr>d_attempts := d_attempts r + 1,
                 d_next_attempt_at := now + deletion_backoff (d_attempts r)\<rparr>) (deletions d)\<rparr>))"

record membership_removal =
  rm_album :: uuid
  rm_token :: bytes
  rm_outcome :: "outcome option"
  rm_notify :: "uuid list"
  rm_media :: "uuid list"
  rm_keys :: "bytes list"

definition no_removal :: "uuid \<Rightarrow> membership_removal" where
  "no_removal a = \<lparr>rm_album = a, rm_token = [], rm_outcome = None, rm_notify = [], rm_media = [],
     rm_keys = []\<rparr>"

definition leave_row :: "time \<Rightarrow> uuid \<Rightarrow> bytes \<Rightarrow> db \<Rightarrow> db" where
  "leave_row now a t d = d\<lparr>members := sql_update (\<lambda>m. m_album m = a \<and> m_token m = t)
     (\<lambda>m. m\<lparr>revoked_at := Some now\<rparr>) (members d)\<rparr>"

text \<open>The tail of the transaction for a membership that goes while the album stays.\<close>

definition erase_membership ::
  "env \<Rightarrow> time \<Rightarrow> membership_removal \<Rightarrow> (err, membership_removal, db) tx" where
  "erase_membership E now out d =
     (let (md, d1) = removeMedia now (\<lambda>r. md_album r = rm_album out \<and> uploader_token r = rm_token out) d;
          (av, d2) = removeAvatars now (\<lambda>v. av_album v = rm_album out \<and> av_token v = rm_token out) d1;
          us = activeUserIDs E (rm_album out) (rm_token out) d2
      in case delete_amid (rm_token out) d2 of Inl e \<Rightarrow> Inl e
         | Inr d3 \<Rightarrow> Inr (out\<lparr>rm_notify := us, rm_media := MediaIDs md, rm_keys := Keys md @ av\<rparr>, d3))"

definition RemoveMembership ::
  "env \<Rightarrow> time \<Rightarrow> uuid \<Rightarrow> uuid \<Rightarrow> (err, membership_removal, db) tx" where
  "RemoveMembership E now userID albumID d =
     (case lockAlbum albumID d of Inl _ \<Rightarrow> Inr (no_removal albumID, d)
      | Inr _ \<Rightarrow>
        (case memberships E userID (Some albumID) d of [] \<Rightarrow> Inr (no_removal albumID, d)
         | m # _ \<Rightarrow>
           let out = (no_removal albumID)\<lparr>rm_token := ms_token m, rm_outcome := Some (Outcome m)\<rparr>
           in (case Outcome m of
                 OutcomeLeave \<Rightarrow>
                   erase_membership E now out (require_rotation albumID (leave_row now albumID (ms_token m) d))
               | OutcomeErase \<Rightarrow> erase_membership E now out d
               | _ \<Rightarrow>
                 (case removeAlbum E now albumID (ms_token m) d of Inl e \<Rightarrow> Inl e
                  | Inr (removed, d') \<Rightarrow>
                    Inr (out\<lparr>rm_notify := MemberUserIDs removed, rm_keys := RemovedKeys removed\<rparr>, d')))))"

definition FinishAccount :: "env \<Rightarrow> uuid \<Rightarrow> db \<Rightarrow> bool \<times> db" where
  "FinishAccount E userID d =
     (case find_user d userID of None \<Rightarrow> (True, d)
      | Some _ \<Rightarrow>
        if sql_exists (\<lambda>i. user_handle i = lhash E userID) (amids d) then (False, d)
        else (True, delete_user userID d))"

section \<open>Service\<close>

definition maxDeletionPasses :: nat where "maxDeletionPasses = 5"
definition DeletionReceiptRetention :: time where "DeletionReceiptRetention = hours (180 * 24)"
definition DeletionReceiptLen :: nat where "DeletionReceiptLen = 32"

definition Preflight :: "env \<Rightarrow> uuid \<Rightarrow> db \<Rightarrow> (membership \<times> outcome) list" where
  "Preflight E userID d = map (\<lambda>m. (m, Outcome m)) (filter ms_active (Memberships E userID d))"

definition del_receiptHash :: "env \<Rightarrow> bytes \<Rightarrow> bytes" where
  "del_receiptHash E r = sha256 (cryp E) r"

definition deletion_Request ::
  "env \<Rightarrow> time \<Rightarrow> uuid \<Rightarrow> uuid list \<Rightarrow> bytes \<Rightarrow> (err, unit, db) tx" where
  "deletion_Request E now userID confirmedShared r d =
     (if length r \<noteq> DeletionReceiptLen then Inl (Api E_VALIDATION ''receipt must be 32 bytes'')
      else case Accept E now userID confirmedShared (del_receiptHash E r) d of
        Inl e \<Rightarrow> Inl (if e = Repo ErrDeletionPlanStale
            then Api E_DELETION_PLAN_STALE ''shared albums changed ; review the deletion again''
          else if e = Repo ErrReceiptAbandoned
            then Api E_DELETION_ABANDONED ''this deletion was abandoned ; start a new one''
          else if e = Repo ErrUserNotFound then Api E_AUTH ''account not found''
          else Api E_INTERNAL ''failed to accept deletion'')
      | Inr x \<Rightarrow> Inr x)"

definition svc_ReceiptAccepted :: "env \<Rightarrow> bytes \<Rightarrow> db \<Rightarrow> err + bool" where
  "svc_ReceiptAccepted E r d =
     (if length r \<noteq> DeletionReceiptLen then Inl (Api E_VALIDATION ''receipt must be 32 bytes'')
      else Inr (repo_ReceiptAccepted (del_receiptHash E r) d))"

definition svc_AbandonReceipt :: "env \<Rightarrow> time \<Rightarrow> bytes \<Rightarrow> db \<Rightarrow> (err + bool) \<times> db" where
  "svc_AbandonReceipt E now r d =
     (if length r \<noteq> DeletionReceiptLen then (Inl (Api E_VALIDATION ''receipt must be 32 bytes''), d)
      else let (accepted, d') = repo_AbandonReceipt now (del_receiptHash E r) d in (Inr accepted, d'))"

text \<open>The handlers of the two unauthenticated routes: the envelope, or success.\<close>

definition handle_DeletionReceipt :: "env \<Rightarrow> bytes \<Rightarrow> db \<Rightarrow> err + unit" where
  "handle_DeletionReceipt E r d =
     (case svc_ReceiptAccepted E r d of Inl e \<Rightarrow> Inl e
      | Inr ok \<Rightarrow> if ok then Inr () else Inl (Api E_NOT_FOUND ''no accepted deletion carries this receipt''))"

definition handle_AbandonDeletion :: "env \<Rightarrow> time \<Rightarrow> bytes \<Rightarrow> db \<Rightarrow> (err + unit) \<times> db" where
  "handle_AbandonDeletion E now r d =
     (case svc_AbandonReceipt E now r d of (Inl e, d') \<Rightarrow> (Inl e, d')
      | (Inr accepted, d') \<Rightarrow>
        (if accepted then Inl (Api E_DELETION_ACCEPTED ''this deletion was already accepted'') else Inr (), d'))"

definition afterRemoval :: "env \<Rightarrow> membership_removal \<Rightarrow> emission list" where
  "afterRemoval E r =
     (let album = (''album_id'', PText (uuid_String E (rm_album r)));
          media = (if rm_media r = [] then []
                   else [\<lparr>to_users = rm_notify r, em_type = EventMediaDeleted,
                     em_payload = [album, (''media_ids'', PTexts (map (uuid_String E) (rm_media r)))]\<rparr>])
      in if rm_notify r = [] then []
         else case rm_outcome r of
           Some OutcomeDeleteAlbum \<Rightarrow>
             [\<lparr>to_users = rm_notify r, em_type = EventAlbumDeleted, em_payload = [album]\<rparr>]
         | Some OutcomeDeleteShared \<Rightarrow>
             [\<lparr>to_users = rm_notify r, em_type = EventAlbumDeleted, em_payload = [album]\<rparr>]
         | Some OutcomeLeave \<Rightarrow>
             \<lparr>to_users = rm_notify r, em_type = EventMemberRevoked,
              em_payload = [album, (''member_token'', PText (StdEncode (rm_token r)))]\<rparr> # media
         | _ \<Rightarrow> media)"

text \<open>One pass over the memberships read at its start. An error stops the job; the events of the
  removals before it have been sent, so it comes with them.\<close>

fun remove_all ::
  "env \<Rightarrow> objstore \<Rightarrow> time \<Rightarrow> uuid \<Rightarrow> uuid list \<Rightarrow> db
     \<Rightarrow> (err \<times> emission list + emission list) \<times> db" where
  "remove_all E S now userID [] d = (Inr [], d)"
| "remove_all E S now userID (a # as) d =
     (case RemoveMembership E now userID a d of
        Inl e \<Rightarrow> (Inl (e, []), d)
      | Inr (removed, d1) \<Rightarrow>
        let d2 = snd (cleanupObjectKeys S now (rm_keys removed) d1)
        in (case remove_all E S now userID as d2 of
              (Inl (e, em), d3) \<Rightarrow> (Inl (e, afterRemoval E removed @ em), d3)
            | (Inr em, d3) \<Rightarrow> (Inr (afterRemoval E removed @ em), d3)))"

fun process_passes ::
  "nat \<Rightarrow> env \<Rightarrow> objstore \<Rightarrow> time \<Rightarrow> uuid \<Rightarrow> db
     \<Rightarrow> (err \<times> emission list + bool \<times> emission list) \<times> db" where
  "process_passes 0 E S now userID d = (Inr (False, []), d)"
| "process_passes (Suc n) E S now userID d =
     (case remove_all E S now userID (map ms_album (Memberships E userID d)) d of
        (Inl x, d1) \<Rightarrow> (Inl x, d1)
      | (Inr em, d1) \<Rightarrow>
        (case FinishAccount E userID d1 of
           (True, d2) \<Rightarrow> (Inr (True, em), d2)
         | (False, d2) \<Rightarrow>
           (case process_passes n E S now userID d2 of
              (Inl (e, em'), d3) \<Rightarrow> (Inl (e, em @ em'), d3)
            | (Inr (f, em'), d3) \<Rightarrow> (Inr (f, em @ em'), d3))))"

definition process ::
  "env \<Rightarrow> objstore \<Rightarrow> time \<Rightarrow> uuid \<Rightarrow> db \<Rightarrow> (err \<times> emission list + bool \<times> emission list) \<times> db" where
  "process E S now userID d = process_passes maxDeletionPasses E S now userID d"

text \<open>The claims of one run at one instant: every claim pushes its job at least five minutes back,
  so a run claims each job at most once and as many rounds as jobs are enough. Beside the number of
  finished accounts a run has the live events its jobs sent, those of a job that failed included.
  No other transaction locks rows of the queue, so \<^verbatim>\<open>SKIP LOCKED\<close> passes over none.\<close>

fun process_due_rounds ::
  "nat \<Rightarrow> env \<Rightarrow> objstore \<Rightarrow> time \<Rightarrow> db \<Rightarrow> (nat \<times> emission list) \<times> db" where
  "process_due_rounds 0 E S now d = ((0, []), d)"
| "process_due_rounds (Suc n) E S now d =
     (case ClaimDue now d of
        (None, d1) \<Rightarrow> ((0, []), d1)
      | (Some u, d1) \<Rightarrow>
        (case process E S now u d1 of
           (Inr (finished, em), d2) \<Rightarrow>
             (let ((k, em'), d3) = process_due_rounds n E S now d2
              in ((if finished then k + 1 else k, em @ em'), d3))
         | (Inl (e, em), d2) \<Rightarrow>
             (let ((k, em'), d3) = process_due_rounds n E S now d2 in ((k, em @ em'), d3))))"

definition ProcessDue :: "env \<Rightarrow> objstore \<Rightarrow> time \<Rightarrow> db \<Rightarrow> (nat \<times> emission list) \<times> db" where
  "ProcessDue E S now d =
     (let d1 = PruneReceipts (now - DeletionReceiptRetention) d
      in process_due_rounds (Suc (length (deletions d1))) E S now d1)"

end
