(* ===== verification/Prekeys.thy ===== *)
theory Prekeys
  imports Invites
begin

text \<open>
  \<^verbatim>\<open>server/internal/e2ee/prekey\<close> and \<^verbatim>\<open>repository/prekey_repo.go\<close>: an
  account's published identity, the rotation of its signed prekey, the stock of one-time prekeys
  and the bundle a peer fetches. Time stamps of signed prekeys are signed 64-bit words; the skew
  check is written with their wrap-around.
\<close>

section \<open>Repository\<close>

record identity =
  IKPub :: "bytes option"
  LKPub :: "bytes option"
  SPKPub :: "bytes option"
  SPKSig :: "bytes option"
  SPKTs :: "int64 option"

definition IdentityByID :: "uuid \<Rightarrow> db \<Rightarrow> err + identity" where
  "IdentityByID u d = (case find_user d u of None \<Rightarrow> Inl (Repo ErrUserNotFound)
     | Some r \<Rightarrow> Inr \<lparr>IKPub = ik_pub r, LKPub = lk_pub r, SPKPub = spk_pub r, SPKSig = spk_sig r,
                     SPKTs = spk_ts r\<rparr>)"

text \<open>The two guarded updates; each reports whether it touched the row.\<close>

definition publish_new ::
  "time \<Rightarrow> uuid \<Rightarrow> bytes \<Rightarrow> bytes \<Rightarrow> bytes \<Rightarrow> bytes \<Rightarrow> int64 \<Rightarrow> db \<Rightarrow> bool \<times> db" where
  "publish_new now u ik lk spk sg ts d =
     (let p = (\<lambda>r. u_id r = u \<and> ik_pub r = None)
      in (sql_exists p (users d), d\<lparr>users := sql_update p
        (\<lambda>r. r\<lparr>ik_pub := Some ik, lk_pub := Some lk, spk_pub := Some spk, spk_sig := Some sg,
               spk_ts := Some ts, u_updated_at := now\<rparr>) (users d)\<rparr>))"

definition newer_ts :: "int64 \<Rightarrow> int64 option \<Rightarrow> bool" where
  "newer_ts ts old \<longleftrightarrow> (case old of None \<Rightarrow> True | Some o' \<Rightarrow> sint o' < sint ts)"

definition publish_refresh ::
  "time \<Rightarrow> uuid \<Rightarrow> bytes \<Rightarrow> bytes \<Rightarrow> bytes \<Rightarrow> bytes \<Rightarrow> int64 \<Rightarrow> db \<Rightarrow> bool \<times> db" where
  "publish_refresh now u ik lk spk sg ts d =
     (let p = (\<lambda>r. u_id r = u \<and> ik_pub r = Some ik \<and> lk_pub r = Some lk \<and> spk_pub r = Some spk)
      in (sql_exists p (users d), d\<lparr>users := sql_update p
        (\<lambda>r. r\<lparr>spk_sig := if newer_ts ts (spk_ts r) then Some sg else spk_sig r,
               spk_ts := if newer_ts ts (spk_ts r) then Some ts else spk_ts r,
               u_updated_at := now\<rparr>) (users d)\<rparr>))"

definition PublishOrRefreshIdentity ::
  "time \<Rightarrow> uuid \<Rightarrow> bytes \<Rightarrow> bytes \<Rightarrow> bytes \<Rightarrow> bytes \<Rightarrow> int64 \<Rightarrow> (err, unit, db) tx" where
  "PublishOrRefreshIdentity now u ik lk spk sg ts d =
     (let (done1, d1) = publish_new now u ik lk spk sg ts d
      in if done1 then Inr ((), d1)
         else let (done2, d2) = publish_refresh now u ik lk spk sg ts d1
              in if done2 then Inr ((), d2) else Inl (Prekey ErrIdentityConflict))"

definition repo_RotateSPK :: "time \<Rightarrow> uuid \<Rightarrow> bytes \<Rightarrow> bytes \<Rightarrow> int64 \<Rightarrow> (err, unit, db) tx" where
  "repo_RotateSPK now u spk sg ts d =
     (case find_user d u of None \<Rightarrow> Inl (Repo ErrUserNotFound)
      | Some r \<Rightarrow>
        if \<not> newer_ts ts (spk_ts r) then Inl (Prekey ErrTsNotMonotonic)
        else Inr ((), d\<lparr>users := sql_update (\<lambda>r. u_id r = u)
               (\<lambda>r. r\<lparr>spk_pub := Some spk, spk_sig := Some sg, spk_ts := Some ts, u_updated_at := now\<rparr>)
               (users d),
             spk_rotations := sql_insert \<lparr>r_user = u, old_spk_ts = spk_ts r, new_spk_ts = ts\<rparr>
               (spk_rotations d)\<rparr>))"

record opk_upload =
  opk_Idx :: int
  opk_KeyPub :: bytes

text \<open>One statement of the batch and, on a conflict, the comparison with the stored key.\<close>

definition create_opk :: "time \<Rightarrow> uuid \<Rightarrow> uuid \<times> opk_upload \<Rightarrow> db \<Rightarrow> err + db" where
  "create_opk now u x d =
     (let (newID, up) = x in
      if \<not> int4 (opk_Idx up) then Inl DbError
      else case find (\<lambda>r. o_user r = u \<and> opk_idx r = opk_Idx up) (opks d) of
        Some old \<Rightarrow> if key_pub old \<noteq> opk_KeyPub up then Inl (Prekey ErrOPKIndexTaken) else Inr d
      | None \<Rightarrow>
        if find_user d u = None \<or> sql_exists (\<lambda>r. o_id r = newID) (opks d) then Inl DbError
        else Inr (d\<lparr>opks := sql_insert \<lparr>o_id = newID, o_user = u, opk_idx = opk_Idx up,
               key_pub = opk_KeyPub up, consumed = False, o_created_at = trunc_hour now\<rparr> (opks d)\<rparr>))"

fun CreateBatchAtomic :: "time \<Rightarrow> uuid \<Rightarrow> (uuid \<times> opk_upload) list \<Rightarrow> (err, unit, db) tx" where
  "CreateBatchAtomic now u [] d = Inr ((), d)"
| "CreateBatchAtomic now u (x # xs) d =
     (case create_opk now u x d of Inl e \<Rightarrow> Inl e | Inr d' \<Rightarrow> CreateBatchAtomic now u xs d')"

definition fresh_opks :: "uuid \<Rightarrow> db \<Rightarrow> opk list" where
  "fresh_opks u d = filter (\<lambda>r. o_user r = u \<and> \<not> consumed r) (opks d)"

text \<open>\<open>pick\<close> is the row \<^verbatim>\<open>LIMIT 1\<close> without an order happens to choose.\<close>

definition PopRandom :: "nat \<Rightarrow> uuid \<Rightarrow> db \<Rightarrow> opk option \<times> db" where
  "PopRandom pick u d =
     (case fresh_opks u d of [] \<Rightarrow> (None, d)
      | rs \<Rightarrow> let r = rs ! (pick mod length rs)
             in (Some (r\<lparr>consumed := True\<rparr>), d\<lparr>opks := sql_update (\<lambda>x. o_id x = o_id r)
                  (\<lambda>x. x\<lparr>consumed := True\<rparr>) (opks d)\<rparr>))"

definition opk_Count :: "uuid \<Rightarrow> db \<Rightarrow> nat" where
  "opk_Count u d = length (fresh_opks u d)"

section \<open>Service\<close>

definition tsSkewWindow :: time where "tsSkewWindow = minutes 5"
definition opkBatchMax :: nat where "opkBatchMax = 100"
definition opkLowThreshold :: nat where "opkLowThreshold = 5"

text \<open>\<^verbatim>\<open>now.Unix()\<close>, and the check on 64-bit arithmetic: difference, negation and the
  product with \<^verbatim>\<open>time.Second\<close> wrap.\<close>

definition unix_time :: "time \<Rightarrow> int64" where
  "unix_time now = word_of_int (now div 1000000000)"

definition abs_delta :: "int64 \<Rightarrow> int64" where
  "abs_delta delta = (if sint delta < 0 then - delta else delta)"

definition withinSkew :: "time \<Rightarrow> int64 \<Rightarrow> time \<Rightarrow> bool" where
  "withinSkew now ts window = (sint (abs_delta (unix_time now - ts) * 1000000000) \<le> window)"

definition spkSelfMsg :: "bytes \<Rightarrow> int64 \<Rightarrow> bytes" where
  "spkSelfMsg spkPub ts = spkPub @ be64 ts"

definition RotationMsg :: "bytes \<Rightarrow> int64 \<Rightarrow> bytes" where
  "RotationMsg spkPub ts = SaltSpkRotate @ spkPub @ be64 ts"

definition ReplenishMsg :: "crypto \<Rightarrow> bytes list \<Rightarrow> bytes" where
  "ReplenishMsg C opkPubs =
     ascii ''opk-batch-v1'' @ be32 (uint32 (int (length opkPubs))) @ sha256 C (concat opkPubs)"

definition UpsertIdentity ::
  "env \<Rightarrow> time \<Rightarrow> uuid \<Rightarrow> bytes \<Rightarrow> bytes \<Rightarrow> bytes \<Rightarrow> bytes \<Rightarrow> int64 \<Rightarrow> (err, unit, db) tx" where
  "UpsertIdentity E now u ik lk spk sg ts d =
     (if length ik \<noteq> 32 \<or> length lk \<noteq> 32 \<or> length spk \<noteq> 32
        then Inl (Api E_VALIDATION ''ik_pub/lk_pub/spk_pub must be 32 bytes'')
      else if length sg \<noteq> 64 then Inl (Api E_VALIDATION ''spk_sig must be 64 bytes'')
      else if \<not> withinSkew now ts tsSkewWindow
        then Inl (Api E_TS_SKEW ''spk_ts outside acceptable skew window'')
      else case VerifyEd25519 (cryp E) ik (spkSelfMsg spk ts) sg of
        Inl _ \<Rightarrow> Inl (Api E_SIG_INVALID ''spk_sig verification failed'')
      | Inr _ \<Rightarrow>
        (case PublishOrRefreshIdentity now u ik lk spk sg ts d of
           Inl e \<Rightarrow> Inl (if e = Prekey ErrIdentityConflict
              then Api E_IDENTITY_ALREADY_SET ''identity already published; rotate via POST /users/me/spk''
              else e)
         | Inr x \<Rightarrow> Inr x))"

definition svc_RotateSPK ::
  "env \<Rightarrow> time \<Rightarrow> uuid \<Rightarrow> bytes \<Rightarrow> bytes \<Rightarrow> int64 \<Rightarrow> bytes \<Rightarrow> (err, unit, db) tx" where
  "svc_RotateSPK E now u spk sg ts rotationSig d =
     (if length spk \<noteq> 32 then Inl (Api E_VALIDATION ''spk_pub must be 32 bytes'')
      else if length sg \<noteq> 64 then Inl (Api E_VALIDATION ''spk_sig must be 64 bytes'')
      else if length rotationSig \<noteq> 64 then Inl (Api E_VALIDATION ''rotation_sig must be 64 bytes'')
      else if \<not> withinSkew now ts tsSkewWindow
        then Inl (Api E_TS_SKEW ''spk_ts outside acceptable skew window'')
      else case IdentityByID u d of Inl e \<Rightarrow> Inl e
      | Inr cur \<Rightarrow>
        let ikPub = opt_bytes (IKPub cur)
        in if ikPub = []
             then Inl (Api E_IDENTITY_NOT_SET ''publish identity via PUT /users/me/keys before rotating'')
           else (case VerifyEd25519 (cryp E) ikPub (spkSelfMsg spk ts) sg of
               Inl _ \<Rightarrow> Inl (Api E_SIG_INVALID ''spk_sig verification failed'')
             | Inr _ \<Rightarrow>
               (case VerifyEd25519 (cryp E) ikPub (RotationMsg spk ts) rotationSig of
                  Inl _ \<Rightarrow> Inl (Api E_SIG_INVALID ''rotation_sig verification failed'')
                | Inr _ \<Rightarrow>
                  if \<not> newer_ts ts (SPKTs cur)
                    then Inl (Api E_TS_NOT_MONOTONIC ''spk_ts must be strictly greater than current spk_ts'')
                  else (case repo_RotateSPK now u spk sg ts d of
                      Inl e \<Rightarrow> Inl (if e = Prekey ErrTsNotMonotonic
                        then Api E_TS_NOT_MONOTONIC ''spk_ts must be strictly greater than current spk_ts''
                        else e)
                    | Inr x \<Rightarrow> Inr x))))"

fun check_opks :: "opk_upload list \<Rightarrow> err option" where
  "check_opks [] = None"
| "check_opks (x # xs) =
     (if opk_Idx x < 0 then Some (Api E_VALIDATION ''opks[].idx must be >= 0'')
      else if length (opk_KeyPub x) \<noteq> 32 then Some (Api E_VALIDATION ''opks[].key_pub must be 32 bytes'')
      else check_opks xs)"

text \<open>\<open>ids\<close> are the values of \<^verbatim>\<open>uuid.New()\<close>, one per key.\<close>

definition ReplenishOPKs ::
  "env \<Rightarrow> time \<Rightarrow> uuid list \<Rightarrow> uuid \<Rightarrow> opk_upload list \<Rightarrow> bytes \<Rightarrow> (err, unit, db) tx" where
  "ReplenishOPKs E now ids u ups sg d =
     (if ups = [] then Inl (Api E_VALIDATION ''opks must be a non-empty array'')
      else if length ups > opkBatchMax then Inl (Api E_VALIDATION ''opks batch exceeds 100'')
      else if length sg \<noteq> 64 then Inl (Api E_VALIDATION ''replenish_sig must be 64 bytes'')
      else case check_opks ups of Some e \<Rightarrow> Inl e
      | None \<Rightarrow>
        (case IdentityByID u d of Inl e \<Rightarrow> Inl e
         | Inr cur \<Rightarrow>
           let ikPub = opt_bytes (IKPub cur)
           in if ikPub = []
                then Inl (Api E_IDENTITY_NOT_SET ''publish identity via PUT /users/me/keys before uploading OPKs'')
              else (case VerifyEd25519 (cryp E) ikPub (ReplenishMsg (cryp E) (map opk_KeyPub ups)) sg of
                  Inl _ \<Rightarrow> Inl (Api E_SIG_INVALID ''replenish_sig verification failed'')
                | Inr _ \<Rightarrow>
                  (case CreateBatchAtomic now u (zip ids ups) d of
                     Inl e \<Rightarrow> Inl (if e = Prekey ErrOPKIndexTaken
                       then Api E_OPK_INDEX_TAKEN ''one or more opk_idx values already exist for this user''
                       else e)
                   | Inr x \<Rightarrow> Inr x))))"

record prekey_bundle =
  b_user :: uuid
  b_ik :: bytes
  b_lk :: bytes
  b_spk :: bytes
  b_spk_sig :: bytes
  b_spk_ts :: int64
  b_opk :: "opk_upload option"
  b_opk_left :: int

definition GetPrekeyBundle :: "nat \<Rightarrow> uuid \<Rightarrow> (err, prekey_bundle, db) tx" where
  "GetPrekeyBundle pick target d =
     (case IdentityByID target d of Inl e \<Rightarrow> Inl e
      | Inr i \<Rightarrow>
        if opt_bytes (IKPub i) = [] \<or> opt_bytes (SPKPub i) = []
          then Inl (Api E_IDENTITY_NOT_SET ''target has not published an identity'')
        else
          let out = \<lparr>b_user = target, b_ik = opt_bytes (IKPub i), b_lk = opt_bytes (LKPub i),
                b_spk = opt_bytes (SPKPub i), b_spk_sig = opt_bytes (SPKSig i),
                b_spk_ts = (case SPKTs i of None \<Rightarrow> 0 | Some t \<Rightarrow> t), b_opk = None, b_opk_left = -1\<rparr>
          in (case PopRandom pick target d of
                (None, d') \<Rightarrow> Inr (out, d')
              | (Some r, d') \<Rightarrow>
                Inr (out\<lparr>b_opk := Some \<lparr>opk_Idx = opk_idx r, opk_KeyPub = key_pub r\<rparr>,
                         b_opk_left := int (opk_Count target d')\<rparr>, d')))"

section \<open>Handlers\<close>

definition opk_low_fanout :: "prekey_bundle \<Rightarrow> uuid \<Rightarrow> emission list" where
  "opk_low_fanout b target =
     (if b_opk b \<noteq> None \<and> b_opk_left b \<ge> 0 \<and> b_opk_left b < int opkLowThreshold
      then [\<lparr>to_users = [target], em_type = EventOPKLow,
             em_payload = [(''remaining'', PInt (b_opk_left b))]\<rparr>] else [])"

definition GetPrekeyBundleByHandle ::
  "nat \<Rightarrow> bytes \<Rightarrow> (err, (bytes \<times> prekey_bundle) \<times> emission list, db) tx" where
  "GetPrekeyBundleByHandle pick raw d =
     (case Normalize raw of Inl _ \<Rightarrow> Inl (Api E_NOT_FOUND ''user not found'')
      | Inr norm \<Rightarrow>
        (case FindUserIDByMiuchioID norm d of
           Inl e \<Rightarrow> Inl (if e = Repo ErrUserNotFound then Api E_NOT_FOUND ''user not found''
                      else Api E_INTERNAL ''handle lookup failed'')
         | Inr target \<Rightarrow>
           (case GetPrekeyBundle pick target d of Inl e \<Rightarrow> Inl e
            | Inr (b, d') \<Rightarrow> Inr (((norm, b), opk_low_fanout b target), d'))))"

definition GetPrekeyBundleByMemberToken ::
  "env \<Rightarrow> nat \<Rightarrow> role option \<Rightarrow> uuid \<Rightarrow> bytes \<Rightarrow> (err, (bytes \<times> prekey_bundle) \<times> emission list, db) tx" where
  "GetPrekeyBundleByMemberToken E pick callerRole albumID token d =
     (case callerRole of None \<Rightarrow> Inl (Api E_AUTH ''missing member context'')
      | Some r \<Rightarrow>
        if r \<noteq> Admin
          then Inl (Api E_FORBIDDEN (''only the admin can fetch a member'' @ [CHR 39] @ ''s prekey bundle''))
        else (case UserIDByAlbumMemberToken E albumID token d of
            Inl e \<Rightarrow> Inl (if e = Repo ErrMemberNotFound
                then Api E_NOT_FOUND ''no such member in this album''
                else Api E_INTERNAL ''member lookup failed'')
          | Inr target \<Rightarrow>
            (case GetPrekeyBundle pick target d of Inl e \<Rightarrow> Inl e
             | Inr (b, d') \<Rightarrow> Inr (((StdEncode token, b), opk_low_fanout b target), d'))))"

text \<open>The rate-limit keys of the bundle routes; an empty key means no limit applies.\<close>

definition KeyByRequesterAndHandle :: "env \<Rightarrow> uuid option \<Rightarrow> bytes \<Rightarrow> bytes" where
  "KeyByRequesterAndHandle E uid raw =
     (case uid of None \<Rightarrow> []
      | Some u \<Rightarrow> if raw = [] then []
        else ascii ''prekey-bundle-handle:'' @ uuid_String E u @ ascii '':'' @
             (case Normalize raw of Inl _ \<Rightarrow> raw | Inr norm \<Rightarrow> norm))"

definition KeyByRequesterHandleLookups :: "env \<Rightarrow> uuid option \<Rightarrow> bytes" where
  "KeyByRequesterHandleLookups E uid =
     (case uid of None \<Rightarrow> [] | Some u \<Rightarrow> ascii ''prekey-bundle-handle-any:'' @ uuid_String E u)"

definition KeyByRequesterAndMemberToken :: "env \<Rightarrow> uuid option \<Rightarrow> bytes \<Rightarrow> bytes \<Rightarrow> bytes" where
  "KeyByRequesterAndMemberToken E uid albumID token =
     (case uid of None \<Rightarrow> []
      | Some u \<Rightarrow> if albumID = [] \<or> token = [] then []
        else ascii ''prekey-bundle-token:'' @ uuid_String E u @ ascii '':'' @ albumID @ ascii '':'' @ token)"

definition KeyByRequesterAndTarget :: "env \<Rightarrow> uuid option \<Rightarrow> bytes \<Rightarrow> bytes" where
  "KeyByRequesterAndTarget E uid target =
     (case uid of None \<Rightarrow> []
      | Some u \<Rightarrow> if target = [] then []
        else ascii ''prekey-bundle:'' @ uuid_String E u @ ascii '':'' @ target)"

end
