(* ===== verification/Auth.thy ===== *)
theory Auth
  imports Users Handles Realtime
begin

text \<open>
  \<^verbatim>\<open>repository/otp_repo.go\<close>, \<^verbatim>\<open>repository/session_repo.go\<close>,
  \<^verbatim>\<open>service/auth_service.go\<close>, \<^verbatim>\<open>middleware/auth.go\<close> and the answers
  of \<^verbatim>\<open>handler/auth.go\<close>: one-time codes in Redis, accounts created on first
  sign-in, and opaque session tokens. The Lua scripts run atomically, so each is one function on
  the store. \<open>mail_ok\<close> is the answer of the mail service; trimming and lower-casing an address
  are the parameter \<open>norm_email\<close>.
\<close>

section \<open>One-time codes\<close>

record otp_store =
  otp_codes :: "bytes ttl_map"
  otp_attempts :: "nat ttl_map"
  otp_limits :: "nat ttl_map"

definition empty_otp :: otp_store where
  "empty_otp = \<lparr>otp_codes = (\<lambda>_. None), otp_attempts = (\<lambda>_. None), otp_limits = (\<lambda>_. None)\<rparr>"

text \<open>\<^verbatim>\<open>INCR\<close> keeps the expiry of a live key; the scripts give a counter its expiry
  when it starts at one.\<close>

definition redis_incr_expire :: "time \<Rightarrow> bytes \<Rightarrow> time \<Rightarrow> nat ttl_map \<Rightarrow> nat \<times> nat ttl_map" where
  "redis_incr_expire now k ttl m =
     (case redis_get now m k of
        None \<Rightarrow> (1, m(k \<mapsto> (1, now + ttl)))
      | Some n \<Rightarrow> (n + 1, (case m k of None \<Rightarrow> m | Some (_, e) \<Rightarrow> m(k \<mapsto> (n + 1, e)))))"

definition redis_pttl :: "time \<Rightarrow> 'v ttl_map \<Rightarrow> bytes \<Rightarrow> time" where
  "redis_pttl now m k = (case m k of None \<Rightarrow> 0 | Some (_, e) \<Rightarrow> e - now)"

definition SetOTP :: "time \<Rightarrow> bytes \<Rightarrow> bytes \<Rightarrow> time \<Rightarrow> otp_store \<Rightarrow> otp_store" where
  "SetOTP now key codeMAC ttl s =
     s\<lparr>otp_codes := redis_set now key codeMAC ttl (otp_codes s),
       otp_attempts := redis_del key (otp_attempts s)\<rparr>"

definition CheckOTP :: "time \<Rightarrow> bytes \<Rightarrow> bytes \<Rightarrow> nat \<Rightarrow> otp_store \<Rightarrow> bool \<times> otp_store" where
  "CheckOTP now key codeMAC maxAttempts s =
     (case redis_get now (otp_codes s) key of
        None \<Rightarrow> (False, s)
      | Some stored \<Rightarrow>
        if stored = codeMAC then
          (True, s\<lparr>otp_codes := redis_del key (otp_codes s), otp_attempts := redis_del key (otp_attempts s)\<rparr>)
        else
          let (n, m) = redis_incr_expire now key (redis_pttl now (otp_codes s) key) (otp_attempts s)
          in if n \<ge> maxAttempts
             then (False, s\<lparr>otp_codes := redis_del key (otp_codes s), otp_attempts := redis_del key m\<rparr>)
             else (False, s\<lparr>otp_attempts := m\<rparr>))"

definition CheckRateLimit :: "time \<Rightarrow> bytes \<Rightarrow> nat \<Rightarrow> time \<Rightarrow> otp_store \<Rightarrow> bool \<times> otp_store" where
  "CheckRateLimit now key mx window s =
     (let (n, m) = redis_incr_expire now key window (otp_limits s)
      in (n \<le> mx, s\<lparr>otp_limits := m\<rparr>))"

section \<open>Sessions\<close>

definition HashToken :: "env \<Rightarrow> bytes \<Rightarrow> bytes" where
  "HashToken E token = sha256 (cryp E) token"

definition session_Create :: "time \<Rightarrow> uuid \<Rightarrow> uuid \<Rightarrow> bytes \<Rightarrow> time \<Rightarrow> (err, unit, db) tx" where
  "session_Create now newID userID hash expires d =
     (if find_user d userID = None \<or> sql_exists (\<lambda>s. s_id s = newID \<or> token_hash s = hash) (sessions d)
      then Inl DbError
      else Inr ((), d\<lparr>sessions := sql_insert \<lparr>s_id = newID, s_user = userID, token_hash = hash,
        expires_at = expires, s_created_at = trunc_hour now\<rparr> (sessions d)\<rparr>))"

text \<open>The join with a user that is not being deleted.\<close>

definition live_user :: "db \<Rightarrow> uuid \<Rightarrow> bool" where
  "live_user d u \<longleftrightarrow> (case find_user d u of None \<Rightarrow> False | Some r \<Rightarrow> deleting_at r = None)"

definition GetByToken :: "env \<Rightarrow> bytes \<Rightarrow> db \<Rightarrow> err + session" where
  "GetByToken E token d =
     (case find (\<lambda>s. token_hash s = HashToken E token \<and> live_user d (s_user s)) (sessions d) of
        None \<Rightarrow> Inl (Repo ErrSessionNotFound) | Some s \<Rightarrow> Inr s)"

definition DeleteByToken :: "env \<Rightarrow> bytes \<Rightarrow> db \<Rightarrow> db" where
  "DeleteByToken E token d =
     d\<lparr>sessions := sql_delete (\<lambda>s. token_hash s = HashToken E token) (sessions d)\<rparr>"

definition ExtendByToken :: "env \<Rightarrow> bytes \<Rightarrow> time \<Rightarrow> (err, unit, db) tx" where
  "ExtendByToken E token expires d =
     (let p = (\<lambda>s. token_hash s = HashToken E token \<and> live_user d (s_user s))
      in if \<not> sql_exists p (sessions d) then Inl (Repo ErrSessionNotFound)
         else Inr ((), d\<lparr>sessions := sql_update p (\<lambda>s. s\<lparr>expires_at := expires\<rparr>) (sessions d)\<rparr>))"

section \<open>Service\<close>

definition maxMiuchioIDAttempts :: nat where "maxMiuchioIDAttempts = 5"
definition otpTTL :: time where "otpTTL = minutes 5"
definition maxOTPAttempts :: nat where "maxOTPAttempts = 5"
definition maxOTPRequests :: nat where "maxOTPRequests = 3"
definition otpRequestWindow :: time where "otpRequestWindow = minutes 5"
definition sessionTTL :: time where "sessionTTL = hours (30 * 24)"

record auth_env =
  a_env :: env
  emailHMACKey :: bytes
  norm_email :: "bytes \<Rightarrow> bytes"

definition deriveOTPKey :: "crypto \<Rightarrow> bytes \<Rightarrow> bytes" where
  "deriveOTPKey C k = hmac_sha256 C k (ascii ''miuchio-otp-key-v1'')"

definition otpMAC :: "auth_env \<Rightarrow> bytes \<Rightarrow> bytes \<Rightarrow> bytes" where
  "otpMAC A emailHMAC otp =
     hex (hmac_sha256 (cryp (a_env A)) (deriveOTPKey (cryp (a_env A)) (emailHMACKey A)) (emailHMAC @ otp))"

definition HashEmail :: "auth_env \<Rightarrow> bytes \<Rightarrow> bytes" where
  "HashEmail A email = hmac_sha256 (cryp (a_env A)) (emailHMACKey A) (norm_email A email)"

text \<open>\<open>rnd\<close> are the numbers \<^verbatim>\<open>rand.Int\<close> returned, each below ten.\<close>

definition generateOTP :: "nat list \<Rightarrow> bytes" where
  "generateOTP rnd = map (\<lambda>n. digit n) rnd"

definition generateToken :: "bytes \<Rightarrow> bytes" where
  "generateToken rnd = URLEncode rnd"

definition RequestOTP ::
  "auth_env \<Rightarrow> time \<Rightarrow> nat list \<Rightarrow> bool \<Rightarrow> bytes \<Rightarrow> otp_store \<Rightarrow> (err + unit) \<times> otp_store" where
  "RequestOTP A now rnd mail_ok email s =
     (let emailHMAC = HashEmail A email;
          key = hex emailHMAC;
          (allowed, s1) = CheckRateLimit now key maxOTPRequests otpRequestWindow s
      in if \<not> allowed then (Inl (Service ErrTooManyRequests), s1)
         else let otp = generateOTP rnd;
                  s2 = SetOTP now key (otpMAC A emailHMAC otp) otpTTL s1
              in if mail_ok then (Inr (), s2) else (Inl (ErrText ''mail''), s2))"

text \<open>The retry on a handle that is taken; \<open>handles\<close> are the values generated for the
  attempts.\<close>

fun createWithMiuchioID ::
  "time \<Rightarrow> uuid \<Rightarrow> bytes list \<Rightarrow> user \<Rightarrow> (err, user, db) tx" where
  "createWithMiuchioID now newID [] u d = Inl (Repo ErrMiuchioIDTaken)"
| "createWithMiuchioID now newID (h # hs) u d =
     (case user_Create now newID (u\<lparr>u_miuchio_id := h\<rparr>) d of
        Inr x \<Rightarrow> Inr x
      | Inl e \<Rightarrow> if e = Repo ErrMiuchioIDTaken \<and> hs \<noteq> [] then createWithMiuchioID now newID hs u d
                else Inl e)"

definition new_user :: "bytes \<Rightarrow> user" where
  "new_user emailHMAC = \<lparr>u_id = 0, email_hmac = emailHMAC, u_miuchio_id = [], ik_pub = None,
     lk_pub = None, spk_pub = None, spk_sig = None, spk_ts = None, u_created_at = 0,
     u_updated_at = 0, deleting_at = None\<rparr>"

record verified_session =
  v_user :: uuid
  v_token :: bytes
  v_expires :: time

text \<open>The random values of a sign-in: identifiers of the user and the session, the handles tried
  and the token.\<close>

record signin_random =
  rn_user :: uuid
  rn_session :: uuid
  rn_handles :: "bytes list"
  rn_token :: bytes

definition signin_account ::
  "auth_env \<Rightarrow> time \<Rightarrow> signin_random \<Rightarrow> bytes \<Rightarrow> (err, user, db) tx" where
  "signin_account A now R emailHMAC d =
     (case GetByEmailHMAC emailHMAC d of
        Inr u \<Rightarrow> Inr (u, d)
      | Inl e \<Rightarrow> if e = Repo ErrUserNotFound
                then createWithMiuchioID now (rn_user R) (take maxMiuchioIDAttempts (rn_handles R))
                       (new_user emailHMAC) d
                else Inl e)"

definition VerifyOTP ::
  "auth_env \<Rightarrow> time \<Rightarrow> signin_random \<Rightarrow> bytes \<Rightarrow> bytes \<Rightarrow> otp_store \<times> db
     \<Rightarrow> (err + verified_session) \<times> otp_store \<times> db" where
  "VerifyOTP A now R email otp st =
     (let (s, d) = st;
          emailHMAC = HashEmail A email;
          (ok, s1) = CheckOTP now (hex emailHMAC) (otpMAC A emailHMAC otp) maxOTPAttempts s
      in if \<not> ok then (Inl (Service ErrInvalidOTP), s1, d)
         else (case signin_account A now R emailHMAC d of
             Inl e \<Rightarrow> (Inl e, s1, d)
           | Inr (u, d1) \<Rightarrow>
             if deleting_at u \<noteq> None then (Inl (Service SvcErrAccountDeleting), s1, d1)
             else
               let token = generateToken (rn_token R)
               in (case session_Create now (rn_session R) (u_id u) (HashToken (a_env A) token)
                     (now + sessionTTL) d1 of
                     Inl e \<Rightarrow> (Inl e, s1, d1)
                   | Inr (_, d2) \<Rightarrow>
                     (Inr \<lparr>v_user = u_id u, v_token = token, v_expires = now + sessionTTL\<rparr>, s1, d2))))"

definition RefreshSession :: "env \<Rightarrow> time \<Rightarrow> bytes \<Rightarrow> (err, bytes \<times> bytes \<times> time, db) tx" where
  "RefreshSession E now refreshToken d =
     (case GetByToken E refreshToken d of
        Inl e \<Rightarrow> Inl (if e = Repo ErrSessionNotFound then Service ErrSessionInvalid else e)
      | Inr s \<Rightarrow>
        if now > expires_at s then Inl (Service ErrSessionInvalid)
        else (case ExtendByToken E refreshToken (now + sessionTTL) d of
            Inl e \<Rightarrow> Inl (if e = Repo ErrSessionNotFound then Service ErrSessionInvalid else e)
          | Inr (_, d') \<Rightarrow> Inr ((refreshToken, refreshToken, now + sessionTTL), d')))"

section \<open>Middleware and handlers\<close>

text \<open>\<^verbatim>\<open>strings.Split(s, " ")\<close>.\<close>

fun split_space :: "bytes \<Rightarrow> bytes list" where
  "split_space [] = [[]]"
| "split_space (b # bs) = (if b = 32 then [] # split_space bs
     else case split_space bs of [] \<Rightarrow> [[b]] | p # ps \<Rightarrow> (b # p) # ps)"

definition Authenticate :: "env \<Rightarrow> time \<Rightarrow> bytes \<Rightarrow> db \<Rightarrow> err + uuid" where
  "Authenticate E now authHeader d =
     (if authHeader = [] then Inl (Api E_AUTH ''missing bearer token'')
      else case split_space authHeader of
        [p0, token] \<Rightarrow>
          if p0 \<noteq> ascii ''Bearer'' then Inl (Api E_AUTH ''invalid Authorization header format'')
          else (case GetByToken E token d of
              Inl _ \<Rightarrow> Inl (Api E_AUTH ''invalid or expired session'')
            | Inr s \<Rightarrow> if now > expires_at s then Inl (Api E_AUTH ''session expired'')
                      else Inr (s_user s))
      | _ \<Rightarrow> Inl (Api E_AUTH ''invalid Authorization header format''))"

definition handle_RequestOTP ::
  "auth_env \<Rightarrow> time \<Rightarrow> nat list \<Rightarrow> bool \<Rightarrow> bytes \<Rightarrow> otp_store \<Rightarrow> (err + unit) \<times> otp_store" where
  "handle_RequestOTP A now rnd mail_ok email0 s =
     (let email = norm_email A email0
      in if email = [] then (Inl (Api E_VALIDATION ''email is required''), s)
         else case RequestOTP A now rnd mail_ok email s of
           (Inr _, s') \<Rightarrow> (Inr (), s')
         | (Inl e, s') \<Rightarrow> (Inl (if e = Service ErrTooManyRequests
               then Api E_RATE_LIMITED ''too many requests, please try again later''
               else Api E_INTERNAL ''failed to request OTP''), s'))"

definition handle_VerifyOTP ::
  "auth_env \<Rightarrow> time \<Rightarrow> signin_random \<Rightarrow> bytes \<Rightarrow> bytes \<Rightarrow> otp_store \<times> db
     \<Rightarrow> (err + verified_session) \<times> otp_store \<times> db" where
  "handle_VerifyOTP A now R email0 otp st =
     (let email = norm_email A email0
      in if email = [] \<or> otp = [] then (Inl (Api E_VALIDATION ''email and otp are required''), st)
         else case VerifyOTP A now R email otp st of
           (Inr v, st') \<Rightarrow> (Inr v, st')
         | (Inl e, st') \<Rightarrow> (Inl (if e = Service ErrInvalidOTP then Api E_AUTH ''invalid or expired OTP''
               else if e = Service SvcErrAccountDeleting
               then Api E_ACCOUNT_DELETING ''this account is being deleted''
               else Api E_INTERNAL ''failed to verify OTP''), st'))"

definition handle_Refresh :: "env \<Rightarrow> time \<Rightarrow> bytes \<Rightarrow> (err, bytes \<times> bytes \<times> time, db) tx" where
  "handle_Refresh E now refreshToken d =
     (if refreshToken = [] then Inl (Api E_VALIDATION ''refresh token is required'')
      else case RefreshSession E now refreshToken d of
        Inl e \<Rightarrow> Inl (if e = Service ErrSessionInvalid
                   then Api E_AUTH ''invalid or expired refresh token''
                   else Api E_INTERNAL ''failed to refresh session'')
      | Inr x \<Rightarrow> Inr x)"

end
