(* ===== verification/Schema.thy ===== *)
theory Schema
  imports Account_Deletion Prekeys Auth
begin

text \<open>
  What the tables promise: the key and reference constraints of the schema, and the facts about
  the building blocks of the transactions that every invariant proof uses. Deleting an album and
  erasing a membership are brought to an explicit form: under the constraints the cascades touch
  exactly the rows of the album or the token, and no statement fails.
\<close>

named_theorems db_fields \<open>which tables an operation leaves alone\<close>

section \<open>Constraints\<close>

definition wf_albums :: "db \<Rightarrow> bool" where
  "wf_albums d \<longleftrightarrow> distinct (map a_id (albums d))"

definition amid_pairs :: "db \<Rightarrow> (bytes \<times> uuid) set" where
  "amid_pairs d = (\<lambda>i. (i_token i, i_album i)) ` set (amids d)"

definition wf_amids :: "db \<Rightarrow> bool" where
  "wf_amids d \<longleftrightarrow> distinct (map i_token (amids d))
     \<and> distinct (map (\<lambda>i. (user_handle i, i_album i)) (amids d))
     \<and> (\<forall>i\<in>set (amids d). i_album i \<in> a_id ` set (albums d))"

definition wf_members :: "db \<Rightarrow> bool" where
  "wf_members d \<longleftrightarrow> distinct (map (\<lambda>m. (m_album m, m_token m)) (members d))
     \<and> (\<forall>m\<in>set (members d). (m_token m, m_album m) \<in> amid_pairs d)"

definition wf_medias :: "db \<Rightarrow> bool" where
  "wf_medias d \<longleftrightarrow> distinct (map md_id (medias d))
     \<and> (\<forall>r\<in>set (medias d). (uploader_token r, md_album r) \<in> amid_pairs d)"

definition wf_wraps :: "db \<Rightarrow> bool" where
  "wf_wraps d \<longleftrightarrow> distinct (map (\<lambda>w. (w_album w, w_epoch w, recipient_token w)) (wraps d))
     \<and> (\<forall>w\<in>set (wraps d). recipient_token w \<in> i_token ` set (amids d) \<and> w_album w \<in> a_id ` set (albums d))"

text \<open>Only an active member has avatars, and at most one of them is confirmed.\<close>

definition active_pairs :: "db \<Rightarrow> (uuid \<times> bytes) set" where
  "active_pairs d = {(m_album m, m_token m) | m. m \<in> set (members d) \<and> revoked_at m = None}"

definition wf_avatars :: "db \<Rightarrow> bool" where
  "wf_avatars d \<longleftrightarrow> distinct (map avatar_id (avatars d))
     \<and> distinct (map (\<lambda>v. (av_album v, av_token v)) (filter av_confirmed (avatars d)))
     \<and> (\<forall>v\<in>set (avatars d). (av_album v, av_token v) \<in> active_pairs d)"

definition wf :: "db \<Rightarrow> bool" where
  "wf d \<longleftrightarrow> wf_albums d \<and> wf_amids d \<and> wf_members d \<and> wf_medias d \<and> wf_wraps d \<and> wf_avatars d"

lemmas wf_defs = wf_albums_def wf_amids_def wf_members_def wf_medias_def wf_wraps_def wf_avatars_def

lemma wfD:
  assumes "wf d"
  shows "wf_albums d" "wf_amids d" "wf_members d" "wf_medias d" "wf_wraps d" "wf_avatars d"
  using assms by (simp_all add: wf_def)

lemma wf_empty: "wf empty_db"
  by (simp add: wf_def wf_defs empty_db_def)

section \<open>Lookups under the constraints\<close>

lemma find_album_Some: "find_album d a = Some al \<Longrightarrow> al \<in> set (albums d) \<and> a_id al = a"
  unfolding find_album_def by (drule find_Some_in) simp

lemma find_amid_Some: "find_amid d t = Some i \<Longrightarrow> i \<in> set (amids d) \<and> i_token i = t"
  unfolding find_amid_def by (drule find_Some_in) simp

lemma find_member_Some: "find_member d a t = Some m \<Longrightarrow> m \<in> set (members d) \<and> m_album m = a \<and> m_token m = t"
  unfolding find_member_def by (drule find_Some_in) simp

lemma find_user_Some: "find_user d u = Some r \<Longrightarrow> r \<in> set (users d) \<and> u_id r = u"
  unfolding find_user_def by (drule find_Some_in) simp

lemma find_album_None: "find_album d a = None \<longleftrightarrow> a \<notin> a_id ` set (albums d)"
  by (auto simp: find_album_def find_None_all)

lemma find_member_None:
  "find_member d a t = None \<longleftrightarrow> (\<forall>m\<in>set (members d). \<not> (m_album m = a \<and> m_token m = t))"
  by (auto simp: find_member_def find_None_all)

lemma find_amid_None: "find_amid d t = None \<longleftrightarrow> t \<notin> i_token ` set (amids d)"
  by (auto simp: find_amid_def find_None_all)

lemma member_unique:
  "wf_members d \<Longrightarrow> m \<in> set (members d) \<Longrightarrow> n \<in> set (members d) \<Longrightarrow> m_album m = m_album n \<Longrightarrow>
     m_token m = m_token n \<Longrightarrow> m = n"
  by (auto simp: wf_members_def dest: distinct_map_eq [where g = "\<lambda>m. (m_album m, m_token m)"])

lemma amid_unique:
  "wf_amids d \<Longrightarrow> i \<in> set (amids d) \<Longrightarrow> j \<in> set (amids d) \<Longrightarrow> i_token i = i_token j \<Longrightarrow> i = j"
  by (auto simp: wf_amids_def dest: distinct_map_eq [where g = i_token])

lemma amid_pair_album:
  "wf_amids d \<Longrightarrow> (t, a) \<in> amid_pairs d \<Longrightarrow> (t, b) \<in> amid_pairs d \<Longrightarrow> a = b"
  by (auto simp: amid_pairs_def dest: amid_unique)

lemma find_member_key:
  "wf_members d \<Longrightarrow> m \<in> set (members d) \<Longrightarrow> find_member d (m_album m) (m_token m) = Some m"
  using find_key [of "\<lambda>m. (m_album m, m_token m)" "members d" m]
  by (simp add: wf_members_def find_member_def)

lemma find_amid_key: "wf_amids d \<Longrightarrow> i \<in> set (amids d) \<Longrightarrow> find_amid d (i_token i) = Some i"
  by (simp add: wf_amids_def find_amid_def find_key)

lemma find_album_key: "wf_albums d \<Longrightarrow> al \<in> set (albums d) \<Longrightarrow> find_album d (a_id al) = Some al"
  by (simp add: wf_albums_def find_album_def find_key)

lemma active_pair_amid: "wf_members d \<Longrightarrow> (a, t) \<in> active_pairs d \<Longrightarrow> (t, a) \<in> amid_pairs d"
  by (auto simp: active_pairs_def wf_members_def)

section \<open>The queue\<close>

definition queued :: "db \<Rightarrow> bytes set" where
  "queued d = c_key ` set (cleanup d)"

lemma keys_enqueue_key: "c_key ` set (enqueue_key now k q) = insert k (c_key ` set q)"
  by (auto simp: enqueue_key_def)

lemma keys_enqueue: "c_key ` set (fold (enqueue_key now) ks q) = c_key ` set q \<union> set ks"
  by (induction ks arbitrary: q) (auto simp: keys_enqueue_key)

lemma distinct_enqueue_key: "distinct (map c_key q) \<Longrightarrow> distinct (map c_key (enqueue_key now k q))"
  by (auto simp: enqueue_key_def intro!: distinct_map_insert)

lemma distinct_enqueue: "distinct (map c_key q) \<Longrightarrow> distinct (map c_key (fold (enqueue_key now) ks q))"
  by (induction ks arbitrary: q) (auto intro: distinct_enqueue_key)

lemma queued_enqueue [simp]: "queued (enqueueObjectCleanup now ks d) = queued d \<union> set ks"
  by (simp add: queued_def enqueueObjectCleanup_def keys_enqueue)

lemma enqueue_fields [db_fields]:
  "users (enqueueObjectCleanup now ks d) = users d" "sessions (enqueueObjectCleanup now ks d) = sessions d"
  "opks (enqueueObjectCleanup now ks d) = opks d" "albums (enqueueObjectCleanup now ks d) = albums d"
  "amids (enqueueObjectCleanup now ks d) = amids d" "members (enqueueObjectCleanup now ks d) = members d"
  "epochs (enqueueObjectCleanup now ks d) = epochs d" "wraps (enqueueObjectCleanup now ks d) = wraps d"
  "medias (enqueueObjectCleanup now ks d) = medias d" "avatars (enqueueObjectCleanup now ks d) = avatars d"
  "deletions (enqueueObjectCleanup now ks d) = deletions d" "receipts (enqueueObjectCleanup now ks d) = receipts d"
  "activity_seq (enqueueObjectCleanup now ks d) = activity_seq d"
  by (simp_all add: enqueueObjectCleanup_def)

lemma removeMedia_eq:
  "removeMedia now p d =
     (\<lparr>MediaIDs = map md_id (filter p (medias d)), Keys = concat (map media_keys (filter p (medias d)))\<rparr>,
      enqueueObjectCleanup now (concat (map media_keys (filter p (medias d))))
        (d\<lparr>medias := sql_delete p (medias d)\<rparr>))"
  by (simp add: removeMedia_def Let_def)

lemma removeAvatars_eq:
  "removeAvatars now p d = (map av_key (filter p (avatars d)),
     enqueueObjectCleanup now (map av_key (filter p (avatars d))) (d\<lparr>avatars := sql_delete p (avatars d)\<rparr>))"
  by (simp add: removeAvatars_def Let_def)

section \<open>Deleting an album\<close>

lemma sql_delete_cong: "(\<And>r. r \<in> set t \<Longrightarrow> p r = q r) \<Longrightarrow> sql_delete p t = sql_delete q t"
  by (auto simp: sql_delete_def intro: filter_cong)

definition album_keys :: "uuid \<Rightarrow> db \<Rightarrow> bytes list" where
  "album_keys a d = concat (map media_keys (filter (\<lambda>r. md_album r = a) (medias d)))
     @ map av_key (filter (\<lambda>v. av_album v = a) (avatars d))"

definition drop_album :: "uuid \<Rightarrow> db \<Rightarrow> db" where
  "drop_album a d =
     d\<lparr>albums := sql_delete (\<lambda>r. a_id r = a) (albums d),
       amids := sql_delete (\<lambda>i. i_album i = a) (amids d),
       members := sql_delete (\<lambda>m. m_album m = a) (members d),
       epochs := sql_delete (\<lambda>e. e_album e = a) (epochs d),
       wraps := sql_delete (\<lambda>w. w_album w = a \<or> (recipient_token w, a) \<in> amid_pairs d) (wraps d),
       medias := sql_delete (\<lambda>r. md_album r = a) (medias d),
       avatars := sql_delete (\<lambda>v. av_album v = a) (avatars d)\<rparr>"

lemma gone_tokens: "t \<in> set (map i_token (filter (\<lambda>i. i_album i = a) (amids d))) \<longleftrightarrow> (t, a) \<in> amid_pairs d"
  by (auto simp: amid_pairs_def)

lemma amid_pairs_fields [simp]:
  "amid_pairs (d\<lparr>medias := x1\<rparr>) = amid_pairs d" "amid_pairs (d\<lparr>avatars := x2\<rparr>) = amid_pairs d"
  "amid_pairs (d\<lparr>cleanup := x3\<rparr>) = amid_pairs d" "amid_pairs (d\<lparr>members := x4\<rparr>) = amid_pairs d"
  "amid_pairs (d\<lparr>albums := x5\<rparr>) = amid_pairs d"
  by (simp_all add: amid_pairs_def)

lemma wf_media_pair: "wf d \<Longrightarrow> r \<in> set (medias d) \<Longrightarrow> (uploader_token r, md_album r) \<in> amid_pairs d"
  using wfD(4) by (simp add: wf_medias_def)

lemma wf_member_pair: "wf d \<Longrightarrow> m \<in> set (members d) \<Longrightarrow> (m_token m, m_album m) \<in> amid_pairs d"
  using wfD(3) by (simp add: wf_members_def)

lemma wf_avatar_pair: "wf d \<Longrightarrow> v \<in> set (avatars d) \<Longrightarrow> (av_token v, av_album v) \<in> amid_pairs d"
  using wfD(3,6) by (auto simp: wf_avatars_def intro: active_pair_amid)

lemma wf_pair_unique: "wf d \<Longrightarrow> (t, a) \<in> amid_pairs d \<Longrightarrow> (t, b) \<in> amid_pairs d \<Longrightarrow> a = b"
  using wfD(2) by (rule amid_pair_album)

lemma removeAlbum_eq:
  assumes "wf d"
  shows "removeAlbum E now a t d =
     Inr (\<lparr>MemberUserIDs = activeUserIDs E a t d, RemovedKeys = album_keys a d\<rparr>,
          drop_album a (enqueueObjectCleanup now (album_keys a d) d))"
proof -
  have md: "(\<exists>r\<in>set (medias d). md_album r \<noteq> a \<and> (uploader_token r, a) \<in> amid_pairs d) = False"
    using wf_media_pair [OF assms] wf_pair_unique [OF assms] by blast
  have mb: "sql_delete (\<lambda>m. m_album m = a \<or> (m_token m, a) \<in> amid_pairs d) (members d)
      = sql_delete (\<lambda>m. m_album m = a) (members d)"
    using wf_member_pair [OF assms] wf_pair_unique [OF assms] by (intro sql_delete_cong) blast
  have av: "sql_delete (\<lambda>v. av_album v = a \<or> (av_token v, a) \<in> amid_pairs d)
        (sql_delete (\<lambda>v. av_album v = a) (avatars d)) = sql_delete (\<lambda>v. av_album v = a) (avatars d)"
    using wf_avatar_pair [OF assms] wf_pair_unique [OF assms]
    unfolding sql_delete_def filter_filter by (intro filter_cong) blast+
  have md2: "sql_delete (\<lambda>r. md_album r = a) (sql_delete (\<lambda>r. md_album r = a) (medias d)) =
      sql_delete (\<lambda>r. md_album r = a) (medias d)"
    by (simp add: sql_delete_def)
  have ex: "sql_exists (\<lambda>r. (uploader_token r, a) \<in> amid_pairs d)
      (sql_delete (\<lambda>r. md_album r = a) (medias d)) = False"
    using md by auto
  show ?thesis
    unfolding removeAlbum_def removeMedia_eq removeAvatars_eq Let_def split_beta fst_conv snd_conv
    by (simp only: delete_album_def Let_def enqueueObjectCleanup_def db.simps media_removal.simps
        gone_tokens amid_pairs_fields md2 ex if_False sum.case mb av)
      (use md in \<open>simp add: drop_album_def enqueueObjectCleanup_def album_keys_def md2 mb av\<close>)
qed

section \<open>Erasing a membership\<close>

definition member_keys :: "uuid \<Rightarrow> bytes \<Rightarrow> db \<Rightarrow> bytes list" where
  "member_keys a t d =
     concat (map media_keys (filter (\<lambda>r. md_album r = a \<and> uploader_token r = t) (medias d)))
     @ map av_key (filter (\<lambda>v. av_album v = a \<and> av_token v = t) (avatars d))"

definition drop_identity :: "bytes \<Rightarrow> db \<Rightarrow> db" where
  "drop_identity t d =
     d\<lparr>amids := sql_delete (\<lambda>i. i_token i = t) (amids d),
       members := sql_delete (\<lambda>m. m_token m = t) (members d),
       wraps := sql_delete (\<lambda>w. recipient_token w = t) (wraps d),
       medias := sql_delete (\<lambda>r. uploader_token r = t) (medias d),
       avatars := sql_delete (\<lambda>v. av_token v = t) (avatars d)\<rparr>"

lemma activeUserIDs_cong:
  "members d' = members d \<Longrightarrow> amids d' = amids d \<Longrightarrow> activeUserIDs E a t d' = activeUserIDs E a t d"
  by (simp add: activeUserIDs_def active_identities_def)

text \<open>Stated for a state whose references are intact: the member row may just have been
  marked as gone, which leaves its avatars behind for the statements that follow.\<close>

lemma erase_membership_eq:
  assumes pair: "(rm_token out, rm_album out) \<in> amid_pairs d"
    and uniq: "\<And>t a b. (t, a) \<in> amid_pairs d \<Longrightarrow> (t, b) \<in> amid_pairs d \<Longrightarrow> a = b"
    and md: "\<And>r. r \<in> set (medias d) \<Longrightarrow> (uploader_token r, md_album r) \<in> amid_pairs d"
    and av: "\<And>v. v \<in> set (avatars d) \<Longrightarrow> (av_token v, av_album v) \<in> amid_pairs d"
  shows "erase_membership E now out d =
     Inr (out\<lparr>rm_notify := activeUserIDs E (rm_album out) (rm_token out) d,
              rm_media := map md_id (filter (\<lambda>r. md_album r = rm_album out \<and> uploader_token r = rm_token out) (medias d)),
              rm_keys := member_keys (rm_album out) (rm_token out) d\<rparr>,
          drop_identity (rm_token out)
            (enqueueObjectCleanup now (member_keys (rm_album out) (rm_token out) d) d))"
proof -
  let ?t = "rm_token out" and ?a = "rm_album out"
  have same: "md_album r = ?a" if "r \<in> set (medias d)" "uploader_token r = ?t" for r
    using md [OF that(1)] pair uniq [of ?t "md_album r" ?a] that(2) by simp
  have md': "sql_delete (\<lambda>r. md_album r = ?a \<and> uploader_token r = ?t) (medias d) =
      sql_delete (\<lambda>r. uploader_token r = ?t) (medias d)"
    by (rule sql_delete_cong) (use same in blast)
  have av': "sql_delete (\<lambda>v. av_token v = ?t) (sql_delete (\<lambda>v. av_album v = ?a \<and> av_token v = ?t) (avatars d)) =
      sql_delete (\<lambda>v. av_token v = ?t) (avatars d)"
    unfolding sql_delete_def filter_filter by (intro filter_cong) auto
  have ex: "(\<exists>i\<in>set (amids d). i_token i = ?t) = True" using pair by (auto simp: amid_pairs_def)
  let ?d2 = "snd (removeAvatars now (\<lambda>v. av_album v = ?a \<and> av_token v = ?t)
    (snd (removeMedia now (\<lambda>r. md_album r = ?a \<and> uploader_token r = ?t) d)))"
  have d2: "?d2 = enqueueObjectCleanup now (member_keys ?a ?t d)
      (d\<lparr>medias := sql_delete (\<lambda>r. uploader_token r = ?t) (medias d),
         avatars := sql_delete (\<lambda>v. av_album v = ?a \<and> av_token v = ?t) (avatars d)\<rparr>)"
    unfolding removeMedia_eq removeAvatars_eq snd_conv md' member_keys_def
    by (simp add: enqueueObjectCleanup_def)
  have del: "delete_amid ?t ?d2 = Inr (drop_identity ?t (enqueueObjectCleanup now (member_keys ?a ?t d) d))"
    unfolding d2 delete_amid_def
    by (simp add: db_fields ex) (simp add: drop_identity_def enqueueObjectCleanup_def av')
  have us: "activeUserIDs E ?a ?t ?d2 = activeUserIDs E ?a ?t d"
    unfolding d2 by (rule activeUserIDs_cong) (simp_all add: db_fields)
  have f1: "fst (removeMedia now (\<lambda>r. md_album r = ?a \<and> uploader_token r = ?t) d) =
      \<lparr>MediaIDs = map md_id (filter (\<lambda>r. md_album r = ?a \<and> uploader_token r = ?t) (medias d)),
       Keys = concat (map media_keys (filter (\<lambda>r. md_album r = ?a \<and> uploader_token r = ?t) (medias d)))\<rparr>"
    by (simp add: removeMedia_eq)
  have f2: "fst (removeAvatars now (\<lambda>v. av_album v = ?a \<and> av_token v = ?t)
       (snd (removeMedia now (\<lambda>r. md_album r = ?a \<and> uploader_token r = ?t) d))) =
      map av_key (filter (\<lambda>v. av_album v = ?a \<and> av_token v = ?t) (avatars d))"
    by (simp add: removeMedia_eq removeAvatars_eq db_fields)
  show ?thesis
    unfolding erase_membership_def Let_def split_beta del us sum.case f1 f2
    by (simp add: member_keys_def)
qed

end
