(* ===== verification/Effects.thy ===== *)
theory Effects
  imports Schema
begin

text \<open>
  What a committed transaction has checked and what it has changed, one lemma per operation: the
  branches of the definitions turned into facts, with the new state written as an update of the
  old one. Every invariant is proved from these.
\<close>

section \<open>Wraps\<close>

lemma has_wrap_iff: "has_wrap d a e t \<longleftrightarrow>
    (\<exists>w\<in>set (wraps d). w_album w = a \<and> w_epoch w = e \<and> recipient_token w = t)"
  by (simp add: has_wrap_def)

definition wrap_key :: "wrap \<Rightarrow> uuid \<times> int \<times> bytes" where
  "wrap_key w = (w_album w, w_epoch w, recipient_token w)"

lemma has_wrap_key: "has_wrap d a e t \<longleftrightarrow> (a, e, t) \<in> wrap_key ` set (wraps d)"
  by (auto simp: has_wrap_iff wrap_key_def)

lemma wf_wraps_key: "wf_wraps d \<longleftrightarrow> distinct (map wrap_key (wraps d))
    \<and> (\<forall>w\<in>set (wraps d). recipient_token w \<in> i_token ` set (amids d) \<and> w_album w \<in> a_id ` set (albums d))"
proof -
  have "map (\<lambda>w. (w_album w, w_epoch w, recipient_token w)) (wraps d) = map wrap_key (wraps d)"
    by (simp add: wrap_key_def)
  then show ?thesis by (simp only: wf_wraps_def)
qed

lemma insert_wrap_Inr:
  assumes "insert_wrap w d = Inr d'"
  shows "d' = d\<lparr>wraps := sql_insert w (wraps d)\<rparr>" "wrap_key w \<notin> wrap_key ` set (wraps d)"
    "recipient_token w \<in> i_token ` set (amids d)" "w_album w \<in> a_id ` set (albums d)"
proof -
  have c: "\<not> has_wrap d (w_album w) (w_epoch w) (recipient_token w)"
    "\<exists>i\<in>set (amids d). i_token i = recipient_token w" "\<exists>al\<in>set (albums d). a_id al = w_album w"
    and "d' = d\<lparr>wraps := sql_insert w (wraps d)\<rparr>"
    using assms by (simp_all add: insert_wrap_def split: if_splits)
  then show "d' = d\<lparr>wraps := sql_insert w (wraps d)\<rparr>" by simp
  show "wrap_key w \<notin> wrap_key ` set (wraps d)" using c(1) by (simp add: has_wrap_key wrap_key_def [symmetric])
  show "recipient_token w \<in> i_token ` set (amids d)" "w_album w \<in> a_id ` set (albums d)"
    using c(2,3) by (metis imageI)+
qed

lemma insert_wraps_Inr:
  "insert_wraps ws d = Inr d' \<Longrightarrow> d' = d\<lparr>wraps := wraps d @ ws\<rparr>
     \<and> (\<forall>w\<in>set ws. recipient_token w \<in> i_token ` set (amids d) \<and> w_album w \<in> a_id ` set (albums d))
     \<and> (distinct (map wrap_key (wraps d)) \<longrightarrow> distinct (map wrap_key (wraps d @ ws)))"
proof (induction ws arbitrary: d)
  case (Cons w ws)
  then obtain d1 where d1: "insert_wrap w d = Inr d1" "insert_wraps ws d1 = Inr d'"
    by (auto split: sum.splits)
  note one = insert_wrap_Inr [OF d1(1)]
  from Cons.IH [OF d1(2)] one show ?case
    by (auto simp: sql_insert_def)
qed simp

lemma upsert_wrap_Inr:
  assumes "upsert_wrap w d = Inr d'"
  obtains (replaced) ws where "d' = d\<lparr>wraps := ws\<rparr>" "map wrap_key ws = map wrap_key (wraps d)"
      "wrap_key w \<in> wrap_key ` set (wraps d)"
    | (inserted) "d' = d\<lparr>wraps := sql_insert w (wraps d)\<rparr>" "wrap_key w \<notin> wrap_key ` set (wraps d)"
      "recipient_token w \<in> i_token ` set (amids d)" "w_album w \<in> a_id ` set (albums d)"
proof (cases "has_wrap d (w_album w) (w_epoch w) (recipient_token w)")
  case True
  let ?ws = "sql_update
    (\<lambda>x. w_album x = w_album w \<and> w_epoch x = w_epoch w \<and> recipient_token x = recipient_token w)
    (\<lambda>x. w\<lparr>delivered_at := delivered_at x\<rparr>) (wraps d)"
  have "d' = d\<lparr>wraps := ?ws\<rparr>" using assms True by (simp add: upsert_wrap_def)
  moreover have "map wrap_key ?ws = map wrap_key (wraps d)"
    by (rule map_sql_update) (simp add: wrap_key_def)
  moreover have "wrap_key w \<in> wrap_key ` set (wraps d)"
    using True by (simp add: has_wrap_key wrap_key_def [symmetric])
  ultimately show thesis by (rule replaced)
next
  case False
  then have "insert_wrap w d = Inr d'" using assms by (simp add: upsert_wrap_def)
  from insert_wrap_Inr [OF this] show thesis by (rule inserted)
qed

lemma set_map_key: "map f xs = map f ys \<Longrightarrow> f ` set xs = f ` set ys"
  by (metis list.set_map)

lemma wf_wraps_replace:
  assumes "wf_wraps d" "map wrap_key ws = map wrap_key (wraps d)"
  shows "wf_wraps (d\<lparr>wraps := ws\<rparr>)"
proof -
  have "recipient_token w \<in> i_token ` set (amids d) \<and> w_album w \<in> a_id ` set (albums d)"
    if "w \<in> set ws" for w
  proof -
    have "wrap_key w \<in> wrap_key ` set (wraps d)" using that set_map_key [OF assms(2)] by auto
    then obtain x where x: "x \<in> set (wraps d)" "wrap_key w = wrap_key x" by auto
    from x(2) have "recipient_token w = recipient_token x" "w_album w = w_album x"
      by (simp_all add: wrap_key_def)
    with x(1) assms(1) show ?thesis by (simp add: wf_wraps_key)
  qed
  with assms show ?thesis by (simp add: wf_wraps_key)
qed

lemma upsert_wraps_Inr:
  "upsert_wraps ws d = Inr d' \<Longrightarrow> \<exists>us. d' = d\<lparr>wraps := us\<rparr>
     \<and> wrap_key ` set us = wrap_key ` set ws \<union> wrap_key ` set (wraps d)
     \<and> (wf_wraps d \<longrightarrow> wf_wraps d')"
proof (induction ws arbitrary: d)
  case Nil
  then show ?case by (intro exI [of _ "wraps d"]) simp
next
  case (Cons w ws)
  then obtain d1 where d1: "upsert_wrap w d = Inr d1" "upsert_wraps ws d1 = Inr d'"
    by (auto split: sum.splits)
  have "\<exists>us. d1 = d\<lparr>wraps := us\<rparr> \<and> wrap_key ` set us = insert (wrap_key w) (wrap_key ` set (wraps d))
      \<and> (wf_wraps d \<longrightarrow> wf_wraps d1)"
    using d1(1)
  proof (cases rule: upsert_wrap_Inr)
    case (replaced us)
    have "wrap_key ` set us = insert (wrap_key w) (wrap_key ` set (wraps d))"
      unfolding set_map_key [OF replaced(2)] using replaced(3) by (rule insert_absorb [symmetric])
    moreover have "wf_wraps d \<longrightarrow> wf_wraps d1"
      unfolding replaced(1) using wf_wraps_replace replaced(2) by blast
    ultimately show ?thesis using replaced(1) by blast
  next
    case inserted
    have "wf_wraps d \<longrightarrow> wf_wraps d1"
      using inserted(2-4) unfolding inserted(1) wf_wraps_key by (simp add: distinct_map_insert)
    then show ?thesis using inserted(1)
      by (intro exI [of _ "sql_insert w (wraps d)"]) simp
  qed
  then obtain us where us: "d1 = d\<lparr>wraps := us\<rparr>"
      "wrap_key ` set us = insert (wrap_key w) (wrap_key ` set (wraps d))" "wf_wraps d \<longrightarrow> wf_wraps d1"
    by blast
  obtain vs where vs: "d' = d1\<lparr>wraps := vs\<rparr>" "wrap_key ` set vs = wrap_key ` set ws \<union> wrap_key ` set (wraps d1)"
      "wf_wraps d1 \<longrightarrow> wf_wraps d'"
    using Cons.IH [OF d1(2)] by blast
  show ?case
    using us vs by (intro exI [of _ vs]) auto
qed

section \<open>Albums\<close>

lemma insert_amid_Some:
  assumes "insert_amid i d = Some d'"
  shows "d' = d\<lparr>amids := sql_insert i (amids d)\<rparr>" "i_token i \<notin> i_token ` set (amids d)"
    "(user_handle i, i_album i) \<notin> (\<lambda>i. (user_handle i, i_album i)) ` set (amids d)"
  using assms by (auto simp: insert_amid_def split: if_splits)

lemma insert_member_Inr:
  assumes "insert_member m d = Inr d'"
  shows "d' = d\<lparr>members := sql_insert m (members d)\<rparr>"
    "(m_album m, m_token m) \<notin> (\<lambda>m. (m_album m, m_token m)) ` set (members d)"
  using assms by (auto simp: insert_member_def find_member_None split: if_splits)

lemma CreateWithAdmin_Inr:
  assumes "CreateWithAdmin E now newID token nameCT creator d = Inr ((al, t), d')"
  obtains usr i m where "find_user d creator = Some usr" "deleting_at usr = None"
    "t = token" "a_id al = newID" "newID \<notin> a_id ` set (albums d)" "media_generation al = 0"
    "last_activity_seq al = activity_seq d + 1" "\<not> rotation_required al"
    "i_token i = token" "i_album i = newID" "user_handle i = lhash E creator"
    "lseal E creator token = Inr (user_id_enc i)"
    "token \<notin> i_token ` set (amids d)"
    "(lhash E creator, newID) \<notin> (\<lambda>i. (user_handle i, i_album i)) ` set (amids d)"
    "m_album m = newID" "m_token m = token" "role m = Admin" "revoked_at m = None"
    "(newID, token) \<notin> (\<lambda>m. (m_album m, m_token m)) ` set (members d)"
    "d' = d\<lparr>activity_seq := activity_seq d + 1, albums := sql_insert al (albums d),
           amids := sql_insert i (amids d), members := sql_insert m (members d)\<rparr>"
proof -
  let ?al = "\<lparr>a_id = newID, name_ct = nameCT, a_created_at = trunc_hour now,
    a_updated_at = trunc_hour now, media_generation = 0, last_activity_seq = activity_seq d + 1,
    rotation_required = False\<rparr>"
  let ?d1 = "d\<lparr>activity_seq := activity_seq d + 1, albums := sql_insert ?al (albums d)\<rparr>"
  let ?m = "\<lparr>m_album = newID, m_token = token, role = Admin, revoked_at = None, m_name_ct = None\<rparr>"
  obtain usr where u1: "find_user d creator = Some usr" "deleting_at usr = None" "find_album d newID = None"
    using assms by (cases "find_user d creator") (simp_all add: CreateWithAdmin_def Let_def split: if_splits)
  then obtain sealed where u: "find_user d creator = Some usr" "deleting_at usr = None"
      "find_album d newID = None" "lseal E creator token = Inr sealed"
    using assms by (cases "lseal E creator token") (simp_all add: CreateWithAdmin_def Let_def)
  let ?i = "\<lparr>i_token = token, user_handle = lhash E creator, user_id_enc = sealed, i_album = newID,
    joined_at = trunc_hour now, last_received_epoch = None, last_received_at = None\<rparr>"
  obtain d2 where d2: "insert_amid ?i ?d1 = Some d2"
    using assms u by (cases "insert_amid ?i ?d1") (simp_all add: CreateWithAdmin_def Let_def)
  have d: "insert_amid ?i ?d1 = Some d2" "insert_member ?m d2 = Inr d'" "al = ?al" "t = token"
    using assms u d2 by (simp_all add: CreateWithAdmin_def Let_def split: sum.splits)
  note i = insert_amid_Some [OF d(1)]
  note m = insert_member_Inr [OF d(2)]
  show thesis
    by (rule that [of usr ?i ?m]) (use u d i m in \<open>simp_all add: find_album_None\<close>)
qed

text \<open>The checks of an invitation.\<close>

lemma recheckUnderLock_Inr:
  assumes "recheckUnderLock E inp d = Inr u"
  obtains m i sender where "find_member d (dm_album inp) (dm_sender inp) = Some m"
    "revoked_at m = None" "role m = Admin" "find_amid d (dm_sender inp) = Some i"
    "lopen E (user_id_enc i) (dm_sender inp) = Inr sender"
    "account_open d sender" "account_open d (dm_user inp)"
    "dm_envelopes inp \<noteq> []" "env_epoch (last (dm_envelopes inp)) = max_epoch d (dm_album inp)"
    "RotationRequiredExpr d (dm_album inp) = Some False"
proof -
  obtain m where m: "find_member d (dm_album inp) (dm_sender inp) = Some m"
    using assms by (cases "find_member d (dm_album inp) (dm_sender inp)") (simp_all add: recheckUnderLock_def)
  obtain i where i: "find_amid d (dm_sender inp) = Some i"
    using assms m by (cases "find_amid d (dm_sender inp)") (simp_all add: recheckUnderLock_def)
  have r: "revoked_at m = None" "role m = Admin"
    using assms m i by (simp_all add: recheckUnderLock_def split: if_splits)
  obtain sender where l: "lopen E (user_id_enc i) (dm_sender inp) = Inr sender"
    using assms m i r by (cases "lopen E (user_id_enc i) (dm_sender inp)") (simp_all add: recheckUnderLock_def)
  have c: "account_open d sender" "account_open d (dm_user inp)"
    "dm_envelopes inp \<noteq> []" "env_epoch (last (dm_envelopes inp)) = max_epoch d (dm_album inp)"
    using assms m i r l by (simp_all add: recheckUnderLock_def split: if_splits)
  have "RotationRequiredExpr d (dm_album inp) = Some False"
    using assms m i r l c by (simp add: recheckUnderLock_def split: option.splits if_splits)
  then show thesis by (rule that [OF m r i l c])
qed

lemma deliver_wraps_Inr:
  assumes "deliver_wraps now inp token d = Inr (t, d')"
  obtains us os where "t = token" "d' = d\<lparr>wraps := us, opks := os\<rparr>"
    "wrap_key ` set us = (\<lambda>e. (dm_album inp, env_epoch e, token)) ` set (dm_envelopes inp)
       \<union> wrap_key ` set (wraps d)"
    "wf_wraps d \<Longrightarrow> wf_wraps d'"
    "os = (case dm_opk inp of None \<Rightarrow> opks d | Some i \<Rightarrow> opks (consume_opk (dm_user inp) i d))"
proof -
  let ?ws = "map (envelope_row now inp token) (dm_envelopes inp)"
  let ?os = "case dm_opk inp of None \<Rightarrow> opks d | Some i \<Rightarrow> opks (consume_opk (dm_user inp) i d)"
  obtain d1 where d1: "upsert_wraps ?ws d = Inr d1" and t: "t = token"
    and d': "d' = (case dm_opk inp of None \<Rightarrow> d1 | Some i \<Rightarrow> consume_opk (dm_user inp) i d1)"
    using assms by (cases "upsert_wraps ?ws d") (simp_all add: deliver_wraps_def split: if_splits)
  obtain us where us: "d1 = d\<lparr>wraps := us\<rparr>"
      "wrap_key ` set us = wrap_key ` set ?ws \<union> wrap_key ` set (wraps d)" "wf_wraps d \<longrightarrow> wf_wraps d1"
    using upsert_wraps_Inr [OF d1] by blast
  have ws: "wrap_key ` set ?ws = (\<lambda>e. (dm_album inp, env_epoch e, token)) ` set (dm_envelopes inp)"
    by (simp add: image_image wrap_key_def envelope_row_def)
  have eq: "d' = d\<lparr>wraps := us, opks := ?os\<rparr>"
    unfolding d' us(1) by (cases "dm_opk inp") (simp_all add: consume_opk_def)
  have wf: "wf_wraps d' = wf_wraps d1" unfolding eq us(1) by (simp add: wf_wraps_def)
  show thesis by (rule that [OF t eq]) (use us ws wf in simp_all)
qed

lemma membership_of_Some:
  assumes "membership_of d h a = Some (i, m)"
  shows "i \<in> set (amids d)" "user_handle i = h" "i_album i = a" "find_member d a (i_token i) = Some m"
proof -
  obtain j where j: "find (\<lambda>i. user_handle i = h \<and> i_album i = a \<and> find_member d a (i_token i) \<noteq> None) (amids d) = Some j"
    "map_option (\<lambda>m. (j, m)) (find_member d a (i_token j)) = Some (i, m)"
    using assms by (auto simp: membership_of_def split: option.splits)
  from find_Some_in [OF j(1)] j(2)
  show "i \<in> set (amids d)" "user_handle i = h" "i_album i = a" "find_member d a (i_token i) = Some m"
    by auto
qed

text \<open>An invitation reactivates the tombstoned membership or creates one under a fresh token; the
  state before the wraps are written is \<open>d1\<close>.\<close>

definition joined_state :: "uuid \<Rightarrow> bytes \<Rightarrow> db \<Rightarrow> db \<Rightarrow> bool" where
  "joined_state a token d d1 \<longleftrightarrow>
     (\<exists>m. find_member d a token = Some m \<and> revoked_at m \<noteq> None \<and> d1 = reactivate_member a token d) \<or>
     (\<exists>i. i_token i = token \<and> i_album i = a \<and> token \<notin> i_token ` set (amids d)
        \<and> (user_handle i, a) \<notin> (\<lambda>i. (user_handle i, i_album i)) ` set (amids d)
        \<and> (a, token) \<notin> (\<lambda>m. (m_album m, m_token m)) ` set (members d)
        \<and> d1 = d\<lparr>amids := sql_insert i (amids d), members := sql_insert
             \<lparr>m_album = a, m_token = token, role = Member, revoked_at = None, m_name_ct = None\<rparr> (members d)\<rparr>)"

lemma DeliverMember_Inr:
  assumes "DeliverMember E now fresh inp d = Inr (t, d')"
  obtains d1 where "recheckUnderLock E inp d = Inr ()" "dm_album inp \<in> a_id ` set (albums d)"
    "active_count d (dm_album inp) < MaxAlbumMembers" "joined_state (dm_album inp) t d d1"
    "deliver_wraps now inp t d1 = Inr (t, d')"
proof -
  let ?a = "dm_album inp" and ?h = "lhash E (dm_user inp)"
  obtain al where al: "find_album d ?a = Some al"
    using assms by (cases "find_album d ?a") (simp_all add: DeliverMember_def)
  have rc: "recheckUnderLock E inp d = Inr ()"
    using assms al by (cases "recheckUnderLock E inp d") (simp_all add: DeliverMember_def)
  have a: "?a \<in> a_id ` set (albums d)" using al find_album_None [of d ?a] by auto
  show thesis
  proof (cases "membership_of d ?h ?a")
    case (Some im)
    obtain i m where im: "im = (i, m)" by (cases im)
    note mo = membership_of_Some [OF Some [unfolded im]]
    have c: "revoked_at m \<noteq> None" "active_count d ?a < MaxAlbumMembers"
      "deliver_wraps now inp (i_token i) (reactivate_member ?a (i_token i) d) = Inr (t, d')"
      using assms al rc Some im by (simp_all add: DeliverMember_def Let_def split: if_splits)
    then have "t = i_token i" by (auto elim: deliver_wraps_Inr)
    then show thesis using c mo(4) by (intro that [OF rc a]) (auto simp: joined_state_def)
  next
    case None
    obtain sealed where s: "lseal E (dm_user inp) fresh = Inr sealed"
      using assms al rc None by (cases "lseal E (dm_user inp) fresh") (simp_all add: DeliverMember_def Let_def)
    let ?i = "\<lparr>i_token = fresh, user_handle = ?h, user_id_enc = sealed, i_album = ?a,
      joined_at = trunc_hour now, last_received_epoch = None, last_received_at = None\<rparr>"
    let ?m = "\<lparr>m_album = ?a, m_token = fresh, role = Member, revoked_at = None, m_name_ct = None\<rparr>"
    obtain d1 where d1: "insert_amid ?i d = Some d1"
      using assms al rc None s by (cases "insert_amid ?i d") (simp_all add: DeliverMember_def Let_def)
    note i = insert_amid_Some [OF d1]
    have cap: "active_count d1 ?a < MaxAlbumMembers"
      using assms al rc None s d1 by (simp add: DeliverMember_def Let_def split: if_splits)
    obtain d2 where d2: "insert_member ?m d1 = Inr d2"
      using assms al rc None s d1 cap
      by (cases "insert_member ?m d1") (simp_all add: DeliverMember_def Let_def)
    note m = insert_member_Inr [OF d2]
    have dw: "deliver_wraps now inp fresh d2 = Inr (t, d')"
      using assms al rc None s d1 cap d2 by (simp add: DeliverMember_def Let_def)
    then have t: "t = fresh" by (auto elim: deliver_wraps_Inr)
    have "active_count d ?a < MaxAlbumMembers" using cap unfolding i(1) by (simp add: active_count_def)
    moreover have "joined_state ?a t d d2"
      unfolding joined_state_def t
      by (rule disjI2, rule exI [of _ ?i]) (use i m in simp)
    ultimately show thesis using dw t by (intro that [OF rc a]) simp_all
  qed
qed

lemma InsertEpoch_Inr:
  assumes "InsertEpoch E now inp d = Inr (u, d')"
  obtains m er where "ie_album inp \<in> a_id ` set (albums d)"
    "find_member d (ie_album inp) (ie_sender inp) = Some m" "revoked_at m = None" "role m = Admin"
    "ie_epoch inp = max_epoch d (ie_album inp) + 1"
    "MemberSetHash (cryp E) (active_tokens d (ie_album inp)) = ie_expected_hash inp"
    "e_album er = ie_album inp" "epoch er = ie_epoch inp"
    "\<forall>w\<in>set (ie_wraps inp). wi_recipient w \<in> i_token ` set (amids d)"
    "distinct (map wrap_key (wraps d)) \<Longrightarrow>
       distinct (map wrap_key (wraps d @ map (wrap_row now inp) (ie_wraps inp)))"
    "d' = d\<lparr>epochs := sql_insert er (epochs d), wraps := wraps d @ map (wrap_row now inp) (ie_wraps inp),
       albums := sql_update (\<lambda>al. a_id al = ie_album inp) (\<lambda>al. al\<lparr>rotation_required := False\<rparr>) (albums d)\<rparr>"
proof -
  let ?a = "ie_album inp" and ?ws = "map (wrap_row now inp) (ie_wraps inp)"
  let ?e = "\<lparr>e_album = ?a, epoch = ie_epoch inp, started_at = trunc_hour now, epoch_sig = ie_sig inp\<rparr>"
  let ?d1 = "d\<lparr>epochs := sql_insert ?e (epochs d)\<rparr>"
  obtain al where al: "find_album d ?a = Some al"
    using assms by (cases "find_album d ?a") (simp_all add: InsertEpoch_def)
  obtain m where m: "find_member d ?a (ie_sender inp) = Some m"
    using assms al by (cases "find_member d ?a (ie_sender inp)") (simp_all add: InsertEpoch_def)
  have c: "revoked_at m = None" "role m = Admin" "ie_epoch inp = max_epoch d ?a + 1"
    "MemberSetHash (cryp E) (active_tokens d ?a) = ie_expected_hash inp" "int4 (ie_epoch inp)"
    using assms al m by (simp_all add: InsertEpoch_def split: if_splits)
  obtain d2 where d2: "insert_wraps ?ws ?d1 = Inr d2"
    using assms al m c by (cases "insert_wraps ?ws ?d1") (simp_all add: InsertEpoch_def Let_def)
  have d': "d' = d2\<lparr>albums := sql_update (\<lambda>al. a_id al = ?a) (\<lambda>al. al\<lparr>rotation_required := False\<rparr>) (albums d2)\<rparr>"
    using assms al m c d2 by (simp add: InsertEpoch_def Let_def)
  note w = insert_wraps_Inr [OF d2]
  have a: "?a \<in> a_id ` set (albums d)" using al find_album_None [of d ?a] by auto
  have rec: "\<forall>w\<in>set (ie_wraps inp). wi_recipient w \<in> i_token ` set (amids d)"
    using w by (auto simp: wrap_row_def)
  show thesis
    by (rule that [OF a m c(1-4), of ?e]) (use w rec d' in simp_all)
qed

lemma RevokeMemberTx_Inr:
  assumes "RevokeMemberTx now a c t d = Inr ((r, already), d')"
  obtains (already) cm m where "already" "d' = d" "find_member d a t = Some m" "revoked_at m \<noteq> None"
      "find_member d a c = Some cm" "revoked_at cm = None" "r = role m" "a \<in> a_id ` set (albums d)"
    | (revoked) cm m where "\<not> already" "find_member d a t = Some m" "revoked_at m = None"
      "find_member d a c = Some cm" "revoked_at cm = None" "r = role m" "a \<in> a_id ` set (albums d)"
      "role m = Admin \<Longrightarrow> 1 < active_admins d a"
      "d' = snd (removeAvatars now (\<lambda>v. av_album v = a \<and> av_token v = t)
              (require_rotation a (revoke_row now a t d)))"
proof -
  obtain al where al: "find_album d a = Some al"
    using assms by (cases "find_album d a") (simp_all add: RevokeMemberTx_def)
  then have a: "a \<in> a_id ` set (albums d)" using find_album_None [of d a] by auto
  obtain cm where c: "find_member d a c = Some cm" "revoked_at cm = None"
    using assms al by (cases "find_member d a c") (simp_all add: RevokeMemberTx_def split: if_splits)
  obtain m where m: "find_member d a t = Some m"
    using assms al c by (cases "find_member d a t") (simp_all add: RevokeMemberTx_def)
  show thesis
  proof (cases "revoked_at m = None")
    case True
    with assms al c m have x: "\<not> already" "r = role m" "role m = Admin \<Longrightarrow> 1 < active_admins d a"
      "d' = snd (removeAvatars now (\<lambda>v. av_album v = a \<and> av_token v = t)
              (require_rotation a (revoke_row now a t d)))"
      by (auto simp: RevokeMemberTx_def split: if_splits)
    show thesis by (rule revoked [OF x(1) m True c x(2) a x(3,4)])
  next
    case False
    with assms al c m have x: "already" "r = role m" "d' = d"
      by (simp_all add: RevokeMemberTx_def)
    show thesis by (rule already [OF x(1,3) m False c x(2) a])
  qed
qed

lemma lockAlbum_Inr: "lockAlbum a d = Inr al \<longleftrightarrow> find_album d a = Some al"
  by (auto simp: lockAlbum_def split: option.splits)

lemma lockActiveMember_Inr:
  assumes "lockActiveMember a t d = Inr u"
  obtains m where "find_member d a t = Some m" "revoked_at m = None" "a \<in> a_id ` set (albums d)"
proof -
  obtain al where al: "find_album d a = Some al"
    using assms by (cases "lockAlbum a d") (auto simp: lockActiveMember_def lockAlbum_Inr)
  then have "a \<in> a_id ` set (albums d)" using find_album_None [of d a] by auto
  moreover obtain m where "find_member d a t = Some m" "revoked_at m = None"
    using assms al by (cases "find_member d a t") (simp_all add: lockActiveMember_def lockAlbum_def split: if_splits)
  ultimately show thesis using that by blast
qed

lemma DeleteAlbumTx_Inr:
  assumes "DeleteAlbumTx E now a c d = Inr (out, d')"
  obtains m where "find_member d a c = Some m" "revoked_at m = None" "role m = Admin"
    "a \<in> a_id ` set (albums d)" "removeAlbum E now a c d = Inr (out, d')"
proof -
  obtain al where al: "lockAlbum a d = Inr al"
    using assms by (cases "lockAlbum a d") (simp_all add: DeleteAlbumTx_def)
  then have "a \<in> a_id ` set (albums d)" using find_album_None [of d a] by (auto simp: lockAlbum_Inr)
  moreover obtain m where "find_member d a c = Some m" "revoked_at m = None" "role m = Admin"
      "removeAlbum E now a c d = Inr (out, d')"
    using assms al by (cases "find_member d a c") (simp_all add: DeleteAlbumTx_def split: if_splits)
  ultimately show thesis using that by blast
qed

section \<open>Media\<close>

definition reserved_row :: "time \<Rightarrow> uuid \<Rightarrow> media \<Rightarrow> media" where
  "reserved_row now newRes m = m\<lparr>reservation_id := newRes, confirmed := False, album_seq := None,
     md_created_at := trunc_hour now\<rparr>"

lemma reserved_row_simps [simp]:
  "md_id (reserved_row now res m) = md_id m" "md_album (reserved_row now res m) = md_album m"
  "uploader_token (reserved_row now res m) = uploader_token m" "\<not> confirmed (reserved_row now res m)"
  "album_seq (reserved_row now res m) = None" "media_keys (reserved_row now res m) = media_keys m"
  "epoch_tag (reserved_row now res m) = epoch_tag m"
  by (simp_all add: reserved_row_def media_keys_def)

lemma reserve_insert_Inr:
  assumes "reserve_insert now newRes m d = Inr (row, d')"
  shows "row = reserved_row now newRes m" "d' = d\<lparr>medias := sql_insert row (medias d)\<rparr>"
    "md_id m \<notin> md_id ` set (medias d)" "uploader_token m \<in> i_token ` set (amids d)"
proof -
  have "insert_media (reserved_row now newRes m) d = Inr d'" and row: "row = reserved_row now newRes m"
    using assms by (auto simp: reserve_insert_def reserved_row_def Let_def split: sum.splits)
  then show "row = reserved_row now newRes m" "d' = d\<lparr>medias := sql_insert row (medias d)\<rparr>"
    "md_id m \<notin> md_id ` set (medias d)" "uploader_token m \<in> i_token ` set (amids d)"
    by (auto simp: insert_media_def find_amid_None split: if_splits)
qed

lemma reuse_keys_fields:
  "md_id (fst (reuse_keys prev m)) = md_id m" "md_album (fst (reuse_keys prev m)) = md_album m"
  "uploader_token (fst (reuse_keys prev m)) = uploader_token m"
  "epoch_tag (fst (reuse_keys prev m)) = epoch_tag m"
  by (simp_all add: reuse_keys_def Let_def)

lemma ReserveUploadRow_Inr:
  assumes "ReserveUploadRow now newID newRes m0 epochTag d = Inr (row, d')"
  obtains (fresh) m where "m = (if md_id m0 = 0 then m0\<lparr>md_id := newID\<rparr> else m0)"
      "md_album m \<in> a_id ` set (albums d)" "epochTag = max_epoch d (md_album m)" "0 \<le> epochTag"
      "RotationRequiredExpr d (md_album m) = Some False"
      "row = reserved_row now newRes m" "md_id m \<notin> md_id ` set (medias d)"
      "uploader_token m \<in> i_token ` set (amids d)"
      "d' = d\<lparr>medias := sql_insert row (medias d)\<rparr>"
    | (again) m prev where "m = (if md_id m0 = 0 then m0\<lparr>md_id := newID\<rparr> else m0)"
      "md_album m \<in> a_id ` set (albums d)" "epochTag = max_epoch d (md_album m)" "0 \<le> epochTag"
      "RotationRequiredExpr d (md_album m) = Some False"
      "prev \<in> set (medias d)" "md_id prev = md_id m" "md_album prev = md_album m" "\<not> confirmed prev"
      "uploader_token prev = uploader_token m"
      "row = reserved_row now newRes (fst (reuse_keys prev m))"
      "uploader_token m \<in> i_token ` set (amids d)"
      "md_id m \<notin> md_id ` set (sql_delete (\<lambda>r. md_id r = md_id m \<and> md_album r = md_album m) (medias d))"
      "d' = enqueueObjectCleanup now (snd (reuse_keys prev m))
         (d\<lparr>medias := sql_insert row (sql_delete (\<lambda>r. md_id r = md_id m \<and> md_album r = md_album m) (medias d))\<rparr>)"
proof -
  define m where "m = (if md_id m0 = 0 then m0\<lparr>md_id := newID\<rparr> else m0)"
  note def = ReserveUploadRow_def [of now newID newRes m0 _ d, folded m_def]
  obtain al where al: "find_album d (md_album m) = Some al"
    using assms by (cases "find_album d (md_album m)") (simp_all add: def m_def [symmetric])
  have a: "md_album m \<in> a_id ` set (albums d)" using al find_album_None [of d "md_album m"] by auto
  have e: "epochTag = max_epoch d (md_album m)" "0 \<le> epochTag"
    using assms al by (simp_all add: def m_def [symmetric] Let_def split: if_splits)
  obtain p where p: "RotationRequiredExpr d (md_album m) = Some p"
    using assms al e by (cases "RotationRequiredExpr d (md_album m)") (simp_all add: def m_def [symmetric] Let_def)
  then have r: "RotationRequiredExpr d (md_album m) = Some False"
    using assms al e by (cases p) (simp_all add: def m_def [symmetric] Let_def)
  show thesis
  proof (cases "find (\<lambda>r. md_id r = md_id m \<and> md_album r = md_album m) (medias d)")
    case None
    then have "reserve_insert now newRes m d = Inr (row, d')"
      using assms al e r by (simp add: def m_def [symmetric] Let_def)
    note i = reserve_insert_Inr [OF this]
    show thesis by (rule fresh [OF m_def a e r i(1) i(3) i(4) i(2)])
  next
    case (Some prev)
    note pv = find_Some_in [OF Some]
    have c: "\<not> confirmed prev" "uploader_token prev = uploader_token m"
      using assms al e r Some by (simp_all add: def m_def [symmetric] Let_def split: if_splits)
    have "reserve_insert now newRes (fst (reuse_keys prev m)) (enqueueObjectCleanup now (snd (reuse_keys prev m))
        (d\<lparr>medias := sql_delete (\<lambda>r. md_id r = md_id m \<and> md_album r = md_album m) (medias d)\<rparr>)) = Inr (row, d')"
      using assms al e r Some c by (simp add: def m_def [symmetric] Let_def split_beta)
    note i = reserve_insert_Inr [OF this, unfolded reuse_keys_fields db_fields]
    show thesis
      by (rule again [OF m_def a e r, of prev])
        (use pv c i in \<open>simp_all add: enqueueObjectCleanup_def\<close>)
  qed
qed

lemma MarkConfirmed_Inr:
  assumes "MarkConfirmed x a res d = Inr (g, d')" and wf: "wf_medias d"
  obtains al row where "find_album d a = Some al" "row \<in> set (medias d)" "pending_row x a res row"
    "RotationRequiredExpr d a = Some False" "epoch_tag row = max_epoch d a" "g = media_generation al + 1"
    "d' = d\<lparr>medias := sql_update (\<lambda>r. md_id r = x) (\<lambda>r. r\<lparr>confirmed := True, album_seq := Some g\<rparr>) (medias d),
       activity_seq := activity_seq d + 1,
       albums := sql_update (\<lambda>al. a_id al = a) (\<lambda>al. al\<lparr>media_generation := media_generation al + 1,
         last_activity_seq := activity_seq d + 1\<rparr>) (albums d)\<rparr>"
proof -
  obtain al where al: "find_album d a = Some al"
    using assms by (cases "find_album d a") (simp_all add: MarkConfirmed_def)
  obtain row where row: "find (pending_row x a res) (medias d) = Some row"
    using assms al by (cases "find (pending_row x a res) (medias d)") (simp_all add: MarkConfirmed_def)
  note rowD = find_Some_in [OF row]
  obtain q where q: "RotationRequiredExpr d a = Some q"
    using assms al row by (cases "RotationRequiredExpr d a") (simp_all add: MarkConfirmed_def)
  then have c: "RotationRequiredExpr d a = Some False" "epoch_tag row = max_epoch d a"
    using assms al row by (simp_all add: MarkConfirmed_def Let_def split: if_splits)
  have g: "g = media_generation al + 1"
    using assms al row c by (simp add: MarkConfirmed_def Let_def)
  have d': "d' = d\<lparr>medias := sql_update (\<lambda>r. md_id r = x) (\<lambda>r. r\<lparr>album_seq := Some g\<rparr>)
        (sql_update (pending_row x a res) (\<lambda>r. r\<lparr>confirmed := True\<rparr>) (medias d)),
       activity_seq := activity_seq d + 1,
       albums := sql_update (\<lambda>al. a_id al = a) (\<lambda>al. al\<lparr>media_generation := media_generation al + 1,
         last_activity_seq := activity_seq d + 1\<rparr>) (albums d)\<rparr>"
    using assms al row c g by (simp add: MarkConfirmed_def Let_def)
  have one: "pending_row x a res r" if "r \<in> set (medias d)" "md_id r = x" for r
  proof -
    have "r = row" using wf that rowD
      by (auto simp: wf_medias_def pending_row_def dest: distinct_map_eq [where g = md_id])
    then show ?thesis using rowD by simp
  qed
  have "sql_update (\<lambda>r. md_id r = x) (\<lambda>r. r\<lparr>album_seq := Some g\<rparr>)
        (sql_update (pending_row x a res) (\<lambda>r. r\<lparr>confirmed := True\<rparr>) (medias d)) =
      sql_update (\<lambda>r. md_id r = x) (\<lambda>r. r\<lparr>confirmed := True, album_seq := Some g\<rparr>) (medias d)"
    unfolding sql_update_def map_map comp_def
    by (rule map_cong [OF refl]) (use one in \<open>auto simp: pending_row_def\<close>)
  with d' show thesis by (intro that [OF al _ _ c g]) (use rowD in simp_all)
qed

lemma DeleteOwnedMedia_Inr:
  assumes "DeleteOwnedMedia now a x t d = Inr (out, d')"
  obtains r where "r \<in> set (medias d)" "md_id r = x" "md_album r = a" "confirmed r" "uploader_token r = t"
    "(out, d') = removeMedia now (\<lambda>r. md_id r = x \<and> md_album r = a) d"
proof -
  obtain al where al: "lockAlbum a d = Inr al"
    using assms by (cases "lockAlbum a d") (simp_all add: DeleteOwnedMedia_def)
  obtain r where r: "find (\<lambda>r. md_id r = x \<and> md_album r = a \<and> confirmed r) (medias d) = Some r"
    using assms al by (cases "find (\<lambda>r. md_id r = x \<and> md_album r = a \<and> confirmed r) (medias d)")
      (simp_all add: DeleteOwnedMedia_def)
  have "uploader_token r = t" "(out, d') = removeMedia now (\<lambda>r. md_id r = x \<and> md_album r = a) d"
    using assms al r by (simp_all add: DeleteOwnedMedia_def split: if_splits)
  with find_Some_in [OF r] show thesis by (intro that) auto
qed

section \<open>Avatars\<close>

definition reserved_avatar :: "time \<Rightarrow> avatar option \<Rightarrow> avatar \<Rightarrow> avatar" where
  "reserved_avatar now prev v =
     (case prev of None \<Rightarrow> v
      | Some p \<Rightarrow> if av_size p = av_size v \<and> av_sha256 p = av_sha256 v then v\<lparr>av_key := av_key p\<rparr> else v)
     \<lparr>av_confirmed := False, av_created_at := trunc_hour now\<rparr>"

lemma reserved_avatar_simps [simp]:
  "avatar_id (reserved_avatar now prev v) = avatar_id v" "av_album (reserved_avatar now prev v) = av_album v"
  "av_token (reserved_avatar now prev v) = av_token v" "\<not> av_confirmed (reserved_avatar now prev v)"
  by (simp_all add: reserved_avatar_def split: option.split)

lemma reserved_avatar_key:
  "av_key (reserved_avatar now prev v) = av_key v \<or>
     (\<exists>p. prev = Some p \<and> av_key (reserved_avatar now prev v) = av_key p)"
  by (simp add: reserved_avatar_def split: option.split)

lemma unqueue_fields [db_fields]:
  "users (unqueueObjectCleanup s k d) = users d" "albums (unqueueObjectCleanup s k d) = albums d"
  "amids (unqueueObjectCleanup s k d) = amids d" "members (unqueueObjectCleanup s k d) = members d"
  "epochs (unqueueObjectCleanup s k d) = epochs d" "wraps (unqueueObjectCleanup s k d) = wraps d"
  "medias (unqueueObjectCleanup s k d) = medias d" "avatars (unqueueObjectCleanup s k d) = avatars d"
  "deletions (unqueueObjectCleanup s k d) = deletions d" "receipts (unqueueObjectCleanup s k d) = receipts d"
  "activity_seq (unqueueObjectCleanup s k d) = activity_seq d" "sessions (unqueueObjectCleanup s k d) = sessions d"
  "opks (unqueueObjectCleanup s k d) = opks d"
  by (simp_all add: unqueueObjectCleanup_def)

lemma queue_avatars_commute:
  "(unqueueObjectCleanup st k d)\<lparr>avatars := vs\<rparr> = unqueueObjectCleanup st k (d\<lparr>avatars := vs\<rparr>)"
  "(enqueueObjectCleanup now ks d)\<lparr>avatars := vs\<rparr> = enqueueObjectCleanup now ks (d\<lparr>avatars := vs\<rparr>)"
  by (simp_all add: unqueueObjectCleanup_def enqueueObjectCleanup_def)

lemma avatar_Reserve_Inr:
  assumes "avatar_Reserve now v d = Inr (row, d')"
  obtains m where "find_member d (av_album v) (av_token v) = Some m" "revoked_at m = None"
    "\<And>p. p \<in> set (avatars d) \<Longrightarrow> avatar_id p = avatar_id v \<Longrightarrow> wf_avatars d \<Longrightarrow>
       pending_avatar_of (av_album v) (av_token v) p"
    "row = reserved_avatar now (find (\<lambda>x. avatar_id x = avatar_id v) (avatars d)) v"
    "avatar_id v \<notin> avatar_id ` set (sql_delete (pending_avatar_of (av_album v) (av_token v)) (avatars d))"
    "d' = unqueueObjectCleanup (map av_key (filter (pending_avatar_of (av_album v) (av_token v)) (avatars d))) (av_key row)
       (enqueueObjectCleanup now (map av_key (filter (pending_avatar_of (av_album v) (av_token v)) (avatars d)))
         (d\<lparr>avatars := sql_insert row (sql_delete (pending_avatar_of (av_album v) (av_token v)) (avatars d))\<rparr>))"
proof -
  let ?p = "pending_avatar_of (av_album v) (av_token v)"
  let ?prev = "find (\<lambda>x. avatar_id x = avatar_id v) (avatars d)"
  let ?row = "reserved_avatar now ?prev v"
  let ?st = "map av_key (filter ?p (avatars d))"
  obtain m where m: "find_member d (av_album v) (av_token v) = Some m" "revoked_at m = None"
    and l: "lockActiveMember (av_album v) (av_token v) d = Inr ()"
    using assms by (cases "lockActiveMember (av_album v) (av_token v) d")
      (auto simp: avatar_Reserve_def elim: lockActiveMember_Inr)
  have c: "?prev = Some p \<Longrightarrow> av_album p = av_album v \<and> av_token p = av_token v \<and> \<not> av_confirmed p" for p
    using assms l by (simp add: avatar_Reserve_def Let_def split: if_splits)
  have own: "?p p" if "p \<in> set (avatars d)" "avatar_id p = avatar_id v" "wf_avatars d" for p
  proof -
    have "find (\<lambda>x. avatar_id x = avatar_id p) (avatars d) = Some p"
      using that by (intro find_key) (auto simp: wf_avatars_def)
    with c [of p] that show ?thesis by (simp add: pending_avatar_of_def)
  qed
  have key: "(case ?prev of None \<Rightarrow> v | Some p \<Rightarrow> if av_size p = av_size v \<and> av_sha256 p = av_sha256 v
      then v\<lparr>av_key := av_key p\<rparr> else v)\<lparr>av_confirmed := False, av_created_at := trunc_hour now\<rparr> = ?row"
    by (simp add: reserved_avatar_def)
  have key2: "av_key (case ?prev of None \<Rightarrow> v | Some p \<Rightarrow> if av_size p = av_size v \<and> av_sha256 p = av_sha256 v
      then v\<lparr>av_key := av_key p\<rparr> else v) = av_key ?row"
    by (simp add: reserved_avatar_def)
  let ?d2 = "unqueueObjectCleanup ?st (av_key ?row) (snd (removeAvatars now ?p d))"
  have ins: "insert_avatar ?row ?d2 = Inr d'" "row = ?row"
    using assms l c by (auto simp: avatar_Reserve_def Let_def key key2 removeAvatars_eq split: if_splits sum.splits)
  then have "d' = ?d2\<lparr>avatars := sql_insert ?row (avatars ?d2)\<rparr>" "avatar_id v \<notin> avatar_id ` set (avatars ?d2)"
    by (auto simp: insert_avatar_def split: if_splits)
  then show thesis
    by (intro that [OF m own ins(2)])
      (simp_all add: removeAvatars_eq db_fields ins(2) queue_avatars_commute)
qed

lemma avatar_Confirm_Inr:
  assumes "avatar_Confirm now a t x d = Inr (ks, d')"
  obtains (already) v m where "find_member d a t = Some m" "revoked_at m = None" "v \<in> set (avatars d)"
      "avatar_id v = x" "av_confirmed v" "d' = d" "ks = []"
    | (confirm) v m where "find_member d a t = Some m" "revoked_at m = None" "v \<in> set (avatars d)"
      "avatar_id v = x" "av_album v = a" "av_token v = t" "\<not> av_confirmed v"
      "ks = map av_key (filter (\<lambda>y. av_album y = a \<and> av_token y = t \<and> avatar_id y \<noteq> x) (avatars d))"
      "d' = enqueueObjectCleanup now ks (d\<lparr>avatars := sql_update (\<lambda>y. avatar_id y = x) (\<lambda>y. y\<lparr>av_confirmed := True\<rparr>)
         (sql_delete (\<lambda>y. av_album y = a \<and> av_token y = t \<and> avatar_id y \<noteq> x) (avatars d))\<rparr>)"
proof -
  obtain m where m: "find_member d a t = Some m" "revoked_at m = None"
    and l: "lockActiveMember a t d = Inr ()"
    using assms by (cases "lockActiveMember a t d") (auto simp: avatar_Confirm_def elim: lockActiveMember_Inr)
  obtain v where v: "find (\<lambda>v. avatar_id v = x \<and> av_album v = a \<and> av_token v = t) (avatars d) = Some v"
    using assms l by (cases "find (\<lambda>v. avatar_id v = x \<and> av_album v = a \<and> av_token v = t) (avatars d)")
      (simp_all add: avatar_Confirm_def)
  note vD = find_Some_in [OF v]
  show thesis
  proof (cases "av_confirmed v")
    case True
    then have "ks = []" "d' = d" using assms l v by (simp_all add: avatar_Confirm_def)
    then show thesis using already [OF m] vD True by blast
  next
    case False
    have "ks = map av_key (filter (\<lambda>y. av_album y = a \<and> av_token y = t \<and> avatar_id y \<noteq> x) (avatars d))"
      "d' = enqueueObjectCleanup now ks (d\<lparr>avatars := sql_update (\<lambda>y. avatar_id y = x) (\<lambda>y. y\<lparr>av_confirmed := True\<rparr>)
         (sql_delete (\<lambda>y. av_album y = a \<and> av_token y = t \<and> avatar_id y \<noteq> x) (avatars d))\<rparr>)"
      using assms l v False
      by (auto simp: avatar_Confirm_def Let_def removeAvatars_eq db_fields enqueueObjectCleanup_def)
    then show thesis using confirm [OF m] vD False by blast
  qed
qed

section \<open>Account deletion\<close>

lemma claimReceipt_Inr:
  assumes "claimReceipt now h d = Inr (u, d')"
  obtains rs where "d' = d\<lparr>receipts := rs\<rparr>" "rs = receipts d \<or> h \<notin> receipt_hash ` set (receipts d) \<and>
    rs = sql_insert \<lparr>receipt_hash = h, abandoned = False, accepted_at = trunc_hour now\<rparr> (receipts d)"
proof (cases "find_receipt h d")
  case None
  then have "h \<notin> receipt_hash ` set (receipts d)" by (auto simp: find_receipt_def find_None_all)
  with None assms show thesis by (intro that [of "sql_insert \<lparr>receipt_hash = h, abandoned = False,
    accepted_at = trunc_hour now\<rparr> (receipts d)"]) (auto simp: claimReceipt_def)
next
  case (Some r)
  with assms show thesis
    by (intro that [of "receipts d"]) (auto simp: claimReceipt_def split: if_splits)
qed

lemma Accept_Inr:
  assumes "Accept E now u conf h d = Inr (x, d')"
  obtains (again) rs usr where "find_user d u = Some usr" "deleting_at usr \<noteq> None" "d' = d\<lparr>receipts := rs\<rparr>"
      "rs = receipts d \<or> h \<notin> receipt_hash ` set (receipts d) \<and>
         rs = sql_insert \<lparr>receipt_hash = h, abandoned = False, accepted_at = trunc_hour now\<rparr> (receipts d)"
    | (accepted) rs usr where "find_user d u = Some usr" "deleting_at usr = None"
      "rs = receipts d \<or> h \<notin> receipt_hash ` set (receipts d) \<and>
         rs = sql_insert \<lparr>receipt_hash = h, abandoned = False, accepted_at = trunc_hour now\<rparr> (receipts d)"
      "\<forall>m\<in>set (memberships E u None d). Outcome m = OutcomeDeleteShared \<longrightarrow> ms_album m \<in> set conf"
      "d' = d\<lparr>receipts := rs, users := sql_update (\<lambda>r. u_id r = u)
           (\<lambda>r. r\<lparr>deleting_at := Some (trunc_hour now)\<rparr>) (users d),
         deletions := queue_deletion now u (deletions d),
         sessions := sql_delete (\<lambda>s. s_user s = u) (sessions d)\<rparr>"
proof -
  obtain usr where usr: "find_user d u = Some usr"
    using assms by (cases "find_user d u") (simp_all add: Accept_def)
  obtain d1 where d1: "claimReceipt now h d = Inr ((), d1)"
    using assms usr by (cases "claimReceipt now h d") (auto simp: Accept_def)
  obtain rs where rs: "d1 = d\<lparr>receipts := rs\<rparr>" "rs = receipts d \<or> h \<notin> receipt_hash ` set (receipts d) \<and>
      rs = sql_insert \<lparr>receipt_hash = h, abandoned = False, accepted_at = trunc_hour now\<rparr> (receipts d)"
    using claimReceipt_Inr [OF d1] by blast
  have ms: "memberships E u None d1 = memberships E u None d"
    by (simp add: memberships_def rs(1) membership_row_def [abs_def] find_member_def active_count_def)
  show thesis
  proof (cases "deleting_at usr = None")
    case True
    then have ok: "\<forall>m\<in>set (memberships E u None d). Outcome m = OutcomeDeleteShared \<longrightarrow> ms_album m \<in> set conf"
      using assms usr d1 ms by (auto simp: Accept_def split: if_splits)
    with True assms usr d1 ms have "d' = d1\<lparr>users := sql_update (\<lambda>r. u_id r = u)
           (\<lambda>r. r\<lparr>deleting_at := Some (trunc_hour now)\<rparr>) (users d1),
         deletions := queue_deletion now u (deletions d1),
         sessions := sql_delete (\<lambda>s. s_user s = u) (sessions d1)\<rparr>"
      by (auto simp: Accept_def split: if_splits)
    then show thesis using accepted [OF usr True rs(2) ok] rs(1) by simp
  next
    case False
    with assms usr d1 have "d' = d1" by (simp add: Accept_def)
    with rs False usr show thesis by (intro again) simp_all
  qed
qed

lemma memberships_member:
  assumes "m \<in> set (memberships E u x d)"
  obtains i where "i \<in> set (amids d)" "user_handle i = lhash E u" "x = None \<or> x = Some (i_album i)"
    "m = membership_row d i"
  using assms by (auto simp: memberships_def)

lemma memberships_empty:
  "memberships E u (Some a) d = [] \<longleftrightarrow> (lhash E u, a) \<notin> (\<lambda>i. (user_handle i, i_album i)) ` set (amids d)"
  by (auto simp: memberships_def simp flip: set_empty) force

text \<open>What is left after an account leaves one album. Under the constraints no statement of the
  transaction fails.\<close>

lemma leave_then_erase:
  "drop_identity t (enqueueObjectCleanup now ks (require_rotation a (leave_row now a t d))) =
   drop_identity t (enqueueObjectCleanup now ks (require_rotation a d))"
proof -
  have "sql_delete (\<lambda>m. m_token m = t) (sql_update (\<lambda>m. m_album m = a \<and> m_token m = t)
      (\<lambda>m. m\<lparr>revoked_at := Some now\<rparr>) ms) = sql_delete (\<lambda>m. m_token m = t) ms" for ms :: "member list"
    by (induction ms) (auto simp: sql_delete_def sql_update_def)
  then show ?thesis
    by (simp add: drop_identity_def enqueueObjectCleanup_def require_rotation_def leave_row_def)
qed

lemma erase_membership_wf:
  assumes wf: "wf d" and same: "amids d0 = amids d" "medias d0 = medias d" "avatars d0 = avatars d"
    and pair: "(rm_token out, rm_album out) \<in> amid_pairs d"
  obtains out' where "erase_membership E now out d0 = Inr (out', drop_identity (rm_token out)
      (enqueueObjectCleanup now (member_keys (rm_album out) (rm_token out) d) d0))"
    "rm_outcome out' = rm_outcome out" "rm_keys out' = member_keys (rm_album out) (rm_token out) d"
proof -
  have p: "amid_pairs d0 = amid_pairs d" by (simp add: amid_pairs_def same)
  have k: "member_keys (rm_album out) (rm_token out) d0 = member_keys (rm_album out) (rm_token out) d"
    by (simp add: member_keys_def same)
  have "erase_membership E now out d0 =
     Inr (out\<lparr>rm_notify := activeUserIDs E (rm_album out) (rm_token out) d0,
              rm_media := map md_id (filter (\<lambda>r. md_album r = rm_album out \<and> uploader_token r = rm_token out) (medias d0)),
              rm_keys := member_keys (rm_album out) (rm_token out) d0\<rparr>,
          drop_identity (rm_token out)
            (enqueueObjectCleanup now (member_keys (rm_album out) (rm_token out) d0) d0))"
    by (rule erase_membership_eq)
      (use pair wf_pair_unique [OF wf] wf_media_pair [OF wf] wf_avatar_pair [OF wf] in \<open>auto simp: p same\<close>)
  note this [unfolded k]
  then show thesis by (rule that) simp_all
qed

lemma RemoveMembership_Inr:
  assumes wf: "wf d"
  obtains (none) "RemoveMembership E now u a d = Inr (no_removal a, d)"
      "a \<notin> a_id ` set (albums d) \<or> (lhash E u, a) \<notin> (\<lambda>i. (user_handle i, i_album i)) ` set (amids d)"
    | (erase) i out where "i \<in> set (amids d)" "user_handle i = lhash E u" "i_album i = a"
      "Outcome (membership_row d i) = OutcomeErase"
      "RemoveMembership E now u a d =
         Inr (out, drop_identity (i_token i) (enqueueObjectCleanup now (member_keys a (i_token i) d) d))"
      "rm_outcome out = Some OutcomeErase" "rm_keys out = member_keys a (i_token i) d"
    | (leave) i out where "i \<in> set (amids d)" "user_handle i = lhash E u" "i_album i = a"
      "Outcome (membership_row d i) = OutcomeLeave"
      "RemoveMembership E now u a d = Inr (out, drop_identity (i_token i)
         (enqueueObjectCleanup now (member_keys a (i_token i) d) (require_rotation a d)))"
      "rm_outcome out = Some OutcomeLeave" "rm_keys out = member_keys a (i_token i) d"
    | (album) i out where "i \<in> set (amids d)" "user_handle i = lhash E u" "i_album i = a"
      "Outcome (membership_row d i) = OutcomeDeleteAlbum \<or> Outcome (membership_row d i) = OutcomeDeleteShared"
      "RemoveMembership E now u a d =
         Inr (out, drop_album a (enqueueObjectCleanup now (album_keys a d) d))"
      "rm_outcome out = Some (Outcome (membership_row d i))" "rm_keys out = album_keys a d"
proof (cases "lockAlbum a d")
  case (Inl e)
  then have "a \<notin> a_id ` set (albums d)" using find_album_None [of d a]
    by (auto simp: lockAlbum_def split: option.splits)
  then show thesis using none Inl by (simp add: RemoveMembership_def)
next
  case (Inr al)
  show thesis
  proof (cases "memberships E u (Some a) d")
    case Nil
    then show thesis using none Inr memberships_empty [of E u a d] by (simp add: RemoveMembership_def)
  next
    case (Cons m ms)
    then have "m \<in> set (memberships E u (Some a) d)" by simp
    then obtain i where i: "i \<in> set (amids d)" "user_handle i = lhash E u" "i_album i = a" "m = membership_row d i"
      by (rule memberships_member) auto
    have tok: "ms_token m = i_token i" by (simp add: i(4) membership_row_def)
    have pair: "(i_token i, a) \<in> amid_pairs d" using i(1,3) by (auto simp: amid_pairs_def)
    define out where "out = (no_removal a)\<lparr>rm_token := i_token i, rm_outcome := Some (Outcome m)\<rparr>"
    have out: "rm_token out = i_token i" "rm_album out = a" "rm_outcome out = Some (Outcome m)"
      by (simp_all add: out_def no_removal_def)
    have tok': "ms_token (membership_row d i) = i_token i" by (simp add: membership_row_def)
    note def = RemoveMembership_def [of E now u a d] Inr Cons tok tok'
    show thesis
    proof (cases "Outcome m")
      case OutcomeErase
      obtain out' where "erase_membership E now out d = Inr (out', drop_identity (i_token i)
          (enqueueObjectCleanup now (member_keys a (i_token i) d) d))"
        "rm_outcome out' = Some OutcomeErase" "rm_keys out' = member_keys a (i_token i) d"
        by (rule erase_membership_wf [OF wf refl refl refl, of out E now]) (use pair OutcomeErase out in auto)
      then show thesis using i OutcomeErase by (intro erase [of i]) (simp_all add: def Let_def out_def)
    next
      case OutcomeLeave
      let ?d = "require_rotation a (leave_row now a (i_token i) d)"
      have p: "amids ?d = amids d" "medias ?d = medias d" "avatars ?d = avatars d"
        by (simp_all add: require_rotation_def leave_row_def)
      obtain out' where "erase_membership E now out ?d = Inr (out', drop_identity (i_token i)
          (enqueueObjectCleanup now (member_keys a (i_token i) d) ?d))"
        "rm_outcome out' = Some OutcomeLeave" "rm_keys out' = member_keys a (i_token i) d"
        by (rule erase_membership_wf [OF wf p, of out E now]) (use pair OutcomeLeave out in auto)
      then show thesis using i OutcomeLeave
        by (intro leave [of i]) (simp_all add: def Let_def out_def leave_then_erase)
    next
      case OutcomeDeleteAlbum
      then show thesis using i out
        by (intro album [of i "out\<lparr>rm_notify := activeUserIDs E a (i_token i) d, rm_keys := album_keys a d\<rparr>"])
          (simp_all add: def Let_def removeAlbum_eq [OF wf] out_def)
    next
      case OutcomeDeleteShared
      then show thesis using i out
        by (intro album [of i "out\<lparr>rm_notify := activeUserIDs E a (i_token i) d, rm_keys := album_keys a d\<rparr>"])
          (simp_all add: def Let_def removeAlbum_eq [OF wf] out_def)
    qed
  qed
qed

end
