(* ===== verification/Server.thy ===== *)
theory Server
  imports Effects
begin

text \<open>
  The server as a state machine: one operation per transaction of the repositories, the only code
  that writes the database, and one step that runs it. The services, the handlers and the background
  jobs are sequences of these steps, and requests interleave between them. A rolled-back transaction
  is a step that changes nothing, except that the numbers it drew from the sequence of album
  activity are not given back: \<open>ADrawSeq\<close> is such a draw.
\<close>

section \<open>Operations\<close>

datatype album_op =
    ACreate uuid bytes bytes uuid
  | ADeliver bytes deliver_member_input
  | AReceived bytes int
  | AInsertEpoch insert_epoch_input
  | ARevoke uuid bytes bytes
  | ADelete uuid bytes
  | AName uuid bytes
  | AMemberName uuid bytes bytes
  | ADrawSeq

datatype media_op =
    MReserve uuid uuid media int
  | MConfirm uuid uuid uuid
  | MAbort uuid uuid bytes uuid
  | MStale time int "uuid list"
  | MDelete uuid uuid bytes
  | MAck bytes
  | MRetry bytes
  | VReserve avatar
  | VConfirm uuid bytes uuid
  | VDrop uuid bytes uuid
  | VRemove uuid bytes
  | VStale time int "uuid list"

datatype account_op =
    UCreate uuid user
  | UPublish uuid bytes bytes bytes bytes int64
  | URotate uuid bytes bytes int64
  | UReplenish uuid "(uuid \<times> opk_upload) list"
  | UPop nat uuid
  | SCreate uuid uuid bytes time
  | SExtend bytes time
  | SDelete bytes
  | DAccept uuid "uuid list" bytes
  | DAbandon bytes
  | DPrune time
  | DClaim
  | DRemove uuid uuid
  | DFinish uuid

datatype op = Al album_op | Md media_op | Ac account_op

fun album_exec :: "env \<Rightarrow> time \<Rightarrow> album_op \<Rightarrow> db \<Rightarrow> db" where
  "album_exec E now (ACreate newID token nameCT u) d = snd (run_tx (CreateWithAdmin E now newID token nameCT u) d)"
| "album_exec E now (ADeliver fresh inp) d = snd (run_tx (DeliverMember E now fresh inp) d)"
| "album_exec E now (AReceived t ep) d = snd (run_tx (MarkReceived now t ep) d)"
| "album_exec E now (AInsertEpoch inp) d = snd (run_tx (InsertEpoch E now inp) d)"
| "album_exec E now (ARevoke a c t) d = snd (run_tx (RevokeMemberTx now a c t) d)"
| "album_exec E now (ADelete a c) d = snd (run_tx (DeleteAlbumTx E now a c) d)"
| "album_exec E now (AName a n) d = UpdateName now a n d"
| "album_exec E now (AMemberName a t n) d = UpdateMemberNameCT a t n d"
| "album_exec E now ADrawSeq d = d\<lparr>activity_seq := activity_seq d + 1\<rparr>"

fun media_exec :: "time \<Rightarrow> media_op \<Rightarrow> db \<Rightarrow> db" where
  "media_exec now (MReserve newID newRes m tag) d = snd (run_tx (ReserveUploadRow now newID newRes m tag) d)"
| "media_exec now (MConfirm x a res) d = snd (run_tx (MarkConfirmed x a res) d)"
| "media_exec now (MAbort x a t res) d = snd (QueuePendingCleanup now x a t res d)"
| "media_exec now (MStale cutoff n locked) d = snd (QueueStalePendingCleanup now cutoff n locked d)"
| "media_exec now (MDelete a x t) d = snd (run_tx (DeleteOwnedMedia now a x t) d)"
| "media_exec now (MAck k) d = DeleteObjectCleanupKey k d"
| "media_exec now (MRetry k) d = snd (RescheduleObjectCleanupKey now k d)"
| "media_exec now (VReserve v) d = snd (run_tx (avatar_Reserve now v) d)"
| "media_exec now (VConfirm a t x) d = snd (run_tx (avatar_Confirm now a t x) d)"
| "media_exec now (VDrop a t x) d = snd (avatar_DropPending now a t x d)"
| "media_exec now (VRemove a t) d = snd (avatar_Remove now a t d)"
| "media_exec now (VStale cutoff n locked) d = snd (avatar_QueueStalePending now cutoff n locked d)"

fun account_exec :: "env \<Rightarrow> time \<Rightarrow> account_op \<Rightarrow> db \<Rightarrow> db" where
  "account_exec E now (UCreate newID u) d = snd (run_tx (user_Create now newID u) d)"
| "account_exec E now (UPublish u ik lk spk sg ts) d =
     snd (run_tx (PublishOrRefreshIdentity now u ik lk spk sg ts) d)"
| "account_exec E now (URotate u spk sg ts) d = snd (run_tx (repo_RotateSPK now u spk sg ts) d)"
| "account_exec E now (UReplenish u xs) d = snd (run_tx (CreateBatchAtomic now u xs) d)"
| "account_exec E now (UPop pick u) d = snd (PopRandom pick u d)"
| "account_exec E now (SCreate newID u h ex) d = snd (run_tx (session_Create now newID u h ex) d)"
| "account_exec E now (SExtend t ex) d = snd (run_tx (ExtendByToken E t ex) d)"
| "account_exec E now (SDelete t) d = DeleteByToken E t d"
| "account_exec E now (DAccept u shared h) d = snd (run_tx (Accept E now u shared h) d)"
| "account_exec E now (DAbandon h) d = snd (repo_AbandonReceipt now h d)"
| "account_exec E now (DPrune cutoff) d = PruneReceipts cutoff d"
| "account_exec E now DClaim d = snd (ClaimDue now d)"
| "account_exec E now (DRemove u a) d = snd (run_tx (RemoveMembership E now u a) d)"
| "account_exec E now (DFinish u) d = snd (FinishAccount E u d)"

fun exec :: "env \<Rightarrow> time \<Rightarrow> op \<Rightarrow> db \<Rightarrow> db" where
  "exec E now (Al x) d = album_exec E now x d"
| "exec E now (Md x) d = media_exec now x d"
| "exec E now (Ac x) d = account_exec E now x d"

section \<open>What the callers guarantee\<close>

text \<open>
  The object keys of the rows in the database, and the facts a reservation relies on: its new
  object keys are 128 random bits each, so they are not in use, its row is tagged with the epoch the
  request names, and the uploader's token is the one
  \<^verbatim>\<open>RequireMember\<close> looked up in the album of the request. A token never moves to
  another album, so at the commit it still belongs to the album or is gone.
\<close>

definition live_keys :: "db \<Rightarrow> bytes list" where
  "live_keys d = concat (map media_keys (medias d)) @ map av_key (avatars d)"

definition fresh_key :: "db \<Rightarrow> bytes \<Rightarrow> bool" where
  "fresh_key d k \<longleftrightarrow> k \<noteq> [] \<and> k \<notin> set (live_keys d) \<and> k \<notin> queued d"

fun media_op_ok :: "media_op \<Rightarrow> db \<Rightarrow> bool" where
  "media_op_ok (MReserve newID newRes m tag) d \<longleftrightarrow>
     fresh_key d (storage_key m) \<and>
     (case thumb_key m of None \<Rightarrow> True | Some k \<Rightarrow> fresh_key d k \<and> k \<noteq> storage_key m) \<and>
     (\<forall>i\<in>set (amids d). i_token i = uploader_token m \<longrightarrow> i_album i = md_album m) \<and>
     epoch_tag m = tag"
| "media_op_ok (VReserve v) d \<longleftrightarrow> fresh_key d (av_key v)"
| "media_op_ok _ d \<longleftrightarrow> True"

text \<open>A new token is 32 random bytes. The services hand over what they checked: an invitation
  carries envelopes for the epochs 0, 1, ... in order, and a rotation carries the digest of its own
  list of recipients; that this digest does not collide with the one of the members it is compared
  to is the assumption on SHA-256.\<close>

definition no_collision :: "crypto \<Rightarrow> bytes \<Rightarrow> bytes \<Rightarrow> bool" where
  "no_collision C p q \<longleftrightarrow> (sha256 C p = sha256 C q \<longrightarrow> p = q)"

fun album_op_ok :: "env \<Rightarrow> album_op \<Rightarrow> db \<Rightarrow> bool" where
  "album_op_ok E (ACreate newID token nameCT u) d \<longleftrightarrow> length token = tokenLen"
| "album_op_ok E (ADeliver fresh inp) d \<longleftrightarrow> length fresh = tokenLen \<and>
     map env_epoch (dm_envelopes inp) = map int [0..<length (dm_envelopes inp)]"
| "album_op_ok E (AInsertEpoch inp) d \<longleftrightarrow>
     (\<forall>w\<in>set (ie_wraps inp). length (wi_recipient w) = tokenLen) \<and>
     ie_expected_hash inp = MemberSetHash (cryp E) (map wi_recipient (ie_wraps inp)) \<and>
     no_collision (cryp E) (member_set_preimage (map wi_recipient (ie_wraps inp)))
       (member_set_preimage (active_tokens d (ie_album inp)))"
| "album_op_ok E _ d \<longleftrightarrow> True"

fun op_ok :: "env \<Rightarrow> op \<Rightarrow> db \<Rightarrow> bool" where
  "op_ok E (Al x) d = album_op_ok E x d"
| "op_ok E (Md x) d = media_op_ok x d"
| "op_ok E (Ac x) d = True"

definition step :: "env \<Rightarrow> time \<times> op \<Rightarrow> db \<Rightarrow> db" where
  "step E x d = (if op_ok E (snd x) d then exec E (fst x) (snd x) d else d)"

text \<open>A run of the server from an empty database.\<close>

definition run :: "env \<Rightarrow> (time \<times> op) list \<Rightarrow> db" where
  "run E ops = fold (step E) ops empty_db"

end
