(* ===== verification/Integrity.thy ===== *)
theory Integrity
  imports Server
begin

text \<open>
  The key and reference constraints hold in every state of the server: each transaction keeps
  \<open>wf\<close>. The operations are reduced to a few shapes of change, one lemma per shape.
\<close>

section \<open>Shapes of change\<close>

lemma wf_cong:
  assumes "albums d' = albums d" "amids d' = amids d" "members d' = members d" "medias d' = medias d"
    "wraps d' = wraps d" "avatars d' = avatars d"
  shows "wf d' \<longleftrightarrow> wf d"
  by (simp add: wf_def wf_defs amid_pairs_def active_pairs_def assms)

lemma wf_enqueue [simp]: "wf (enqueueObjectCleanup now ks d) \<longleftrightarrow> wf d"
  by (rule wf_cong) (simp_all add: db_fields)

lemma wf_unqueue [simp]: "wf (unqueueObjectCleanup s k d) \<longleftrightarrow> wf d"
  by (rule wf_cong) (simp_all add: db_fields)

lemma set_map_delete: "f ` set (sql_delete p t) \<subseteq> f ` set t"
  by auto

lemma active_pairs_fields [simp]:
  "active_pairs (d\<lparr>medias := x1\<rparr>) = active_pairs d" "active_pairs (d\<lparr>avatars := x2\<rparr>) = active_pairs d"
  "active_pairs (d\<lparr>cleanup := x3\<rparr>) = active_pairs d" "active_pairs (d\<lparr>amids := x4\<rparr>) = active_pairs d"
  "active_pairs (d\<lparr>albums := x5\<rparr>) = active_pairs d" "active_pairs (d\<lparr>wraps := x6\<rparr>) = active_pairs d"
  by (simp_all add: active_pairs_def)

lemma wf_delete_medias: "wf d \<Longrightarrow> wf (d\<lparr>medias := sql_delete p (medias d)\<rparr>)"
  by (simp add: wf_def wf_defs distinct_map_delete)

lemma filter_sql_delete: "filter c (sql_delete p t) = sql_delete p (filter c t)"
  by (simp add: sql_delete_def conj_commute)

lemma wf_delete_avatars: "wf d \<Longrightarrow> wf (d\<lparr>avatars := sql_delete p (avatars d)\<rparr>)"
  by (auto simp: wf_def wf_defs distinct_map_delete filter_sql_delete)

lemma wf_removeMedia: "wf d \<Longrightarrow> wf (snd (removeMedia now p d))"
  by (simp add: removeMedia_eq wf_delete_medias)

lemma wf_removeAvatars: "wf d \<Longrightarrow> wf (snd (removeAvatars now p d))"
  by (simp add: removeAvatars_eq wf_delete_avatars)

lemma image_sql_update: "(\<And>r. r \<in> set t \<Longrightarrow> p r \<Longrightarrow> g (f r) = g r) \<Longrightarrow> g ` set (sql_update p f t) = g ` set t"
  by (rule set_map_key) (rule map_sql_update)

lemma wf_update_albums:
  assumes "wf d" "\<And>al. a_id (f al) = a_id al"
  shows "wf (d\<lparr>albums := sql_update p f (albums d)\<rparr>)"
proof -
  have m: "map a_id (sql_update p f (albums d)) = map a_id (albums d)"
    by (rule map_sql_update) (rule assms(2))
  from assms(1) show ?thesis
    by (simp add: wf_def wf_defs amid_pairs_def active_pairs_def m set_map_key [OF m] del: set_sql_update)
qed

lemma wf_update_amids:
  assumes "wf d" "\<And>i. i_token (f i) = i_token i \<and> user_handle (f i) = user_handle i \<and> i_album (f i) = i_album i"
  shows "wf (d\<lparr>amids := sql_update p f (amids d)\<rparr>)"
proof -
  have m: "map g (sql_update p f (amids d)) = map g (amids d)"
    if "\<And>i. g (f i) = g i" for g :: "amid \<Rightarrow> 'a"
    by (rule map_sql_update) (rule that)
  note eq = m [of i_token] m [of "\<lambda>i. (user_handle i, i_album i)"]
  note img = set_map_key [OF m [of i_token]] set_map_key [OF m [of "\<lambda>i. (i_token i, i_album i)"]]
  have a: "(\<forall>i\<in>set (sql_update p f (amids d)). i_album i \<in> A) = (\<forall>i\<in>set (amids d). i_album i \<in> A)" for A
    using set_map_key [OF m [of i_album]] assms(2) by (simp add: image_subset_iff [symmetric] del: set_sql_update)
  from assms(1) show ?thesis
    by (simp add: wf_def wf_defs amid_pairs_def active_pairs_def assms(2) eq img a del: set_sql_update)
qed

text \<open>An update of member rows keeps the constraints when it keeps the keys and every member who
  has avatars stays active.\<close>

lemma wf_update_members:
  assumes wf: "wf d" and key: "\<And>m. m_album (f m) = m_album m \<and> m_token (f m) = m_token m"
    and active: "\<And>m. m \<in> set (members d) \<Longrightarrow> p m \<Longrightarrow> revoked_at m = None \<Longrightarrow>
      (m_album m, m_token m) \<in> (\<lambda>v. (av_album v, av_token v)) ` set (avatars d) \<Longrightarrow> revoked_at (f m) = None"
  shows "wf (d\<lparr>members := sql_update p f (members d)\<rparr>)"
proof -
  let ?d = "d\<lparr>members := sql_update p f (members d)\<rparr>"
  have m: "map (\<lambda>m. (m_album m, m_token m)) (sql_update p f (members d)) = map (\<lambda>m. (m_album m, m_token m)) (members d)"
    by (rule map_sql_update) (simp add: key)
  have refs: "(\<forall>m\<in>set (sql_update p f (members d)). (m_token m, m_album m) \<in> amid_pairs d)"
    using wf_member_pair [OF wf] key by auto
  have av: "(av_album v, av_token v) \<in> active_pairs ?d" if "v \<in> set (avatars d)" for v
  proof -
    have "(av_album v, av_token v) \<in> active_pairs d" using wf that by (simp add: wf_def wf_avatars_def)
    then obtain mm where mm: "mm \<in> set (members d)" "m_album mm = av_album v" "m_token mm = av_token v"
      "revoked_at mm = None" by (auto simp: active_pairs_def)
    have "(m_album mm, m_token mm) \<in> (\<lambda>v. (av_album v, av_token v)) ` set (avatars d)"
      using that mm by force
    with active mm have r: "revoked_at (if p mm then f mm else mm) = None" by simp
    have "(if p mm then f mm else mm) \<in> set (members ?d)" using mm(1) by simp
    moreover have "m_album (if p mm then f mm else mm) = av_album v"
      "m_token (if p mm then f mm else mm) = av_token v" using key mm by simp_all
    ultimately show ?thesis using r unfolding active_pairs_def by (intro CollectI exI) auto
  qed
  from wf av refs show ?thesis
    by (simp add: wf_def wf_defs m)
qed

lemma wf_wraps_part:
  assumes "wf d" "wf_wraps d'" "albums d' = albums d" "amids d' = amids d" "members d' = members d"
    "medias d' = medias d" "avatars d' = avatars d"
  shows "wf d'"
  using assms(1,2) by (simp add: wf_def wf_defs amid_pairs_def active_pairs_def assms(3-))

lemma wf_wraps_fields [simp]:
  "wf_wraps (d\<lparr>members := x1\<rparr>) = wf_wraps d" "wf_wraps (d\<lparr>opks := x2\<rparr>) = wf_wraps d"
  "wf_wraps (d\<lparr>epochs := x3\<rparr>) = wf_wraps d" "wf_wraps (d\<lparr>medias := x4\<rparr>) = wf_wraps d"
  "wf_wraps (d\<lparr>avatars := x5\<rparr>) = wf_wraps d" "wf_wraps (d\<lparr>cleanup := x6\<rparr>) = wf_wraps d"
  by (simp_all add: wf_wraps_def)

lemma wf_new_member:
  assumes wf: "wf d" and i: "i_token i \<notin> i_token ` set (amids d)"
      "(user_handle i, i_album i) \<notin> (\<lambda>i. (user_handle i, i_album i)) ` set (amids d)"
      "i_album i \<in> a_id ` set (albums d)"
    and m: "m_album m = i_album i" "m_token m = i_token i"
      "(m_album m, m_token m) \<notin> (\<lambda>m. (m_album m, m_token m)) ` set (members d)"
  shows "wf (d\<lparr>amids := sql_insert i (amids d), members := sql_insert m (members d)\<rparr>)"
proof -
  let ?d = "d\<lparr>amids := sql_insert i (amids d), members := sql_insert m (members d)\<rparr>"
  have ap: "amid_pairs ?d = insert (i_token i, i_album i) (amid_pairs d)" by (auto simp: amid_pairs_def)
  have ac: "active_pairs d \<subseteq> active_pairs ?d" by (auto simp: active_pairs_def)
  note w = wfD [OF wf]
  have "wf_albums ?d" using w(1) by (simp add: wf_albums_def)
  moreover have "wf_amids ?d" using w(2) i by (auto simp: wf_amids_def distinct_map_insert)
  moreover have "wf_members ?d" using w(3) m unfolding wf_members_def ap
    by (auto simp: distinct_map_insert)
  moreover have "wf_medias ?d" using w(4) unfolding wf_medias_def ap by auto
  moreover have "wf_wraps ?d" using w(5) by (auto simp: wf_wraps_def)
  moreover have "wf_avatars ?d" using w(6) ac unfolding wf_avatars_def by auto
  ultimately show ?thesis by (simp add: wf_def)
qed

lemma wf_new_media:
  assumes "wf d" "md_id r \<notin> md_id ` set (medias d)" "(uploader_token r, md_album r) \<in> amid_pairs d"
  shows "wf (d\<lparr>medias := sql_insert r (medias d)\<rparr>)"
  using assms by (auto simp: wf_def wf_defs distinct_map_insert)

lemma wf_new_avatar:
  assumes "wf d" "avatar_id v \<notin> avatar_id ` set (avatars d)" "\<not> av_confirmed v"
    "(av_album v, av_token v) \<in> active_pairs d"
  shows "wf (d\<lparr>avatars := sql_insert v (avatars d)\<rparr>)"
proof -
  have "filter av_confirmed (sql_insert v (avatars d)) = filter av_confirmed (avatars d)"
    using assms(3) by (simp add: sql_insert_def)
  with assms show ?thesis by (auto simp: wf_def wf_defs distinct_map_insert)
qed

lemma wf_update_medias:
  assumes "wf d" "\<And>r. md_id (f r) = md_id r \<and> md_album (f r) = md_album r \<and> uploader_token (f r) = uploader_token r"
  shows "wf (d\<lparr>medias := sql_update p f (medias d)\<rparr>)"
proof -
  have m: "map md_id (sql_update p f (medias d)) = map md_id (medias d)"
    by (rule map_sql_update) (simp add: assms(2))
  from assms show ?thesis by (auto simp: wf_def wf_defs m)
qed

lemma image_keep: "(\<And>x. x \<in> S \<Longrightarrow> p x = q (f x)) \<Longrightarrow> f ` {x \<in> S. p x} = {y \<in> f ` S. q y}"
  by blast

lemma token_pair: "t \<in> i_token ` set (amids d) \<longleftrightarrow> (\<exists>a. (t, a) \<in> amid_pairs d)"
  by (auto simp: amid_pairs_def)

lemma amid_pairs_drop_identity: "amid_pairs (drop_identity t d) = {x \<in> amid_pairs d. fst x \<noteq> t}"
  by (simp add: amid_pairs_def drop_identity_def image_keep [where q = "\<lambda>x. fst x \<noteq> t"])

lemma active_pairs_image: "active_pairs d =
    (\<lambda>m. (m_album m, m_token m)) ` set (filter (\<lambda>m. revoked_at m = None) (members d))"
  by (auto simp: active_pairs_def)

lemma active_pairs_drop_identity: "active_pairs (drop_identity t d) = {x \<in> active_pairs d. snd x \<noteq> t}"
  by (simp add: active_pairs_image drop_identity_def filter_sql_delete image_keep [where q = "\<lambda>x. snd x \<noteq> t"]
      del: set_filter)

lemma wf_drop_identity:
  assumes wf: "wf d"
  shows "wf (drop_identity t d)"
proof -
  note w = wfD [OF wf]
  have "wf_albums (drop_identity t d)" using w(1) by (simp add: wf_albums_def drop_identity_def)
  moreover have "wf_amids (drop_identity t d)"
    using w(2) by (simp add: wf_amids_def drop_identity_def distinct_map_delete)
  moreover have "wf_members (drop_identity t d)"
    using w(3) unfolding wf_members_def amid_pairs_drop_identity
    by (simp add: drop_identity_def distinct_map_delete)
  moreover have "wf_medias (drop_identity t d)"
    using w(4) unfolding wf_medias_def amid_pairs_drop_identity
    by (simp add: drop_identity_def distinct_map_delete)
  moreover have "wf_wraps (drop_identity t d)"
    using w(5) unfolding wf_wraps_def token_pair amid_pairs_drop_identity
    by (simp add: drop_identity_def distinct_map_delete)
  moreover have "wf_avatars (drop_identity t d)"
    using w(6) unfolding wf_avatars_def active_pairs_drop_identity
    by (simp add: drop_identity_def distinct_map_delete filter_sql_delete)
  ultimately show ?thesis by (simp add: wf_def)
qed

lemma amid_pairs_drop_album: "amid_pairs (drop_album a d) = {x \<in> amid_pairs d. snd x \<noteq> a}"
  by (simp add: amid_pairs_def drop_album_def image_keep [where q = "\<lambda>x. snd x \<noteq> a"])

lemma active_pairs_drop_album: "active_pairs (drop_album a d) = {x \<in> active_pairs d. fst x \<noteq> a}"
  by (simp add: active_pairs_image drop_album_def filter_sql_delete image_keep [where q = "\<lambda>x. fst x \<noteq> a"]
      del: set_filter)

lemma wf_drop_album:
  assumes wf: "wf d"
  shows "wf (drop_album a d)"
proof -
  note w = wfD [OF wf]
  have "wf_albums (drop_album a d)" using w(1) by (simp add: wf_albums_def drop_album_def distinct_map_delete)
  moreover have "wf_amids (drop_album a d)"
    using w(2) by (auto simp: wf_amids_def drop_album_def distinct_map_delete)
  moreover have "wf_members (drop_album a d)"
    using w(3) unfolding wf_members_def amid_pairs_drop_album
    by (simp add: drop_album_def distinct_map_delete)
  moreover have "wf_medias (drop_album a d)"
    using w(4) unfolding wf_medias_def amid_pairs_drop_album
    by (simp add: drop_album_def distinct_map_delete)
  moreover have "wf_wraps (drop_album a d)"
    using w(5) unfolding wf_wraps_def token_pair amid_pairs_drop_album
    by (auto simp: drop_album_def distinct_map_delete)
  moreover have "wf_avatars (drop_album a d)"
    using w(6) unfolding wf_avatars_def active_pairs_drop_album
    by (simp add: drop_album_def distinct_map_delete filter_sql_delete)
  ultimately show ?thesis by (simp add: wf_def)
qed

section \<open>Album operations\<close>

lemma wf_CreateWithAdmin:
  assumes wf: "wf d" and t: "CreateWithAdmin E now newID token nameCT u d = Inr (r, d')"
  shows "wf d'"
proof -
  obtain al tk where r: "r = (al, tk)" by (cases r)
  from t [unfolded r] show ?thesis
  proof (cases rule: CreateWithAdmin_Inr)
    case (1 usr i m)
    let ?d = "d\<lparr>activity_seq := activity_seq d + 1, albums := sql_insert al (albums d)\<rparr>"
    have "wf ?d" using wf 1 by (auto simp: wf_def wf_defs amid_pairs_def active_pairs_def distinct_map_insert)
    from wf_new_member [OF this, of i m] 1 show ?thesis by auto
  qed
qed

lemma wf_joined_state:
  assumes wf: "wf d" and a: "a \<in> a_id ` set (albums d)" and j: "joined_state a t d d1"
  shows "wf d1"
  using j unfolding joined_state_def
proof (elim disjE exE conjE)
  assume "d1 = reactivate_member a t d"
  then show ?thesis unfolding reactivate_member_def by (simp add: wf_update_members [OF wf])
next
  fix i
  assume "d1 = d\<lparr>amids := sql_insert i (amids d), members := sql_insert
      \<lparr>m_album = a, m_token = t, role = Member, revoked_at = None, m_name_ct = None\<rparr> (members d)\<rparr>"
    "i_token i = t" "i_album i = a" "t \<notin> i_token ` set (amids d)"
    "(user_handle i, a) \<notin> (\<lambda>i. (user_handle i, i_album i)) ` set (amids d)"
    "(a, t) \<notin> (\<lambda>m. (m_album m, m_token m)) ` set (members d)"
  with wf_new_member [OF wf, of i] a show ?thesis by simp
qed

lemma wf_DeliverMember:
  assumes wf: "wf d" and t: "DeliverMember E now fresh inp d = Inr (r, d')"
  shows "wf d'"
  using t
proof (cases rule: DeliverMember_Inr)
  case (1 d1)
  have w1: "wf d1" using wf_joined_state [OF wf 1(2,4)] .
  from 1(5) show ?thesis
  proof (cases rule: deliver_wraps_Inr)
    case (1 us os)
    have "wf_wraps d'" using 1(4) wfD(5) [OF w1] .
    then show ?thesis by (rule wf_wraps_part [OF w1]) (simp_all add: 1(2))
  qed
qed

lemma wf_InsertEpoch:
  assumes wf: "wf d" and t: "InsertEpoch E now inp d = Inr (r, d')"
  shows "wf d'"
  using t
proof (cases rule: InsertEpoch_Inr)
  case (1 m er)
  let ?ws = "map (wrap_row now inp) (ie_wraps inp)"
  let ?d = "d\<lparr>epochs := sql_insert er (epochs d), wraps := wraps d @ ?ws\<rparr>"
  note ww = wfD(5) [OF wf, unfolded wf_wraps_key]
  have "wf_wraps ?d" unfolding wf_wraps_key
    using ww 1(1,9) 1(10) by (auto simp: wrap_row_def)
  then have "wf ?d" by (rule wf_wraps_part [OF wf]) simp_all
  from wf_update_albums [OF this, of "\<lambda>al. al\<lparr>rotation_required := False\<rparr>"] 1(11) show ?thesis by simp
qed

lemma wf_require_rotation: "wf d \<Longrightarrow> wf (require_rotation a d)"
  unfolding require_rotation_def by (rule wf_update_albums) simp_all

lemma wf_RevokeMemberTx:
  assumes wf: "wf d" and t: "RevokeMemberTx now a c t d = Inr (r, d')"
  shows "wf d'"
proof -
  obtain x y where r: "r = (x, y)" by (cases r)
  from t [unfolded r] show ?thesis
  proof (cases rule: RevokeMemberTx_Inr)
    case already
    then show ?thesis using wf by simp
  next
    case (revoked cm m)
    let ?p = "\<lambda>v. av_album v = a \<and> av_token v = t"
    let ?d = "d\<lparr>avatars := sql_delete ?p (avatars d)\<rparr>"
    have "wf (revoke_row now a t ?d)" unfolding revoke_row_def
      by (rule wf_update_members [OF wf_delete_avatars [OF wf]]) auto
    then have "wf (enqueueObjectCleanup now (map av_key (filter ?p (avatars d))) (require_rotation a (revoke_row now a t ?d)))"
      by (simp add: wf_require_rotation)
    moreover have "d' = enqueueObjectCleanup now (map av_key (filter ?p (avatars d))) (require_rotation a (revoke_row now a t ?d))"
      unfolding revoked(9) removeAvatars_eq by (simp add: enqueueObjectCleanup_def require_rotation_def revoke_row_def)
    ultimately show ?thesis by simp
  qed
qed

lemma wf_DeleteAlbumTx:
  assumes wf: "wf d" and t: "DeleteAlbumTx E now a c d = Inr (out, d')"
  shows "wf d'"
proof -
  have "removeAlbum E now a c d = Inr (out, d')" using t by (auto elim: DeleteAlbumTx_Inr)
  then show ?thesis using wf by (auto simp: removeAlbum_eq [OF wf] wf_drop_album)
qed

lemma wf_MarkReceived: "wf d \<Longrightarrow> MarkReceived now t ep d = Inr (u, d') \<Longrightarrow> wf d'"
  unfolding MarkReceived_def by (auto split: if_splits intro!: wf_update_amids)

lemma wf_names: "wf d \<Longrightarrow> wf (UpdateName now a n d)" "wf d \<Longrightarrow> wf (UpdateMemberNameCT a t n d)"
  unfolding UpdateName_def UpdateMemberNameCT_def
  by (auto intro!: wf_update_albums wf_update_members)

lemmas wf_album_ops = wf_CreateWithAdmin wf_DeliverMember wf_InsertEpoch wf_RevokeMemberTx
  wf_DeleteAlbumTx wf_MarkReceived

lemma wf_draw: "wf d \<Longrightarrow> wf (d\<lparr>activity_seq := n\<rparr>)"
  by (subst wf_cong [of _ d]) simp_all

lemma wf_album_exec: "wf d \<Longrightarrow> wf (album_exec E now x d)"
  by (cases x) (simp_all only: album_exec.simps wf_names wf_draw, (rule run_tx_inv [of wf], assumption, erule (1) wf_album_ops)+)

section \<open>Media and avatar operations\<close>

lemma wf_ReserveUploadRow:
  assumes wf: "wf d" and ok: "media_op_ok (MReserve newID newRes m0 tag) d"
    and t: "ReserveUploadRow now newID newRes m0 tag d = Inr (row, d')"
  shows "wf d'"
proof -
  have own: "(uploader_token m, md_album m) \<in> amid_pairs d"
    if "m = (if md_id m0 = 0 then m0\<lparr>md_id := newID\<rparr> else m0)" "uploader_token m \<in> i_token ` set (amids d)" for m
  proof -
    have "uploader_token m = uploader_token m0" "md_album m = md_album m0" using that(1) by simp_all
    then show ?thesis using that(2) ok by (auto simp: amid_pairs_def)
  qed
  from t show ?thesis
  proof (cases rule: ReserveUploadRow_Inr)
    case (fresh m)
    have "wf (d\<lparr>medias := sql_insert row (medias d)\<rparr>)"
      by (rule wf_new_media [OF wf]) (use fresh(6,7) own [OF fresh(1,8)] in simp_all)
    then show ?thesis using fresh(9) by simp
  next
    case (again m prev)
    have row: "md_id row = md_id m" "uploader_token row = uploader_token m" "md_album row = md_album m"
      using again(11) by (simp_all add: reuse_keys_fields)
    let ?p = "\<lambda>r. md_id r = md_id m \<and> md_album r = md_album m"
    have "wf ((d\<lparr>medias := sql_delete ?p (medias d)\<rparr>)\<lparr>medias := sql_insert row (medias (d\<lparr>medias := sql_delete ?p (medias d)\<rparr>))\<rparr>)"
      by (rule wf_new_media [OF wf_delete_medias [OF wf]]) (use again(13) own [OF again(1,12)] row in simp_all)
    then show ?thesis unfolding again(14) by simp
  qed
qed

lemma wf_MarkConfirmed:
  assumes wf: "wf d" and t: "MarkConfirmed x a res d = Inr (g, d')"
  shows "wf d'"
  using t wfD(4) [OF wf]
proof (cases rule: MarkConfirmed_Inr)
  case (1 al row)
  let ?d = "d\<lparr>medias := sql_update (\<lambda>r. md_id r = x) (\<lambda>r. r\<lparr>confirmed := True, album_seq := Some g\<rparr>) (medias d)\<rparr>"
  let ?d' = "?d\<lparr>albums := sql_update (\<lambda>al. a_id al = a) (\<lambda>al. al\<lparr>media_generation := media_generation al + 1,
         last_activity_seq := activity_seq d + 1\<rparr>) (albums ?d)\<rparr>"
  have "wf ?d" by (rule wf_update_medias [OF wf]) simp
  then have "wf ?d'" by (rule wf_update_albums) simp
  then have "wf (?d'\<lparr>activity_seq := activity_seq d + 1\<rparr>)" by (subst wf_cong [of _ ?d']) simp_all
  moreover have "d' = ?d'\<lparr>activity_seq := activity_seq d + 1\<rparr>" by (simp add: 1(7))
  ultimately show ?thesis by simp
qed

lemma wf_DeleteOwnedMedia:
  assumes wf: "wf d" and t: "DeleteOwnedMedia now a x tk d = Inr (out, d')"
  shows "wf d'"
  using t
proof (cases rule: DeleteOwnedMedia_Inr)
  case (1 r)
  then have "d' = snd (removeMedia now (\<lambda>r. md_id r = x \<and> md_album r = a) d)" by (metis snd_conv)
  then show ?thesis by (simp add: wf_removeMedia [OF wf])
qed

lemma find_member_active:
  "find_member d a t = Some m \<Longrightarrow> revoked_at m = None \<Longrightarrow> (a, t) \<in> active_pairs d"
  unfolding active_pairs_image using find_member_Some [of d a t m] by force

lemma wf_avatar_Reserve:
  assumes wf: "wf d" and t: "avatar_Reserve now v d = Inr (row, d')"
  shows "wf d'"
  using t
proof (cases rule: avatar_Reserve_Inr)
  case (1 m)
  let ?p = "pending_avatar_of (av_album v) (av_token v)"
  let ?d = "d\<lparr>avatars := sql_delete ?p (avatars d)\<rparr>"
  have "wf (?d\<lparr>avatars := sql_insert row (avatars ?d)\<rparr>)"
    by (rule wf_new_avatar [OF wf_delete_avatars [OF wf]])
      (use 1(4,5) find_member_active [OF 1(1,2)] in simp_all)
  then show ?thesis unfolding 1(6) by simp
qed

lemma sql_delete_delete: "sql_delete p (sql_delete q t) = sql_delete (\<lambda>r. p r \<or> q r) t"
  by (auto simp: sql_delete_def intro: filter_cong)

text \<open>Updating the row of one key keeps a key over the selected rows distinct, when the new row
  collides with none of the others.\<close>

lemma distinct_filter_update:
  assumes "distinct (map k t)" "distinct (map g (filter c t))"
    "\<And>r r'. r \<in> set t \<Longrightarrow> r' \<in> set t \<Longrightarrow> k r = x \<Longrightarrow> k r' \<noteq> x \<Longrightarrow> c r' \<Longrightarrow> g r' \<noteq> g (f r)"
  shows "distinct (map g (filter c (sql_update (\<lambda>r. k r = x) f t)))"
  using assms
proof (induction t)
  case Nil
  then show ?case by (simp add: sql_update_def)
next
  case (Cons r t)
  let ?u = "sql_update (\<lambda>r. k r = x) f t"
  have IH: "distinct (map g (filter c ?u))"
    using Cons.prems by (intro Cons.IH) (auto split: if_splits)
  have step: "sql_update (\<lambda>r. k r = x) f (r # t) = (if k r = x then f r else r) # ?u"
    by (simp add: sql_update_def)
  show ?case
  proof (cases "k r = x")
    case True
    then have u: "?u = t" using Cons.prems(1) by (intro sql_update_id) (auto simp: image_iff)
    have "g y \<noteq> g (f r)" if "y \<in> set t" "c y" for y
      using Cons.prems(3) [of r y] Cons.prems(1) True that by (auto simp: image_iff)
    then have "g (f r) \<notin> g ` set (filter c t)" by (auto dest: sym)
    then show ?thesis using IH True unfolding step u by simp
  next
    case False
    have apart: "g y \<noteq> g r" if y: "y \<in> set ?u" "c y" and "c r" for y
    proof -
      from y(1) obtain z where z: "z \<in> set t" "y = (if k z = x then f z else z)" by auto
      show ?thesis
      proof (cases "k z = x")
        case True
        then show ?thesis using Cons.prems(3) [of z r] z False \<open>c r\<close> by auto
      next
        case False
        then show ?thesis using Cons.prems(2) z y(2) \<open>c r\<close> by (auto simp: image_iff)
      qed
    qed
    have "g r \<notin> g ` set (filter c ?u)" if "c r"
    proof
      assume "g r \<in> g ` set (filter c ?u)"
      then obtain y where "y \<in> set (filter c ?u)" "g r = g y" by blast
      with apart [of y] that show False by (simp del: set_sql_update)
    qed
    then show ?thesis using IH False unfolding step by simp
  qed
qed

lemma wf_avatar_Confirm:
  assumes wf: "wf d" and t: "avatar_Confirm now a tk x d = Inr (ks, d')"
  shows "wf d'"
  using t
proof (cases rule: avatar_Confirm_Inr)
  case already
  then show ?thesis using wf by simp
next
  case (confirm v m)
  let ?q = "\<lambda>y. av_album y = a \<and> av_token y = tk \<and> avatar_id y \<noteq> x"
  let ?d = "d\<lparr>avatars := sql_delete ?q (avatars d)\<rparr>"
  let ?vs = "sql_update (\<lambda>y. avatar_id y = x) (\<lambda>y. y\<lparr>av_confirmed := True\<rparr>) (avatars ?d)"
  have w: "wf_avatars ?d" using wfD(6) [OF wf_delete_avatars [OF wf]] .
  have keys: "map avatar_id ?vs = map avatar_id (avatars ?d)"
    by (rule map_sql_update) simp
  have vd: "v \<in> set (avatars ?d)" using confirm(3,4) by simp
  have one: "y = v" if "y \<in> set (avatars ?d)" "avatar_id y = x" for y
    using w that vd confirm(4) by (auto simp: wf_avatars_def dest: distinct_map_eq [where g = avatar_id])
  have "distinct (map (\<lambda>v. (av_album v, av_token v)) (filter av_confirmed ?vs))"
  proof (rule distinct_filter_update)
    show "distinct (map avatar_id (avatars ?d))"
      "distinct (map (\<lambda>v. (av_album v, av_token v)) (filter av_confirmed (avatars ?d)))"
      using w by (simp_all add: wf_avatars_def)
    fix r r'
    assume "r \<in> set (avatars ?d)" "r' \<in> set (avatars ?d)" "avatar_id r = x" "avatar_id r' \<noteq> x"
    with one [of r] confirm(5,6)
    show "(av_album r', av_token r') \<noteq> (av_album (r\<lparr>av_confirmed := True\<rparr>), av_token (r\<lparr>av_confirmed := True\<rparr>))"
      by auto
  qed
  moreover have "\<forall>v\<in>set ?vs. (av_album v, av_token v) \<in> active_pairs d"
    using w by (auto simp: wf_avatars_def)
  moreover have "distinct (map avatar_id ?vs)" unfolding keys using w by (simp add: wf_avatars_def)
  ultimately have "wf (d\<lparr>avatars := ?vs\<rparr>)" using wf by (simp add: wf_def wf_defs)
  then show ?thesis unfolding confirm(9) by simp
qed

text \<open>The operations that only queue the objects of rows they delete.\<close>

lemma QueuePendingCleanup_snd:
  "snd (QueuePendingCleanup now x a tk res d) =
     (let p = (\<lambda>r. pending_row x a res r \<and> uploader_token r = tk) in
      case find p (medias d) of None \<Rightarrow> d
      | Some r \<Rightarrow> enqueueObjectCleanup now (media_keys r) (d\<lparr>medias := sql_delete p (medias d)\<rparr>))"
  by (simp add: QueuePendingCleanup_def Let_def split: option.split)

lemma wf_QueuePendingCleanup: "wf d \<Longrightarrow> wf (snd (QueuePendingCleanup now x a tk res d))"
  by (simp add: QueuePendingCleanup_snd Let_def wf_delete_medias split: option.split)

lemma QueueStalePendingCleanup_snd:
  "snd (QueueStalePendingCleanup now cutoff n locked d) =
     (if n \<le> 0 then d else snd (removeMedia now (\<lambda>r. md_id r \<in> set (stale_ids cutoff n locked d) \<and> \<not> confirmed r) d))"
  by (simp add: QueueStalePendingCleanup_def Let_def split_beta)

lemma RescheduleObjectCleanupKey_snd:
  obtains q where "snd (RescheduleObjectCleanupKey now k d) = d\<lparr>cleanup := q\<rparr>"
    "map c_key q = map c_key (cleanup d)"
proof (cases "find (\<lambda>r. c_key r = k) (cleanup d)")
  case None
  then show thesis by (intro that [of "cleanup d"]) (simp_all add: RescheduleObjectCleanupKey_def)
next
  case (Some r)
  then show thesis
    by (intro that [of "sql_update (\<lambda>r. c_key r = k) (\<lambda>r. r\<lparr>attempts := attempts r + 1,
        next_attempt_at := now + cleanup_backoff (attempts r)\<rparr>) (cleanup d)"] map_sql_update)
      (simp_all add: RescheduleObjectCleanupKey_def)
qed

lemma wf_cleanup [simp]: "wf (d\<lparr>cleanup := q\<rparr>) \<longleftrightarrow> wf d"
  by (rule wf_cong) simp_all

lemma wf_cleanup_ops:
  "wf d \<Longrightarrow> wf (snd (RescheduleObjectCleanupKey now k d))" "wf d \<Longrightarrow> wf (DeleteObjectCleanupKey k d)"
   apply (metis RescheduleObjectCleanupKey_snd wf_cleanup)
  by (simp add: DeleteObjectCleanupKey_def)

lemma wf_avatar_drops:
  "wf d \<Longrightarrow> wf (snd (avatar_DropPending now a tk x d))" "wf d \<Longrightarrow> wf (snd (avatar_Remove now a tk d))"
  "wf d \<Longrightarrow> wf (snd (avatar_QueueStalePending now cutoff n locked d))"
  by (simp_all add: avatar_DropPending_def avatar_Remove_def avatar_QueueStalePending_def Let_def wf_removeAvatars)

lemmas wf_media_txs = wf_MarkConfirmed wf_DeleteOwnedMedia wf_avatar_Reserve wf_avatar_Confirm

lemma wf_media_tx:
  assumes "wf d"
  shows "wf (snd (run_tx (MarkConfirmed x a res) d))" "wf (snd (run_tx (DeleteOwnedMedia now a x tk) d))"
    "wf (snd (run_tx (avatar_Reserve now v) d))" "wf (snd (run_tx (avatar_Confirm now a tk x) d))"
  by (rule run_tx_inv [of wf, OF assms], erule wf_media_txs [OF assms])+

lemma wf_media_exec:
  assumes "wf d" "media_op_ok x d"
  shows "wf (media_exec now x d)"
proof (cases x)
  case (MReserve newID newRes m tag)
  with assms(2) have ok: "media_op_ok (MReserve newID newRes m tag) d" by simp
  show ?thesis unfolding MReserve media_exec.simps
    by (rule run_tx_inv [of wf, OF assms(1)]) (rule wf_ReserveUploadRow [OF assms(1) ok])
qed (simp_all add: assms(1) wf_QueuePendingCleanup QueueStalePendingCleanup_snd wf_removeMedia
  wf_cleanup_ops wf_avatar_drops wf_media_tx)

section \<open>Account operations\<close>

text \<open>Every account operation but leaving an album works on the account tables alone.\<close>

definition same_albums :: "db \<Rightarrow> db \<Rightarrow> bool" where
  "same_albums d d' \<longleftrightarrow> albums d' = albums d \<and> amids d' = amids d \<and> members d' = members d
     \<and> epochs d' = epochs d \<and> wraps d' = wraps d \<and> medias d' = medias d \<and> avatars d' = avatars d
     \<and> cleanup d' = cleanup d \<and> activity_seq d' = activity_seq d"

lemma same_albums_refl [simp]: "same_albums d d"
  by (simp add: same_albums_def)

lemma same_albums_trans: "same_albums d d' \<Longrightarrow> same_albums d' d'' \<Longrightarrow> same_albums d d''"
  by (simp add: same_albums_def)

lemma same_albums_run_tx: "(\<And>r d'. t d = Inr (r, d') \<Longrightarrow> same_albums d d') \<Longrightarrow> same_albums d (snd (run_tx t d))"
  by (rule run_tx_inv) simp_all

lemma create_opk_same: "create_opk now u x d = Inr d' \<Longrightarrow> same_albums d d'"
  by (cases x) (auto simp: create_opk_def same_albums_def Let_def split: if_splits option.splits)

lemma CreateBatchAtomic_same: "CreateBatchAtomic now u xs d = Inr (r, d') \<Longrightarrow> same_albums d d'"
  by (induction xs arbitrary: d) (auto split: sum.splits intro: same_albums_trans dest: create_opk_same)

lemma publish_same:
  "same_albums d (snd (publish_new now u ik lk spk sg ts d))"
  "same_albums d (snd (publish_refresh now u ik lk spk sg ts d))"
  by (simp_all add: publish_new_def publish_refresh_def Let_def same_albums_def)

lemma Publish_Inr:
  "PublishOrRefreshIdentity now u ik lk spk sg ts d = Inr (r, d') \<Longrightarrow>
     (fst (publish_new now u ik lk spk sg ts d) \<and> d' = snd (publish_new now u ik lk spk sg ts d)) \<or>
     (\<not> fst (publish_new now u ik lk spk sg ts d)
        \<and> fst (publish_refresh now u ik lk spk sg ts (snd (publish_new now u ik lk spk sg ts d)))
        \<and> d' = snd (publish_refresh now u ik lk spk sg ts (snd (publish_new now u ik lk spk sg ts d))))"
  unfolding PublishOrRefreshIdentity_def Let_def split_beta by (simp split: if_splits)

lemma Publish_same: "PublishOrRefreshIdentity now u ik lk spk sg ts d = Inr (r, d') \<Longrightarrow> same_albums d d'"
  by (drule Publish_Inr) (metis publish_same same_albums_trans)

lemma repo_RotateSPK_same: "repo_RotateSPK now u spk sg ts d = Inr (r, d') \<Longrightarrow> same_albums d d'"
  by (auto simp: repo_RotateSPK_def same_albums_def split: if_splits option.splits)

lemma session_same:
  "session_Create now newID u h ex d = Inr (r, d') \<Longrightarrow> same_albums d d'"
  "ExtendByToken E t ex d = Inr (r', d') \<Longrightarrow> same_albums d d'" "same_albums d (DeleteByToken E t d)"
  by (auto simp: session_Create_def ExtendByToken_def DeleteByToken_def same_albums_def Let_def split: if_splits)

lemma user_Create_same: "user_Create now newID u d = Inr (r, d') \<Longrightarrow> same_albums d d'"
  by (drule user_Create_Inr(1)) (simp add: same_albums_def)

lemma Accept_same: "Accept E now u shared h d = Inr (r, d') \<Longrightarrow> same_albums d d'"
  by (erule Accept_Inr) (simp_all add: same_albums_def)

lemma account_tables_same:
  "same_albums d (snd (PopRandom pick u d))" "same_albums d (snd (repo_AbandonReceipt now h d))"
  "same_albums d (PruneReceipts cutoff d)" "same_albums d (snd (ClaimDue now d))"
  "same_albums d (snd (FinishAccount E u d))"
  by (auto simp: PopRandom_def repo_AbandonReceipt_def PruneReceipts_def ClaimDue_def FinishAccount_def
      delete_user_def same_albums_def Let_def split: list.splits option.splits)

lemmas account_same = create_opk_same CreateBatchAtomic_same Publish_same repo_RotateSPK_same
  session_same user_Create_same Accept_same

lemma account_exec_same:
  assumes "\<And>u a. x \<noteq> DRemove u a"
  shows "same_albums d (account_exec E now x d)"
proof (cases x)
  case (DRemove u a)
  with assms show ?thesis by blast
qed (simp_all only: account_exec.simps account_tables_same session_same,
  (rule same_albums_run_tx, erule account_same)+)

lemma same_albums_wf: "same_albums d d' \<Longrightarrow> wf d' \<longleftrightarrow> wf d"
  by (rule wf_cong) (simp_all add: same_albums_def)

lemma wf_RemoveMembership:
  assumes wf: "wf d"
  shows "wf (snd (run_tx (RemoveMembership E now u a) d))"
  using wf
  by (cases rule: RemoveMembership_Inr [where E = E and now = now and u = u and a = a])
    (simp_all add: wf wf_drop_identity wf_drop_album wf_require_rotation)

lemma wf_account_exec: "wf d \<Longrightarrow> wf (account_exec E now x d)"
  by (cases "\<exists>u a. x = DRemove u a")
    (auto simp: wf_RemoveMembership same_albums_wf [OF account_exec_same])

theorem wf_exec: "wf d \<Longrightarrow> op_ok E x d \<Longrightarrow> wf (exec E now x d)"
  by (cases x) (simp_all add: wf_album_exec wf_media_exec wf_account_exec)

end
