(* ===== verification/Invariants.thy ===== *)
theory Invariants
  imports Integrity
begin

text \<open>
  What an invariant of the album tables has to be checked against: one law per transaction that
  writes them, stated on states that satisfy the constraints. \<open>allowed\<close> excludes operations that
  may break it (creating albums, setting epochs, acknowledging deletions). The locale puts the transactions
  together to the step of the server, so an invariant is a predicate and the proof of its laws.
\<close>

lemma filter_unique:
  assumes "distinct (map k t)" "find p t = Some r" "\<And>x. x \<in> set t \<Longrightarrow> p x \<Longrightarrow> k x = k r"
  shows "filter p t = [r]"
  using assms
proof (induction t)
  case (Cons a t)
  show ?case
  proof (cases "p a")
    case True
    then have ar: "a = r" using Cons.prems(2) by simp
    have "\<not> p x" if "x \<in> set t" for x
      using Cons.prems(1,3) that ar by (auto simp: image_iff)
    then show ?thesis using True ar by simp
  next
    case False
    then show ?thesis using Cons by simp
  qed
qed simp

lemma QueuePendingCleanup_removeMedia:
  assumes "wf d"
  shows "snd (QueuePendingCleanup now x a tk res d) = d \<or>
    snd (QueuePendingCleanup now x a tk res d) =
      snd (removeMedia now (\<lambda>r. pending_row x a res r \<and> uploader_token r = tk) d)"
proof (cases "find (\<lambda>r. pending_row x a res r \<and> uploader_token r = tk) (medias d)")
  case None
  then show ?thesis by (simp add: QueuePendingCleanup_snd Let_def)
next
  case (Some r)
  have "filter (\<lambda>r. pending_row x a res r \<and> uploader_token r = tk) (medias d) = [r]"
    using wfD(4) [OF assms] Some find_Some_in [OF Some]
    by (intro filter_unique [where k = md_id]) (auto simp: wf_medias_def pending_row_def)
  then show ?thesis using Some by (simp add: QueuePendingCleanup_snd Let_def removeMedia_eq)
qed

locale album_invariant =
  fixes I :: "db \<Rightarrow> bool" and allowed :: "op \<Rightarrow> bool"
  assumes same: "I d \<Longrightarrow> same_albums d d' \<Longrightarrow> I d'"
    and create: "wf d \<Longrightarrow> I d \<Longrightarrow> CreateWithAdmin E now newID token nameCT u d = Inr ((al, t), d') \<Longrightarrow>
      album_op_ok E (ACreate newID token nameCT u) d \<Longrightarrow> allowed (Al (ACreate newID token nameCT u)) \<Longrightarrow> I d'"
    and deliver: "wf d \<Longrightarrow> I d \<Longrightarrow> DeliverMember E now fresh inp d = Inr (t, d') \<Longrightarrow>
      album_op_ok E (ADeliver fresh inp) d \<Longrightarrow> I d'"
    and received: "wf d \<Longrightarrow> I d \<Longrightarrow> MarkReceived now t ep d = Inr (u', d') \<Longrightarrow> I d'"
    and insert_epoch: "wf d \<Longrightarrow> I d \<Longrightarrow> InsertEpoch E now ie d = Inr (u', d') \<Longrightarrow>
      album_op_ok E (AInsertEpoch ie) d \<Longrightarrow> allowed (Al (AInsertEpoch ie)) \<Longrightarrow> I d'"
    and revoke: "wf d \<Longrightarrow> I d \<Longrightarrow> RevokeMemberTx now a c t d = Inr ((r, already), d') \<Longrightarrow> I d'"
    and name: "wf d \<Longrightarrow> I d \<Longrightarrow> I (UpdateName now a n d)"
    and member_name: "wf d \<Longrightarrow> I d \<Longrightarrow> I (UpdateMemberNameCT a t n d)"
    and drop_album: "wf d \<Longrightarrow> I d \<Longrightarrow> I (drop_album a (enqueueObjectCleanup now (album_keys a d) d))"
    and erase_gone: "wf d \<Longrightarrow> I d \<Longrightarrow> i \<in> set (amids d) \<Longrightarrow> Outcome (membership_row d i) = OutcomeErase \<Longrightarrow>
      I (drop_identity (i_token i) (enqueueObjectCleanup now (member_keys (i_album i) (i_token i) d) d))"
    and leave_gone: "wf d \<Longrightarrow> I d \<Longrightarrow> i \<in> set (amids d) \<Longrightarrow> Outcome (membership_row d i) = OutcomeLeave \<Longrightarrow>
      I (drop_identity (i_token i) (enqueueObjectCleanup now (member_keys (i_album i) (i_token i) d)
         (require_rotation (i_album i) d)))"
    and reserve: "wf d \<Longrightarrow> I d \<Longrightarrow> media_op_ok (MReserve newID newRes m tag) d \<Longrightarrow>
      ReserveUploadRow now newID newRes m tag d = Inr (row, d') \<Longrightarrow> I d'"
    and confirm: "wf d \<Longrightarrow> I d \<Longrightarrow> MarkConfirmed x a res d = Inr (g, d') \<Longrightarrow> I d'"
    and remove_media: "wf d \<Longrightarrow> I d \<Longrightarrow> I (snd (removeMedia now p d))"
    and remove_avatars: "wf d \<Longrightarrow> I d \<Longrightarrow> I (snd (removeAvatars now q d))"
    and retry: "wf d \<Longrightarrow> I d \<Longrightarrow> map c_key cq = map c_key (cleanup d) \<Longrightarrow> I (d\<lparr>cleanup := cq\<rparr>)"
    and reserve_avatar: "wf d \<Longrightarrow> I d \<Longrightarrow> media_op_ok (VReserve v) d \<Longrightarrow>
      avatar_Reserve now v d = Inr (v', d') \<Longrightarrow> I d'"
    and confirm_avatar: "wf d \<Longrightarrow> I d \<Longrightarrow> avatar_Confirm now a t x d = Inr (ks, d') \<Longrightarrow> I d'"
    and acknowledge: "wf d \<Longrightarrow> I d \<Longrightarrow> allowed (Md (MAck k)) \<Longrightarrow> I (DeleteObjectCleanupKey k d)"
    and draw_seq: "wf d \<Longrightarrow> I d \<Longrightarrow> I (d\<lparr>activity_seq := activity_seq d + 1\<rparr>)"
begin

lemma delete_album:
  assumes "wf d" "I d" "DeleteAlbumTx E now a c d = Inr (out, d')"
  shows "I d'"
proof -
  have "removeAlbum E now a c d = Inr (out, d')" using assms(3) by (auto elim: DeleteAlbumTx_Inr)
  then show ?thesis using assms by (auto simp: removeAlbum_eq drop_album)
qed

lemma run: "I d \<Longrightarrow> (\<And>r d'. t d = Inr (r, d') \<Longrightarrow> I d') \<Longrightarrow> I (snd (run_tx t d))"
  by (rule run_tx_inv [of I])

lemma album_step:
  assumes "wf d" "I d" "album_op_ok E x d" "allowed (Al x)"
  shows "I (album_exec E now x d)"
proof (cases x)
  case (ACreate newID token nameCT u)
  show ?thesis unfolding ACreate album_exec.simps
    by (rule run [OF assms(2)]) (metis ACreate create [OF assms(1,2)] assms(3,4) surj_pair)
next
  case (ARevoke a c t)
  show ?thesis unfolding ARevoke album_exec.simps
    by (rule run [OF assms(2)]) (metis revoke [OF assms(1,2)] surj_pair)
next
  case (ADeliver fresh inp)
  show ?thesis unfolding ADeliver album_exec.simps
    by (rule run [OF assms(2)]) (metis ADeliver deliver [OF assms(1,2)] assms(3))
next
  case (AReceived t ep)
  show ?thesis unfolding AReceived album_exec.simps by (rule run [OF assms(2)]) (rule received [OF assms(1,2)])
next
  case (AInsertEpoch inp)
  show ?thesis unfolding AInsertEpoch album_exec.simps
    by (rule run [OF assms(2)]) (metis AInsertEpoch insert_epoch [OF assms(1,2)] assms(3,4))
next
  case (ADelete a c)
  show ?thesis unfolding ADelete album_exec.simps by (rule run [OF assms(2)]) (rule delete_album [OF assms(1,2)])
qed (simp_all add: name [OF assms(1,2)] member_name [OF assms(1,2)] draw_seq [OF assms(1,2)])

lemma media_step:
  assumes "wf d" "I d" "media_op_ok x d" "allowed (Md x)"
  shows "I (media_exec now x d)"
proof (cases x)
  case (MReserve newID newRes m tag)
  then have ok: "media_op_ok (MReserve newID newRes m tag) d" using assms(3) by simp
  show ?thesis unfolding MReserve media_exec.simps
    by (rule run [OF assms(2)]) (rule reserve [OF assms(1,2) ok])
next
  case (MConfirm x a res)
  show ?thesis unfolding MConfirm media_exec.simps by (rule run [OF assms(2)]) (rule confirm [OF assms(1,2)])
next
  case (MAbort x a tk res)
  then show ?thesis unfolding MAbort media_exec.simps
    using QueuePendingCleanup_removeMedia [OF assms(1), of now x a tk res] remove_media [OF assms(1,2)] assms(2)
    by metis
next
  case (MStale cutoff n locked)
  then show ?thesis by (simp add: QueueStalePendingCleanup_snd assms remove_media)
next
  case (MDelete a x tk)
  show ?thesis unfolding MDelete media_exec.simps
  proof (rule run [OF assms(2)])
    fix out d' assume "DeleteOwnedMedia now a x tk d = Inr (out, d')"
    then obtain p where "(out, d') = removeMedia now p d" by (rule DeleteOwnedMedia_Inr)
    then have "d' = snd (removeMedia now p d)" by (metis snd_conv)
    then show "I d'" by (simp add: remove_media [OF assms(1,2)])
  qed
next
  case (MRetry k)
  obtain q where "snd (RescheduleObjectCleanupKey now k d) = d\<lparr>cleanup := q\<rparr>" "map c_key q = map c_key (cleanup d)"
    by (rule RescheduleObjectCleanupKey_snd)
  then show ?thesis by (simp add: MRetry retry [OF assms(1,2)])
next
  case (VReserve v)
  then have ok: "media_op_ok (VReserve v) d" using assms(3) by simp
  show ?thesis unfolding VReserve media_exec.simps
    by (rule run [OF assms(2)]) (rule reserve_avatar [OF assms(1,2) ok])
next
  case (VConfirm a tk x)
  show ?thesis unfolding VConfirm media_exec.simps by (rule run [OF assms(2)]) (rule confirm_avatar [OF assms(1,2)])
qed (use assms acknowledge in \<open>simp_all add: avatar_DropPending_def avatar_Remove_def avatar_QueueStalePending_def Let_def
  remove_avatars [OF assms(1,2)]\<close>)

lemma remove_membership:
  assumes "wf d" "I d"
  shows "I (snd (run_tx (RemoveMembership E now u a) d))"
  using assms(1)
proof (cases rule: RemoveMembership_Inr [where E = E and now = now and u = u and a = a])
  case none
  then show ?thesis using assms by simp
next
  case (erase i out)
  then show ?thesis using erase_gone [OF assms erase(1,4)] by simp
next
  case (leave i out)
  then show ?thesis using leave_gone [OF assms leave(1,4)] by simp
next
  case (album i out)
  then show ?thesis using drop_album [OF assms] by simp
qed

lemma account_step:
  assumes "wf d" "I d"
  shows "I (account_exec E now x d)"
proof (cases "\<exists>u a. x = DRemove u a")
  case True
  then show ?thesis using remove_membership [OF assms] by auto
next
  case False
  then show ?thesis using same [OF assms(2) account_exec_same] by blast
qed

theorem preserved: "wf d \<Longrightarrow> I d \<Longrightarrow> op_ok E x d \<Longrightarrow> allowed x \<Longrightarrow> I (exec E now x d)"
  by (cases x) (simp_all add: album_step media_step account_step)

text \<open>Over a history of allowed operations, from any state that satisfies the constraints.\<close>

theorem preserved_run:
  assumes "wf d" "I d" "\<forall>x\<in>set ops. allowed (snd x)"
  shows "I (fold (step E) ops d)"
proof -
  have "wf (fold (step E) ops d) \<and> I (fold (step E) ops d)" using assms
  proof (induction ops arbitrary: d)
    case (Cons x ops)
    then have "wf (step E x d)" "I (step E x d)" by (auto simp: step_def wf_exec preserved)
    then show ?case using Cons by simp
  qed simp
  then show ?thesis ..
qed

end

end
