(* ===== verification/Frames.thy ===== *)
theory Frames
  imports Invariants
begin

text \<open>
  Which tables a committed transaction leaves alone, one lemma per operation.
\<close>

lemma joined_state_fields:
  assumes "joined_state a t d d1"
  shows "albums d1 = albums d" "epochs d1 = epochs d" "medias d1 = medias d" "avatars d1 = avatars d"
    "cleanup d1 = cleanup d" "activity_seq d1 = activity_seq d" "wraps d1 = wraps d"
  using assms by (auto simp: joined_state_def reactivate_member_def)

lemma DeliverMember_fields:
  assumes "DeliverMember E now fresh inp d = Inr (t, d')"
  shows "albums d' = albums d" "epochs d' = epochs d" "medias d' = medias d" "avatars d' = avatars d"
    "cleanup d' = cleanup d" "activity_seq d' = activity_seq d"
  using assms
  by (rule DeliverMember_Inr; elim deliver_wraps_Inr; simp add: joined_state_fields)+


lemma CreateWithAdmin_fields:
  assumes "CreateWithAdmin E now newID token nameCT u d = Inr ((al, t), d')"
  shows "epochs d' = epochs d" "wraps d' = wraps d" "medias d' = medias d" "avatars d' = avatars d"
    "cleanup d' = cleanup d"
  using assms by (rule CreateWithAdmin_Inr; simp)+

lemma MarkReceived_Inr:
  assumes "MarkReceived now t ep d = Inr (u, d')"
  obtains f where "d' = d\<lparr>amids := sql_update (\<lambda>i. i_token i = t) f (amids d)\<rparr>"
    "\<And>i. i_token (f i) = i_token i" "\<And>i. user_handle (f i) = user_handle i" "\<And>i. i_album (f i) = i_album i"
  using assms by (intro that [of "\<lambda>i. i\<lparr>last_received_epoch := Some (max (case last_received_epoch i of None \<Rightarrow> -1 | Some e \<Rightarrow> e) ep),
              last_received_at := Some now\<rparr>"]) (auto simp: MarkReceived_def split: if_splits)

lemma MarkReceived_fields:
  assumes "MarkReceived now t ep d = Inr (u, d')"
  shows "albums d' = albums d" "members d' = members d" "epochs d' = epochs d" "wraps d' = wraps d"
    "medias d' = medias d" "avatars d' = avatars d" "cleanup d' = cleanup d" "activity_seq d' = activity_seq d"
  using assms by (rule MarkReceived_Inr; simp)+

lemma RevokeMemberTx_fields:
  assumes "RevokeMemberTx now a c t d = Inr ((r, already), d')"
  shows "epochs d' = epochs d" "wraps d' = wraps d" "amids d' = amids d" "medias d' = medias d"
    "activity_seq d' = activity_seq d"
  using assms
  by (rule RevokeMemberTx_Inr; simp add: removeAvatars_eq db_fields require_rotation_def revoke_row_def)+

lemma ReserveUploadRow_fields:
  assumes "ReserveUploadRow now newID newRes m tag d = Inr (row, d')"
  shows "albums d' = albums d" "members d' = members d" "epochs d' = epochs d" "wraps d' = wraps d"
    "amids d' = amids d" "avatars d' = avatars d" "activity_seq d' = activity_seq d"
  using assms by (rule ReserveUploadRow_Inr; simp add: db_fields)+

lemma MarkConfirmed_fields:
  assumes "MarkConfirmed x a res d = Inr (g, d')" "wf d"
  shows "amids d' = amids d" "members d' = members d" "epochs d' = epochs d" "wraps d' = wraps d"
    "avatars d' = avatars d" "cleanup d' = cleanup d"
  using assms(1) by (rule MarkConfirmed_Inr [OF _ wfD(4) [OF assms(2)]]; simp)+

lemma avatar_Reserve_fields:
  assumes "avatar_Reserve now v d = Inr (row, d')"
  shows "albums d' = albums d" "members d' = members d" "epochs d' = epochs d" "wraps d' = wraps d"
    "amids d' = amids d" "medias d' = medias d" "activity_seq d' = activity_seq d"
  using assms by (rule avatar_Reserve_Inr; simp add: db_fields)+

lemma avatar_Confirm_fields:
  assumes "avatar_Confirm now a t x d = Inr (ks, d')"
  shows "albums d' = albums d" "members d' = members d" "epochs d' = epochs d" "wraps d' = wraps d"
    "amids d' = amids d" "medias d' = medias d" "activity_seq d' = activity_seq d"
  using assms by (rule avatar_Confirm_Inr; simp add: db_fields)+

lemma remove_fields [db_fields]:
  "albums (snd (removeMedia now p d)) = albums d" "members (snd (removeMedia now p d)) = members d"
  "epochs (snd (removeMedia now p d)) = epochs d" "wraps (snd (removeMedia now p d)) = wraps d"
  "amids (snd (removeMedia now p d)) = amids d" "avatars (snd (removeMedia now p d)) = avatars d"
  "activity_seq (snd (removeMedia now p d)) = activity_seq d"
  "albums (snd (removeAvatars now q d)) = albums d" "members (snd (removeAvatars now q d)) = members d"
  "epochs (snd (removeAvatars now q d)) = epochs d" "wraps (snd (removeAvatars now q d)) = wraps d"
  "amids (snd (removeAvatars now q d)) = amids d" "medias (snd (removeAvatars now q d)) = medias d"
  "activity_seq (snd (removeAvatars now q d)) = activity_seq d"
  by (simp_all add: removeMedia_eq removeAvatars_eq db_fields)

lemma name_fields [db_fields]:
  "epochs (UpdateName now a n d) = epochs d" "members (UpdateName now a n d) = members d"
  "wraps (UpdateName now a n d) = wraps d" "amids (UpdateName now a n d) = amids d"
  "medias (UpdateName now a n d) = medias d" "avatars (UpdateName now a n d) = avatars d"
  "cleanup (UpdateName now a n d) = cleanup d" "activity_seq (UpdateName now a n d) = activity_seq d"
  "albums (UpdateMemberNameCT a t n d) = albums d" "epochs (UpdateMemberNameCT a t n d) = epochs d"
  "wraps (UpdateMemberNameCT a t n d) = wraps d" "amids (UpdateMemberNameCT a t n d) = amids d"
  "medias (UpdateMemberNameCT a t n d) = medias d" "avatars (UpdateMemberNameCT a t n d) = avatars d"
  "cleanup (UpdateMemberNameCT a t n d) = cleanup d" "activity_seq (UpdateMemberNameCT a t n d) = activity_seq d"
  by (simp_all add: UpdateName_def UpdateMemberNameCT_def)

lemma drop_identity_fields [db_fields]:
  "albums (drop_identity t d) = albums d" "epochs (drop_identity t d) = epochs d"
  "cleanup (drop_identity t d) = cleanup d" "activity_seq (drop_identity t d) = activity_seq d"
  "amids (drop_identity t d) = sql_delete (\<lambda>i. i_token i = t) (amids d)"
  "members (drop_identity t d) = sql_delete (\<lambda>m. m_token m = t) (members d)"
  "wraps (drop_identity t d) = sql_delete (\<lambda>w. recipient_token w = t) (wraps d)"
  "medias (drop_identity t d) = sql_delete (\<lambda>r. uploader_token r = t) (medias d)"
  "avatars (drop_identity t d) = sql_delete (\<lambda>v. av_token v = t) (avatars d)"
  by (simp_all add: drop_identity_def)

lemma drop_album_fields [db_fields]:
  "albums (drop_album a d) = sql_delete (\<lambda>r. a_id r = a) (albums d)"
  "amids (drop_album a d) = sql_delete (\<lambda>i. i_album i = a) (amids d)"
  "members (drop_album a d) = sql_delete (\<lambda>m. m_album m = a) (members d)"
  "epochs (drop_album a d) = sql_delete (\<lambda>e. e_album e = a) (epochs d)"
  "medias (drop_album a d) = sql_delete (\<lambda>r. md_album r = a) (medias d)"
  "avatars (drop_album a d) = sql_delete (\<lambda>v. av_album v = a) (avatars d)"
  "cleanup (drop_album a d) = cleanup d" "activity_seq (drop_album a d) = activity_seq d"
  by (simp_all add: drop_album_def)

lemma require_rotation_fields [db_fields]:
  "amids (require_rotation a d) = amids d" "members (require_rotation a d) = members d"
  "epochs (require_rotation a d) = epochs d" "wraps (require_rotation a d) = wraps d"
  "medias (require_rotation a d) = medias d" "avatars (require_rotation a d) = avatars d"
  "cleanup (require_rotation a d) = cleanup d" "activity_seq (require_rotation a d) = activity_seq d"
  by (simp_all add: require_rotation_def)

lemma DeleteObjectCleanupKey_fields [db_fields]:
  "albums (DeleteObjectCleanupKey k d) = albums d" "members (DeleteObjectCleanupKey k d) = members d"
  "epochs (DeleteObjectCleanupKey k d) = epochs d" "wraps (DeleteObjectCleanupKey k d) = wraps d"
  "amids (DeleteObjectCleanupKey k d) = amids d" "medias (DeleteObjectCleanupKey k d) = medias d"
  "avatars (DeleteObjectCleanupKey k d) = avatars d" "activity_seq (DeleteObjectCleanupKey k d) = activity_seq d"
  by (simp_all add: DeleteObjectCleanupKey_def)

lemma same_albums_fields:
  assumes "same_albums d d'"
  shows "albums d' = albums d" "amids d' = amids d" "members d' = members d" "epochs d' = epochs d"
    "wraps d' = wraps d" "medias d' = medias d" "avatars d' = avatars d" "cleanup d' = cleanup d"
    "activity_seq d' = activity_seq d"
  using assms by (simp_all add: same_albums_def)

end
