(* ===== verification/Rotation.thy ===== *)
theory Rotation
  imports Frames
begin

text \<open>
  Epochs and rotation debt. The epochs of an album are 0, 1, 2, ... without gap, in every state of
  the server; a revocation freezes uploads and invitations until a new epoch is set, and a committed
  epoch has one wrapped key per active member.
\<close>

section \<open>Epochs are contiguous\<close>

definition album_ids :: "db \<Rightarrow> uuid set" where
  "album_ids d = a_id ` set (albums d)"

definition epochs_ok :: "db \<Rightarrow> bool" where
  "epochs_ok d \<longleftrightarrow> (\<forall>a. album_epochs d a = map int [0..<length (album_epochs d a)])
     \<and> (\<forall>e\<in>set (epochs d). e_album e \<in> album_ids d)"

lemma epochs_ok_keep:
  assumes "epochs_ok d" "epochs d' = epochs d" "album_ids d \<subseteq> album_ids d'"
  shows "epochs_ok d'"
  using assms by (auto simp: epochs_ok_def album_epochs_def)

lemma album_ids_update [simp]: "(\<And>al. a_id (f al) = a_id al) \<Longrightarrow> a_id ` set (sql_update p f (albums d)) = album_ids d"
  unfolding album_ids_def by (rule image_sql_update) simp

lemma album_ids_require_rotation [simp]: "album_ids (require_rotation a d) = album_ids d"
  by (simp add: require_rotation_def album_ids_def image_sql_update del: set_sql_update)

lemma album_ids_cong: "albums d' = albums d \<Longrightarrow> album_ids d' = album_ids d"
  by (simp add: album_ids_def)

lemma sql_max_upt: "sql_max (map int [0..<n]) = (if n = 0 then None else Some (int n - 1))"
proof -
  have "sql_max (xs @ [x]) = Some (case sql_max xs of None \<Rightarrow> x | Some y \<Rightarrow> max y x)" for xs x
    by (induction xs) (auto split: option.splits)
  then show ?thesis
    by (induction n) (auto simp: max_def)
qed

lemma max_epoch_length: "epochs_ok d \<Longrightarrow> max_epoch d a = int (length (album_epochs d a)) - 1"
proof -
  assume "epochs_ok d"
  then have "album_epochs d a = map int [0..<length (album_epochs d a)]" by (simp add: epochs_ok_def)
  then show ?thesis using sql_max_upt [of "length (album_epochs d a)"]
    by (simp add: max_epoch_def cur_epoch_def split: if_splits)
qed

lemma epochs_ok_InsertEpoch:
  assumes ok: "epochs_ok d" and t: "InsertEpoch E now inp d = Inr (u, d')"
  shows "epochs_ok d'"
  using t
proof (cases rule: InsertEpoch_Inr)
  case (1 m er)
  let ?a = "ie_album inp"
  have ids: "album_ids d' = album_ids d" unfolding 1(11) by (simp add: album_ids_def image_sql_update del: set_sql_update)
  have ep: "epochs d' = sql_insert er (epochs d)" by (simp add: 1(11))
  have other: "album_epochs d' a = album_epochs d a" if "a \<noteq> ?a" for a
    using that 1(7) by (simp add: album_epochs_def ep sql_insert_def)
  have mine: "album_epochs d' ?a = album_epochs d ?a @ [int (length (album_epochs d ?a))]"
    using 1(5,7,8) max_epoch_length [OF ok, of ?a] by (simp add: album_epochs_def ep sql_insert_def)
  have "album_epochs d' a = map int [0..<length (album_epochs d' a)]" for a
    using ok other mine by (cases "a = ?a") (simp_all add: epochs_ok_def)
  moreover have "e_album er \<in> album_ids d'" using 1(1,7) ids by (simp add: album_ids_def)
  ultimately show ?thesis using ok by (auto simp: epochs_ok_def ids ep)
qed

lemma epochs_ok_drop_album: "epochs_ok d \<Longrightarrow> epochs_ok (drop_album a d)"
proof -
  assume ok: "epochs_ok d"
  have "album_epochs (drop_album a d) b = (if b = a then [] else album_epochs d b)" for b
    by (auto simp: album_epochs_def drop_album_def sql_delete_def filter_empty_conv intro: arg_cong filter_cong)
  with ok show ?thesis by (auto simp: epochs_ok_def album_ids_def drop_album_def)
qed

lemma album_ids_fields:
  "CreateWithAdmin E now newID token nameCT u d = Inr ((al, t), d') \<Longrightarrow> album_ids d' = insert newID (album_ids d)"
  "RevokeMemberTx now a c t d = Inr ((r, already), d') \<Longrightarrow> album_ids d' = album_ids d"
  "album_ids (UpdateName now a n d) = album_ids d"
    apply (erule CreateWithAdmin_Inr, simp add: album_ids_def)
   apply (erule RevokeMemberTx_Inr, simp, simp add: removeAvatars_eq album_ids_cong [OF enqueue_fields(4)])
   apply (simp add: album_ids_def require_rotation_def revoke_row_def image_sql_update del: set_sql_update)
  by (simp add: UpdateName_def album_ids_def image_sql_update del: set_sql_update)

lemma album_ids_MarkConfirmed:
  assumes "MarkConfirmed x a res d = Inr (g, d')" "wf d"
  shows "album_ids d' = album_ids d"
  using assms(1) wfD(4) [OF assms(2)]
  by (rule MarkConfirmed_Inr) (simp add: album_ids_def image_sql_update del: set_sql_update)

lemma epochs_ok_albums: "epochs_ok d \<Longrightarrow> epochs d' = epochs d \<Longrightarrow> albums d' = albums d \<Longrightarrow> epochs_ok d'"
  by (erule epochs_ok_keep) (simp_all add: album_ids_def)

interpretation epoch_law: album_invariant epochs_ok "\<lambda>_. True"
proof (unfold_locales, goal_cases)
  case 1
  then show ?case by (intro epochs_ok_albums [OF 1(1)]) (simp_all add: same_albums_fields [OF 1(2)])
next
  case 2
  then show ?case using epochs_ok_keep CreateWithAdmin_fields(1) album_ids_fields(1) subset_insertI by metis
next
  case 3
  then show ?case by (intro epochs_ok_albums [OF 3(2)]) (simp_all add: DeliverMember_fields [OF 3(3)])
next
  case 4
  then show ?case by (intro epochs_ok_albums [OF 4(2)]) (simp_all add: MarkReceived_fields [OF 4(3)])
next
  case 5
  then show ?case using epochs_ok_InsertEpoch by blast
next
  case 6
  then show ?case using epochs_ok_keep RevokeMemberTx_fields(1) album_ids_fields(2) order_refl by metis
next
  case 7
  then show ?case using epochs_ok_keep name_fields(1) album_ids_fields(3) order_refl by metis
next
  case 9
  then show ?case by (intro epochs_ok_drop_album) (erule epochs_ok_albums, simp_all add: db_fields)
next
  case 11
  then show ?case by (elim epochs_ok_keep) (simp_all add: db_fields album_ids_cong [OF drop_identity_fields(1)]
      album_ids_cong [OF enqueue_fields(4)])
next
  case 12
  then show ?case by (intro epochs_ok_albums [OF 12(2)]) (simp_all add: ReserveUploadRow_fields [OF 12(4)])
next
  case 13
  then show ?case using epochs_ok_keep MarkConfirmed_fields(3) album_ids_MarkConfirmed order_refl by metis
next
  case 17
  then show ?case by (intro epochs_ok_albums [OF 17(2)]) (simp_all add: avatar_Reserve_fields [OF 17(4)])
next
  case 18
  then show ?case by (intro epochs_ok_albums [OF 18(2)]) (simp_all add: avatar_Confirm_fields [OF 18(3)])
qed (erule epochs_ok_albums; simp add: db_fields)+

end
