(* ===== verification/Roster.thy ===== *)
theory Roster
  imports Rotation
begin

text \<open>
  Who is in an album: every album has exactly one active admin in every state of the server, at most
  ten active members, and nobody is ever a co-admin.
\<close>

definition roster_ok :: "db \<Rightarrow> bool" where
  "roster_ok d \<longleftrightarrow> (\<forall>a\<in>album_ids d. active_admins d a = 1)
     \<and> (\<forall>a. active_count d a \<le> MaxAlbumMembers) \<and> (\<forall>m\<in>set (members d). role m \<noteq> CoAdmin)"

definition admin_row :: "uuid \<Rightarrow> member \<Rightarrow> bool" where
  "admin_row a m \<longleftrightarrow> m_album m = a \<and> role m = Admin \<and> revoked_at m = None"

lemma active_admins_count: "active_admins d a = sql_count (admin_row a) (members d)"
  by (simp add: active_admins_def admin_row_def [abs_def])

lemma roster_ok_keep:
  "roster_ok d \<Longrightarrow> members d' = members d \<Longrightarrow> album_ids d' \<subseteq> album_ids d \<Longrightarrow> roster_ok d'"
  by (auto simp: roster_ok_def active_admins_def active_count_def)

lemma roster_ok_albums: "roster_ok d \<Longrightarrow> members d' = members d \<Longrightarrow> albums d' = albums d \<Longrightarrow> roster_ok d'"
  by (erule roster_ok_keep) (simp_all add: album_ids_def)

text \<open>A change of member rows that touches no active admin and activates nobody.\<close>

lemma roster_ok_update:
  assumes ok: "roster_ok d" and m: "members d' = sql_update p f (members d)" "album_ids d' \<subseteq> album_ids d"
    and adm: "\<And>a m. m \<in> set (members d) \<Longrightarrow> p m \<Longrightarrow> admin_row a (f m) = admin_row a m"
    and act: "\<And>a m. m \<in> set (members d) \<Longrightarrow> p m \<Longrightarrow> is_active a (f m) \<Longrightarrow> is_active a m"
    and rl: "\<And>m. m \<in> set (members d) \<Longrightarrow> p m \<Longrightarrow> role (f m) \<noteq> CoAdmin"
  shows "roster_ok d'"
proof -
  have "active_admins d' a = active_admins d a" for a
    unfolding active_admins_count m(1) sql_count_update by (rule sql_count_cong) (use adm in simp)
  moreover have "active_count d' a \<le> active_count d a" for a
    unfolding active_count_def m(1) sql_count_update
    by (rule sql_count_mono) (use act in \<open>auto split: if_splits\<close>)
  moreover have "\<forall>m\<in>set (members d'). role m \<noteq> CoAdmin"
    using ok rl unfolding m(1) roster_ok_def by auto
  ultimately show ?thesis using ok m(2) unfolding roster_ok_def by (metis order_trans subsetD)
qed

lemma roster_ok_insert:
  assumes ok: "roster_ok d" and m: "members d' = sql_insert m (members d)"
    and cap: "active_count d (m_album m) < MaxAlbumMembers" and rl: "role m \<noteq> CoAdmin"
    and adm: "\<And>a. a \<in> album_ids d' \<Longrightarrow> active_admins d a + (if admin_row a m then 1 else 0) = 1"
  shows "roster_ok d'"
proof -
  have "active_admins d' a = 1" if "a \<in> album_ids d'" for a
    using adm [OF that] unfolding active_admins_count m(1) by simp
  moreover have "active_count d' a \<le> MaxAlbumMembers" for a
    using ok cap unfolding roster_ok_def active_count_def m(1) by (auto simp: is_active_def)
  ultimately show ?thesis using ok rl by (auto simp: roster_ok_def m(1))
qed

lemma no_members_of_new_album:
  assumes "wf d" "a \<notin> a_id ` set (albums d)" "m \<in> set (members d)"
  shows "m_album m \<noteq> a"
proof
  assume "m_album m = a"
  with wf_member_pair [OF assms(1,3)] have "a \<in> i_album ` set (amids d)" by (auto simp: amid_pairs_def)
  then show False using wfD(2) [OF assms(1)] assms(2) by (auto simp: wf_amids_def)
qed

lemma roster_ok_create:
  assumes wf: "wf d" and ok: "roster_ok d" and t: "CreateWithAdmin E now newID token nameCT u d = Inr ((al, tk), d')"
  shows "roster_ok d'"
  using t
proof (cases rule: CreateWithAdmin_Inr)
  case (1 usr i m)
  note none = no_members_of_new_album [OF wf 1(5)]
  have z: "active_admins d newID = 0" "active_count d newID = 0"
    unfolding active_admins_count active_count_def sql_count_zero
    by (auto simp: admin_row_def is_active_def dest: none)
  show ?thesis
  proof (rule roster_ok_insert [OF ok, where m = m])
    show "members d' = sql_insert m (members d)" by (simp add: 1(20))
    show "active_count d (m_album m) < MaxAlbumMembers" using z 1(15) by (simp add: MaxAlbumMembers_def)
    show "role m \<noteq> CoAdmin" using 1(17) by simp
    fix a assume "a \<in> album_ids d'"
    then have "a = newID \<or> a \<in> album_ids d" using 1(4) by (auto simp: 1(20) album_ids_def)
    moreover have "newID \<notin> album_ids d" using 1(5) by (simp add: album_ids_def)
    ultimately show "active_admins d a + (if admin_row a m then 1 else 0) = 1"
      using z(1) 1(15,17,18) ok by (auto simp: admin_row_def roster_ok_def)
  qed
qed

lemma count_key_le1:
  assumes "distinct (map k t)"
  shows "sql_count (\<lambda>r. k r = x) t \<le> 1"
  using assms
proof (induction t)
  case (Cons a t)
  show ?case
  proof (cases "k a = x")
    case True
    then have "sql_count (\<lambda>r. k r = x) t = 0" using Cons.prems by (auto simp: sql_count_zero image_iff)
    then show ?thesis using True by (simp add: sql_count_def)
  next
    case False
    then show ?thesis using Cons by (simp add: sql_count_def)
  qed
qed simp

lemma sql_count_update_le: "sql_count q (sql_update p f t) \<le> sql_count q t + sql_count p t"
  by (induction t) (auto simp: sql_count_def sql_update_def)

lemma roster_ok_joined:
  assumes wf: "wf d" and ok: "roster_ok d" and j: "joined_state a t d d1"
    and cap: "active_count d a < MaxAlbumMembers"
  shows "roster_ok d1"
  using j unfolding joined_state_def
proof (elim disjE exE conjE)
  fix m assume m: "find_member d a t = Some m" "revoked_at m \<noteq> None" and d1: "d1 = reactivate_member a t d"
  let ?p = "\<lambda>m. m_album m = a \<and> m_token m = t"
  let ?f = "\<lambda>m. m\<lparr>revoked_at := None, role := Member, m_name_ct := None\<rparr>"
  note mm = find_member_Some [OF m(1)]
  have ms: "members d1 = sql_update ?p ?f (members d)" by (simp add: d1 reactivate_member_def)
  have ids: "album_ids d1 = album_ids d" by (simp add: d1 reactivate_member_def album_ids_def)
  have row: "x = m" if "x \<in> set (members d)" "?p x" for x
    using member_unique [OF wfD(3) [OF wf] that(1)] mm that(2) by auto
  have "active_admins d1 b = active_admins d b" for b
    unfolding active_admins_count ms sql_count_update
    by (rule sql_count_cong) (use row m(2) in \<open>auto simp: admin_row_def\<close>)
  moreover have "active_count d1 b \<le> MaxAlbumMembers" for b
  proof (cases "b = a")
    case True
    have "sql_count ?p (members d) = sql_count (\<lambda>m. (m_album m, m_token m) = (a, t)) (members d)"
      by simp
    also have "\<dots> \<le> 1" using wfD(3) [OF wf] by (intro count_key_le1) (simp add: wf_members_def)
    finally have "active_count d1 a \<le> active_count d a + 1"
      unfolding active_count_def ms using sql_count_update_le [of "is_active a" ?p ?f "members d"] by linarith
    with cap True show ?thesis by simp
  next
    case False
    have "active_count d1 b \<le> active_count d b"
      unfolding active_count_def ms sql_count_update
      by (rule sql_count_mono) (use False in \<open>auto simp: is_active_def split: if_splits\<close>)
    then show ?thesis using ok unfolding roster_ok_def by (meson order_trans)
  qed
  moreover have "\<forall>m\<in>set (members d1). role m \<noteq> CoAdmin" using ok by (auto simp: ms roster_ok_def)
  ultimately show ?thesis using ok by (simp add: roster_ok_def ids)
next
  fix i
  let ?m = "\<lparr>m_album = a, m_token = t, role = Member, revoked_at = None, m_name_ct = None\<rparr>"
  assume d1: "d1 = d\<lparr>amids := sql_insert i (amids d), members := sql_insert ?m (members d)\<rparr>"
  show ?thesis
    by (rule roster_ok_insert [OF ok, where m = ?m])
      (use ok cap in \<open>auto simp: d1 admin_row_def roster_ok_def album_ids_def\<close>)
qed

lemma roster_ok_deliver:
  assumes wf: "wf d" and ok: "roster_ok d" and t: "DeliverMember E now fresh inp d = Inr (t, d')"
  shows "roster_ok d'"
  using t
proof (cases rule: DeliverMember_Inr)
  case (1 d1)
  have "roster_ok d1" using roster_ok_joined [OF wf ok 1(4,3)] .
  moreover obtain us os where "d' = d1\<lparr>wraps := us, opks := os\<rparr>" using 1(5) by (rule deliver_wraps_Inr)
  ultimately show ?thesis by (elim roster_ok_albums) simp_all
qed

text \<open>The only admin cannot be revoked, so a revocation takes a plain member.\<close>

lemma roster_ok_revoke:
  assumes wf: "wf d" and ok: "roster_ok d" and t: "RevokeMemberTx now a c tk d = Inr ((r, already), d')"
  shows "roster_ok d'"
  using t
proof (cases rule: RevokeMemberTx_Inr)
  case already
  then show ?thesis using ok by simp
next
  case (revoked cm m)
  have "active_admins d a = 1" using ok revoked(7) unfolding roster_ok_def album_ids_def by blast
  with revoked(8) have nadm: "role m \<noteq> Admin" by auto
  note mm = find_member_Some [OF revoked(2)]
  have row: "x = m" if "x \<in> set (members d)" "m_album x = a" "m_token x = tk" for x
    using member_unique [OF wfD(3) [OF wf] that(1)] mm that(2,3) by auto
  show ?thesis
  proof (rule roster_ok_update [OF ok])
    show "members d' = sql_update (\<lambda>m. m_album m = a \<and> m_token m = tk \<and> revoked_at m = None)
        (\<lambda>m. m\<lparr>revoked_at := Some now\<rparr>) (members d)"
      by (simp add: revoked(9) db_fields) (simp add: revoke_row_def)
    show "album_ids d' \<subseteq> album_ids d" using album_ids_fields(2) [OF t] by simp
  qed (use row nadm ok in \<open>auto simp: admin_row_def is_active_def roster_ok_def\<close>)
qed

text \<open>A membership goes for good only when it is not an active admin of an album that stays.\<close>

lemma roster_ok_drop_identity:
  assumes wf: "wf d" and ok: "roster_ok d" and i: "i \<in> set (amids d)"
    and oc: "Outcome (membership_row d i) = OutcomeErase \<or> Outcome (membership_row d i) = OutcomeLeave"
    and d0: "members d0 = members d" "album_ids d0 = album_ids d"
  shows "roster_ok (drop_identity (i_token i) d0)"
proof -
  let ?t = "i_token i"
  have nadm: "\<not> admin_row a m" if "m \<in> set (members d)" "m_token m = ?t" for a m
  proof
    assume am: "admin_row a m"
    have pair: "(?t, i_album i) \<in> amid_pairs d" using i by (auto simp: amid_pairs_def)
    have "m_album m = i_album i" using wf_pair_unique [OF wf] wf_member_pair [OF wf that(1)] pair that(2) by metis
    then have "find_member d (i_album i) ?t = Some m"
      using find_member_key [OF wfD(3) [OF wf] that(1)] that(2) by simp
    then have "ms_active (membership_row d i)" "ms_role (membership_row d i) = Admin"
      using am by (simp_all add: membership_row_def admin_row_def)
    then show False using oc by (auto simp: Outcome_def split: if_splits)
  qed
  have ms: "members (drop_identity ?t d0) = sql_delete (\<lambda>m. m_token m = ?t) (members d)"
    by (simp add: db_fields d0)
  have ids: "album_ids (drop_identity ?t d0) = album_ids d" by (simp add: album_ids_cong [OF drop_identity_fields(1)] d0)
  have "active_admins (drop_identity ?t d0) a = active_admins d a" for a
    unfolding active_admins_count ms sql_count_delete by (rule sql_count_cong) (use nadm in blast)
  moreover have "active_count (drop_identity ?t d0) a \<le> active_count d a" for a
    unfolding active_count_def ms sql_count_delete by (rule sql_count_mono) simp
  ultimately show ?thesis using ok unfolding roster_ok_def ids by (simp add: ms) (meson order_trans)
qed

lemma roster_ok_drop_album:
  assumes "roster_ok d" "members d0 = members d" "albums d0 = albums d"
  shows "roster_ok (drop_album a d0)"
proof -
  have ms: "members (drop_album a d0) = sql_delete (\<lambda>m. m_album m = a) (members d)" by (simp add: db_fields assms)
  have ids: "album_ids (drop_album a d0) = album_ids d - {a}" by (auto simp: album_ids_def db_fields assms)
  have "active_admins (drop_album a d0) b = active_admins d b" if "b \<noteq> a" for b
    unfolding active_admins_count ms sql_count_delete
    by (rule sql_count_cong) (use that in \<open>auto simp: admin_row_def\<close>)
  moreover have "active_count (drop_album a d0) b \<le> active_count d b" for b
    unfolding active_count_def ms sql_count_delete by (rule sql_count_mono) simp
  ultimately show ?thesis using assms(1) unfolding roster_ok_def ids by (simp add: ms) (meson order_trans)
qed

lemma album_ids_queue: "album_ids (enqueueObjectCleanup now ks d) = album_ids d"
  by (simp add: album_ids_def db_fields)

interpretation roster_law: album_invariant roster_ok "\<lambda>_. True"
proof (unfold_locales, goal_cases)
  case 1
  then show ?case by (intro roster_ok_albums [OF 1(1)]) (simp_all add: same_albums_fields [OF 1(2)])
next
  case 2
  then show ?case using roster_ok_create by blast
next
  case 3
  then show ?case using roster_ok_deliver by blast
next
  case 4
  then show ?case by (intro roster_ok_albums [OF 4(2)]) (simp_all add: MarkReceived_fields [OF 4(3)])
next
  case 5
  show ?case using 5(3)
    by (rule InsertEpoch_Inr) (rule roster_ok_keep [OF 5(2)],
      simp_all add: album_ids_def image_sql_update del: set_sql_update)
next
  case 6
  then show ?case using roster_ok_revoke by blast
next
  case 7
  then show ?case by (intro roster_ok_keep [OF 7(2)]) (simp_all add: db_fields album_ids_fields)
next
  case (8 d a t n)
  then show ?case
    by (intro roster_ok_update [OF 8(2), where p = "\<lambda>m. m_album m = a \<and> m_token m = t" and f = "\<lambda>m. m\<lparr>m_name_ct := Some n\<rparr>"])
      (auto simp: UpdateMemberNameCT_def album_ids_def admin_row_def is_active_def roster_ok_def)
next
  case 9
  then show ?case by (intro roster_ok_drop_album) (simp_all add: db_fields)
next
  case 10
  then show ?case by (intro roster_ok_drop_identity) (simp_all add: db_fields album_ids_queue)
next
  case 11
  then show ?case by (intro roster_ok_drop_identity) (simp_all add: db_fields album_ids_queue)
next
  case 12
  then show ?case by (intro roster_ok_albums [OF 12(2)]) (simp_all add: ReserveUploadRow_fields [OF 12(4)])
next
  case 13
  then show ?case
    by (intro roster_ok_keep [OF 13(2)]) (simp_all add: MarkConfirmed_fields [OF 13(3,1)] album_ids_MarkConfirmed [OF 13(3,1)])
next
  case 17
  then show ?case by (intro roster_ok_albums [OF 17(2)]) (simp_all add: avatar_Reserve_fields [OF 17(4)])
next
  case 18
  then show ?case by (intro roster_ok_albums [OF 18(2)]) (simp_all add: avatar_Confirm_fields [OF 18(3)])
qed (erule roster_ok_albums; simp add: db_fields)+

end
