(* ===== verification/Feed.thy ===== *)
theory Feed
  imports Roster
begin

text \<open>
  The order of an album's media and of a user's shelf. A medium gets its album sequence when it is
  confirmed; in every state the sequences of an album are distinct, positive and at most the album's
  generation, so a client that has seen a generation knows which media are new. The activity
  numbers of the albums are distinct, so the shelf has one order.
\<close>

definition seq_media_ok :: "db \<Rightarrow> bool" where
  "seq_media_ok d \<longleftrightarrow> (\<forall>r\<in>set (medias d). confirmed r \<longleftrightarrow> album_seq r \<noteq> None)
     \<and> (\<forall>r\<in>set (medias d). \<forall>s. album_seq r = Some s \<longrightarrow> 1 \<le> s \<and>
          (\<forall>al\<in>set (albums d). a_id al = md_album r \<longrightarrow> s \<le> media_generation al))
     \<and> distinct (map (\<lambda>r. (md_album r, album_seq r)) (filter confirmed (medias d)))"

definition seq_albums_ok :: "db \<Rightarrow> bool" where
  "seq_albums_ok d \<longleftrightarrow> (\<forall>al\<in>set (albums d). 0 \<le> media_generation al \<and> last_activity_seq al \<le> activity_seq d)
     \<and> distinct (map last_activity_seq (albums d))"

definition seq_ok :: "db \<Rightarrow> bool" where
  "seq_ok d \<longleftrightarrow> seq_media_ok d \<and> seq_albums_ok d"

lemmas seq_defs = seq_ok_def seq_media_ok_def seq_albums_ok_def

definition album_order :: "album \<Rightarrow> uuid \<times> int \<times> int" where
  "album_order al = (a_id al, media_generation al, last_activity_seq al)"

lemma seq_ok_keep:
  assumes ok: "seq_ok d" and m: "medias d' = sql_delete p (medias d)" and s: "activity_seq d' = activity_seq d"
    and al: "map album_order (albums d') = map album_order (albums d)"
  shows "seq_ok d'"
proof -
  have "map last_activity_seq (albums d') = map (snd \<circ> snd) (map album_order (albums d'))"
    by (simp add: album_order_def)
  then have last: "map last_activity_seq (albums d') = map last_activity_seq (albums d)"
    unfolding al by (simp add: album_order_def)
  have mem: "\<exists>y\<in>set (albums d). album_order y = album_order x" if "x \<in> set (albums d')" for x
  proof -
    have "album_order x \<in> album_order ` set (albums d)" using that set_map_key [OF al] by auto
    then show ?thesis by force
  qed
  have "seq_media_ok d'"
    unfolding seq_media_ok_def m filter_sql_delete
  proof (intro conjI ballI allI impI)
    fix r sq assume r: "r \<in> set (sql_delete p (medias d))" "album_seq r = Some sq"
    then show "1 \<le> sq" using ok by (auto simp: seq_defs)
    fix x assume x: "x \<in> set (albums d')" "a_id x = md_album r"
    obtain y where "y \<in> set (albums d)" "album_order y = album_order x" using mem [OF x(1)] by blast
    then have "media_generation x = media_generation y" "a_id y = md_album r" "y \<in> set (albums d)"
      using x(2) by (simp_all add: album_order_def)
    then show "sq \<le> media_generation x" using r ok by (auto simp: seq_defs)
  qed (use ok in \<open>auto simp: seq_defs intro: distinct_map_delete\<close>)
  moreover have "seq_albums_ok d'" unfolding seq_albums_ok_def last s
  proof (intro conjI ballI)
    fix x assume "x \<in> set (albums d')"
    from mem [OF this] obtain y where "y \<in> set (albums d)" "album_order y = album_order x" by blast
    then show "0 \<le> media_generation x" "last_activity_seq x \<le> activity_seq d"
      using ok by (auto simp: seq_defs album_order_def)
  qed (use ok in \<open>simp add: seq_defs\<close>)
  ultimately show ?thesis by (simp add: seq_ok_def)
qed

lemma sql_delete_none: "sql_delete (\<lambda>r. False) t = t"
  by (simp add: sql_delete_def)

lemma seq_ok_same:
  assumes "seq_ok d" "medias d' = medias d" "albums d' = albums d" "activity_seq d' = activity_seq d"
  shows "seq_ok d'"
  by (rule seq_ok_keep [OF assms(1), where p = "\<lambda>r. False"]) (simp_all add: assms sql_delete_none)

lemma seq_ok_same_order:
  assumes "seq_ok d" "medias d' = medias d" "activity_seq d' = activity_seq d"
    "map album_order (albums d') = map album_order (albums d)"
  shows "seq_ok d'"
  by (rule seq_ok_keep [OF assms(1), where p = "\<lambda>r. False"]) (simp_all add: assms sql_delete_none)

lemma seq_ok_drop_album:
  assumes ok: "seq_ok d"
  shows "seq_ok (drop_album a d)"
  using ok by (auto simp: seq_defs db_fields filter_sql_delete intro: distinct_map_delete)

lemma no_media_of_new_album:
  assumes "wf d" "a \<notin> a_id ` set (albums d)" "r \<in> set (medias d)"
  shows "md_album r \<noteq> a"
proof
  assume "md_album r = a"
  with wf_media_pair [OF assms(1,3)] have "a \<in> i_album ` set (amids d)" by (auto simp: amid_pairs_def)
  then show False using wfD(2) [OF assms(1)] assms(2) by (auto simp: wf_amids_def)
qed

lemma seq_ok_create:
  assumes wf: "wf d" and ok: "seq_ok d" and t: "CreateWithAdmin E now newID token nameCT u d = Inr ((al, tk), d')"
  shows "seq_ok d'"
  using t
proof (cases rule: CreateWithAdmin_Inr)
  case (1 usr i m)
  have new: "activity_seq d + 1 \<notin> last_activity_seq ` set (albums d)" using ok by (auto simp: seq_defs)
  have "seq_media_ok d'"
    using ok no_media_of_new_album [OF wf 1(5)] 1(4) by (fastforce simp: seq_defs 1(20))
  moreover have "seq_albums_ok d'" using ok new 1(6,7)
    by (auto simp: seq_defs 1(20) distinct_map_insert)
  ultimately show ?thesis by (simp add: seq_ok_def)
qed

lemma album_order_update:
  "(\<And>al. album_order (f al) = album_order al) \<Longrightarrow> map album_order (sql_update p f t) = map album_order t"
  by (rule map_sql_update) simp

lemma seq_ok_reserve:
  assumes ok: "seq_ok d" and t: "ReserveUploadRow now newID newRes m tag d = Inr (row, d')"
  shows "seq_ok d'"
proof -
  note f = ReserveUploadRow_fields [OF t]
  have "\<exists>p row. medias d' = sql_insert row (sql_delete p (medias d)) \<and> \<not> confirmed row \<and> album_seq row = None"
    using t
  proof (cases rule: ReserveUploadRow_Inr)
    case (fresh m)
    then have "medias d' = sql_insert row (sql_delete (\<lambda>r. False) (medias d))" "\<not> confirmed row" "album_seq row = None"
      by (simp_all add: sql_delete_none)
    then show ?thesis by blast
  next
    case (again m prev)
    have "medias d' = sql_insert row (sql_delete (\<lambda>r. md_id r = md_id m \<and> md_album r = md_album m) (medias d))"
      unfolding again(14) by (simp add: db_fields)
    moreover have "\<not> confirmed row" "album_seq row = None" using again(11) by simp_all
    ultimately show ?thesis by blast
  qed
  then obtain p row where m: "medias d' = sql_insert row (sql_delete p (medias d))" "\<not> confirmed row" "album_seq row = None"
    by blast
  let ?d = "d'\<lparr>medias := sql_delete p (medias d)\<rparr>"
  have "seq_ok ?d" by (rule seq_ok_keep [OF ok, where p = p]) (simp_all add: f)
  moreover have "filter confirmed (medias d') = filter confirmed (medias ?d)" using m by (simp add: sql_insert_def)
  ultimately show ?thesis using m by (auto simp: seq_defs)
qed

lemma MarkConfirmed_gen:
  assumes wf: "wf d" and ok: "seq_ok d" and al: "find_album d a = Some al"
  shows "r \<in> set (medias d) \<Longrightarrow> md_album r = a \<Longrightarrow> album_seq r = Some s \<Longrightarrow> 1 \<le> s \<and> s \<le> media_generation al"
    "y \<in> set (albums d) \<Longrightarrow> a_id y = a \<Longrightarrow> y = al" "0 \<le> media_generation al"
proof -
  note alD = find_album_Some [OF al]
  show "r \<in> set (medias d) \<Longrightarrow> md_album r = a \<Longrightarrow> album_seq r = Some s \<Longrightarrow> 1 \<le> s \<and> s \<le> media_generation al"
    "0 \<le> media_generation al"
    using ok alD by (auto simp: seq_defs)
  show "y \<in> set (albums d) \<Longrightarrow> a_id y = a \<Longrightarrow> y = al"
    using find_album_key [OF wfD(1) [OF wf]] al by auto
qed

lemma seq_media_ok_confirm:
  assumes wf: "wf d" and ok: "seq_ok d" and al: "find_album d a = Some al"
    and row: "\<And>r. r \<in> set (medias d) \<Longrightarrow> md_id r = x \<Longrightarrow> md_album r = a"
    and md: "medias d' = sql_update (\<lambda>r. md_id r = x)
      (\<lambda>r. r\<lparr>confirmed := True, album_seq := Some (media_generation al + 1)\<rparr>) (medias d)"
    and ab: "albums d' = sql_update (\<lambda>al. a_id al = a) (\<lambda>al. al\<lparr>media_generation := media_generation al + 1,
         last_activity_seq := n\<rparr>) (albums d)"
  shows "seq_media_ok d'"
proof -
  let ?g = "media_generation al + 1"
  note gen = MarkConfirmed_gen [OF wf ok al]
  have "distinct (map (\<lambda>r. (md_album r, album_seq r)) (filter confirmed (medias d')))"
    unfolding md
  proof (rule distinct_filter_update)
    show "distinct (map md_id (medias d))" using wfD(4) [OF wf] by (simp add: wf_medias_def)
    show "distinct (map (\<lambda>r. (md_album r, album_seq r)) (filter confirmed (medias d)))"
      using ok by (simp add: seq_defs)
    fix r r'
    assume "r \<in> set (medias d)" "r' \<in> set (medias d)" "md_id r = x"
    then show "(md_album r', album_seq r') \<noteq> (md_album (r\<lparr>confirmed := True, album_seq := Some ?g\<rparr>),
        album_seq (r\<lparr>confirmed := True, album_seq := Some ?g\<rparr>))"
      using row [of r] gen(1) [of r' ?g] by auto
  qed
  moreover have "1 \<le> s \<and> (\<forall>y\<in>set (albums d'). a_id y = md_album r \<longrightarrow> s \<le> media_generation y)"
    if r: "r \<in> set (medias d')" "album_seq r = Some s" for r s
  proof -
    from r(1) obtain r0 where r0: "r0 \<in> set (medias d)" "md_album r = md_album r0"
      "(md_id r0 = x \<and> s = ?g) \<or> (md_id r0 \<noteq> x \<and> album_seq r0 = Some s)"
      using r(2) by (auto simp: md split: if_splits)
    have old: "md_id r0 \<noteq> x \<Longrightarrow> z \<in> set (albums d) \<Longrightarrow> a_id z = md_album r0 \<Longrightarrow> 1 \<le> s \<and> s \<le> media_generation z" for z
      using ok r0 by (auto simp: seq_defs)
    have "1 \<le> s" using r0 gen(3) ok by (auto simp: seq_defs)
    moreover have "s \<le> media_generation y" if y: "y \<in> set (albums d')" "a_id y = md_album r" for y
    proof -
      from y(1) obtain z where z: "z \<in> set (albums d)" "a_id z = md_album r"
        "media_generation y = media_generation z + (if a_id z = a then 1 else 0)"
        using y(2) by (auto simp: ab split: if_splits)
      show ?thesis using r0 z row [OF r0(1)] gen(2) [OF z(1)] old [OF _ z(1)] by auto
    qed
    ultimately show ?thesis by blast
  qed
  moreover have "\<forall>r\<in>set (medias d'). confirmed r \<longleftrightarrow> album_seq r \<noteq> None"
    using ok by (auto simp: seq_defs md)
  ultimately show ?thesis unfolding seq_media_ok_def by blast
qed

lemma seq_albums_ok_confirm:
  assumes wf: "wf d" and ok: "seq_ok d" and sq: "activity_seq d' = activity_seq d + 1"
    and ab: "albums d' = sql_update (\<lambda>al. a_id al = a) (\<lambda>al. al\<lparr>media_generation := media_generation al + 1,
         last_activity_seq := activity_seq d + 1\<rparr>) (albums d)"
  shows "seq_albums_ok d'"
proof -
  let ?f = "\<lambda>al. al\<lparr>media_generation := media_generation al + 1, last_activity_seq := activity_seq d + 1\<rparr>"
  have "distinct (map last_activity_seq (filter (\<lambda>_. True) (sql_update (\<lambda>al. a_id al = a) ?f (albums d))))"
    by (rule distinct_filter_update)
      (use wfD(1) [OF wf] ok in \<open>auto simp: wf_albums_def seq_defs\<close>)
  then show ?thesis using ok by (auto simp: seq_albums_ok_def seq_ok_def ab sq intro: order_trans)
qed

lemma seq_ok_confirm:
  assumes wf: "wf d" and ok: "seq_ok d" and t: "MarkConfirmed x a res d = Inr (g, d')"
  shows "seq_ok d'"
  using t wfD(4) [OF wf]
proof (cases rule: MarkConfirmed_Inr)
  case (1 al row)
  have "r = row" if "r \<in> set (medias d)" "md_id r = x" for r
    using wfD(4) [OF wf] that 1(2,3)
    by (auto simp: wf_medias_def pending_row_def dest: distinct_map_eq [where g = md_id])
  then have "seq_media_ok d'"
    using 1(3,6) by (intro seq_media_ok_confirm [OF wf ok 1(1), where x = x]) (auto simp: 1(7) pending_row_def)
  moreover have "seq_albums_ok d'" by (rule seq_albums_ok_confirm [OF wf ok]) (simp_all add: 1(7))
  ultimately show ?thesis by (simp add: seq_ok_def)
qed

lemma album_order_ops:
  "map album_order (albums (UpdateName now a n d)) = map album_order (albums d)"
  "map album_order (albums (require_rotation a d)) = map album_order (albums d)"
  "RevokeMemberTx now a c t d = Inr ((r, already), d') \<Longrightarrow> map album_order (albums d') = map album_order (albums d)"
  "InsertEpoch E now ie d = Inr (u, d') \<Longrightarrow> map album_order (albums d') = map album_order (albums d)"
     apply (simp add: UpdateName_def album_order_update album_order_def)
    apply (simp add: require_rotation_def album_order_update album_order_def)
   apply (erule RevokeMemberTx_Inr, simp, simp add: db_fields)
   apply (simp add: require_rotation_def revoke_row_def album_order_update album_order_def)
  by (erule InsertEpoch_Inr, simp add: album_order_update album_order_def)

lemma InsertEpoch_fields:
  assumes "InsertEpoch E now ie d = Inr (u, d')"
  shows "medias d' = medias d" "avatars d' = avatars d" "cleanup d' = cleanup d" "activity_seq d' = activity_seq d"
    "members d' = members d" "amids d' = amids d"
  using assms by (rule InsertEpoch_Inr; simp)+

interpretation feed_law: album_invariant seq_ok "\<lambda>_. True"
proof (unfold_locales, goal_cases)
  case 1
  then show ?case by (intro seq_ok_same [OF 1(1)]) (simp_all add: same_albums_fields [OF 1(2)])
next
  case 2
  then show ?case using seq_ok_create by blast
next
  case 3
  then show ?case by (intro seq_ok_same [OF 3(2)]) (simp_all add: DeliverMember_fields [OF 3(3)])
next
  case 4
  then show ?case by (intro seq_ok_same [OF 4(2)]) (simp_all add: MarkReceived_fields [OF 4(3)])
next
  case 5
  then show ?case
    by (intro seq_ok_same_order [OF 5(2)]) (simp_all add: InsertEpoch_fields [OF 5(3)] album_order_ops(4) [OF 5(3)])
next
  case 6
  then show ?case
    by (intro seq_ok_same_order [OF 6(2)]) (simp_all add: RevokeMemberTx_fields [OF 6(3)] album_order_ops(3) [OF 6(3)])
next
  case 7
  then show ?case by (intro seq_ok_same_order [OF 7(2)]) (simp_all add: db_fields album_order_ops)
next
  case 9
  then show ?case by (intro seq_ok_drop_album seq_ok_same [OF 9(2)]) (simp_all add: db_fields)
next
  case (10 d i now)
  then show ?case by (intro seq_ok_keep [OF 10(2), where p = "\<lambda>r. uploader_token r = i_token i"]) (simp_all add: db_fields)
next
  case (11 d i now)
  then show ?case
    by (intro seq_ok_keep [OF 11(2), where p = "\<lambda>r. uploader_token r = i_token i"]) (simp_all add: db_fields album_order_ops)
next
  case 12
  then show ?case using seq_ok_reserve by blast
next
  case 13
  then show ?case using seq_ok_confirm by blast
next
  case (14 d now p)
  then show ?case by (intro seq_ok_keep [OF 14(2), where p = p]) (simp_all add: db_fields removeMedia_eq)
next
  case 17
  then show ?case by (intro seq_ok_same [OF 17(2)]) (simp_all add: avatar_Reserve_fields [OF 17(4)])
next
  case 18
  then show ?case by (intro seq_ok_same [OF 18(2)]) (simp_all add: avatar_Confirm_fields [OF 18(3)])
next
  case 20
  then show ?case by (fastforce simp: seq_ok_def seq_media_ok_def seq_albums_ok_def)
qed (erule seq_ok_same; simp add: db_fields)+

end
