(* ===== verification/Objects.thy ===== *)
theory Objects
  imports Feed "HOL-Library.Multiset"
begin

text \<open>
  No object is orphaned and none is deleted while in use. The keys of the rows (media, thumbnails,
  avatars) and the keys waiting in the cleanup queue are one collection without duplicates; deleting
  or replacing rows moves keys to the queue in the same transaction, and only the acknowledgement of
  a deleted object takes a key out.
\<close>

section \<open>The collection of keys\<close>

definition total_keys :: "db \<Rightarrow> bytes list" where
  "total_keys d = live_keys d @ map c_key (cleanup d)"

definition keys_ok :: "db \<Rightarrow> bool" where
  "keys_ok d \<longleftrightarrow> distinct (total_keys d)
     \<and> (\<forall>r\<in>set (medias d). storage_key r \<noteq> [] \<and> thumb_key r \<noteq> Some [])"

lemma set_total_keys: "set (total_keys d) = set (live_keys d) \<union> queued d"
  by (simp add: total_keys_def queued_def)

lemma live_not_queued: "keys_ok d \<Longrightarrow> set (live_keys d) \<inter> queued d = {}"
  by (auto simp: keys_ok_def total_keys_def queued_def)

lemma total_keys_fields:
  assumes "medias d' = medias d" "avatars d' = avatars d" "map c_key (cleanup d') = map c_key (cleanup d)"
  shows "total_keys d' = total_keys d"
  by (simp add: total_keys_def live_keys_def assms)

lemma keys_ok_same:
  assumes "keys_ok d" "medias d' = medias d" "avatars d' = avatars d" "map c_key (cleanup d') = map c_key (cleanup d)"
  shows "keys_ok d'"
  using assms(1) total_keys_fields [OF assms(2-4)] by (simp add: keys_ok_def assms(2))

lemma keys_ok_mset:
  assumes "keys_ok d" "mset (total_keys d') = mset (total_keys d)" "set (medias d') \<subseteq> set (medias d)"
  shows "keys_ok d'"
  using assms mset_eq_imp_distinct_iff [OF assms(2)] by (auto simp: keys_ok_def)

text \<open>Queueing new keys appends them.\<close>

lemma enqueue_append:
  "distinct ks \<Longrightarrow> set ks \<inter> c_key ` set q = {} \<Longrightarrow> map c_key (fold (enqueue_key now) ks q) = map c_key q @ ks"
proof (induction ks arbitrary: q)
  case (Cons k ks)
  then have "enqueue_key now k q = sql_insert \<lparr>c_key = k, attempts = 0, next_attempt_at = now\<rparr> q"
    by (auto simp: enqueue_key_def)
  then have "map c_key (enqueue_key now k q) = map c_key q @ [k]" "c_key ` set (enqueue_key now k q) = insert k (c_key ` set q)"
    by (simp_all add: sql_insert_def)
  with Cons show ?case by simp
qed simp

lemma mset_enqueue:
  assumes "keys_ok d" "mset ks \<subseteq># mset (live_keys d)"
  shows "mset (map c_key (cleanup (enqueueObjectCleanup now ks d))) = mset (map c_key (cleanup d)) + mset ks"
proof -
  have dl: "distinct (live_keys d)" using assms(1) by (simp add: keys_ok_def total_keys_def)
  have "\<forall>k. count (mset ks) k \<le> 1"
    using dl mset_subset_eq_count [OF assms(2)] by (metis distinct_count_atmost_1 le_trans count_mset_0_iff le_numeral_extra(4) zero_le_one)
  then have dk: "distinct ks" unfolding distinct_count_atmost_1
    using mset_subset_eq_count [OF assms(2)] dl by (auto simp: distinct_count_atmost_1 intro: antisym)
  have "set ks \<inter> queued d = {}"
    using live_not_queued [OF assms(1)] set_mset_mono [OF assms(2)] by auto
  then show ?thesis using enqueue_append [OF dk, of "cleanup d" now]
    by (simp add: enqueueObjectCleanup_def queued_def flip: mset_append mset_map)
qed

lemma mset_split_rows: "mset (concat (map f t)) = mset (concat (map f (filter p t))) + mset (concat (map f (sql_delete p t)))"
  by (induction t) (auto simp: sql_delete_def)

lemma mset_split_map: "mset (map f t) = mset (map f (filter p t)) + mset (map f (sql_delete p t))"
  by (induction t) (auto simp: sql_delete_def)

text \<open>Deleting media rows \<open>p\<close> and avatar rows \<open>q\<close> and queueing their keys keeps the collection.\<close>

definition dropped_keys :: "(media \<Rightarrow> bool) \<Rightarrow> (avatar \<Rightarrow> bool) \<Rightarrow> db \<Rightarrow> bytes list" where
  "dropped_keys p q d = concat (map media_keys (filter p (medias d))) @ map av_key (filter q (avatars d))"

lemma mset_dropped: "mset (live_keys d) = mset (dropped_keys p q d)
    + (mset (concat (map media_keys (sql_delete p (medias d)))) + mset (map av_key (sql_delete q (avatars d))))"
  using mset_split_rows [of media_keys "medias d" p] mset_split_map [of av_key "avatars d" q]
  by (simp add: live_keys_def dropped_keys_def del: mset_map)

lemma total_keys_dropped:
  assumes ok: "keys_ok d" and m: "medias d' = sql_delete p (medias d)" and a: "avatars d' = sql_delete q (avatars d)"
    and c: "cleanup d' = cleanup (enqueueObjectCleanup now (dropped_keys p q d) d)"
  shows "mset (total_keys d') = mset (total_keys d)"
proof -
  have "mset (dropped_keys p q d) \<subseteq># mset (live_keys d)" unfolding mset_dropped [of d p q] by simp
  from mset_enqueue [OF ok this, of now]
  have "mset (map c_key (cleanup d')) = mset (map c_key (cleanup d)) + mset (dropped_keys p q d)" unfolding c .
  then show ?thesis using mset_dropped [of d p q] by (simp add: total_keys_def live_keys_def m a)
qed

lemma keys_ok_dropped:
  assumes "keys_ok d" "medias d' = sql_delete p (medias d)" "avatars d' = sql_delete q (avatars d)"
    "cleanup d' = cleanup (enqueueObjectCleanup now (dropped_keys p q d) d)"
  shows "keys_ok d'"
  by (rule keys_ok_mset [OF assms(1) total_keys_dropped [OF assms]]) (auto simp: assms(2))

section \<open>Every transaction keeps the keys\<close>

definition keeps_keys :: "db \<Rightarrow> db \<Rightarrow> bool" where
  "keeps_keys d d' \<longleftrightarrow> (keys_ok d \<longrightarrow>
     keys_ok d' \<and> set (total_keys d) \<subseteq> set (total_keys d') \<and> queued d \<subseteq> queued d')"

lemma queued_cong: "map c_key (cleanup d') = map c_key (cleanup d) \<Longrightarrow> queued d' = queued d"
  unfolding queued_def by (metis list.set_map)

lemma keeps_keys_same:
  "medias d' = medias d \<Longrightarrow> avatars d' = avatars d \<Longrightarrow> map c_key (cleanup d') = map c_key (cleanup d) \<Longrightarrow> keeps_keys d d'"
  unfolding keeps_keys_def using keys_ok_same total_keys_fields queued_cong by (metis order_refl)

lemma keeps_keys_dropped:
  assumes "medias d' = sql_delete p (medias d)" "avatars d' = sql_delete q (avatars d)"
    "cleanup d' = cleanup (enqueueObjectCleanup now (dropped_keys p q d) d)"
  shows "keeps_keys d d'"
proof -
  have "queued d' = queued (enqueueObjectCleanup now (dropped_keys p q d) d)" by (rule queued_cong) (simp add: assms(3))
  then show ?thesis
    unfolding keeps_keys_def
    using keys_ok_dropped [OF _ assms] total_keys_dropped [OF _ assms] mset_eq_setD by (simp, blast)
qed

lemma keeps_keys_removeMedia: "keeps_keys d (snd (removeMedia now p d))"
  by (rule keeps_keys_dropped [where p = p and q = "\<lambda>_. False" and now = now])
    (simp_all add: removeMedia_eq db_fields dropped_keys_def sql_delete_none enqueueObjectCleanup_def)

lemma keeps_keys_removeAvatars: "keeps_keys d (snd (removeAvatars now q d))"
  by (rule keeps_keys_dropped [where p = "\<lambda>_. False" and q = q and now = now])
    (simp_all add: removeAvatars_eq db_fields dropped_keys_def sql_delete_none enqueueObjectCleanup_def)

lemma keeps_keys_drop_album: "keeps_keys d (drop_album a (enqueueObjectCleanup now (album_keys a d) d))"
  by (rule keeps_keys_dropped [where p = "\<lambda>r. md_album r = a" and q = "\<lambda>v. av_album v = a" and now = now])
    (simp_all add: db_fields dropped_keys_def album_keys_def)

lemma keeps_keys_drop_identity:
  assumes wf: "wf d" and i: "i \<in> set (amids d)"
    and d0: "medias d0 = medias d" "avatars d0 = avatars d" "cleanup d0 = cleanup d"
  shows "keeps_keys d (drop_identity (i_token i) (enqueueObjectCleanup now (member_keys (i_album i) (i_token i) d) d0))"
proof (rule keeps_keys_dropped [where now = now])
  have pair: "(i_token i, i_album i) \<in> amid_pairs d" using i by (auto simp: amid_pairs_def)
  have "filter (\<lambda>r. md_album r = i_album i \<and> uploader_token r = i_token i) (medias d) =
      filter (\<lambda>r. uploader_token r = i_token i) (medias d)"
    using wf_media_pair [OF wf] wf_pair_unique [OF wf _ pair] by (intro filter_cong) (simp, metis)
  moreover have "filter (\<lambda>v. av_album v = i_album i \<and> av_token v = i_token i) (avatars d) =
      filter (\<lambda>v. av_token v = i_token i) (avatars d)"
    using wf_avatar_pair [OF wf] wf_pair_unique [OF wf _ pair] by (intro filter_cong) (simp, metis)
  ultimately have "member_keys (i_album i) (i_token i) d =
      dropped_keys (\<lambda>r. uploader_token r = i_token i) (\<lambda>v. av_token v = i_token i) d"
    by (simp add: member_keys_def dropped_keys_def)
  then show "cleanup (drop_identity (i_token i) (enqueueObjectCleanup now (member_keys (i_album i) (i_token i) d) d0)) =
      cleanup (enqueueObjectCleanup now (dropped_keys (\<lambda>r. uploader_token r = i_token i) (\<lambda>v. av_token v = i_token i) d) d)"
    by (simp add: db_fields enqueueObjectCleanup_def d0)
qed (simp_all add: db_fields d0)

text \<open>A new media row brings the new keys of its reservation that it does not take over from the
  row it replaces; what that row loses is queued.\<close>

definition row_ok :: "media \<Rightarrow> bool" where
  "row_ok r \<longleftrightarrow> storage_key r \<noteq> [] \<and> thumb_key r \<noteq> Some []"

lemma media_keys_row: "row_ok r \<Longrightarrow> media_keys r = storage_key r # (case thumb_key r of None \<Rightarrow> [] | Some t \<Rightarrow> [t])"
  by (cases "thumb_key r") (simp_all add: row_ok_def media_keys_def cleanupKeys_def)

lemma reuse_keys_mset:
  assumes "row_ok prev" "row_ok m"
  obtains new where "mset (media_keys (fst (reuse_keys prev m))) + mset (snd (reuse_keys prev m)) = mset (media_keys prev) + mset new"
    "row_ok (fst (reuse_keys prev m))" "mset new \<subseteq># mset (media_keys m)" "mset (snd (reuse_keys prev m)) \<subseteq># mset (media_keys prev)"
proof -
  let ?same = "blob_sha256 prev = blob_sha256 m \<and> blob_size prev = blob_size m"
  let ?new = "(if ?same then [] else [storage_key m]) @
    (if same_thumb prev m then [] else case thumb_key m of None \<Rightarrow> [] | Some t \<Rightarrow> [t])"
  have r: "row_ok (fst (reuse_keys prev m))"
    using assms by (auto simp: reuse_keys_def Let_def row_ok_def)
  note k = media_keys_row [OF r] media_keys_row [OF assms(1)] media_keys_row [OF assms(2)]
  have st: "same_thumb prev m \<Longrightarrow> thumb_key prev \<noteq> None \<and> thumb_key m \<noteq> None" by (simp add: same_thumb_def)
  have nn: "thumb_key prev \<noteq> Some []" "storage_key prev \<noteq> []" using assms(1) by (simp_all add: row_ok_def)
  have "mset (media_keys (fst (reuse_keys prev m))) + mset (snd (reuse_keys prev m)) = mset (media_keys prev) + mset ?new"
    unfolding k using nn st
    by (cases "thumb_key prev"; cases "thumb_key m"; cases "same_thumb prev m"; cases ?same) (auto simp: reuse_keys_def Let_def)
  moreover have "mset ?new \<subseteq># mset (media_keys m)" unfolding k
    by (cases "thumb_key m") (auto simp: subseteq_mset_def)
  moreover have "mset (snd (reuse_keys prev m)) \<subseteq># mset (media_keys prev)" unfolding k
    by (cases "thumb_key prev") (auto simp: reuse_keys_def Let_def subseteq_mset_def)
  ultimately show thesis using r by (intro that)
qed

lemma mset_subset_disjoint:
  assumes "distinct xs" "mset ks \<subseteq># mset zs" "distinct zs" "set zs \<inter> set xs = {}"
  shows "distinct (xs @ ks)"
proof -
  have "count (mset ks) k \<le> 1" for k
    using mset_subset_eq_count [OF assms(2), of k] assms(3)
    by (metis distinct_count_atmost_1 le_trans count_mset_0_iff le_numeral_extra(4) zero_le_one)
  then have "distinct ks" unfolding distinct_count_atmost_1
    by (metis count_mset_0_iff le_antisym less_one not_le)
  moreover have "set ks \<subseteq> set zs" using set_mset_mono [OF assms(2)] by simp
  ultimately show ?thesis using assms(1,4) by auto
qed

text \<open>The keys a reservation may bring.\<close>

lemma reservation_keys:
  assumes "media_op_ok (MReserve newID newRes m tag) d"
  shows "row_ok m" "distinct (media_keys m)" "set (media_keys m) \<inter> set (total_keys d) = {}"
proof -
  show r: "row_ok m" using assms by (auto simp: row_ok_def fresh_key_def split: option.splits)
  show "distinct (media_keys m)" "set (media_keys m) \<inter> set (total_keys d) = {}"
    using assms unfolding media_keys_row [OF r] set_total_keys
    by (auto simp: fresh_key_def split: option.splits)
qed

lemma keys_ok_new:
  assumes ok: "keys_ok d" and new: "mset (total_keys d') = mset (total_keys d) + mset new"
    and ks: "mset new \<subseteq># mset zs" "distinct zs" "set zs \<inter> set (total_keys d) = {}"
    and rows: "\<forall>r\<in>set (medias d'). row_ok r"
  shows "keys_ok d'" "set (total_keys d) \<subseteq> set (total_keys d')"
proof -
  have "distinct (total_keys d @ new)" using ok ks by (intro mset_subset_disjoint) (auto simp: keys_ok_def)
  moreover have m: "mset (total_keys d') = mset (total_keys d @ new)" using new by simp
  ultimately have "distinct (total_keys d')" using mset_eq_imp_distinct_iff [OF m] by simp
  with rows show "keys_ok d'" by (simp add: keys_ok_def row_ok_def)
  show "set (total_keys d) \<subseteq> set (total_keys d')" using mset_eq_setD [OF m] by auto
qed

lemma reserved_row_ok: "row_ok m \<Longrightarrow> row_ok (reserved_row now res m)"
  by (simp add: row_ok_def reserved_row_def)

lemma keys_ok_rows: "keys_ok d \<Longrightarrow> r \<in> set (medias d) \<Longrightarrow> row_ok r"
  by (simp add: keys_ok_def row_ok_def)

lemma keeps_keys_reserve:
  assumes wf: "wf d" and ok: "media_op_ok (MReserve newID newRes m0 tag) d"
    and t: "ReserveUploadRow now newID newRes m0 tag d = Inr (row, d')"
  shows "keeps_keys d d'"
  unfolding keeps_keys_def
proof
  assume ko: "keys_ok d"
  note av = ReserveUploadRow_fields(6) [OF t]
  note k0 = reservation_keys [OF ok]
  have same: "row_ok m \<and> media_keys m = media_keys m0" if "m = (if md_id m0 = 0 then m0\<lparr>md_id := newID\<rparr> else m0)" for m
    using k0(1) that by (auto simp: row_ok_def media_keys_def)
  have "queued d \<subseteq> queued d'"
    using t
  proof (cases rule: ReserveUploadRow_Inr)
    case fresh
    show ?thesis unfolding fresh(9) by (simp add: queued_def)
  next
    case again
    show ?thesis unfolding again(14) queued_enqueue by (simp add: queued_def)
  qed
  moreover have "keys_ok d' \<and> set (total_keys d) \<subseteq> set (total_keys d')"
    using t
  proof (cases rule: ReserveUploadRow_Inr)
    case (fresh m)
    note sm = same [OF fresh(1)]
    have "mset (total_keys d') = mset (total_keys d) + mset (media_keys m0)"
      using sm fresh(6) by (simp add: total_keys_def live_keys_def fresh(9) sql_insert_def)
    moreover have "\<forall>r\<in>set (medias d'). row_ok r"
      using keys_ok_rows [OF ko] sm fresh(6) by (auto simp: fresh(9) reserved_row_ok)
    ultimately show ?thesis using keys_ok_new [OF ko _ _ k0(2,3)] by simp
  next
    case (again m prev)
    note sm = same [OF again(1)]
    let ?p = "\<lambda>r. md_id r = md_id m \<and> md_album r = md_album m"
    let ?st = "snd (reuse_keys prev m)"
    obtain new where new: "mset (media_keys (fst (reuse_keys prev m))) + mset ?st = mset (media_keys prev) + mset new"
      "row_ok (fst (reuse_keys prev m))" "mset new \<subseteq># mset (media_keys m)" "mset ?st \<subseteq># mset (media_keys prev)"
      using reuse_keys_mset keys_ok_rows [OF ko again(6)] sm by blast
    have "find ?p (medias d) = Some prev"
    proof (cases "find ?p (medias d)")
      case None
      then show ?thesis using again(6-8) by (simp add: find_None_all)
    next
      case (Some r)
      with wfD(4) [OF wf] again(6,7) show ?thesis
        by (auto dest!: find_Some_in simp: wf_medias_def dest: distinct_map_eq [where g = md_id])
    qed
    then have f: "filter ?p (medias d) = [prev]"
      using wfD(4) [OF wf] again(7) by (intro filter_unique [where k = md_id]) (auto simp: wf_medias_def)
    have split: "mset (concat (map media_keys (medias d))) =
        mset (media_keys prev) + mset (concat (map media_keys (sql_delete ?p (medias d))))"
      using mset_split_rows [of media_keys "medias d" ?p] f by simp
    have sub: "mset ?st \<subseteq># mset (live_keys d)"
      using new(4) split by (simp add: live_keys_def) (meson mset_subset_eq_add_left subset_mset.order_trans)
    have md: "medias d' = sql_insert row (sql_delete ?p (medias d))" by (simp add: again(14) db_fields)
    have cl: "mset (map c_key (cleanup d')) = mset (map c_key (cleanup d)) + mset ?st"
      using mset_enqueue [OF ko sub, of now] unfolding again(14) by (simp add: enqueueObjectCleanup_def)
    have rowk: "media_keys row = media_keys (fst (reuse_keys prev m))" using again(11) by simp
    have "mset (total_keys d') = mset (total_keys d) + mset new"
      using cl new(1) rowk split
      by (simp add: total_keys_def live_keys_def md av sql_insert_def del: mset_map)
    moreover have "\<forall>r\<in>set (medias d'). row_ok r"
      using keys_ok_rows [OF ko] new(2) again(11) by (auto simp: md reserved_row_ok)
    moreover have "mset new \<subseteq># mset (media_keys m0)" using new(3) sm by simp
    ultimately show ?thesis using keys_ok_new [OF ko _ _ k0(2,3)] by blast
  qed
  ultimately show "keys_ok d' \<and> set (total_keys d) \<subseteq> set (total_keys d') \<and> queued d \<subseteq> queued d'" by blast
qed

lemma keeps_keys_confirm:
  assumes wf: "wf d" and t: "MarkConfirmed x a res d = Inr (g, d')"
  shows "keeps_keys d d'"
proof -
  obtain f where md: "medias d' = sql_update (\<lambda>r. md_id r = x) f (medias d)"
      "\<And>r. media_keys (f r) = media_keys r" "\<And>r. row_ok (f r) = row_ok r"
    using t wfD(4) [OF wf]
  proof (cases rule: MarkConfirmed_Inr)
    case (1 al row)
    then show thesis by (intro that [of "\<lambda>r. r\<lparr>confirmed := True, album_seq := Some g\<rparr>"]) (simp_all add: media_keys_def row_ok_def)
  qed
  have "map media_keys (medias d') = map media_keys (medias d)" unfolding md(1) by (rule map_sql_update) (rule md(2))
  then have tk: "total_keys d' = total_keys d"
    by (simp add: total_keys_def live_keys_def MarkConfirmed_fields [OF t wf])
  have rows: "\<forall>r\<in>set (medias d'). row_ok r" if ok: "keys_ok d"
  proof
    fix r assume "r \<in> set (medias d')"
    then obtain r0 where r0: "r0 \<in> set (medias d)" "r = (if md_id r0 = x then f r0 else r0)"
      unfolding md(1) set_sql_update by blast
    show "row_ok r" unfolding r0(2) if_distrib [of row_ok] md(3) if_cancel by (rule keys_ok_rows [OF ok r0(1)])
  qed
  have "keys_ok d'" if ok: "keys_ok d"
    using ok rows [OF ok] unfolding keys_ok_def tk row_ok_def [symmetric] by blast
  moreover have "queued d' = queued d" by (rule queued_cong) (simp add: MarkConfirmed_fields [OF t wf])
  ultimately show ?thesis unfolding keeps_keys_def tk by blast
qed

lemma mset_unqueue:
  assumes "distinct (map c_key q)" "k \<in> c_key ` set q"
  shows "mset (map c_key q) = add_mset k (mset (map c_key (sql_delete (\<lambda>r. c_key r = k) q)))"
  using assms
proof (induction q)
  case (Cons r q)
  show ?case
  proof (cases "c_key r = k")
    case True
    then have "sql_delete (\<lambda>r. c_key r = k) q = q" using Cons.prems(1) by (intro sql_delete_id) (auto simp: image_iff)
    then show ?thesis using True by (simp add: sql_delete_def)
  next
    case False
    then have "sql_delete (\<lambda>r. c_key r = k) (r # q) = r # sql_delete (\<lambda>r. c_key r = k) q" by (simp add: sql_delete_def)
    then show ?thesis using Cons False by auto
  qed
qed simp

lemma keeps_keys_reserve_avatar:
  assumes wf: "wf d" and ok: "media_op_ok (VReserve v) d" and t: "avatar_Reserve now v d = Inr (row, d')"
  shows "keeps_keys d d'"
  unfolding keeps_keys_def
proof
  assume ko: "keys_ok d"
  have fr: "av_key v \<notin> set (total_keys d)" using ok by (simp add: fresh_key_def set_total_keys)
  show "keys_ok d' \<and> set (total_keys d) \<subseteq> set (total_keys d') \<and> queued d \<subseteq> queued d'"
    using t
  proof (cases rule: avatar_Reserve_Inr)
    case (1 m)
    let ?p = "pending_avatar_of (av_album v) (av_token v)"
    let ?st = "map av_key (filter ?p (avatars d))"
    let ?d1 = "snd (removeAvatars now ?p d)"
    have k1: "keys_ok ?d1" "mset (total_keys ?d1) = mset (total_keys d)"
      using keeps_keys_removeAvatars [of d now ?p] ko
      using total_keys_dropped [OF ko, where p = "\<lambda>_. False" and q = ?p and now = now and d' = ?d1]
      by (simp_all add: keeps_keys_def removeAvatars_eq db_fields dropped_keys_def sql_delete_none enqueueObjectCleanup_def)
    have d1: "medias ?d1 = medias d" "avatars ?d1 = sql_delete ?p (avatars d)" by (simp_all add: removeAvatars_eq db_fields)
    have cl: "cleanup d' = (if av_key row \<in> set ?st then sql_delete (\<lambda>r. c_key r = av_key row) (cleanup ?d1) else cleanup ?d1)"
      and md: "medias d' = medias d" and av: "avatars d' = sql_insert row (sql_delete ?p (avatars d))"
      unfolding 1(6) by (simp_all add: unqueueObjectCleanup_def removeAvatars_eq enqueueObjectCleanup_def)
    have q1: "queued d \<subseteq> queued ?d1" by (simp add: removeAvatars_eq) (simp add: queued_def)
    have st_sub: "set ?st \<subseteq> c_key ` set (cleanup ?d1)"
      by (simp add: removeAvatars_eq enqueueObjectCleanup_def keys_enqueue)
    consider (new) "av_key row = av_key v" | (kept) p where "p \<in> set (avatars d)" "?p p" "av_key row = av_key p"
    proof (cases "av_key row = av_key v")
      case False
      then obtain p where p: "find (\<lambda>x. avatar_id x = avatar_id v) (avatars d) = Some p" "av_key row = av_key p"
        using 1(4) reserved_avatar_key by metis
      from find_Some_in [OF p(1)] have "p \<in> set (avatars d)" "?p p" using 1(3) wfD(6) [OF wf] by auto
      then show thesis using kept p(2) by blast
    qed
    then show ?thesis
    proof cases
      case new
      have "av_key v \<notin> set ?st" using fr by (auto simp: total_keys_def live_keys_def)
      then have "mset (total_keys d') = mset (total_keys ?d1) + mset [av_key v]" "queued d' = queued ?d1"
        using new by (simp_all add: total_keys_def live_keys_def cl md av d1 sql_insert_def queued_def)
      then show ?thesis
        using q1 keys_ok_new [OF ko, of d' "[av_key v]" "[av_key v]"] k1(2) fr keys_ok_rows [OF ko] by (simp add: md)
    next
      case kept
      have inst: "av_key row \<in> set ?st" using kept by auto
      have "distinct (map c_key (cleanup ?d1))" using k1(1) by (simp add: keys_ok_def total_keys_def)
      from mset_unqueue [OF this] inst st_sub
      have "mset (map c_key (cleanup ?d1)) = add_mset (av_key row) (mset (map c_key (cleanup d')))"
        unfolding cl by auto
      then have "mset (total_keys d') = mset (total_keys ?d1)"
        by (simp add: total_keys_def live_keys_def md av d1 sql_insert_def del: mset_map)
      with k1(2) have m: "mset (total_keys d') = mset (total_keys d)" by simp
      have "av_key row \<in> set (live_keys d)" using kept by (auto simp: live_keys_def)
      then have "av_key row \<notin> queued d" using live_not_queued [OF ko] by blast
      moreover have "queued d' = queued ?d1 - {av_key row}" using inst by (auto simp: queued_def cl)
      ultimately show ?thesis using q1 keys_ok_mset [OF ko m] mset_eq_setD [OF m] md by auto
    qed
  qed
qed

lemma keeps_keys_confirm_avatar:
  assumes t: "avatar_Confirm now a tk x d = Inr (ks, d')"
  shows "keeps_keys d d'"
  using t
proof (cases rule: avatar_Confirm_Inr)
  case already
  then show ?thesis by (simp add: keeps_keys_same)
next
  case (confirm v m)
  let ?q = "\<lambda>y. av_album y = a \<and> av_token y = tk \<and> avatar_id y \<noteq> x"
  let ?d1 = "snd (removeAvatars now ?q d)"
  have "map av_key (sql_update (\<lambda>y. avatar_id y = x) (\<lambda>y. y\<lparr>av_confirmed := True\<rparr>) (avatars ?d1)) = map av_key (avatars ?d1)"
    by (rule map_sql_update) simp
  moreover have "avatars d' = sql_update (\<lambda>y. avatar_id y = x) (\<lambda>y. y\<lparr>av_confirmed := True\<rparr>) (avatars ?d1)"
    "medias d' = medias ?d1" "cleanup d' = cleanup ?d1"
    by (simp_all add: confirm(8,9) removeAvatars_eq db_fields enqueueObjectCleanup_def)
  ultimately have "total_keys d' = total_keys ?d1" "medias d' = medias ?d1"
    by (simp_all add: total_keys_def live_keys_def)
  moreover have "queued d' = queued ?d1"
    by (rule queued_cong) (simp add: confirm(8,9) removeAvatars_eq enqueueObjectCleanup_def)
  ultimately have "keys_ok d' = keys_ok ?d1" "set (total_keys d') = set (total_keys ?d1)" "queued d' = queued ?d1"
    by (simp_all only: keys_ok_def)
  then show ?thesis using keeps_keys_removeAvatars [of d now ?q] unfolding keeps_keys_def by metis
qed

lemma keeps_keys_revoke:
  assumes "RevokeMemberTx now a c t d = Inr ((r, already), d')"
  shows "keeps_keys d d'"
  using assms
proof (cases rule: RevokeMemberTx_Inr)
  case already
  then show ?thesis by (simp add: keeps_keys_same)
next
  case (revoked cm m)
  let ?q = "\<lambda>v. av_album v = a \<and> av_token v = t"
  show ?thesis
    by (rule keeps_keys_dropped [where p = "\<lambda>_. False" and q = ?q and now = now])
      (simp_all add: revoked(9) removeAvatars_eq db_fields dropped_keys_def sql_delete_none
        require_rotation_def revoke_row_def enqueueObjectCleanup_def)
qed

section \<open>The laws\<close>

lemma keeps_keys_create: "CreateWithAdmin E now newID token nameCT u d = Inr ((al, t), d') \<Longrightarrow> keeps_keys d d'"
  by (rule keeps_keys_same) (simp_all add: CreateWithAdmin_fields)

lemma keeps_keys_deliver: "DeliverMember E now fresh inp d = Inr (t, d') \<Longrightarrow> keeps_keys d d'"
  by (rule keeps_keys_same) (simp_all add: DeliverMember_fields)

lemma keeps_keys_received: "MarkReceived now t ep d = Inr (u, d') \<Longrightarrow> keeps_keys d d'"
  by (rule keeps_keys_same) (simp_all add: MarkReceived_fields)

lemma keeps_keys_insert_epoch: "InsertEpoch E now ie d = Inr (u, d') \<Longrightarrow> keeps_keys d d'"
  by (rule keeps_keys_same) (simp_all add: InsertEpoch_fields)

lemma keeps_keys_same_albums: "same_albums d d' \<Longrightarrow> keeps_keys d d'"
  by (rule keeps_keys_same) (simp_all add: same_albums_fields)

lemma keeps_keys_names: "keeps_keys d (UpdateName now a n d)" "keeps_keys d (UpdateMemberNameCT a t n d)"
  by (rule keeps_keys_same; simp add: db_fields)+

lemmas keeps_keys_txs = keeps_keys_create keeps_keys_deliver keeps_keys_received keeps_keys_insert_epoch
  keeps_keys_revoke keeps_keys_reserve keeps_keys_confirm keeps_keys_reserve_avatar
  keeps_keys_confirm_avatar keeps_keys_same_albums

lemmas keeps_keys_steps = keeps_keys_names keeps_keys_drop_album keeps_keys_removeMedia
  keeps_keys_removeAvatars

text \<open>A key, once recorded, stays recorded: the law for every transaction but the
  acknowledgement.\<close>

definition has_key :: "bytes \<Rightarrow> db \<Rightarrow> bool" where
  "has_key k d \<longleftrightarrow> keys_ok d \<and> k \<in> set (total_keys d)"

lemma keeps_keysD: "keeps_keys d d' \<Longrightarrow> keys_ok d \<Longrightarrow> keys_ok d'" "keeps_keys d d' \<Longrightarrow> has_key k d \<Longrightarrow> has_key k d'"
  by (auto simp: keeps_keys_def has_key_def)

lemma keeps_keys_leave:
  "wf d \<Longrightarrow> i \<in> set (amids d) \<Longrightarrow> keeps_keys d (drop_identity (i_token i)
     (enqueueObjectCleanup now (member_keys (i_album i) (i_token i) d) (require_rotation a d)))"
  by (rule keeps_keys_drop_identity) (simp_all add: db_fields)

lemma keeps_keys_erase:
  "wf d \<Longrightarrow> i \<in> set (amids d) \<Longrightarrow> keeps_keys d (drop_identity (i_token i)
     (enqueueObjectCleanup now (member_keys (i_album i) (i_token i) d) d))"
  by (rule keeps_keys_drop_identity) simp_all

lemma keeps_keys_retry: "map c_key q = map c_key (cleanup d) \<Longrightarrow> keeps_keys d (d\<lparr>cleanup := q\<rparr>)"
  by (rule keeps_keys_same) simp_all

lemma keys_ok_acknowledge: "keys_ok d \<Longrightarrow> keys_ok (DeleteObjectCleanupKey k d)"
proof -
  assume ok: "keys_ok d"
  then have "distinct (map c_key (sql_delete (\<lambda>r. c_key r = k) (cleanup d)))"
    by (intro distinct_map_delete) (simp add: keys_ok_def total_keys_def)
  then show ?thesis using ok by (auto simp: keys_ok_def total_keys_def live_keys_def DeleteObjectCleanupKey_def)
qed

lemma keeps_keys_laws:
  assumes I: "\<And>d d'. I d \<Longrightarrow> keeps_keys d d' \<Longrightarrow> I d'"
    and ack: "\<And>d k. I d \<Longrightarrow> allowed (Md (MAck k)) \<Longrightarrow> I (DeleteObjectCleanupKey k d)"
  shows "album_invariant I allowed"
proof (unfold_locales, goal_cases)
  case 9 then show ?case by (intro I [OF 9(2)] keeps_keys_drop_album)
next
  case 10 then show ?case by (intro I [OF 10(2)] keeps_keys_erase)
next
  case 11 then show ?case by (intro I [OF 11(2)] keeps_keys_leave)
next
  case 12 then show ?case by (intro I [OF 12(2)] keeps_keys_reserve)
next
  case 13 then show ?case by (intro I [OF 13(2)] keeps_keys_confirm)
next
  case 16 then show ?case by (intro I [OF 16(2)] keeps_keys_retry)
next
  case 17 then show ?case by (intro I [OF 17(2)] keeps_keys_reserve_avatar)
next
  case 19 then show ?case by (intro ack)
next
  case 20 then show ?case by (intro I [OF 20(2)] keeps_keys_same) simp_all
qed (erule I, (rule keeps_keys_steps | erule keeps_keys_txs))+

text \<open>A key the database knows stays known until its deletion is acknowledged.\<close>

interpretation has_key_law: album_invariant "has_key k" "\<lambda>x. x \<noteq> Md (MAck k)" for k
proof (rule keeps_keys_laws)
  fix d k' assume "has_key k d" "Md (MAck k') \<noteq> Md (MAck k)"
  then show "has_key k (DeleteObjectCleanupKey k' d)"
    using keys_ok_acknowledge by (auto simp: has_key_def set_total_keys queued_def live_keys_def DeleteObjectCleanupKey_def)
qed (rule keeps_keysD(2))

text \<open>And a key that waits for its deletion waits until that is acknowledged: nothing takes it into
  use again.\<close>

definition retired_key :: "bytes \<Rightarrow> db \<Rightarrow> bool" where
  "retired_key k d \<longleftrightarrow> keys_ok d \<and> k \<in> queued d"

interpretation retired_law: album_invariant "retired_key k" "\<lambda>x. x \<noteq> Md (MAck k)" for k
proof (rule keeps_keys_laws)
  fix d k' assume "retired_key k d" "Md (MAck k') \<noteq> Md (MAck k)"
  then show "retired_key k (DeleteObjectCleanupKey k' d)"
    using keys_ok_acknowledge by (auto simp: retired_key_def queued_def DeleteObjectCleanupKey_def)
qed (auto simp: retired_key_def keeps_keys_def)

interpretation keys_law: album_invariant keys_ok "\<lambda>_. True"
  by (rule keeps_keys_laws) (auto intro: keeps_keysD(1) keys_ok_acknowledge)

end
