(* ===== verification/Accounts.thy ===== *)
theory Accounts
  imports Objects
begin

text \<open>
  The account tables: keys and references of users, sessions, one-time prekeys, deletion jobs and
  receipts in every state of the server; an account that is being deleted has its job, and the job
  its account; a one-time prekey that is used stays used, a published identity key stays, and the
  time stamp of a signed prekey never goes back.
\<close>

section \<open>Frames\<close>

definition same_accounts :: "db \<Rightarrow> db \<Rightarrow> bool" where
  "same_accounts d d' \<longleftrightarrow> users d' = users d \<and> sessions d' = sessions d \<and> opks d' = opks d
     \<and> deletions d' = deletions d \<and> receipts d' = receipts d"

lemma same_accounts_refl [simp]: "same_accounts d d"
  by (simp add: same_accounts_def)

lemma same_accounts_run_tx:
  "(\<And>r d'. t d = Inr (r, d') \<Longrightarrow> same_accounts d d') \<Longrightarrow> same_accounts d (snd (run_tx t d))"
  by (rule run_tx_inv) simp_all

lemma same_accounts_tables [simp]:
  "same_accounts d (enqueueObjectCleanup now ks d)" "same_accounts d (unqueueObjectCleanup qs k d)"
  "same_accounts d (drop_album a d)" "same_accounts d (drop_identity t d)" "same_accounts d (require_rotation a d)"
  by (simp_all add: same_accounts_def enqueueObjectCleanup_def unqueueObjectCleanup_def drop_album_def
      drop_identity_def require_rotation_def)

lemma same_accounts_trans: "same_accounts d d' \<Longrightarrow> same_accounts d' d'' \<Longrightarrow> same_accounts d d''"
  by (simp add: same_accounts_def)

lemma same_accounts_album_tx:
  "CreateWithAdmin E now newID token nameCT u d = Inr ((al, t), d') \<Longrightarrow> same_accounts d d'"
  "MarkReceived now t ep d = Inr (u', d') \<Longrightarrow> same_accounts d d'"
  "InsertEpoch E now ie d = Inr (u', d') \<Longrightarrow> same_accounts d d'"
  "RevokeMemberTx now a c t d = Inr ((r, already), d') \<Longrightarrow> same_accounts d d'"
     apply (erule CreateWithAdmin_Inr, simp add: same_accounts_def)
    apply (erule MarkReceived_Inr, simp add: same_accounts_def)
   apply (erule InsertEpoch_Inr, simp add: same_accounts_def)
  by (erule RevokeMemberTx_Inr, simp,
      simp add: removeAvatars_eq enqueueObjectCleanup_def same_accounts_def require_rotation_def revoke_row_def)

lemma same_accounts_media_tx:
  "ReserveUploadRow now newID newRes m tag d = Inr (row, d') \<Longrightarrow> same_accounts d d'"
  "avatar_Reserve now v d = Inr (v', d') \<Longrightarrow> same_accounts d d'"
  "avatar_Confirm now a tk x d = Inr (ks, d') \<Longrightarrow> same_accounts d d'"
  "wf d \<Longrightarrow> MarkConfirmed x a res d = Inr (g, d') \<Longrightarrow> same_accounts d d'"
     apply (erule ReserveUploadRow_Inr; simp add: same_accounts_def enqueueObjectCleanup_def)
    apply (erule avatar_Reserve_Inr, simp add: same_accounts_def enqueueObjectCleanup_def unqueueObjectCleanup_def)
   apply (erule avatar_Confirm_Inr; simp add: same_accounts_def enqueueObjectCleanup_def)
  by (erule MarkConfirmed_Inr [OF _ wfD(4)], assumption, simp add: same_accounts_def)

lemma same_accounts_removes:
  "same_accounts d (snd (removeMedia now p d))" "same_accounts d (snd (removeAvatars now q d))"
  "same_accounts d (UpdateName now a n d)" "same_accounts d (UpdateMemberNameCT a t n d)"
  "same_accounts d (DeleteObjectCleanupKey k d)"
  by (simp_all add: removeMedia_eq removeAvatars_eq same_accounts_def enqueueObjectCleanup_def
      UpdateName_def UpdateMemberNameCT_def DeleteObjectCleanupKey_def)

lemma same_accounts_deleteAlbum: "wf d \<Longrightarrow> DeleteAlbumTx E now a c d = Inr (out, d') \<Longrightarrow> same_accounts d d'"
  by (erule DeleteAlbumTx_Inr) (auto simp: removeAlbum_eq same_accounts_def drop_album_def enqueueObjectCleanup_def)

text \<open>Delivering an invitation marks at most one prekey of the invited account as used.\<close>

definition opks_used :: "db \<Rightarrow> db \<Rightarrow> bool" where
  "opks_used d d' \<longleftrightarrow> (\<exists>p. opks d' = sql_update p (\<lambda>r. r\<lparr>consumed := True\<rparr>) (opks d))"

lemma opks_used_same: "opks d' = opks d \<Longrightarrow> opks_used d d'"
  unfolding opks_used_def by (intro exI [of _ "\<lambda>_. False"]) (simp add: sql_update_def)

lemma joined_state_accounts: "joined_state a t d d1 \<Longrightarrow> same_accounts d d1"
  by (auto simp: joined_state_def same_accounts_def reactivate_member_def)

lemma DeliverMember_accounts:
  assumes "DeliverMember E now fresh inp d = Inr (t, d')"
  shows "users d' = users d" "sessions d' = sessions d" "deletions d' = deletions d" "receipts d' = receipts d"
    "opks_used d d'"
proof -
  obtain d1 where j: "joined_state (dm_album inp) t d d1" and dw: "deliver_wraps now inp t d1 = Inr (t, d')"
    using assms by (rule DeliverMember_Inr)
  note s = joined_state_accounts [OF j]
  obtain us os where d': "d' = d1\<lparr>wraps := us, opks := os\<rparr>"
      "os = (case dm_opk inp of None \<Rightarrow> opks d1 | Some i \<Rightarrow> opks (consume_opk (dm_user inp) i d1))"
    using dw by (rule deliver_wraps_Inr)
  show "users d' = users d" "sessions d' = sessions d" "deletions d' = deletions d" "receipts d' = receipts d"
    using s by (simp_all add: d'(1) same_accounts_def)
  have eq: "opks d1 = opks d" using s by (simp add: same_accounts_def)
  show "opks_used d d'"
  proof (cases "dm_opk inp")
    case None
    then show ?thesis by (intro opks_used_same) (simp add: d' eq)
  next
    case (Some i)
    then show ?thesis unfolding opks_used_def
      by (intro exI [of _ "\<lambda>r. o_user r = dm_user inp \<and> opk_idx r = i"]) (simp add: d' consume_opk_def eq)
  qed
qed

lemma album_exec_accounts:
  assumes "wf d"
  shows "users (album_exec E now x d) = users d \<and> sessions (album_exec E now x d) = sessions d
     \<and> deletions (album_exec E now x d) = deletions d \<and> receipts (album_exec E now x d) = receipts d
     \<and> opks_used d (album_exec E now x d)"
proof -
  have same: "same_accounts d d' \<Longrightarrow> users d' = users d \<and> sessions d' = sessions d
      \<and> deletions d' = deletions d \<and> receipts d' = receipts d \<and> opks_used d d'" for d'
    by (simp add: same_accounts_def opks_used_same)
  show ?thesis
  proof (cases x)
    case (ADeliver fresh inp)
    show ?thesis unfolding ADeliver album_exec.simps
      by (rule run_tx_cases [where t = "DeliverMember E now fresh inp" and s = d])
        (simp_all add: opks_used_same DeliverMember_accounts)
  next
    case (ACreate newID token nameCT u)
    show ?thesis unfolding ACreate album_exec.simps
      by (rule same, rule same_accounts_run_tx) (metis same_accounts_album_tx(1) surj_pair)
  next
    case ADrawSeq
    show ?thesis unfolding ADrawSeq album_exec.simps by (rule same) (simp add: same_accounts_def)
  next
    case (ARevoke a c t)
    show ?thesis unfolding ARevoke album_exec.simps
      by (rule same, rule same_accounts_run_tx) (metis same_accounts_album_tx(4) surj_pair)
  qed (simp_all only: album_exec.simps, (rule same same_accounts_removes same_accounts_run_tx
      | erule same_accounts_album_tx(2,3) same_accounts_deleteAlbum [OF assms])+)
qed

lemma media_exec_accounts:
  assumes "wf d"
  shows "same_accounts d (media_exec now x d)"
proof (cases x)
  case (MAbort x a tk res)
  show ?thesis unfolding MAbort media_exec.simps
    using QueuePendingCleanup_removeMedia [OF assms, of now x a tk res] same_accounts_removes(1) same_accounts_refl
    by metis
next
  case (MDelete a x tk)
  show ?thesis unfolding MDelete media_exec.simps
  proof (rule same_accounts_run_tx)
    fix out d' assume "DeleteOwnedMedia now a x tk d = Inr (out, d')"
    then obtain p where "(out, d') = removeMedia now p d" by (rule DeleteOwnedMedia_Inr)
    then show "same_accounts d d'" by (metis snd_conv same_accounts_removes(1))
  qed
next
  case (MRetry k)
  obtain q where "snd (RescheduleObjectCleanupKey now k d) = d\<lparr>cleanup := q\<rparr>"
    by (rule RescheduleObjectCleanupKey_snd)
  then show ?thesis by (simp add: MRetry same_accounts_def)
next
  case (MConfirm x a res)
  show ?thesis unfolding MConfirm media_exec.simps
    by (rule same_accounts_run_tx) (rule same_accounts_media_tx(4) [OF assms])
qed (simp_all add: same_accounts_removes QueueStalePendingCleanup_snd avatar_DropPending_def avatar_Remove_def
  avatar_QueueStalePending_def Let_def, (rule same_accounts_run_tx, erule same_accounts_media_tx)+)

section \<open>The invariant\<close>

definition opk_key :: "opk \<Rightarrow> uuid \<times> int" where
  "opk_key r = (o_user r, opk_idx r)"

definition users_ok :: "db \<Rightarrow> bool" where
  "users_ok d \<longleftrightarrow> wf_users d \<and> distinct (map token_hash (sessions d))
     \<and> (\<forall>s\<in>set (sessions d). s_user s \<in> u_id ` set (users d))"

definition opks_ok :: "db \<Rightarrow> bool" where
  "opks_ok d \<longleftrightarrow> distinct (map o_id (opks d)) \<and> distinct (map opk_key (opks d))
     \<and> (\<forall>r\<in>set (opks d). o_user r \<in> u_id ` set (users d))"

text \<open>The accounts on their way out are exactly the queued jobs.\<close>

definition jobs_ok :: "db \<Rightarrow> bool" where
  "jobs_ok d \<longleftrightarrow> distinct (map d_user (deletions d)) \<and> distinct (map receipt_hash (receipts d))
     \<and> d_user ` set (deletions d) = u_id ` {r \<in> set (users d). deleting_at r \<noteq> None}"

definition accounts_ok :: "db \<Rightarrow> bool" where
  "accounts_ok d \<longleftrightarrow> users_ok d \<and> opks_ok d \<and> jobs_ok d"

lemmas accounts_defs = accounts_ok_def users_ok_def opks_ok_def jobs_ok_def

lemma accounts_ok_same: "same_accounts d d' \<Longrightarrow> accounts_ok d' \<longleftrightarrow> accounts_ok d"
  by (simp add: same_accounts_def accounts_defs wf_users_def)

lemma opks_used_ok:
  assumes "opks_used d d'" "users d' = users d" "opks_ok d"
  shows "opks_ok d'"
proof -
  obtain p where p: "opks d' = sql_update p (\<lambda>r. r\<lparr>consumed := True\<rparr>) (opks d)"
    using assms(1) by (auto simp: opks_used_def)
  have m: "map o_id (opks d') = map o_id (opks d)" "map opk_key (opks d') = map opk_key (opks d)"
    "map o_user (opks d') = map o_user (opks d)"
    unfolding p by (rule map_sql_update; simp add: opk_key_def)+
  have refs: "(\<forall>r\<in>set t. o_user r \<in> U) \<longleftrightarrow> o_user ` set t \<subseteq> U" for t U by blast
  from assms(3) show ?thesis unfolding opks_ok_def assms(2) refs m set_map_key [OF m(3)] .
qed

lemma album_exec_accounts_ok: "wf d \<Longrightarrow> accounts_ok d \<Longrightarrow> accounts_ok (album_exec E now x d)"
  using album_exec_accounts [of d E now x] opks_used_ok [of d "album_exec E now x d"]
  by (simp add: accounts_defs wf_users_def)

lemma media_exec_accounts_ok: "wf d \<Longrightarrow> accounts_ok d \<Longrightarrow> accounts_ok (media_exec now x d)"
  using accounts_ok_same [OF media_exec_accounts] by blast

section \<open>Account operations\<close>

text \<open>An update of user rows that keeps the keys and the deletion mark.\<close>

lemma accounts_ok_update_users:
  assumes ok: "accounts_ok d"
    and f: "\<And>r. u_id (f r) = u_id r" "\<And>r. email_hmac (f r) = email_hmac r"
      "\<And>r. u_miuchio_id (f r) = u_miuchio_id r" "\<And>r. deleting_at (f r) = deleting_at r"
    and d': "users d' = sql_update p f (users d)" "sessions d' = sessions d" "opks d' = opks d"
      "deletions d' = deletions d" "receipts d' = receipts d"
  shows "accounts_ok d'"
proof -
  have m: "map u_id (users d') = map u_id (users d)" "map email_hmac (users d') = map email_hmac (users d)"
    "map u_miuchio_id (users d') = map u_miuchio_id (users d)"
    "map (\<lambda>r. (u_id r, deleting_at r)) (users d') = map (\<lambda>r. (u_id r, deleting_at r)) (users d)"
    unfolding d'(1) by (rule map_sql_update; simp add: f)+
  have del: "u_id ` {r \<in> set t. deleting_at r \<noteq> None} =
      fst ` {x \<in> (\<lambda>r. (u_id r, deleting_at r)) ` set t. snd x \<noteq> None}" for t :: "user list"
    by force
  have "u_id ` {r \<in> set (users d'). deleting_at r \<noteq> None} = u_id ` {r \<in> set (users d). deleting_at r \<noteq> None}"
    unfolding del set_map_key [OF m(4)] ..
  with ok show ?thesis
    unfolding accounts_defs wf_users_def m set_map_key [OF m(1)] d'(2-) by simp
qed

lemma accounts_ok_publish:
  assumes "accounts_ok d"
  shows "accounts_ok (snd (publish_new now u ik lk spk sg ts d))" "accounts_ok (snd (publish_refresh now u ik lk spk sg ts d))"
proof -
  show "accounts_ok (snd (publish_new now u ik lk spk sg ts d))"
    by (rule accounts_ok_update_users [OF assms, where p = "\<lambda>r. u_id r = u \<and> ik_pub r = None"
          and f = "\<lambda>r. r\<lparr>ik_pub := Some ik, lk_pub := Some lk, spk_pub := Some spk, spk_sig := Some sg,
               spk_ts := Some ts, u_updated_at := now\<rparr>"]) (simp_all add: publish_new_def Let_def)
  show "accounts_ok (snd (publish_refresh now u ik lk spk sg ts d))"
    by (rule accounts_ok_update_users [OF assms,
          where p = "\<lambda>r. u_id r = u \<and> ik_pub r = Some ik \<and> lk_pub r = Some lk \<and> spk_pub r = Some spk"
          and f = "\<lambda>r. r\<lparr>spk_sig := if newer_ts ts (spk_ts r) then Some sg else spk_sig r,
               spk_ts := if newer_ts ts (spk_ts r) then Some ts else spk_ts r,
               u_updated_at := now\<rparr>"]) (simp_all add: publish_refresh_def Let_def)
qed

lemma accounts_ok_Publish:
  "accounts_ok d \<Longrightarrow> PublishOrRefreshIdentity now u ik lk spk sg ts d = Inr (r, d') \<Longrightarrow> accounts_ok d'"
  by (drule Publish_Inr) (metis accounts_ok_publish)

lemma repo_RotateSPK_Inr:
  assumes "repo_RotateSPK now u spk sg ts d = Inr (r, d')"
  obtains usr where "find_user d u = Some usr" "newer_ts ts (spk_ts usr)"
    "users d' = sql_update (\<lambda>r. u_id r = u) (\<lambda>r. r\<lparr>spk_pub := Some spk, spk_sig := Some sg, spk_ts := Some ts,
       u_updated_at := now\<rparr>) (users d)"
    "sessions d' = sessions d" "opks d' = opks d" "deletions d' = deletions d" "receipts d' = receipts d"
  using assms by (cases "find_user d u") (auto simp: repo_RotateSPK_def split: if_splits)

lemma accounts_ok_RotateSPK:
  assumes ok: "accounts_ok d" and "repo_RotateSPK now u spk sg ts d = Inr (r, d')"
  shows "accounts_ok d'"
  using assms(2) by (rule repo_RotateSPK_Inr) (rule accounts_ok_update_users [OF ok], simp_all)

lemma create_opk_Inr:
  assumes "create_opk now u (newID, up) d = Inr d'"
  obtains (known) old where "old \<in> set (opks d)" "o_user old = u" "opk_idx old = opk_Idx up"
      "key_pub old = opk_KeyPub up" "d' = d"
    | (new) r where "d' = d\<lparr>opks := sql_insert r (opks d)\<rparr>" "o_id r = newID" "o_id r \<notin> o_id ` set (opks d)"
      "o_user r = u" "opk_idx r = opk_Idx up" "opk_key r \<notin> opk_key ` set (opks d)" "key_pub r = opk_KeyPub up"
      "\<not> consumed r" "u \<in> u_id ` set (users d)"
proof (cases "find (\<lambda>r. o_user r = u \<and> opk_idx r = opk_Idx up) (opks d)")
  case None
  let ?r = "\<lparr>o_id = newID, o_user = u, opk_idx = opk_Idx up, key_pub = opk_KeyPub up, consumed = False,
    o_created_at = trunc_hour now\<rparr>"
  have c: "d' = d\<lparr>opks := sql_insert ?r (opks d)\<rparr>" "find_user d u \<noteq> None" "newID \<notin> o_id ` set (opks d)"
    using assms None by (auto simp: create_opk_def split: if_splits)
  then have "u \<in> u_id ` set (users d)" by (auto dest: find_user_Some)
  moreover have "opk_key ?r \<notin> opk_key ` set (opks d)" using None by (auto simp: find_None_all opk_key_def)
  ultimately show thesis using c by (intro new [of ?r]) simp_all
next
  case (Some old)
  from find_Some_in [OF Some] Some assms show thesis
    by (intro known [of old]) (auto simp: create_opk_def split: if_splits)
qed

lemma accounts_ok_create_opk:
  assumes ok: "accounts_ok d" and t: "create_opk now u x d = Inr d'"
  shows "accounts_ok d'"
proof -
  obtain newID up where x: "x = (newID, up)" by (cases x)
  from t [unfolded x] show ?thesis
  proof (cases rule: create_opk_Inr)
    case known
    then show ?thesis using ok by simp
  next
    case (new r)
    with ok have "opks_ok d'" by (auto simp: accounts_defs distinct_map_insert)
    then show ?thesis using ok by (simp add: accounts_ok_def users_ok_def jobs_ok_def wf_users_def new(1))
  qed
qed

lemma accounts_ok_CreateBatchAtomic:
  "accounts_ok d \<Longrightarrow> CreateBatchAtomic now u xs d = Inr (r, d') \<Longrightarrow> accounts_ok d'"
  by (induction xs arbitrary: d) (auto split: sum.splits dest: accounts_ok_create_opk)

lemma accounts_ok_user_Create:
  assumes ok: "accounts_ok d" and t: "user_Create now fresh usr d = Inr (r, d')"
  shows "accounts_ok d'"
proof -
  note c = user_Create_Inr [OF t]
  have "wf_users d'" using ok t by (auto simp: accounts_defs intro: user_Create_wf)
  moreover have "{x \<in> set (users d'). deleting_at x \<noteq> None} = {x \<in> set (users d). deleting_at x \<noteq> None}"
    using c(2) by (auto simp: c(1))
  ultimately show ?thesis using ok by (auto simp: accounts_defs c(1))
qed

lemma accounts_ok_sessions:
  assumes "accounts_ok d" "distinct (map token_hash ss)" "s_user ` set ss \<subseteq> u_id ` set (users d)"
  shows "accounts_ok (d\<lparr>sessions := ss\<rparr>)"
  using assms by (auto simp: accounts_defs wf_users_def)

lemma accounts_ok_session_Create:
  assumes ok: "accounts_ok d" and t: "session_Create now newID u h ex d = Inr (r, d')"
  shows "accounts_ok d'"
proof -
  let ?s = "\<lparr>s_id = newID, s_user = u, token_hash = h, expires_at = ex, s_created_at = trunc_hour now\<rparr>"
  have d': "d' = d\<lparr>sessions := sql_insert ?s (sessions d)\<rparr>" "find_user d u \<noteq> None" "h \<notin> token_hash ` set (sessions d)"
    using t by (auto simp: session_Create_def split: if_splits)
  have "u \<in> u_id ` set (users d)" using d'(2) by (auto dest: find_user_Some)
  then show ?thesis unfolding d'(1)
    using ok d'(3) by (intro accounts_ok_sessions) (auto simp: accounts_defs distinct_map_insert)
qed

lemma accounts_ok_ExtendByToken:
  assumes ok: "accounts_ok d" and t: "ExtendByToken E tk ex d = Inr (r, d')"
  shows "accounts_ok d'"
proof -
  obtain p where d': "d' = d\<lparr>sessions := sql_update p (\<lambda>s. s\<lparr>expires_at := ex\<rparr>) (sessions d)\<rparr>"
    using t by (auto simp: ExtendByToken_def Let_def split: if_splits)
  have m: "map token_hash (sql_update p (\<lambda>s. s\<lparr>expires_at := ex\<rparr>) (sessions d)) = map token_hash (sessions d)"
    "map s_user (sql_update p (\<lambda>s. s\<lparr>expires_at := ex\<rparr>) (sessions d)) = map s_user (sessions d)"
    by (rule map_sql_update; simp)+
  show ?thesis unfolding d'
    by (rule accounts_ok_sessions [OF ok], unfold m set_map_key [OF m(2)]) (use ok in \<open>auto simp: accounts_defs\<close>)
qed

lemma accounts_ok_delete_sessions:
  "accounts_ok d \<Longrightarrow> accounts_ok (d\<lparr>sessions := sql_delete p (sessions d)\<rparr>)"
  by (rule accounts_ok_sessions) (auto simp: accounts_defs distinct_map_delete)

lemma queue_deletion_users: "d_user ` set (queue_deletion now u q) = insert u (d_user ` set q)"
  by (auto simp: queue_deletion_def)

lemma distinct_queue_deletion: "distinct (map d_user q) \<Longrightarrow> distinct (map d_user (queue_deletion now u q))"
  by (auto simp: queue_deletion_def intro!: distinct_map_insert)

text \<open>Accepting a deletion marks the account and queues its job in one transaction.\<close>

lemma image_marked:
  assumes "\<And>r. g (f r) = g r" "\<And>r. q (f r)"
  shows "g ` {r \<in> set (sql_update p f t). q r} = g ` {r \<in> set t. p r \<or> q r}"
proof -
  have eq: "{r \<in> set (sql_update p f t). q r} = (\<lambda>r. if p r then f r else r) ` {r \<in> set t. p r \<or> q r}"
    unfolding set_sql_update using assms(2) by (auto split: if_splits)
  show ?thesis unfolding eq image_image by (rule image_cong) (simp_all add: assms(1))
qed

lemma accounts_ok_Accept:
  assumes ok: "accounts_ok d" and t: "Accept E now u shared h d = Inr (r, d')"
  shows "accounts_ok d'"
proof -
  have rc: "distinct (map receipt_hash rs)"
    if "rs = receipts d \<or> h \<notin> receipt_hash ` set (receipts d) \<and>
      rs = sql_insert \<lparr>receipt_hash = h, abandoned = False, accepted_at = trunc_hour now\<rparr> (receipts d)" for rs
    using that ok by (auto simp: accounts_defs intro: distinct_map_insert)
  from t show ?thesis
  proof (cases rule: Accept_Inr)
    case (again rs usr)
    show ?thesis using ok rc [OF again(4)] by (simp add: accounts_defs wf_users_def again(3))
  next
    case (accepted rs usr)
    let ?f = "\<lambda>r. r\<lparr>deleting_at := Some (trunc_hour now)\<rparr>"
    have m: "map u_id (users d') = map u_id (users d)" "map email_hmac (users d') = map email_hmac (users d)"
      "map u_miuchio_id (users d') = map u_miuchio_id (users d)"
      by (simp add: accepted(5), rule map_sql_update, simp)+
    have "wf_users d'" using ok by (simp add: accounts_defs wf_users_def m)
    moreover have "users_ok (d\<lparr>sessions := sql_delete (\<lambda>s. s_user s = u) (sessions d)\<rparr>)"
      using accounts_ok_delete_sessions [OF ok] by (simp add: accounts_ok_def)
    ultimately have "users_ok d'" by (simp add: users_ok_def set_map_key [OF m(1)]) (simp add: accepted(5))
    moreover have "opks_ok d'" using ok by (simp add: accounts_defs set_map_key [OF m(1)]) (simp add: accepted(5))
    moreover have "jobs_ok d'"
    proof -
      have marked: "users d' = sql_update (\<lambda>r. u_id r = u) ?f (users d)" by (simp add: accepted(5))
      have u: "u \<in> u_id ` set (users d)" using find_user_Some [OF accepted(1)] by auto
      have "u_id ` {r \<in> set (users d'). deleting_at r \<noteq> None} = insert u (u_id ` {r \<in> set (users d). deleting_at r \<noteq> None})"
      proof -
        have "u_id ` {r \<in> set (users d'). deleting_at r \<noteq> None} =
            u_id ` {r \<in> set (users d). u_id r = u \<or> deleting_at r \<noteq> None}"
          unfolding marked by (rule image_marked) simp_all
        also have "\<dots> = u_id ` {r \<in> set (users d). u_id r = u} \<union> u_id ` {r \<in> set (users d). deleting_at r \<noteq> None}"
          by blast
        also have "u_id ` {r \<in> set (users d). u_id r = u} = {u}" using u by blast
        finally show ?thesis by simp
      qed
      moreover have "deletions d' = queue_deletion now u (deletions d)" "receipts d' = rs" by (simp_all add: accepted(5))
      ultimately show ?thesis using ok rc [OF accepted(3)]
        by (simp add: accounts_defs queue_deletion_users distinct_queue_deletion)
    qed
    ultimately show ?thesis by (simp add: accounts_ok_def)
  qed
qed

lemma accounts_ok_PopRandom: "accounts_ok d \<Longrightarrow> accounts_ok (snd (PopRandom pick u d))"
proof -
  assume ok: "accounts_ok d"
  have "opks_used d (snd (PopRandom pick u d))"
  proof (cases "fresh_opks u d")
    case Nil
    then show ?thesis by (intro opks_used_same) (simp add: PopRandom_def)
  next
    case (Cons r rs)
    then show ?thesis unfolding opks_used_def
      by (intro exI [of _ "\<lambda>x. o_id x = o_id (fresh_opks u d ! (pick mod length (fresh_opks u d)))"])
        (simp add: PopRandom_def Let_def)
  qed
  moreover have "users (snd (PopRandom pick u d)) = users d" "sessions (snd (PopRandom pick u d)) = sessions d"
    "deletions (snd (PopRandom pick u d)) = deletions d" "receipts (snd (PopRandom pick u d)) = receipts d"
    by (cases "fresh_opks u d"; simp add: PopRandom_def Let_def)+
  ultimately show ?thesis using ok opks_used_ok by (simp add: accounts_defs wf_users_def)
qed

lemma accounts_ok_receipts:
  assumes ok: "accounts_ok d"
  shows "accounts_ok (snd (repo_AbandonReceipt now h d))" "accounts_ok (PruneReceipts cutoff d)"
proof -
  have rs: "accounts_ok (d\<lparr>receipts := rs\<rparr>)" if "distinct (map receipt_hash rs)" for rs
    using ok that by (simp add: accounts_defs wf_users_def)
  have d: "distinct (map receipt_hash (receipts d))" using ok by (simp add: accounts_defs)
  show "accounts_ok (snd (repo_AbandonReceipt now h d))"
  proof (cases "find_receipt h d")
    case None
    then have "h \<notin> receipt_hash ` set (receipts d)" by (auto simp: find_receipt_def find_None_all)
    then show ?thesis using d None by (auto simp: repo_AbandonReceipt_def intro!: rs distinct_map_insert)
  qed (simp add: repo_AbandonReceipt_def ok)
  show "accounts_ok (PruneReceipts cutoff d)"
    unfolding PruneReceipts_def by (intro rs distinct_map_delete d)
qed

lemma accounts_ok_deletions:
  assumes "accounts_ok d" and m: "map d_user q = map d_user (deletions d)"
  shows "accounts_ok (d\<lparr>deletions := q\<rparr>)"
  using assms(1) by (simp add: accounts_defs wf_users_def m set_map_key [OF m])

lemma accounts_ok_ClaimDue: "accounts_ok d \<Longrightarrow> accounts_ok (snd (ClaimDue now d))"
proof -
  assume ok: "accounts_ok d"
  show ?thesis
  proof (cases "due_jobs now d")
    case Nil
    then show ?thesis using ok by (simp add: ClaimDue_def)
  next
    case (Cons j js)
    let ?q = "sql_update (\<lambda>r. d_user r = d_user j) (\<lambda>r. r\<lparr>d_attempts := d_attempts r + 1,
                 d_next_attempt_at := now + deletion_backoff (d_attempts r)\<rparr>) (deletions d)"
    have m: "map d_user ?q = map d_user (deletions d)" by (rule map_sql_update) simp
    show ?thesis using accounts_ok_deletions [OF ok m] Cons by (simp add: ClaimDue_def)
  qed
qed

lemma accounts_ok_delete_user:
  assumes ok: "accounts_ok d"
  shows "accounts_ok (delete_user u d)"
proof -
  have "users_ok (delete_user u d)" using ok
    by (auto simp: accounts_defs wf_users_def delete_user_def distinct_map_delete)
  moreover have "opks_ok (delete_user u d)" using ok
    by (auto simp: accounts_defs delete_user_def distinct_map_delete)
  moreover have "jobs_ok (delete_user u d)"
  proof -
    have "d_user ` set (deletions (delete_user u d)) = d_user ` set (deletions d) - {u}" by (auto simp: delete_user_def)
    moreover have "u_id ` {r \<in> set (users (delete_user u d)). deleting_at r \<noteq> None} =
        u_id ` {r \<in> set (users d). deleting_at r \<noteq> None} - {u}" by (auto simp: delete_user_def)
    ultimately show ?thesis using ok by (simp add: accounts_defs) (simp add: delete_user_def distinct_map_delete)
  qed
  ultimately show ?thesis by (simp add: accounts_ok_def)
qed

lemma accounts_ok_RemoveMembership:
  assumes wf: "wf d" and ok: "accounts_ok d"
  shows "accounts_ok (snd (run_tx (RemoveMembership E now u a) d))"
proof -
  have "same_accounts d (snd (run_tx (RemoveMembership E now u a) d))"
    using wf by (cases rule: RemoveMembership_Inr [where E = E and now = now and u = u and a = a])
      (simp_all add: same_accounts_def enqueueObjectCleanup_def drop_album_def drop_identity_def require_rotation_def)
  then show ?thesis using ok accounts_ok_same by blast
qed

lemma accounts_ok_tx:
  assumes "accounts_ok d" "\<And>r d'. t d = Inr (r, d') \<Longrightarrow> accounts_ok d'"
  shows "accounts_ok (snd (run_tx t d))"
  using assms by (rule run_tx_inv [of accounts_ok])

lemma account_exec_ok:
  assumes wf: "wf d" and ok: "accounts_ok d"
  shows "accounts_ok (account_exec E now x d)"
proof (cases x)
  case (DFinish u)
  then show ?thesis using ok
    by (cases "find_user d u") (simp_all add: FinishAccount_def accounts_ok_delete_user)
next
  case (SDelete t)
  then show ?thesis using accounts_ok_delete_sessions [OF ok] by (simp add: DeleteByToken_def)
next
  case (DRemove u a)
  then show ?thesis using accounts_ok_RemoveMembership [OF wf ok] by simp
qed (simp_all only: account_exec.simps accounts_ok_PopRandom [OF ok] accounts_ok_receipts [OF ok] accounts_ok_ClaimDue [OF ok],
  (rule accounts_ok_tx [OF ok], erule accounts_ok_user_Create [OF ok] accounts_ok_Publish [OF ok]
    accounts_ok_RotateSPK [OF ok] accounts_ok_CreateBatchAtomic [OF ok] accounts_ok_session_Create [OF ok]
    accounts_ok_ExtendByToken [OF ok] accounts_ok_Accept [OF ok])+)

lemma accounts_ok_exec: "wf d \<Longrightarrow> accounts_ok d \<Longrightarrow> accounts_ok (exec E now x d)"
  by (cases x) (simp_all add: album_exec_accounts_ok media_exec_accounts_ok account_exec_ok)

end
