(* ===== verification/Reachable.thy ===== *)
theory Reachable
  imports Accounts Rotation Roster
begin

text \<open>
  The reachable states of the server. Every invariant of the component theories is put together to
  one, the step of the server keeps it, and so it holds after every run, whatever the requests, the
  clock, the random values and the interleaving of the transactions were.
\<close>

definition consistent :: "db \<Rightarrow> bool" where
  "consistent d \<longleftrightarrow> wf d \<and> epochs_ok d \<and> roster_ok d \<and> seq_ok d \<and> keys_ok d \<and> accounts_ok d"

lemma consistentD:
  assumes "consistent d"
  shows "wf d" "epochs_ok d" "roster_ok d" "seq_ok d" "keys_ok d" "accounts_ok d"
  using assms by (simp_all add: consistent_def)

lemma consistent_exec:
  assumes "consistent d" "op_ok E x d"
  shows "consistent (exec E now x d)"
  using assms by (simp add: consistent_def wf_exec epoch_law.preserved roster_law.preserved
      feed_law.preserved keys_law.preserved accounts_ok_exec)

lemma consistent_empty: "consistent empty_db"
  unfolding consistent_def
proof (intro conjI)
  show "epochs_ok empty_db" by (simp add: epochs_ok_def album_epochs_def empty_db_def)
  show "roster_ok empty_db"
    by (simp add: roster_ok_def empty_db_def album_ids_def active_admins_def active_count_def)
  show "seq_ok empty_db" by (simp add: seq_defs empty_db_def)
  show "keys_ok empty_db" by (simp add: keys_ok_def total_keys_def live_keys_def empty_db_def)
  show "accounts_ok empty_db" by (simp add: accounts_defs wf_users_def empty_db_def)
qed (rule wf_empty)

interpretation server: transition_system "step E" consistent for E
  by unfold_locales (auto simp: step_def consistent_exec)

lemma consistent_run: "consistent (run E ops)"
  unfolding run_def using consistent_empty by (rule server.inv_run)

lemmas reachable = consistentD [OF consistent_run]

text \<open>Runs are extended at the end.\<close>

lemma run_append: "run E (xs @ ys) = fold (step E) ys (run E xs)"
  by (simp add: run_def)

lemma run_extend: "op_ok E x (run E ops) \<Longrightarrow> run E (ops @ [(now, x)]) = exec E now x (run E ops)"
  by (simp add: run_append step_def)

end
