(* ===== verification/Freeze.thy ===== *)
theory Freeze
  imports Reachable
begin

text \<open>
  What a pending rotation blocks. A departure leaves a durable mark on the album, which only a new
  epoch of that album clears; while it stands no upload is reserved or confirmed and nobody is
  invited.
\<close>

definition frozen :: "uuid \<Rightarrow> db \<Rightarrow> bool" where
  "frozen a d \<longleftrightarrow> (\<forall>al\<in>set (albums d). a_id al = a \<longrightarrow> rotation_required al)"

text \<open>The operations that can end the freeze: a new epoch of the album, or a new album under its
  identifier once it is gone.\<close>

fun settles :: "uuid \<Rightarrow> op \<Rightarrow> bool" where
  "settles a (Al (AInsertEpoch ie)) \<longleftrightarrow> ie_album ie = a"
| "settles a (Al (ACreate b token nameCT u)) \<longleftrightarrow> b = a"
| "settles a _ \<longleftrightarrow> False"

lemma ball_sql_update: "(\<forall>r\<in>set (sql_update p f t). Q r) \<longleftrightarrow> (\<forall>r\<in>set t. Q (if p r then f r else r))"
  by (simp only: sql_update_def set_map ball_simps)

lemma frozen_keep: "frozen a d \<Longrightarrow> albums d' = albums d \<Longrightarrow> frozen a d'"
  by (simp add: frozen_def)

lemma frozen_update:
  "frozen a d \<Longrightarrow> albums d' = sql_update p f (albums d) \<Longrightarrow>
    (\<And>al. a_id (f al) = a_id al) \<Longrightarrow> (\<And>al. a_id al = a \<Longrightarrow> rotation_required al \<Longrightarrow> p al \<Longrightarrow> rotation_required (f al)) \<Longrightarrow> frozen a d'"
  by (auto simp: frozen_def split: if_splits)

lemma frozen_require_rotation: "frozen a d \<Longrightarrow> frozen a (require_rotation b d)"
  by (erule frozen_update [of _ _ _ "\<lambda>al. a_id al = b" "\<lambda>al. al\<lparr>rotation_required := True\<rparr>"]) (simp_all add: require_rotation_def)

lemma frozen_required: "frozen a (require_rotation a d)"
proof -
  have "albums (require_rotation a d) = sql_update (\<lambda>al. a_id al = a) (\<lambda>al. al\<lparr>rotation_required := True\<rparr>) (albums d)"
    by (simp add: require_rotation_def)
  then show ?thesis unfolding frozen_def by (simp only: ball_sql_update) (simp split: if_split)
qed

lemma RevokeMemberTx_albums:
  assumes "RevokeMemberTx now a c t d = Inr ((r, already), d')"
  shows "albums d' = (if already then albums d else albums (require_rotation a d))"
proof (rule RevokeMemberTx_Inr [OF assms])
  assume "already" "d' = d"
  then show ?thesis by simp
next
  assume "\<not> already" and d': "d' = snd (removeAvatars now (\<lambda>v. av_album v = a \<and> av_token v = t)
    (require_rotation a (revoke_row now a t d)))"
  moreover have "albums d' = albums (require_rotation a d)"
    unfolding d' remove_fields by (simp add: require_rotation_def revoke_row_def)
  ultimately show ?thesis by simp
qed

lemma frozen_revoked:
  "RevokeMemberTx now a c t d = Inr ((r, False), d') \<Longrightarrow> frozen a d'"
  using frozen_keep [OF frozen_required, of d' a d] RevokeMemberTx_albums [of now a c t d r False d'] by simp

interpretation freeze_law: album_invariant "frozen a" "\<lambda>x. \<not> settles a x" for a
proof (unfold_locales, goal_cases)
  case 1
  then show ?case by (elim frozen_keep) (simp add: same_albums_fields)
next
  case (2 d E now newID token nameCT u al t d')
  show ?case using 2(3) by (rule CreateWithAdmin_Inr) (use 2(2,5) in \<open>auto simp: frozen_def\<close>)
next
  case 3
  then show ?case by (intro frozen_keep [OF 3(2)]) (simp_all add: DeliverMember_fields [OF 3(3)])
next
  case 4
  then show ?case by (intro frozen_keep [OF 4(2)]) (simp_all add: MarkReceived_fields [OF 4(3)])
next
  case (5 d E now ie u' d')
  show ?case using 5(3) by (rule InsertEpoch_Inr) (use 5(2,5) in \<open>auto simp: frozen_def split: if_splits\<close>)
next
  case (6 d now b c t r already d')
  then show ?case using RevokeMemberTx_albums [OF 6(3)] frozen_require_rotation [OF 6(2), of b]
    by (cases already) (auto elim: frozen_keep)
next
  case (7 d now b n)
  then show ?case by (auto simp: UpdateName_def frozen_def)
next
  case (9 d b now)
  then show ?case by (auto simp: frozen_def db_fields)
next
  case (11 d i now)
  then show ?case
    by (intro frozen_keep [OF frozen_require_rotation [OF 11(2)]]) (simp add: db_fields)
next
  case (12 d newID newRes m tag now row d')
  then show ?case by (intro frozen_keep [OF 12(2)]) (simp_all add: ReserveUploadRow_fields [OF 12(4)])
next
  case (13 d x b res g d')
  show ?case using 13(3)
    by (rule MarkConfirmed_Inr [OF _ wfD(4) [OF 13(1)]]) (use 13(2) in \<open>auto simp: frozen_def\<close>)
next
  case (17 d v now v' d')
  then show ?case by (intro frozen_keep [OF 17(2)]) (simp_all add: avatar_Reserve_fields [OF 17(4)])
next
  case (18 d now b t x ks d')
  then show ?case by (intro frozen_keep [OF 18(2)]) (simp_all add: avatar_Confirm_fields [OF 18(3)])
qed (erule frozen_keep; simp add: db_fields)+

section \<open>What a frozen album refuses\<close>

lemma frozen_rotation_required:
  assumes "frozen a d" "a \<in> album_ids d"
  shows "RotationRequiredExpr d a = Some True"
proof -
  obtain al where al: "find_album d a = Some al"
    using assms(2) find_album_None [of d a] by (auto simp: album_ids_def)
  then have "rotation_required al" using assms(1) find_album_Some [OF al] by (auto simp: frozen_def)
  then show ?thesis using al by (simp add: RotationRequiredExpr_def)
qed

lemma frozen_no_reserve:
  assumes "frozen (md_album m) d"
  obtains e where "ReserveUploadRow now newID newRes m tag d = Inl e"
proof (cases "ReserveUploadRow now newID newRes m tag d")
  case (Inr x)
  then obtain row d' where "ReserveUploadRow now newID newRes m tag d = Inr (row, d')" by (cases x) auto
  then show thesis
    by (rule ReserveUploadRow_Inr)
      (use assms in \<open>auto dest!: frozen_rotation_required simp: album_ids_def split: if_splits\<close>)
qed (rule that)

lemma frozen_no_confirm:
  assumes "frozen a d" "wf d"
  obtains e where "MarkConfirmed x a res d = Inl e"
proof (cases "MarkConfirmed x a res d")
  case (Inr y)
  then obtain g d' where "MarkConfirmed x a res d = Inr (g, d')" by (cases y) auto
  then show thesis
  proof (rule MarkConfirmed_Inr [OF _ wfD(4) [OF assms(2)]])
    fix al assume "find_album d a = Some al" "RotationRequiredExpr d a = Some False"
    moreover from this have "a \<in> album_ids d" using find_album_None [of d a] by (auto simp: album_ids_def)
    ultimately show thesis using frozen_rotation_required [OF assms(1)] by simp
  qed
qed (rule that)

lemma frozen_no_invite:
  assumes "frozen (dm_album inp) d"
  obtains e where "DeliverMember E now fresh inp d = Inl e"
proof (cases "DeliverMember E now fresh inp d")
  case (Inr y)
  then obtain t d' where "DeliverMember E now fresh inp d = Inr (t, d')" by (cases y) auto
  then show thesis
  proof (rule DeliverMember_Inr)
    assume "recheckUnderLock E inp d = Inr ()" "dm_album inp \<in> a_id ` set (albums d)"
    then show thesis using frozen_rotation_required [OF assms]
      by (auto elim!: recheckUnderLock_Inr simp: album_ids_def)
  qed
qed (rule that)

end
