(* ===== verification/Coverage.thy ===== *)
theory Coverage
  imports Freeze
begin

text \<open>
  Key coverage: every active member of an album has a wrapped key for every epoch of the album, and
  everything that names an epoch (a wrap, a photo) names one that exists. So whatever is in an
  album, its members can read it, whichever rotations, departures and returns led there.
\<close>

section \<open>The epochs, wraps, photos and tokens as sets\<close>

definition epoch_pairs :: "db \<Rightarrow> (uuid \<times> int) set" where
  "epoch_pairs d = (\<lambda>e. (e_album e, epoch e)) ` set (epochs d)"

definition wrap_keys :: "db \<Rightarrow> (uuid \<times> int \<times> bytes) set" where
  "wrap_keys d = wrap_key ` set (wraps d)"

definition media_pairs :: "db \<Rightarrow> (uuid \<times> int) set" where
  "media_pairs d = (\<lambda>r. (md_album r, epoch_tag r)) ` set (medias d)"

definition tokens :: "db \<Rightarrow> bytes set" where
  "tokens d = i_token ` set (amids d)"

lemmas coverage_sets = epoch_pairs_def wrap_keys_def media_pairs_def tokens_def

definition covered :: "db \<Rightarrow> bool" where
  "covered d \<longleftrightarrow>
     (\<forall>(a, t)\<in>active_pairs d. \<forall>e. (a, e) \<in> epoch_pairs d \<longrightarrow> (a, e, t) \<in> wrap_keys d) \<and>
     (\<forall>(a, e, t)\<in>wrap_keys d. (a, e) \<in> epoch_pairs d) \<and>
     media_pairs d \<subseteq> epoch_pairs d \<and>
     (\<forall>t\<in>tokens d. length t = tokenLen)"

definition coverage_ok :: "db \<Rightarrow> bool" where
  "coverage_ok d \<longleftrightarrow> epochs_ok d \<and> covered d"

lemma epoch_pairs_album: "(a, e) \<in> epoch_pairs d \<longleftrightarrow> e \<in> set (album_epochs d a)"
  by (auto simp: epoch_pairs_def album_epochs_def)

lemma epoch_pairs_range:
  assumes "epochs_ok d"
  shows "(a, e) \<in> epoch_pairs d \<longleftrightarrow> 0 \<le> e \<and> e \<le> max_epoch d a"
proof -
  have "set (album_epochs d a) = int ` {..<length (album_epochs d a)}"
    using assms by (metis epochs_ok_def list.set_map atLeast_upt)
  then show ?thesis unfolding epoch_pairs_album max_epoch_length [OF assms]
    by (auto simp: image_iff intro: bexI [of _ "nat e"])
qed

lemma covered_weaken:
  assumes "covered d" "active_pairs d' \<subseteq> active_pairs d" "epochs d' = epochs d" "wrap_keys d' = wrap_keys d"
    "media_pairs d' \<subseteq> epoch_pairs d" "tokens d' \<subseteq> tokens d"
  shows "covered d'"
  using assms unfolding covered_def epoch_pairs_def by (simp add: split_beta) blast

lemma covered_same:
  assumes "covered d" "members d' = members d" "epochs d' = epochs d" "wraps d' = wraps d"
    "media_pairs d' \<subseteq> epoch_pairs d" "tokens d' = tokens d"
  shows "covered d'"
  using assms by (intro covered_weaken [OF assms(1)]) (simp_all add: active_pairs_def wrap_keys_def)

lemma covered_media: "covered d \<Longrightarrow> media_pairs d \<subseteq> epoch_pairs d"
  by (simp add: covered_def)

lemma coverage_same:
  assumes "coverage_ok d" "epochs_ok d'" "members d' = members d" "epochs d' = epochs d" "wraps d' = wraps d"
    "media_pairs d' \<subseteq> media_pairs d" "tokens d' = tokens d"
  shows "coverage_ok d'"
  using assms covered_same [of d d'] covered_media [of d] by (auto simp: coverage_ok_def)

section \<open>Joining, creating, leaving\<close>

lemma active_pairs_insert:
  "members d' = sql_insert m (members d) \<Longrightarrow> revoked_at m = None \<Longrightarrow>
    active_pairs d' = insert (m_album m, m_token m) (active_pairs d)"
  by (auto simp: active_pairs_def)

lemma active_pairs_reactivate: "active_pairs (reactivate_member a t d) \<subseteq> insert (a, t) (active_pairs d)"
proof
  fix x assume "x \<in> active_pairs (reactivate_member a t d)"
  then obtain r where r: "r \<in> set (members d)"
    "x = (m_album r, m_token r) \<and> (\<not> (m_album r = a \<and> m_token r = t) \<longrightarrow> revoked_at r = None)"
    by (auto simp: active_pairs_def reactivate_member_def)
  then show "x \<in> insert (a, t) (active_pairs d)"
    by (cases "m_album r = a \<and> m_token r = t") (auto simp: active_pairs_def)
qed

lemma covered_create:
  assumes ok: "coverage_ok d" and t: "CreateWithAdmin E now newID token nameCT u d = Inr ((al, t), d')"
    and len: "length token = tokenLen"
  shows "covered d'"
  using t
proof (cases rule: CreateWithAdmin_Inr)
  case (1 usr i m)
  have ap: "active_pairs d' = insert (newID, token) (active_pairs d)"
    using active_pairs_insert [of d' m d] 1 by simp
  have tk: "tokens d' = insert token (tokens d)" using 1 by (simp add: tokens_def)
  have same: "epoch_pairs d' = epoch_pairs d" "wrap_keys d' = wrap_keys d" "media_pairs d' = media_pairs d"
    by (simp_all add: coverage_sets CreateWithAdmin_fields [OF t])
  have none: "(newID, e) \<notin> epoch_pairs d" for e
    using ok 1(5) by (auto simp: coverage_ok_def epochs_ok_def epoch_pairs_def album_ids_def)
  show ?thesis using ok none len by (auto simp: coverage_ok_def covered_def ap tk same)
qed

lemma joined_active:
  assumes "joined_state a t d d1"
  shows "active_pairs d1 \<subseteq> insert (a, t) (active_pairs d)" "tokens d1 \<subseteq> insert t (tokens d)"
    "epochs d1 = epochs d" "wraps d1 = wraps d" "medias d1 = medias d"
proof -
  consider "d1 = reactivate_member a t d"
    | i where "i_token i = t" "d1 = d\<lparr>amids := sql_insert i (amids d), members := sql_insert
        \<lparr>m_album = a, m_token = t, role = Member, revoked_at = None, m_name_ct = None\<rparr> (members d)\<rparr>"
    using assms by (auto simp: joined_state_def)
  then have "active_pairs d1 \<subseteq> insert (a, t) (active_pairs d) \<and> tokens d1 \<subseteq> insert t (tokens d) \<and>
      epochs d1 = epochs d \<and> wraps d1 = wraps d \<and> medias d1 = medias d"
  proof cases
    case 1
    then show ?thesis using active_pairs_reactivate [of a t d] by (auto simp: tokens_def reactivate_member_def)
  next
    case 2
    then show ?thesis
      using active_pairs_insert [of d1 "\<lparr>m_album = a, m_token = t, role = Member, revoked_at = None, m_name_ct = None\<rparr>" d]
      by (auto simp: tokens_def)
  qed
  then show "active_pairs d1 \<subseteq> insert (a, t) (active_pairs d)" "tokens d1 \<subseteq> insert t (tokens d)"
    "epochs d1 = epochs d" "wraps d1 = wraps d" "medias d1 = medias d" by simp_all
qed

lemma joined_token:
  assumes "DeliverMember E now fresh inp d = Inr (t, d')" "wf d"
  shows "t = fresh \<or> t \<in> tokens d"
proof -
  have "t = fresh \<or> find_member d (dm_album inp) t \<noteq> None"
  proof (cases "membership_of d (lhash E (dm_user inp)) (dm_album inp)")
    case (Some im)
    then show ?thesis using assms(1) membership_of_Some(4) [of d _ _ "fst im" "snd im"]
      by (auto simp: DeliverMember_def Let_def split: option.splits sum.splits prod.splits if_splits elim!: deliver_wraps_Inr)
  next
    case None
    then show ?thesis using assms(1)
      by (auto simp: DeliverMember_def Let_def split: option.splits sum.splits if_splits elim!: deliver_wraps_Inr)
  qed
  then show ?thesis using wf_member_pair [OF assms(2)]
    by (auto simp: tokens_def token_pair dest!: find_member_Some)
qed

lemma envelope_epochs:
  assumes "map env_epoch es = map int [0..<length es]" "es \<noteq> []" "env_epoch (last es) = k"
  shows "env_epoch ` set es = {0..k}"
proof -
  have "k = last (map int [0..<length es])" using assms by (metis last_map)
  then have k: "k = int (length es) - 1" using assms(2) by (cases es) (simp_all add: last_map)
  have "env_epoch ` set es = int ` {0..<length es}" using assms(1) by (metis atLeastLessThan_upt list.set_map)
  also have "\<dots> = {0..k}" using assms(2) k image_int_atLeastLessThan [of 0 "length es"] by auto
  finally show ?thesis .
qed

lemma covered_deliver:
  assumes ok: "coverage_ok d" and wf: "wf d" and t: "DeliverMember E now fresh inp d = Inr (t, d')"
    and adm: "album_op_ok E (ADeliver fresh inp) d"
  shows "covered d'"
  using t
proof (cases rule: DeliverMember_Inr)
  case (1 d1)
  let ?a = "dm_album inp"
  note j = joined_active [OF 1(4)]
  obtain us os where d': "d' = d1\<lparr>wraps := us, opks := os\<rparr>"
    and us: "wrap_key ` set us = (\<lambda>e. (?a, env_epoch e, t)) ` set (dm_envelopes inp) \<union> wrap_key ` set (wraps d1)"
    using 1(5) by (rule deliver_wraps_Inr)
  have env: "env_epoch ` set (dm_envelopes inp) = {0..max_epoch d ?a}"
    using 1(1) adm by (elim recheckUnderLock_Inr) (simp add: envelope_epochs)
  have W: "wrap_keys d' = {(?a, e, t) | e. 0 \<le> e \<and> e \<le> max_epoch d ?a} \<union> wrap_keys d"
  proof -
    have "(\<lambda>e. (?a, env_epoch e, t)) ` set (dm_envelopes inp) = (\<lambda>e. (?a, e, t)) ` {0..max_epoch d ?a}"
      unfolding env [symmetric] image_image ..
    then show ?thesis by (auto simp: wrap_keys_def d' us j(4))
  qed
  have same: "epoch_pairs d' = epoch_pairs d" "media_pairs d' = media_pairs d"
    by (simp_all add: coverage_sets d' j(3,5))
  have A: "active_pairs d' \<subseteq> insert (?a, t) (active_pairs d)" using j(1) by (simp add: d' active_pairs_def)
  have T: "tokens d' \<subseteq> insert t (tokens d)" using j(2) by (simp add: d' tokens_def)
  have len: "length t = tokenLen"
    using joined_token [OF t wf] ok adm by (auto simp: coverage_ok_def covered_def)
  have Ep: "(?a, e) \<in> epoch_pairs d \<longleftrightarrow> 0 \<le> e \<and> e \<le> max_epoch d ?a" for e
    using ok by (simp add: coverage_ok_def epoch_pairs_range)
  have c: "covered d" using ok by (simp add: coverage_ok_def)
  have "(a, e, u) \<in> wrap_keys d'" if "(a, u) \<in> active_pairs d'" "(a, e) \<in> epoch_pairs d" for a e u
  proof (cases "(a, u) = (?a, t)")
    case True
    then show ?thesis using that(2) Ep by (auto simp: W)
  next
    case False
    then have "(a, u) \<in> active_pairs d" using that(1) A by blast
    then show ?thesis using that(2) c by (auto simp: W covered_def)
  qed
  moreover have "(a, e) \<in> epoch_pairs d" if "(a, e, u) \<in> wrap_keys d'" for a e u
    using that c Ep by (auto simp: W covered_def)
  moreover have "length u = tokenLen" if "u \<in> tokens d'" for u
    using that T len c by (auto simp: covered_def)
  ultimately show ?thesis using c by (auto simp: covered_def same)
qed

section \<open>A new epoch\<close>

lemma concat_blocks:
  assumes "concat xs = concat ys" "\<forall>x\<in>set xs \<union> set ys. length x = n" "0 < n"
  shows "xs = ys"
  using assms(1,2)
proof (induction xs arbitrary: ys)
  case Nil
  then show ?case using assms(3) by (cases ys) auto
next
  case (Cons x xs)
  then obtain y ys' where ys: "ys = y # ys'" using assms(3) by (cases ys) auto
  then have "x @ concat xs = y @ concat ys'" "length x = length y" using Cons.prems by auto
  then have "x = y" "concat xs = concat ys'" by simp_all
  then show ?case using Cons ys by auto
qed

text \<open>The hashed list determines the recipients, as all tokens have the same size.\<close>

lemma member_set_preimage_inject:
  assumes "member_set_preimage xs = member_set_preimage ys" "\<forall>t\<in>set xs \<union> set ys. length t = tokenLen"
  shows "mset xs = mset ys"
proof -
  have "concat (sort xs) = concat (sort ys)" using assms(1) by (simp add: member_set_preimage_def)
  then have "sort xs = sort ys" by (rule concat_blocks [where n = tokenLen]) (use assms(2) in auto)
  then show ?thesis by (metis mset_sort)
qed

lemma set_active_tokens: "set (active_tokens d a) = {t. (a, t) \<in> active_pairs d}"
  by (auto simp: active_tokens_def active_pairs_def is_active_def)

lemma active_token_known: "wf d \<Longrightarrow> (a, t) \<in> active_pairs d \<Longrightarrow> t \<in> tokens d"
  using active_pair_amid [OF wfD(3)] by (auto simp: tokens_def token_pair)

lemma epoch_recipients:
  assumes ok: "coverage_ok d" and wf: "wf d" and t: "InsertEpoch E now inp d = Inr (u, d')"
    and adm: "album_op_ok E (AInsertEpoch inp) d"
  shows "mset (map wi_recipient (ie_wraps inp)) = mset (active_tokens d (ie_album inp))"
  using t
proof (cases rule: InsertEpoch_Inr)
  case (1 m er)
  have "member_set_preimage (map wi_recipient (ie_wraps inp)) = member_set_preimage (active_tokens d (ie_album inp))"
    using adm 1(6) by (simp add: no_collision_def MemberSetHash_def)
  then show ?thesis
    using adm ok active_token_known [OF wf, of "ie_album inp"]
    by (intro member_set_preimage_inject)
      (auto simp: set_active_tokens coverage_ok_def covered_def simp del: epoch_consts)
qed

lemma covered_InsertEpoch:
  assumes ok: "coverage_ok d" and wf: "wf d" and t: "InsertEpoch E now inp d = Inr (u, d')"
    and adm: "album_op_ok E (AInsertEpoch inp) d"
  shows "covered d'"
  using t
proof (cases rule: InsertEpoch_Inr)
  case (1 m er)
  let ?a = "ie_album inp" and ?e = "ie_epoch inp"
  have rec: "wi_recipient ` set (ie_wraps inp) = {t. (?a, t) \<in> active_pairs d}"
    using mset_eq_setD [OF epoch_recipients [OF assms]] by (simp add: set_active_tokens)
  have W: "wrap_keys d' = wrap_keys d \<union> {(?a, ?e, t) | t. (?a, t) \<in> active_pairs d}"
  proof -
    have "wrap_key ` set (map (wrap_row now inp) (ie_wraps inp)) = (\<lambda>t. (?a, ?e, t)) ` (wi_recipient ` set (ie_wraps inp))"
      by (simp add: image_image wrap_key_def wrap_row_def)
    then have "wrap_keys d' = wrap_keys d \<union> (\<lambda>t. (?a, ?e, t)) ` {t. (?a, t) \<in> active_pairs d}"
      unfolding rec by (simp add: wrap_keys_def 1(11) image_Un)
    then show ?thesis by auto
  qed
  have Ep: "epoch_pairs d' = insert (?a, ?e) (epoch_pairs d)" by (simp add: epoch_pairs_def 1(11) 1(7,8))
  have same: "active_pairs d' = active_pairs d" "media_pairs d' = media_pairs d" "tokens d' = tokens d"
    by (simp_all add: active_pairs_def media_pairs_def tokens_def 1(11))
  have "covered d" using ok by (simp add: coverage_ok_def)
  then show ?thesis unfolding covered_def same W Ep by (auto simp del: epoch_consts)
qed

section \<open>Leaving, uploading\<close>

lemma drop_album_wraps: "wraps (drop_album a d) =
    sql_delete (\<lambda>w. w_album w = a \<or> (recipient_token w, a) \<in> amid_pairs d) (wraps d)"
  by (simp add: drop_album_def)

lemma wrap_keys_drop_album:
  "wrap_keys (drop_album a d) = {(b, e, t) \<in> wrap_keys d. b \<noteq> a \<and> (t, a) \<notin> amid_pairs d}"
  unfolding wrap_keys_def drop_album_wraps set_sql_delete by (auto simp: wrap_key_def)

lemma covered_drop_album:
  assumes "covered d" "wf d"
  shows "covered (drop_album a d)"
proof -
  have A: "active_pairs (drop_album a d) = {(b, t) \<in> active_pairs d. b \<noteq> a}"
    unfolding active_pairs_drop_album by auto
  have E: "epoch_pairs (drop_album a d) = {(b, e) \<in> epoch_pairs d. b \<noteq> a}"
    by (auto simp: epoch_pairs_def db_fields)
  have M: "media_pairs (drop_album a d) = {(b, e) \<in> media_pairs d. b \<noteq> a}"
    by (auto simp: media_pairs_def db_fields)
  have T: "tokens (drop_album a d) \<subseteq> tokens d" by (auto simp: tokens_def db_fields)
  have other: "(t, a) \<notin> amid_pairs d" if "(b, t) \<in> active_pairs d" "b \<noteq> a" for b t
    using active_pair_amid [OF wfD(3) [OF assms(2)] that(1)] wf_pair_unique [OF assms(2)] that(2) by blast
  show ?thesis
    using assms(1) T other unfolding covered_def A E M wrap_keys_drop_album by blast
qed

lemma covered_drop_identity:
  assumes "covered d"
  shows "covered (drop_identity t d)"
proof -
  have A: "active_pairs (drop_identity t d) = {(b, u) \<in> active_pairs d. u \<noteq> t}"
    unfolding active_pairs_drop_identity by auto
  have W: "wrap_keys (drop_identity t d) = {(b, e, u) \<in> wrap_keys d. u \<noteq> t}"
    by (auto simp: wrap_keys_def wrap_key_def db_fields)
  have E: "epoch_pairs (drop_identity t d) = epoch_pairs d" by (simp add: epoch_pairs_def db_fields)
  have M: "media_pairs (drop_identity t d) \<subseteq> media_pairs d" by (auto simp: media_pairs_def db_fields)
  have T: "tokens (drop_identity t d) \<subseteq> tokens d" by (auto simp: tokens_def db_fields)
  show ?thesis using assms M T unfolding covered_def A W E by blast
qed

lemma media_pairs_reserve:
  assumes ok: "epochs_ok d" and adm: "media_op_ok (MReserve newID newRes m0 tag) d"
    and t: "ReserveUploadRow now newID newRes m0 tag d = Inr (row, d')" and c: "media_pairs d \<subseteq> epoch_pairs d"
  shows "media_pairs d' \<subseteq> epoch_pairs d"
proof -
  have tag: "epoch_tag m0 = tag" using adm by simp
  from t show ?thesis
  proof (cases rule: ReserveUploadRow_Inr)
    case (fresh m)
    have "(md_album m, epoch_tag m) \<in> epoch_pairs d"
      using fresh(1,3,4) tag epoch_pairs_range [OF ok] by (auto split: if_splits)
    then show ?thesis using c fresh(6,9) by (auto simp: media_pairs_def)
  next
    case (again m prev)
    have "(md_album m, epoch_tag m) \<in> epoch_pairs d"
      using again(1,3,4) tag epoch_pairs_range [OF ok] by (auto split: if_splits)
    then show ?thesis using c again(11,14) by (auto simp: media_pairs_def db_fields reuse_keys_fields)
  qed
qed

lemma media_pairs_confirm:
  assumes "MarkConfirmed x a res d = Inr (g, d')" "wf d"
  shows "media_pairs d' = media_pairs d"
  using assms(1) wfD(4) [OF assms(2)]
  by (rule MarkConfirmed_Inr) (simp add: media_pairs_def image_sql_update del: set_sql_update)

lemma coverage_from:
  assumes "coverage_ok d" "epochs_ok d'" "epochs_ok d \<Longrightarrow> covered d \<Longrightarrow> covered d'"
  shows "coverage_ok d'"
  using assms by (simp add: coverage_ok_def)

lemma coverage_step:
  assumes "coverage_ok d" "epochs_ok d \<Longrightarrow> epochs_ok d'" "members d' = members d" "epochs d' = epochs d"
    "wraps d' = wraps d" "media_pairs d' \<subseteq> media_pairs d" "tokens d' = tokens d"
  shows "coverage_ok d'"
  using assms coverage_same [of d d'] by (simp add: coverage_ok_def)

lemma coverage_require_rotation: "coverage_ok d \<Longrightarrow> coverage_ok (require_rotation a d)"
  by (rule coverage_step, assumption, erule epochs_ok_keep) (simp_all add: db_fields media_pairs_def tokens_def)

lemma coverage_enqueue: "coverage_ok d \<Longrightarrow> coverage_ok (enqueueObjectCleanup now ks d)"
  by (rule coverage_step, assumption, erule epochs_ok_albums) (simp_all add: db_fields media_pairs_def tokens_def)

lemma coverage_drop_identity: "coverage_ok d \<Longrightarrow> coverage_ok (drop_identity t d)"
  by (rule coverage_from, assumption)
    (auto simp: coverage_ok_def db_fields intro: covered_drop_identity epochs_ok_albums)

lemma coverage_revoke:
  assumes ok: "coverage_ok d" and wf: "wf d" and t: "RevokeMemberTx now a c t d = Inr ((r, already), d')"
  shows "coverage_ok d'"
proof -
  have "active_pairs d' \<subseteq> active_pairs d"
    using t
  proof (cases rule: RevokeMemberTx_Inr)
    case (revoked cm m)
    have "members d' = members (revoke_row now a t d)" unfolding revoked(9) by (simp add: db_fields)
    then show ?thesis by (auto simp: active_pairs_def revoke_row_def split: if_splits)
  qed simp
  moreover have "epochs_ok d'" using epoch_law.revoke [OF wf _ t] ok by (simp add: coverage_ok_def)
  ultimately show ?thesis using ok covered_media [of d] RevokeMemberTx_fields [OF t]
    by (intro coverage_from [OF ok])
      (auto intro!: covered_weaken [of d d'] simp: wrap_keys_def media_pairs_def tokens_def)
qed

section \<open>The invariant\<close>

interpretation coverage_law: album_invariant coverage_ok "\<lambda>_. True"
proof (unfold_locales, goal_cases)
  case (1 d d')
  then show ?case
    by (intro coverage_step [OF 1(1)]) (auto simp: same_albums_fields [OF 1(2)] media_pairs_def tokens_def
        intro: epochs_ok_albums)
next
  case (2 d E now newID token nameCT u al t d')
  then show ?case
    using epoch_law.create covered_create by (auto simp: coverage_ok_def)
next
  case (3 d E now fresh inp t d')
  then show ?case using epoch_law.deliver [OF 3(1) _ 3(3,4)] covered_deliver [OF 3(2,1,3,4)] by (simp add: coverage_ok_def)
next
  case (4 d now t ep u' d')
  have "tokens d' = tokens d" using 4(3)
    by (rule MarkReceived_Inr) (simp add: tokens_def image_sql_update del: set_sql_update)
  then show ?case using epoch_law.received [OF 4(1) _ 4(3)]
    by (intro coverage_step [OF 4(2)]) (simp_all add: MarkReceived_fields [OF 4(3)] media_pairs_def)
next
  case (5 d E now ie u' d')
  then show ?case using epoch_law.insert_epoch [OF 5(1) _ 5(3,4)] covered_InsertEpoch [OF 5(2,1,3,4)]
    by (simp add: coverage_ok_def)
next
  case (6 d now a c t r already d')
  then show ?case using coverage_revoke by blast
next
  case (7 d now a n)
  then show ?case using epoch_law.name [OF 7(1)]
    by (intro coverage_step [OF 7(2)]) (simp_all add: db_fields media_pairs_def tokens_def)
next
  case (8 d a t n)
  have "active_pairs (UpdateMemberNameCT a t n d) \<subseteq> active_pairs d"
    by (auto simp: active_pairs_def UpdateMemberNameCT_def split: if_splits)
  moreover have "epochs_ok (UpdateMemberNameCT a t n d)"
    using epoch_law.member_name [OF 8(1)] 8(2) by (simp add: coverage_ok_def)
  ultimately show ?case using 8(2) covered_media [of d]
    by (intro coverage_from [OF 8(2)]) (auto intro!: covered_weaken [of d] simp: db_fields wrap_keys_def media_pairs_def tokens_def)
next
  case (9 d a now)
  then show ?case
    using coverage_enqueue [OF 9(2)] 9(1) epochs_ok_drop_album covered_drop_album
    by (simp add: coverage_ok_def)
next
  case 10
  then show ?case by (intro coverage_drop_identity coverage_enqueue)
next
  case 11
  then show ?case by (intro coverage_drop_identity coverage_enqueue coverage_require_rotation)
next
  case (12 d newID newRes m tag now row d')
  have ok: "epochs_ok d" "covered d" using 12(2) by (simp_all add: coverage_ok_def)
  have "covered d'" using media_pairs_reserve [OF ok(1) 12(3,4) covered_media [OF ok(2)]] ok(2)
    by (elim covered_same) (simp_all add: ReserveUploadRow_fields [OF 12(4)] tokens_def)
  then show ?case using epoch_law.reserve [OF 12(1) ok(1) 12(3,4)] by (simp add: coverage_ok_def)
next
  case (13 d x a res g d')
  then show ?case using epoch_law.confirm [OF 13(1) _ 13(3)]
    by (intro coverage_step [OF 13(2)])
      (simp_all add: MarkConfirmed_fields [OF 13(3,1)] media_pairs_confirm [OF 13(3,1)] tokens_def)
next
  case (14 d now p)
  then show ?case using epoch_law.remove_media [OF 14(1)]
    by (intro coverage_step [OF 14(2)]) (auto simp: db_fields media_pairs_def tokens_def removeMedia_eq)
next
  case (17 d v now v' d')
  then show ?case using epoch_law.reserve_avatar [OF 17(1) _ 17(3,4)]
    by (intro coverage_step [OF 17(2)]) (simp_all add: avatar_Reserve_fields [OF 17(4)] media_pairs_def tokens_def)
next
  case (18 d now a t x ks d')
  then show ?case using epoch_law.confirm_avatar [OF 18(1) _ 18(3)]
    by (intro coverage_step [OF 18(2)]) (simp_all add: avatar_Confirm_fields [OF 18(3)] media_pairs_def tokens_def)
qed (erule coverage_step, erule epochs_ok_albums; simp add: db_fields media_pairs_def tokens_def removeAvatars_eq)+

end
