(* ===== verification/Scenario.thy ===== *)
theory Scenario
  imports Server
begin

text \<open>
  A concrete run of the server, which the witnesses of the properties start from: toy primitives
  that have the documented behaviour (opening what was sealed gives it back, a digest is 32
  bytes), three accounts, an album with two members, one epoch and a photo.
\<close>

definition toy :: crypto where
  "toy = \<lparr>sha256 = (\<lambda>m. replicate 31 0 @ [foldl (\<lambda>a b. 3 * a + b) 1 m]), hmac_sha256 = (\<lambda>k m. m),
     hkdf_sha256 = (\<lambda>k i. i), gcm_seal = (\<lambda>k n p. p), gcm_open = (\<lambda>k n c. Some c),
     ed25519_verify = (\<lambda>p m s. True)\<rparr>"

definition demo :: env where
  "demo = \<lparr>cryp = toy, linker = \<lparr>handleKey = [], encKey = []\<rparr>, uuid_String = uuid_bytes,
     uuid_Parse = (\<lambda>b. Some (uuid_of_bytes b))\<rparr>"

definition handle :: "byte \<Rightarrow> bytes" where
  "handle n = replicate 7 (hd alphabet) @ [alphabet ! unat n]"

definition person :: "byte \<Rightarrow> user" where
  "person n = \<lparr>u_id = 0, email_hmac = [n], u_miuchio_id = handle n, ik_pub = None, lk_pub = None,
     spk_pub = None, spk_sig = None, spk_ts = None, u_created_at = 0, u_updated_at = 0,
     deleting_at = None\<rparr>"

definition tok :: "byte \<Rightarrow> bytes" where
  "tok n = replicate 31 0 @ [n]"

definition first_epoch :: insert_epoch_input where
  "first_epoch = \<lparr>ie_album = 7, ie_epoch = 0, ie_sig = [], ie_sender = tok 1,
     ie_wraps = [\<lparr>wi_recipient = tok 1, wi_ek_pub = [], wi_opk = None, wi_nonce = [],
       wi_tag_ct = [], wi_sig = []\<rparr>],
     ie_expected_hash = MemberSetHash toy [tok 1]\<rparr>"

definition first_invite :: deliver_member_input where
  "first_invite = \<lparr>dm_album = 7, dm_user = 2, dm_sender = tok 1, dm_ek_pub = [], dm_opk = None,
     dm_envelopes = [\<lparr>env_epoch = 0, env_nonce = [], env_tag_ct = [], env_sig = []\<rparr>]\<rparr>"

definition photo :: media where
  "photo = \<lparr>md_id = 20, md_album = 7, uploader_token = tok 2, storage_key = [5], thumb_key = Some [6],
     md_wrap_nonce = [], md_wrap_tag_ct = [], epoch_tag = 0, blob_size = 100, blob_sha256 = [],
     media_type = ascii ''photo'', mime_type = None, confirmed = False, md_created_at = 0,
     reservation_id = 0, album_seq = None, thumb_wrap_nonce = Some [], thumb_wrap_tag_ct = Some [],
     thumb_size = Some 10, thumb_sha256 = Some []\<rparr>"

definition history :: "(time \<times> op) list" where
  "history = [(0, Ac (UCreate 1 (person 1))), (0, Ac (UCreate 2 (person 2))), (0, Ac (UCreate 3 (person 3))),
     (0, Ac (UPublish 1 (tok 1) (tok 1) (tok 1) (tok 1) 1)),
     (0, Al (ACreate 7 (tok 1) [1] 1)), (0, Al (AInsertEpoch first_epoch)),
     (0, Al (ADeliver (tok 2) first_invite)),
     (0, Md (MReserve 20 21 photo 0)), (0, Md (MConfirm 20 7 21))]"

text \<open>The state it leads to.\<close>

definition shared_album :: db where
  "shared_album = run demo history"

lemma shared_album_code [code]:
  "shared_album = empty_db\<lparr>
     users := [(person 1)\<lparr>u_id := 1, ik_pub := Some (tok 1), lk_pub := Some (tok 1), spk_pub := Some (tok 1),
         spk_sig := Some (tok 1), spk_ts := Some 1\<rparr>, (person 2)\<lparr>u_id := 2\<rparr>, (person 3)\<lparr>u_id := 3\<rparr>],
     albums := [\<lparr>a_id = 7, name_ct = [1], a_created_at = 0, a_updated_at = 0, media_generation = 1,
         last_activity_seq = 2, rotation_required = False\<rparr>],
     amids := map (\<lambda>n. \<lparr>i_token = tok n, user_handle = replicate 15 0 @ [n], user_id_enc = replicate 15 0 @ [n],
         i_album = 7, joined_at = 0, last_received_epoch = None, last_received_at = None\<rparr>) [1, 2],
     members := [\<lparr>m_album = 7, m_token = tok 1, role = Admin, revoked_at = None, m_name_ct = None\<rparr>,
         \<lparr>m_album = 7, m_token = tok 2, role = Member, revoked_at = None, m_name_ct = None\<rparr>],
     epochs := [\<lparr>e_album = 7, epoch = 0, started_at = 0, epoch_sig = []\<rparr>],
     wraps := map (\<lambda>n. \<lparr>w_album = 7, w_epoch = 0, recipient_token = tok n, ek_pub = [], opk_idx_used = None,
         wrap_nonce = [], wrap_tag_ct = [], sender_token = tok 1, sender_sig = [], delivered_at = 0\<rparr>) [1, 2],
     medias := [photo\<lparr>confirmed := True, reservation_id := 21, album_seq := Some 1\<rparr>],
     activity_seq := 2\<rparr>"
  unfolding shared_album_def by code_simp

text \<open>A rotation request of the admin for both members, and an invitation of the third account.\<close>

definition rotation_wrap :: "byte \<Rightarrow> wrap_input" where
  "rotation_wrap n = \<lparr>in_recipient = tok n, in_ek_pub = tok n, in_opk = None,
     in_wrap = 1 # replicate 28 0, in_sig = replicate 64 0\<rparr>"

definition rotation_request :: set_epoch_input where
  "rotation_request = \<lparr>se_epoch = 1, se_member_set_hash = MemberSetHash toy [tok 1, tok 2],
     se_wraps = [rotation_wrap 1, rotation_wrap 2], se_envelope_sig = replicate 64 0\<rparr>"

definition invite_request :: deliver_user_input where
  "invite_request = \<lparr>du_target = handle 3, du_ek_pub = tok 1, du_opk = None,
     du_envelopes = [\<lparr>env_epoch = 0, env_nonce = replicate 12 0, env_tag_ct = replicate 48 0,
       env_sig = replicate 64 0\<rparr>]\<rparr>"

text \<open>A storage that has what it is asked for, an upload request, and an avatar.\<close>

definition demo_store :: objstore where
  "demo_store = \<lparr>presign_upload = (\<lambda>k t n h. Some (k, [])), presign_download = (\<lambda>k. Some k),
     head_object = (\<lambda>k. Some (100, [])), delete_ok = (\<lambda>k. True)\<rparr>"

definition second_photo :: media where
  "second_photo = photo\<lparr>md_id := 30, storage_key := [8], thumb_key := None, thumb_size := None\<rparr>"

definition upload_request :: upload_input where
  "upload_request = \<lparr>up_media_id = 30, up_blob_size = 100, up_blob_sha256 = replicate 32 0,
     up_mime_type = [], up_media_type = ascii ''photo'', up_wrap_nonce = replicate 12 0,
     up_wrap_tag_ct = replicate 48 0, up_epoch_tag = 0, up_thumb_size = 0, up_thumb_sha256 = [],
     up_thumb_wrap_nonce = [], up_thumb_wrap_tag_ct = []\<rparr>"

definition portrait :: avatar where
  "portrait = \<lparr>avatar_id = 50, av_album = 7, av_token = tok 2, av_key = [9], av_size = 100,
     av_sha256 = [], key_ct = [], av_confirmed = False, av_created_at = 0\<rparr>"

text \<open>The state after one more operation.\<close>

definition then_do :: "op \<Rightarrow> db" where
  "then_do x = step demo (0, x) shared_album"

lemma then_do_run: "then_do x = run demo (history @ [(0, x)])"
  by (simp add: then_do_def shared_album_def run_def)

end
