(* ===== verification/Album_Properties.thy ===== *)
theory Album_Properties
  imports Coverage Scenario
begin

text \<open>
  Properties of albums: rotation of the album key, the freeze after a departure, the roster, and
  the end of an album. They are stated on the states a run of the server reaches.
\<close>

section \<open>Rotation\<close>

lemma coverage_run: "coverage_ok (run E ops)"
  unfolding run_def
proof (rule coverage_law.preserved_run [OF wf_empty])
  show "coverage_ok empty_db" using consistentD(2) [OF consistent_empty]
    by (simp add: coverage_ok_def covered_def coverage_sets active_pairs_def empty_db_def)
qed simp

lemma check_wraps_None:
  "check_wraps seen ws = None \<Longrightarrow> \<forall>w\<in>set ws. length (in_recipient w) = tokenLen"
  by (induction seen ws rule: check_wraps.induct) (auto split: if_splits)

lemma SetEpoch_Inr:
  assumes "SetEpoch E now a token r inp d = (Inr pending, d')"
  obtains ik where "r = Admin" "0 \<le> se_epoch inp"
    "AdminIKByMemberToken E token d = Inr ik"
    "VerifyEd25519 (cryp E) ik (EnvelopeSignMsg a (se_epoch inp) (se_member_set_hash inp)
       (WrapsHash (cryp E) (se_wraps inp))) (se_envelope_sig inp) = Inr ()"
    "InsertEpoch E now \<lparr>ie_album = a, ie_epoch = se_epoch inp, ie_sig = se_envelope_sig inp, ie_sender = token,
       ie_wraps = map to_wrap_insert (se_wraps inp), ie_expected_hash = se_member_set_hash inp\<rparr> d = Inr ((), d')"
    "\<forall>w\<in>set (se_wraps inp). length (in_recipient w) = tokenLen"
    "se_member_set_hash inp = MemberSetHash (cryp E) (map in_recipient (se_wraps inp))"
    "pending = PendingMembers now a (se_epoch inp) d'"
proof -
  obtain req where v: "SetEpoch_validate E a token r inp d = Inr req"
    and t: "InsertEpoch E now req d = Inr ((), d')" and p: "pending = PendingMembers now a (se_epoch inp) d'"
    using assms by (auto simp: SetEpoch_def split: sum.splits prod.splits)
  obtain ik where ik: "AdminIKByMemberToken E token d = Inr ik"
    using v by (cases "AdminIKByMemberToken E token d") (auto simp: SetEpoch_validate_def Let_def split: if_splits option.splits)
  have sg: "VerifyEd25519 (cryp E) ik (EnvelopeSignMsg a (se_epoch inp) (se_member_set_hash inp)
       (WrapsHash (cryp E) (se_wraps inp))) (se_envelope_sig inp) = Inr ()"
    using v ik by (auto simp: SetEpoch_validate_def Let_def split: if_splits option.splits sum.splits)
  show thesis
    using v t p check_wraps_None [of "[]" "se_wraps inp"] ik sg
    by (intro that [OF _ _ ik sg]) (auto simp: SetEpoch_validate_def Let_def split: if_splits option.splits sum.splits)
qed

lemma SetEpoch_admissible:
  assumes "SetEpoch E now a token r inp d = (Inr pending, d')"
    and "no_collision (cryp E) (member_set_preimage (map in_recipient (se_wraps inp)))
      (member_set_preimage (active_tokens d a))"
  obtains req where "album_op_ok E (AInsertEpoch req) d" "InsertEpoch E now req d = Inr ((), d')"
    "ie_album req = a" "ie_epoch req = se_epoch inp"
    "map wi_recipient (ie_wraps req) = map in_recipient (se_wraps inp)"
  using assms(1)
proof (rule SetEpoch_Inr, goal_cases)
  case (1 ik)
  have "map (wi_recipient \<circ> to_wrap_insert) ws = map in_recipient ws" for ws
    by (simp add: to_wrap_insert_def)
  with 1 assms(2) show ?thesis
    by (intro 1(1) [OF _ 1(6)]) (auto simp: to_wrap_insert_def comp_def)
qed

lemma epoch_wraps_current:
  assumes ok: "coverage_ok d" and wf: "wf d" and t: "InsertEpoch E now inp d = Inr (u, d')"
    and adm: "album_op_ok E (AInsertEpoch inp) d"
  shows "max_epoch d' (ie_album inp) = ie_epoch inp"
    "active_tokens d' (ie_album inp) = active_tokens d (ie_album inp)"
    "has_wrap d' (ie_album inp) (ie_epoch inp) tk \<longleftrightarrow> tk \<in> set (active_tokens d' (ie_album inp))"
    "RotationRequiredExpr d' (ie_album inp) = Some False"
proof -
  let ?a = "ie_album inp" and ?e = "ie_epoch inp"
  have eo: "epochs_ok d" "epochs_ok d'"
    using ok epoch_law.insert_epoch [OF wf _ t adm] by (simp_all add: coverage_ok_def)
  have rec: "set (map wi_recipient (ie_wraps inp)) = set (active_tokens d ?a)"
    using epoch_recipients [OF assms] mset_eq_setD by blast
  obtain m er where c: "?a \<in> a_id ` set (albums d)" "?e = max_epoch d ?a + 1" "e_album er = ?a" "epoch er = ?e"
    and d': "d' = d\<lparr>epochs := sql_insert er (epochs d), wraps := wraps d @ map (wrap_row now inp) (ie_wraps inp),
       albums := sql_update (\<lambda>al. a_id al = ?a) (\<lambda>al. al\<lparr>rotation_required := False\<rparr>) (albums d)\<rparr>"
    using t by (rule InsertEpoch_Inr)
  have "album_epochs d' ?a = album_epochs d ?a @ [?e]" by (simp add: album_epochs_def d' sql_insert_def c)
  then show me: "max_epoch d' ?a = ?e" using c(2) max_epoch_length [OF eo(1), of ?a] max_epoch_length [OF eo(2), of ?a] by simp
  show at: "active_tokens d' ?a = active_tokens d ?a" by (simp add: active_tokens_def d')
  have old: "(?a, ?e, t) \<notin> wrap_keys d" for t
    using ok c(2) epoch_pairs_range [OF eo(1), of ?a ?e] by (auto simp: coverage_ok_def covered_def)
  have hw: "has_wrap d' ?a ?e t \<longleftrightarrow> t \<in> set (active_tokens d' ?a)" for t
  proof -
    have "has_wrap d' ?a ?e t \<longleftrightarrow> (?a, ?e, t) \<in> wrap_keys d \<or> t \<in> set (map wi_recipient (ie_wraps inp))"
      by (auto simp: has_wrap_key wrap_keys_def d' image_Un image_image wrap_key_def wrap_row_def)
    then show ?thesis using old at rec by simp
  qed
  then show "has_wrap d' ?a ?e tk \<longleftrightarrow> tk \<in> set (active_tokens d' ?a)" .
  have "\<not> wrap_drift d' ?a"
  proof -
    have "cur_epoch d' ?a = Some ?e \<or> cur_epoch d' ?a = None"
      using me by (cases "cur_epoch d' ?a") (simp_all add: max_epoch_def)
    moreover have "has_wrap d' ?a ?e (m_token m)" if "m \<in> set (members d')" "is_active ?a m" for m
      using that hw by (auto simp: active_tokens_def)
    moreover have "\<exists>m\<in>set (members d'). is_active ?a m \<and> m_token m = recipient_token w"
      if "w \<in> set (wraps d')" "w_album w = ?a" "w_epoch w = ?e" for w
    proof -
      have "has_wrap d' ?a ?e (recipient_token w)" using that by (auto simp: has_wrap_iff)
      then show ?thesis using hw by (auto simp: active_tokens_def)
    qed
    ultimately show ?thesis by (cases "cur_epoch d' ?a") (auto simp: wrap_drift_def)
  qed
  moreover obtain al where "find_album d' ?a = Some al" "\<not> rotation_required al"
  proof -
    obtain al where al: "find_album d' ?a = Some al"
      using c(1) find_album_None [of d' ?a] by (cases "find_album d' ?a") (auto simp: d' image_sql_update simp del: set_sql_update)
    moreover have "\<not> rotation_required al"
      using find_album_Some [OF al] by (auto simp: d' split: if_splits)
    ultimately show thesis by (rule that)
  qed
  ultimately show "RotationRequiredExpr d' ?a = Some False" by (simp add: RotationRequiredExpr_def)
qed


text \<open>C14. In every reachable state the epochs of an album are 0, 1, 2, ... without a gap and in
  the order they were set: a rotation can neither skip nor repeat a number.\<close>

theorem epochs_contiguous:
  "album_epochs (run E ops) a = map int [0..<length (album_epochs (run E ops) a)]"
  using reachable(2) by (simp add: epochs_ok_def)

text \<open>C5. Every album that exists has exactly one active administrator, and never more than ten
  active members.\<close>

theorem one_admin_within_cap:
  assumes "find_album (run E ops) a \<noteq> None"
  shows "active_admins (run E ops) a = 1 \<and> 1 \<le> active_count (run E ops) a
     \<and> active_count (run E ops) a \<le> MaxAlbumMembers"
proof -
  have "a \<in> album_ids (run E ops)" using assms by (auto simp: find_album_None album_ids_def)
  then have "active_admins (run E ops) a = 1" "active_count (run E ops) a \<le> MaxAlbumMembers"
    using reachable(3) by (simp_all add: roster_ok_def)
  moreover have "active_admins (run E ops) a \<le> active_count (run E ops) a"
    unfolding active_admins_def active_count_def by (rule sql_count_mono) (simp add: is_active_def)
  ultimately show ?thesis by simp
qed

theorem one_admin_within_cap_witness:
  "active_admins shared_album 7 = 1 \<and> active_count shared_album 7 = 2"
proof -
  have "find_album shared_album 7 \<noteq> None" by code_simp
  then have "active_admins shared_album 7 = 1" unfolding shared_album_def by (rule one_admin_within_cap [THEN conjunct1])
  moreover have "active_count shared_album 7 = 2" by code_simp
  ultimately show ?thesis by simp
qed

text \<open>C3. A rotation that the epoch service accepts comes from the admin, sets exactly the epoch after
  the current one, wraps its key for the active members and nobody else, and leaves the album
  without rotation debt.\<close>

theorem set_epoch_commits:
  assumes "SetEpoch E now a token r inp (run E ops) = (Inr pending, d')"
    and "no_collision (cryp E) (member_set_preimage (map in_recipient (se_wraps inp)))
      (member_set_preimage (active_tokens (run E ops) a))"
  shows "r = Admin \<and> se_epoch inp = max_epoch (run E ops) a + 1 \<and> max_epoch d' a = se_epoch inp
    \<and> active_tokens d' a = active_tokens (run E ops) a
    \<and> (\<forall>t. has_wrap d' a (se_epoch inp) t \<longleftrightarrow> t \<in> set (active_tokens d' a))
    \<and> RotationRequired a d' = Inr False"
proof (rule SetEpoch_admissible [OF assms], goal_cases)
  case (1 req)
  note w = epoch_wraps_current [OF coverage_run reachable(1) 1(2,1), unfolded 1(3,4)]
  have "r = Admin" using assms(1) by (rule SetEpoch_Inr)
  moreover have "se_epoch inp = max_epoch (run E ops) a + 1"
    using 1(2) by (rule InsertEpoch_Inr) (simp add: 1(3,4))
  ultimately show ?case using w by (simp add: RotationRequired_def)
qed

theorem set_epoch_commits_witness:
  "max_epoch (snd (SetEpoch demo 0 7 (tok 1) Admin rotation_request shared_album)) 7 = 1"
proof -
  let ?x = "SetEpoch demo 0 7 (tok 1) Admin rotation_request shared_album"
  have "\<not> isl (fst ?x)" by code_simp
  then obtain p where "?x = (Inr p, snd ?x)" by (cases ?x; cases "fst ?x") auto
  moreover have "no_collision (cryp demo) (member_set_preimage (map in_recipient (se_wraps rotation_request)))
      (member_set_preimage (active_tokens shared_album 7))" by code_simp
  ultimately have "max_epoch (snd ?x) 7 = se_epoch rotation_request"
    unfolding shared_album_def by (blast dest: set_epoch_commits)
  then show ?thesis by (simp add: rotation_request_def)
qed

text \<open>C1. Whatever happened before, every active member of an album holds a wrapped key for the
  epoch of every photo in it, so nobody who is in an album meets a photo they cannot open.\<close>

theorem members_can_read:
  assumes "r \<in> set (medias (run E ops))" "t \<in> set (active_tokens (run E ops) (md_album r))"
  shows "has_wrap (run E ops) (md_album r) (epoch_tag r) t
    \<and> epoch_tag r \<in> set (album_epochs (run E ops) (md_album r))"
proof -
  let ?d = "run E ops"
  have "covered ?d" using coverage_run by (simp add: coverage_ok_def)
  moreover from this assms(1) have e: "(md_album r, epoch_tag r) \<in> epoch_pairs ?d"
    by (auto dest!: covered_media simp: media_pairs_def)
  moreover have "(md_album r, t) \<in> active_pairs ?d" using assms(2) by (simp add: set_active_tokens)
  ultimately have "(md_album r, epoch_tag r, t) \<in> wrap_keys ?d" by (auto simp: covered_def)
  then show ?thesis using e by (simp add: has_wrap_key wrap_keys_def epoch_pairs_album)
qed

theorem members_can_read_witness: "has_wrap shared_album 7 0 (tok 1)"
proof -
  let ?r = "hd (medias shared_album)"
  have "?r \<in> set (medias shared_album)" "tok 1 \<in> set (active_tokens shared_album (md_album ?r))"
    "md_album ?r = 7 \<and> epoch_tag ?r = 0" by code_simp+
  then show ?thesis using members_can_read [of ?r demo history "tok 1"] by (simp add: shared_album_def)
qed

section \<open>The freeze after a departure\<close>

text \<open>C2. Once a member was revoked, no request can reserve or confirm an upload to the album or
  invite somebody into it, however many other transactions come in between, until a new epoch of
  the album is committed (or the album is gone and its identifier taken again).\<close>

theorem revocation_freezes_album:
  assumes "RevokeMemberTx now a c t (run E ops) = Inr ((r, False), d')"
    and "\<forall>x\<in>set later. \<not> settles a (snd x)"
  shows "(\<forall>now newID newRes m tag. md_album m = a \<longrightarrow>
        (\<exists>e. ReserveUploadRow now newID newRes m tag (fold (step E) later d') = Inl e)) \<and>
     (\<forall>x res. \<exists>e. MarkConfirmed x a res (fold (step E) later d') = Inl e) \<and>
     (\<forall>now fresh inp. dm_album inp = a \<longrightarrow>
        (\<exists>e. DeliverMember E now fresh inp (fold (step E) later d') = Inl e))"
proof -
  have d': "d' = run E (ops @ [(now, Al (ARevoke a c t))])"
    using assms(1) by (simp add: run_append step_def run_tx_def)
  have "wf d'" "wf (fold (step E) later d')"
    unfolding d' run_append [symmetric] by (rule reachable(1))+
  moreover from this(1) have fr: "frozen a (fold (step E) later d')"
    by (rule freeze_law.preserved_run [OF _ frozen_revoked [OF assms(1)] assms(2)])
  moreover have "\<exists>e. MarkConfirmed x a res (fold (step E) later d') = Inl e" for x res
    using calculation by (metis frozen_no_confirm)
  moreover have "\<exists>e. ReserveUploadRow n i s m tag (fold (step E) later d') = Inl e" if "md_album m = a" for n i s m tag
    using fr that by (metis frozen_no_reserve)
  moreover have "\<exists>e. DeliverMember E n f inp (fold (step E) later d') = Inl e" if "dm_album inp = a" for n f inp
    using fr that by (metis frozen_no_invite)
  ultimately show ?thesis by blast
qed

theorem revocation_freezes_album_witness:
  "\<exists>e. MarkConfirmed 30 7 31 (step demo (0, Al (AName 7 [9]))
     (snd (projr (RevokeMemberTx 0 7 (tok 1) (tok 2) shared_album)))) = Inl e"
proof -
  let ?x = "RevokeMemberTx 0 7 (tok 1) (tok 2) shared_album"
  have "\<not> isl ?x \<and> fst (projr ?x) = (Member, False)" by code_simp
  then have "?x = Inr ((Member, False), snd (projr ?x))" by (cases ?x) (auto simp: prod_eq_iff)
  then show ?thesis
    using revocation_freezes_album [of 0 7 "tok 1" "tok 2" demo history Member "snd (projr ?x)" "[(0, Al (AName 7 [9]))]"]
    by (simp add: shared_album_def)
qed

section \<open>Membership\<close>

lemma membership_of_iff:
  assumes "wf d"
  shows "membership_of d h a = Some (i, m) \<longleftrightarrow>
    i \<in> set (amids d) \<and> user_handle i = h \<and> i_album i = a \<and> find_member d a (i_token i) = Some m"
    (is "?L \<longleftrightarrow> ?R")
proof
  assume r: ?R
  let ?p = "\<lambda>i. user_handle i = h \<and> i_album i = a \<and> find_member d a (i_token i) \<noteq> None"
  have "find ?p (amids d) \<noteq> None" using r unfolding find_None_all by blast
  then obtain j where j: "find ?p (amids d) = Some j" by blast
  have "j = i"
  proof (rule distinct_map_eq)
    show "distinct (map (\<lambda>i. (user_handle i, i_album i)) (amids d))"
      using wfD(2) [OF assms] by (simp add: wf_amids_def)
  qed (use find_Some_in [OF j] r in auto)
  then show ?L using j r by (simp add: membership_of_def)
qed (use membership_of_Some [of d h a i m] in blast)

lemma LookupMember_Inr:
  assumes "LookupMember E u a d = Inr (t, r)"
  obtains i m where "membership_of d (lhash E u) a = Some (i, m)" "revoked_at m = None" "i_token i = t" "role m = r"
  using assms by (auto simp: LookupMember_def split: option.splits if_splits)

lemma LookupMember_row:
  assumes "wf d" "LookupMember E u a d = Inr (t, r)"
  obtains al m where "find_album d a = Some al" "find_member d a t = Some m" "revoked_at m = None" "role m = r"
proof (rule LookupMember_Inr [OF assms(2)])
  fix i m assume im: "membership_of d (lhash E u) a = Some (i, m)" "revoked_at m = None" "i_token i = t" "role m = r"
  note i = membership_of_Some [OF im(1)]
  have "a \<in> a_id ` set (albums d)" using wfD(2) [OF assms(1)] i by (auto simp: wf_amids_def)
  then obtain al where "find_album d a = Some al" using find_album_None [of d a] by (cases "find_album d a") auto
  then show thesis by (rule that) (use im i in simp_all)
qed

text \<open>C26. The shelf and the guard agree: the album list of a user shows an album with a token and a
  role exactly when the membership lookup that guards every album route answers that token and
  role.\<close>

theorem shelf_is_membership:
  "(\<exists>x\<in>set (ListForUser E u (run E ops)). a_id (inf_album x) = a \<and> inf_token x = t \<and> inf_role x = r)
     \<longleftrightarrow> LookupMember E u a (run E ops) = Inr (t, r)"
    (is "?L \<longleftrightarrow> ?R")
proof -
  let ?d = "run E ops"
  have "?L \<longleftrightarrow> (\<exists>al\<in>set (albums ?d). \<exists>i\<in>set (amids ?d). \<exists>m. i_album i = a_id al \<and> user_handle i = lhash E u \<and>
      find_member ?d (a_id al) (i_token i) = Some m \<and> revoked_at m = None \<and> a_id al = a \<and> i_token i = t \<and> role m = r)"
    by (auto simp: ListForUser_def album_info_of_def Let_def split: option.splits if_splits) force+
  also have "\<dots> \<longleftrightarrow> (\<exists>i m. membership_of ?d (lhash E u) a = Some (i, m) \<and> revoked_at m = None \<and> i_token i = t \<and> role m = r)"
    unfolding membership_of_iff [OF reachable(1)]
    using wfD(2) [OF reachable(1) [of E ops]] by (fastforce simp: wf_amids_def)
  also have "\<dots> \<longleftrightarrow> ?R" by (force simp: LookupMember_def split: option.splits)
  finally show ?thesis .
qed

section \<open>Removing a member\<close>

lemma RemoveMember_Inr:
  assumes "RemoveMember E now a u t d = Inr ((t', already), d')"
  obtains ct cr r where "LookupMember E u a d = Inr (ct, cr)" "ct = t \<or> cr = Admin"
    "RevokeMemberTx now a ct t d = Inr ((r, already), d')" "t' = t"
proof -
  obtain ct cr where l: "LookupMember E u a d = Inr (ct, cr)"
    using assms by (cases "LookupMember E u a d") (auto simp: RemoveMember_def)
  have c: "ct = t \<or> cr = Admin" using assms l by (auto simp: RemoveMember_def split: if_splits)
  then obtain x d1 where x: "RevokeMemberTx now a ct t d = Inr (x, d1)"
    using assms l by (cases "RevokeMemberTx now a ct t d") (auto simp: RemoveMember_def)
  show thesis using assms l c x by (cases x) (intro that [OF l c], auto simp: RemoveMember_def)
qed

lemma filter_active_revoke:
  "filter (is_active b) (sql_update (\<lambda>m. m_album m = a \<and> m_token m = t \<and> revoked_at m = None)
      (\<lambda>m. m\<lparr>revoked_at := Some now\<rparr>) ms)
    = filter (\<lambda>m. is_active b m \<and> \<not> (m_album m = a \<and> m_token m = t)) ms"
  by (induction ms) (auto simp: sql_update_def is_active_def)

lemma revoked_state:
  assumes "RevokeMemberTx now a c t d = Inr ((r, False), d')"
  shows "active_tokens d' a = removeAll t (active_tokens d a)"
    "b \<noteq> a \<Longrightarrow> active_tokens d' b = active_tokens d b"
    "t \<in> set (active_tokens d a)" "medias d' = medias d"
    "avatars d' = sql_delete (\<lambda>v. av_album v = a \<and> av_token v = t) (avatars d)"
    "queued d' = queued d \<union> av_key ` {v \<in> set (avatars d). av_album v = a \<and> av_token v = t}"
    "members d' = members (revoke_row now a t d)" "amids d' = amids d"
proof -
  obtain cm m where m: "find_member d a t = Some m" "revoked_at m = None"
    and d': "d' = snd (removeAvatars now (\<lambda>v. av_album v = a \<and> av_token v = t)
              (require_rotation a (revoke_row now a t d)))"
    using assms by (rule RevokeMemberTx_Inr) (simp, metis)
  show mem: "members d' = members (revoke_row now a t d)"
    by (simp add: d' remove_fields require_rotation_fields)
  have fil: "filter (is_active b) (members d') = filter (\<lambda>m. is_active b m \<and> \<not> (m_album m = a \<and> m_token m = t)) (members d)" for b
    unfolding mem by (simp add: revoke_row_def filter_active_revoke)
  show "active_tokens d' a = removeAll t (active_tokens d a)"
    unfolding active_tokens_def fil removeAll_filter_not_eq filter_map filter_filter
    by (rule arg_cong [of _ _ "map m_token"], rule filter_cong) (auto simp: is_active_def)
  show "active_tokens d' b = active_tokens d b" if "b \<noteq> a"
    unfolding active_tokens_def fil using that
    by (intro arg_cong [of _ _ "map m_token"] filter_cong) (auto simp: is_active_def)
  show "t \<in> set (active_tokens d a)"
    using find_member_Some [OF m(1)] m(2) by (force simp: active_tokens_def is_active_def)
  have eq: "d' = enqueueObjectCleanup now (map av_key (filter (\<lambda>v. av_album v = a \<and> av_token v = t) (avatars d)))
      ((require_rotation a (revoke_row now a t d))\<lparr>avatars := sql_delete (\<lambda>v. av_album v = a \<and> av_token v = t) (avatars d)\<rparr>)"
    unfolding d' removeAvatars_eq by (simp add: require_rotation_def revoke_row_def)
  show "medias d' = medias d" "amids d' = amids d"
      "avatars d' = sql_delete (\<lambda>v. av_album v = a \<and> av_token v = t) (avatars d)"
    unfolding eq by (simp_all add: db_fields) (simp_all add: require_rotation_def revoke_row_def)
  show "queued d' = queued d \<union> av_key ` {v \<in> set (avatars d). av_album v = a \<and> av_token v = t}"
    unfolding eq queued_enqueue by (simp add: queued_def require_rotation_def revoke_row_def)
qed

text \<open>C24. A removal that is reported as done was made by the member themselves or by the admin; it
  takes exactly that member out of the roster of exactly that album, deletes their avatars and
  queues the objects, keeps the photos, and leaves the album owing a new key.\<close>

theorem remove_member_effects:
  assumes "RemoveMember E now a u t (run E ops) = Inr ((t', False), d')"
  shows "(\<exists>ct cr. LookupMember E u a (run E ops) = Inr (ct, cr) \<and> (ct = t \<or> cr = Admin)) \<and> t' = t
    \<and> t \<in> set (active_tokens (run E ops) a)
    \<and> active_tokens d' a = removeAll t (active_tokens (run E ops) a)
    \<and> (\<forall>b. b \<noteq> a \<longrightarrow> active_tokens d' b = active_tokens (run E ops) b)
    \<and> medias d' = medias (run E ops)
    \<and> (\<forall>v\<in>set (avatars (run E ops)). if av_album v = a \<and> av_token v = t
         then v \<notin> set (avatars d') \<and> av_key v \<in> queued d' else v \<in> set (avatars d'))
    \<and> RotationRequired a d' = Inr True"
  using assms
proof (rule RemoveMember_Inr, goal_cases)
  case (1 ct cr r)
  note s = revoked_state [OF 1(3)]
  have "a \<in> album_ids (run E ops)"
    using 1(3) by (rule RevokeMemberTx_Inr) (simp_all add: album_ids_def)
  moreover have "album_ids d' = album_ids (run E ops)"
    using album_ids_cong [of d' "require_rotation a (run E ops)"] RevokeMemberTx_albums [OF 1(3)] by simp
  ultimately have alb: "a \<in> album_ids d'" by simp
  have rot: "RotationRequired a d' = Inr True"
    using frozen_rotation_required [OF frozen_revoked [OF 1(3)] alb] by (simp add: RotationRequired_def)
  have av: "\<forall>v\<in>set (avatars (run E ops)). if av_album v = a \<and> av_token v = t
         then v \<notin> set (avatars d') \<and> av_key v \<in> queued d' else v \<in> set (avatars d')"
    unfolding s(5,6) by simp
  show ?case using 1(1,2,4) s(1,2,3,4) av rot by blast
qed

theorem remove_member_effects_witness:
  "RotationRequired 7 (snd (projr (RemoveMember demo 0 7 1 (tok 2) shared_album))) = Inr True"
proof -
  let ?x = "RemoveMember demo 0 7 1 (tok 2) shared_album"
  have "\<not> isl ?x \<and> fst (projr ?x) = (tok 2, False)" by code_simp
  then have "?x = Inr ((tok 2, False), snd (projr ?x))" by (cases ?x) (auto simp: prod_eq_iff)
  then show ?thesis unfolding shared_album_def by (blast dest: remove_member_effects)
qed

text \<open>The admin of an album cannot leave it: the request is refused with the message that the
  album has to be deleted instead, in every state the server can reach.\<close>

theorem admin_cannot_leave:
  assumes "LookupMember E u a (run E ops) = Inr (t, Admin)"
  shows "handle_RemoveAlbumMember E now u a t (run E ops) =
    Inl (Api E_FORBIDDEN ''cannot remove the last remaining admin; delete the album instead'')"
proof (rule LookupMember_row [OF reachable(1) assms])
  fix al m assume "find_album (run E ops) a = Some al" and m: "find_member (run E ops) a t = Some m"
    "revoked_at m = None" "role m = Admin"
  moreover from this have "a \<in> album_ids (run E ops)" using find_album_None [of _ a] by (force simp: album_ids_def)
  then have "active_admins (run E ops) a = 1" using reachable(3) by (simp add: roster_ok_def)
  ultimately have "RevokeMemberTx now a t t (run E ops) = Inl (Repo ErrLastAdmin)"
    by (simp add: RevokeMemberTx_def)
  then show ?thesis using assms by (simp add: handle_RemoveAlbumMember_def RemoveMember_def remove_member_error_def)
qed

theorem admin_cannot_leave_witness:
  "handle_RemoveAlbumMember demo 0 1 7 (tok 1) shared_album =
    Inl (Api E_FORBIDDEN ''cannot remove the last remaining admin; delete the album instead'')"
proof -
  have "LookupMember demo 1 7 shared_album = Inr (tok 1, Admin)" by code_simp
  then show ?thesis unfolding shared_album_def by (rule admin_cannot_leave)
qed

text \<open>C23. Deleting an album always succeeds for its admin, in every reachable state: no reference
  stands in the way. Nothing of the album is left, every stored object of it is queued for
  deletion and reported, and the photos of the other albums stay.\<close>

theorem delete_album_complete:
  assumes "LookupMember E u a (run E ops) = Inr (t, Admin)"
  shows "\<exists>rm d'. DeleteAlbum E now a u (run E ops) = Inr (rm, d')
    \<and> find_album d' a = None \<and> a \<notin> m_album ` set (members d') \<and> a \<notin> i_album ` set (amids d')
    \<and> a \<notin> e_album ` set (epochs d') \<and> a \<notin> w_album ` set (wraps d') \<and> a \<notin> av_album ` set (avatars d')
    \<and> medias d' = filter (\<lambda>r. md_album r \<noteq> a) (medias (run E ops))
    \<and> (\<forall>r\<in>set (medias (run E ops)). md_album r = a \<longrightarrow>
         set (media_keys r) \<subseteq> set (RemovedKeys rm) \<inter> queued d')
    \<and> (\<forall>v\<in>set (avatars (run E ops)). av_album v = a \<longrightarrow> av_key v \<in> set (RemovedKeys rm) \<inter> queued d')"
proof (rule LookupMember_row [OF reachable(1) assms])
  let ?d = "run E ops"
  fix al m assume m: "find_album ?d a = Some al" "find_member ?d a t = Some m" "revoked_at m = None" "role m = Admin"
  define d' where "d' = drop_album a (enqueueObjectCleanup now (album_keys a ?d) ?d)"
  have "DeleteAlbum E now a u ?d = Inr (\<lparr>MemberUserIDs = activeUserIDs E a t ?d, RemovedKeys = album_keys a ?d\<rparr>, d')"
    using assms m by (simp add: DeleteAlbum_def DeleteAlbumTx_def lockAlbum_def removeAlbum_eq [OF reachable(1)] d'_def)
  moreover have "queued d' = queued ?d \<union> set (album_keys a ?d)"
    using queued_enqueue [of now "album_keys a ?d" ?d] by (simp add: d'_def drop_album_def queued_def)
  moreover have "find_album d' a = None" "a \<notin> m_album ` set (members d')" "a \<notin> i_album ` set (amids d')"
    "a \<notin> e_album ` set (epochs d')" "a \<notin> w_album ` set (wraps d')" "a \<notin> av_album ` set (avatars d')"
    "medias d' = filter (\<lambda>r. md_album r \<noteq> a) (medias ?d)"
    by (auto simp: find_album_None d'_def drop_album_def db_fields) (simp add: sql_delete_def)
  moreover have "set (media_keys r) \<subseteq> set (album_keys a ?d)" if "r \<in> set (medias ?d)" "md_album r = a" for r
    using that by (force simp: album_keys_def)
  moreover have "av_key v \<in> set (album_keys a ?d)" if "v \<in> set (avatars ?d)" "av_album v = a" for v
    using that by (force simp: album_keys_def)
  ultimately show ?thesis
    by (intro exI [of _ "\<lparr>MemberUserIDs = activeUserIDs E a t ?d, RemovedKeys = album_keys a ?d\<rparr>"] exI [of _ d'])
      (simp add: subset_iff)
qed

theorem delete_album_complete_witness:
  "\<exists>rm d'. DeleteAlbum demo 0 7 1 shared_album = Inr (rm, d') \<and> find_album d' 7 = None"
proof -
  have "LookupMember demo 1 7 shared_album = Inr (tok 1, Admin)" by code_simp
  then show ?thesis unfolding shared_album_def by (blast dest: delete_album_complete)
qed

lemma find_member_revoke:
  assumes "find_member d a t = Some m" "revoked_at m = None" "members d' = members (revoke_row now a t d)"
  shows "find_member d' a t = Some (m\<lparr>revoked_at := Some now\<rparr>)"
proof -
  have "find (\<lambda>m. m_album m = a \<and> m_token m = t) ms = Some m \<Longrightarrow>
    find (\<lambda>m. m_album m = a \<and> m_token m = t) (sql_update (\<lambda>m. m_album m = a \<and> m_token m = t \<and> revoked_at m = None)
      (\<lambda>m. m\<lparr>revoked_at := Some now\<rparr>) ms) = Some (m\<lparr>revoked_at := Some now\<rparr>)" for ms
    using assms(2) by (induction ms) (auto simp: sql_update_def split: if_splits)
  then show ?thesis using assms(1) unfolding find_member_def assms(3) by (simp add: revoke_row_def)
qed

text \<open>As soon as a removal is committed, the guard of the album routes refuses the removed user
  on that album with the answer for a revoked member.\<close>

theorem removed_member_refused:
  assumes "LookupMember E v a (run E ops) = Inr (t, r)"
    and "RemoveMember E now a u t (run E ops) = Inr ((t, False), d')"
    and "uuid_Parse E raw = Some a" "raw \<noteq> []"
  shows "RequireMember E (Some v) (Some raw) d' =
    Inl (Api E_MEMBER_REVOKED ''your access to this album has been revoked'')"
proof (rule RemoveMember_Inr [OF assms(2)])
  let ?d = "run E ops"
  fix ct cr r' assume rv: "RevokeMemberTx now a ct t ?d = Inr ((r', False), d')"
  note s = revoked_state [OF rv]
  have "d' = run E (ops @ [(now, Al (ARevoke a ct t))])" using rv by (simp add: run_extend run_tx_def)
  then have wf: "wf d'" using reachable(1) by simp
  from LookupMember_Inr [OF assms(1)] obtain i m where im: "membership_of ?d (lhash E v) a = Some (i, m)"
    "revoked_at m = None" "i_token i = t" by metis
  note i = im(1) [unfolded membership_of_iff [OF reachable(1)]]
  have "find_member d' a t = Some (m\<lparr>revoked_at := Some now\<rparr>)"
    by (rule find_member_revoke [OF _ im(2) s(7)]) (use i im(3) in simp)
  then have "membership_of d' (lhash E v) a = Some (i, m\<lparr>revoked_at := Some now\<rparr>)"
    using i im(3) by (simp add: membership_of_iff [OF wf] s(8))
  then show ?thesis using assms(3,4) by (simp add: RequireMember_def LookupMember_def)
qed

theorem removed_member_refused_witness:
  "RequireMember demo (Some 2) (Some (uuid_bytes 7)) (snd (projr (RemoveMember demo 0 7 1 (tok 2) shared_album))) =
    Inl (Api E_MEMBER_REVOKED ''your access to this album has been revoked'')"
proof -
  let ?x = "RemoveMember demo 0 7 1 (tok 2) shared_album"
  have "\<not> isl ?x \<and> fst (projr ?x) = (tok 2, False)" by code_simp
  then have x: "?x = Inr ((tok 2, False), snd (projr ?x))" by (cases ?x) (auto simp: prod_eq_iff)
  have l: "LookupMember demo 2 7 shared_album = Inr (tok 2, Member)" by code_simp
  have p: "uuid_Parse demo (uuid_bytes 7) = Some 7" "uuid_bytes 7 \<noteq> []" by code_simp+
  show ?thesis using l x p unfolding shared_album_def by (rule removed_member_refused)
qed

section \<open>Inviting a member\<close>

lemma check_envelopes_None:
  "check_envelopes i es = None \<Longrightarrow> map env_epoch es = map (\<lambda>k. i + int k) [0..<length es]"
proof (induction i es rule: check_envelopes.induct)
  case (2 i e es)
  then have "map env_epoch es = map (\<lambda>k. i + 1 + int k) [0..<length es]" "env_epoch e = i"
    by (simp_all split: if_splits)
  moreover have "map (\<lambda>k. i + int k) [0..<Suc n] = i # map (\<lambda>k. i + 1 + int k) [0..<n]" for n
    by (induction n) simp_all
  ultimately show ?case by simp
qed simp

lemma DeliverExistingUser_Inr:
  assumes "DeliverExistingUser E now fresh a ct cr inp d = Inr ((t, u), d')"
  obtains req where "cr = Admin" "dm_album req = a" "dm_user req = u"
    "map env_epoch (dm_envelopes req) = map int [0..<length (dm_envelopes req)]"
    "DeliverMember E now fresh req d = Inr (t, d')"
proof -
  have cr: "cr = Admin" using assms by (simp add: DeliverExistingUser_def split: if_splits)
  obtain norm where n: "Normalize (du_target inp) = Inr norm"
    using assms by (cases "Normalize (du_target inp)") (simp_all add: DeliverExistingUser_def split: if_splits)
  obtain w where w: "FindUserIDByMiuchioID norm d = Inr w"
    using assms n by (cases "FindUserIDByMiuchioID norm d") (simp_all add: DeliverExistingUser_def split: if_splits)
  let ?es = "sort_key env_epoch (du_envelopes inp)"
  let ?req = "\<lparr>dm_album = a, dm_user = w, dm_sender = ct, dm_ek_pub = du_ek_pub inp, dm_opk = du_opk inp, dm_envelopes = ?es\<rparr>"
  have ce: "check_envelopes 0 ?es = None"
    using assms n w by (simp add: DeliverExistingUser_def Let_def split: if_splits option.splits)
  obtain x where x: "DeliverMember E now fresh ?req d = Inr x"
    using assms n w ce by (cases "DeliverMember E now fresh ?req d") (simp_all add: DeliverExistingUser_def Let_def split: if_splits)
  have "x = (t, d')" "w = u"
    using assms n w ce x by (simp_all add: DeliverExistingUser_def Let_def split: if_splits prod.splits)
  then show thesis using x check_envelopes_None [OF ce] by (intro that [OF cr, of ?req]) simp_all
qed

lemma joined_is_active:
  assumes "joined_state a t d d1"
  shows "(a, t) \<in> active_pairs d1"
  using assms unfolding joined_state_def
proof (elim disjE exE conjE)
  fix m assume m: "find_member d a t = Some m" and d1: "d1 = reactivate_member a t d"
  have "m\<lparr>revoked_at := None, role := Member, m_name_ct := None\<rparr> \<in> set (members d1)"
    using find_member_Some [OF m] unfolding d1 reactivate_member_def by (auto intro!: image_eqI [of _ _ m])
  then show ?thesis using find_member_Some [OF m] unfolding active_pairs_def by (intro CollectI exI conjI) auto
next
  fix i
  let ?m = "\<lparr>m_album = a, m_token = t, role = Member, revoked_at = None, m_name_ct = None\<rparr>"
  assume "d1 = d\<lparr>amids := sql_insert i (amids d), members := sql_insert ?m (members d)\<rparr>"
  then show ?thesis unfolding active_pairs_def by (intro CollectI exI [of _ ?m]) simp
qed

lemma joined_not_active:
  assumes "joined_state a t d d1" "wf_members d"
  shows "(a, t) \<notin> active_pairs d"
proof
  assume "(a, t) \<in> active_pairs d"
  then obtain m where m: "m \<in> set (members d)" "m_album m = a" "m_token m = t" "revoked_at m = None"
    by (auto simp: active_pairs_def)
  then have "find_member d a t = Some m" using find_member_key [OF assms(2)] by blast
  then show False using assms(1) m unfolding joined_state_def by (elim disjE exE conjE) auto
qed

text \<open>C25. An accepted invitation comes from the admin, respects the limit of ten members, and the new
  member holds a wrapped key for every epoch of the album, the old ones included.\<close>

theorem invited_member_complete:
  assumes "DeliverExistingUser E now fresh a ct cr inp (run E ops) = Inr ((t, u), d')"
    and "length fresh = tokenLen"
  shows "cr = Admin \<and> t \<in> set (active_tokens d' a) \<and> t \<notin> set (active_tokens (run E ops) a)
    \<and> (\<forall>e\<in>set (album_epochs d' a). has_wrap d' a e t)
    \<and> album_epochs d' a = album_epochs (run E ops) a \<and> active_count d' a \<le> MaxAlbumMembers"
proof (rule DeliverExistingUser_Inr [OF assms(1)], goal_cases)
  case (1 req)
  have d': "d' = run E (ops @ [(now, Al (ADeliver fresh req))])"
    using 1(4,5) assms(2) by (simp add: run_extend run_tx_def)
  obtain d1 where j: "joined_state a t (run E ops) d1" "members d' = members d1"
    using 1(5) by (rule DeliverMember_Inr) (auto simp: 1(2) elim!: deliver_wraps_Inr split: option.splits)
  have "active_pairs d' = active_pairs d1" unfolding active_pairs_def j(2) ..
  then have act: "(a, t) \<in> active_pairs d'" using joined_is_active [OF j(1)] by simp
  have new: "(a, t) \<notin> active_pairs (run E ops)" using joined_not_active [OF j(1) wfD(3) [OF reachable(1)]] .
  have "covered d'" using coverage_run [of E "ops @ [(now, Al (ADeliver fresh req))]"] by (simp add: d' coverage_ok_def)
  then have "has_wrap d' a e t" if "e \<in> set (album_epochs d' a)" for e
    using act that by (auto simp: covered_def has_wrap_key wrap_keys_def epoch_pairs_album)
  moreover have "active_count d' a \<le> MaxAlbumMembers" using reachable(3) unfolding d' by (simp add: roster_ok_def)
  moreover have "album_epochs d' a = album_epochs (run E ops) a"
    by (simp add: album_epochs_def DeliverMember_fields [OF 1(5)])
  ultimately show ?case using act new 1(1) by (simp add: set_active_tokens)
qed

theorem invited_member_complete_witness:
  "has_wrap (snd (projr (DeliverExistingUser demo 0 (tok 3) 7 (tok 1) Admin invite_request shared_album))) 7 0 (tok 3)"
proof -
  let ?x = "DeliverExistingUser demo 0 (tok 3) 7 (tok 1) Admin invite_request shared_album"
  have "\<not> isl ?x \<and> fst (projr ?x) = (tok 3, 3)" by code_simp
  then have "?x = Inr ((tok 3, 3), snd (projr ?x))" by (cases ?x) (auto simp: prod_eq_iff)
  moreover have "0 \<in> set (album_epochs shared_album 7)" "length (tok 3) = tokenLen" by code_simp+
  ultimately show ?thesis unfolding shared_album_def by (metis invited_member_complete)
qed

end
