(* ===== verification/Media_Properties.thy ===== *)
theory Media_Properties
  imports Reachable Scenario
begin

text \<open>
  Properties of photos and stored objects: where a key may be, what the cleanup deletes, the feed
  numbers, and the confirmation of an upload.
\<close>

section \<open>Objects\<close>

text \<open>C15. A stored object has one place: no two rows of photos and avatars name the same object, no
  object is queued twice, and nothing that waits for deletion is in use.\<close>

theorem object_in_one_place:
  "distinct (live_keys (run E ops) @ map c_key (cleanup (run E ops)))"
  using reachable(5) by (simp add: keys_ok_def total_keys_def)

text \<open>C11. No object is forgotten: a key that a row names or that waits for deletion is still named by
  a row or still waits after any further transactions, unless the deletion of the object itself
  was acknowledged in between.\<close>

theorem object_never_lost:
  assumes "k \<in> set (live_keys (run E ops)) \<union> queued (run E ops)"
    and "\<forall>x\<in>set later. snd x \<noteq> Md (MAck k)"
  shows "k \<in> set (live_keys (run E (ops @ later))) \<union> queued (run E (ops @ later))"
proof -
  have "has_key k (run E ops)" using assms(1) reachable(5) by (simp add: has_key_def set_total_keys)
  from has_key_law.preserved_run [OF reachable(1) this assms(2)]
  show ?thesis by (simp add: has_key_def set_total_keys run_append)
qed

theorem object_never_lost_witness:
  "[5] \<in> set (live_keys (then_do (Al (ADelete 7 (tok 1))))) \<union> queued (then_do (Al (ADelete 7 (tok 1))))"
proof -
  have "[5] \<in> set (live_keys shared_album) \<union> queued shared_album" by code_simp
  then show ?thesis unfolding then_do_run shared_album_def by (rule object_never_lost) simp
qed

lemma object_step:
  "set (total_keys (run E ops)) \<subseteq> set (total_keys (run E (ops @ [(now, Md (MStale cutoff n locked))])))"
proof
  fix k assume "k \<in> set (total_keys (run E ops))"
  then have "has_key k (run E ops)" using reachable(5) by (simp add: has_key_def)
  from has_key_law.preserved_run [OF reachable(1) this, of "[(now, Md (MStale cutoff n locked))]"]
  show "k \<in> set (total_keys (run E (ops @ [(now, Md (MStale cutoff n locked))])))"
    by (simp add: has_key_def run_append)
qed

text \<open>An object that waits for deletion never comes back into use before the deletion is
  acknowledged: whatever transactions run between the moment the sweeper lists a key and the
  moment it deletes the object, no row names the key. So the sweeper destroys nothing in use.\<close>

theorem queued_never_live_again:
  assumes "k \<in> queued (run E ops)" and "\<forall>x\<in>set later. snd x \<noteq> Md (MAck k)"
  shows "k \<in> queued (run E (ops @ later)) \<and> k \<notin> set (live_keys (run E (ops @ later)))"
proof -
  have "retired_key k (run E ops)" using assms(1) reachable(5) by (simp add: retired_key_def)
  from retired_law.preserved_run [OF reachable(1) this assms(2)]
  have "retired_key k (run E (ops @ later))" by (simp add: run_append)
  then show ?thesis using live_not_queued by (auto simp: retired_key_def)
qed

theorem queued_never_live_again_witness:
  "[5] \<notin> set (live_keys (run demo ((history @ [(0, Al (ADelete 7 (tok 1)))]) @ [(1, Ac (SDelete [])), (2, Md (MAck [6]))])))"
proof -
  have "[5] \<in> queued (then_do (Al (ADelete 7 (tok 1))))" by code_simp
  then show ?thesis unfolding then_do_run by (rule queued_never_live_again [THEN conjunct2]) simp
qed

section \<open>The cleanup\<close>

lemma Reschedule_keys: "queued (snd (RescheduleObjectCleanupKey now k d)) = queued d"
  "medias (snd (RescheduleObjectCleanupKey now k d)) = medias d"
  "avatars (snd (RescheduleObjectCleanupKey now k d)) = avatars d"
  by (simp_all add: RescheduleObjectCleanupKey_def queued_def image_sql_update split: option.split del: set_sql_update)

lemma cleanup_effects:
  assumes "cleanupObjectKeys S now ks d = (st, d')"
  shows "deleted_keys st = filter (delete_ok S) ks \<and> n_failed st = length (filter (\<lambda>k. \<not> delete_ok S k) ks) \<and>
    queued d' = queued d - {k \<in> set ks. delete_ok S k} \<and> medias d' = medias d \<and> avatars d' = avatars d"
  using assms
proof (induction ks arbitrary: st d d')
  case (Cons k ks)
  show ?case
  proof (cases "delete_ok S k")
    case True
    obtain st1 where st1: "cleanupObjectKeys S now ks (DeleteObjectCleanupKey k d) = (st1, d')"
        "st = st1\<lparr>deleted_keys := k # deleted_keys st1\<rparr>"
      using Cons.prems True by (cases "cleanupObjectKeys S now ks (DeleteObjectCleanupKey k d)") simp
    have "queued (DeleteObjectCleanupKey k d) = queued d - {k}"
      by (auto simp: queued_def DeleteObjectCleanupKey_def)
    with Cons.IH [OF st1(1)] st1(2) True show ?thesis
      by (simp add: DeleteObjectCleanupKey_fields) blast
  next
    case False
    obtain n d1 where d1: "RescheduleObjectCleanupKey now k d = (n, d1)" by fastforce
    obtain st1 d2 where st1: "cleanupObjectKeys S now ks d1 = (st1, d2)" by fastforce
    have d2: "d' = d2" "deleted_keys st = deleted_keys st1" "n_failed st = n_failed st1 + 1"
      using Cons.prems False d1 st1 by auto
    have "{k' \<in> set (k # ks). delete_ok S k'} = {k' \<in> set ks. delete_ok S k'}" using False by auto
    with Cons.IH [OF st1] False d2 Reschedule_keys [of now k d] d1 show ?thesis by simp
  qed
qed simp

lemma listed_keys_queued: "set (ListObjectCleanupKeys now n d) \<subseteq> queued d"
  by (auto simp: ListObjectCleanupKeys_def queued_def dest: in_set_takeD)

lemma filter_confirmed_delete: "filter c (sql_delete (\<lambda>r. p r \<and> \<not> c r) t) = filter c t"
  by (induction t) (auto simp: sql_delete_def)

lemma QueueStale_confirmed: "filter confirmed (medias (snd (QueueStalePendingCleanup now cutoff n locked d))) = filter confirmed (medias d)"
    "avatars (snd (QueueStalePendingCleanup now cutoff n locked d)) = avatars d"
  by (simp_all add: QueueStalePendingCleanup_snd removeMedia_eq db_fields filter_confirmed_delete)

lemma listed_keys_length: "length (ListObjectCleanupKeys now n d) \<le> nat n"
  by (simp add: ListObjectCleanupKeys_def)

text \<open>One round of the sweep of stale uploads deletes no object that a photo or avatar still
  names and keeps every confirmed photo and every avatar row; what it deletes leaves the queue,
  every other object is still named or still queued, and it asks for at most twice the batch
  size of deletions.\<close>

theorem sweep_spares_live:
  "let ((n, st), d') = SweepStalePendingUploads S now cutoff batch (run E ops) in
    set (deleted_keys st) \<inter> (set (live_keys d') \<union> queued d') = {} \<and>
    filter confirmed (medias d') = filter confirmed (medias (run E ops)) \<and> avatars d' = avatars (run E ops) \<and>
    set (live_keys (run E ops)) \<union> queued (run E ops) \<subseteq> set (live_keys d') \<union> queued d' \<union> set (deleted_keys st) \<and>
    length (deleted_keys st) + n_failed st \<le> nat (batch * 2)"
proof -
  let ?d = "run E ops"
  obtain b d1 where q: "QueueStalePendingCleanup now cutoff batch [] ?d = (b, d1)" by fastforce
  obtain st d' where c: "cleanupObjectKeys S now (ListObjectCleanupKeys now (batch * 2) d1) d1 = (st, d')" by fastforce
  have d1: "d1 = run E (ops @ [(now, Md (MStale cutoff batch []))])" using q by (simp add: run_extend)
  have ok: "keys_ok d1" unfolding d1 by (rule reachable(5))
  note e = cleanup_effects [OF c]
  have live: "live_keys d' = live_keys d1" using e by (simp add: live_keys_def)
  have "set (deleted_keys st) \<subseteq> queued d1" using e listed_keys_queued by auto
  then have "set (deleted_keys st) \<inter> set (live_keys d') = {}" unfolding live by (meson disjoint_iff live_not_queued [OF ok] subsetD)
  moreover have "set (deleted_keys st) \<inter> queued d' = {}" using e by auto
  moreover have "filter confirmed (medias d1) = filter confirmed (medias ?d)" "avatars d1 = avatars ?d"
    using QueueStale_confirmed [of now cutoff batch "[]" ?d] q by simp_all
  moreover have "set (live_keys ?d) \<union> queued ?d \<subseteq> set (live_keys d1) \<union> queued d1"
    unfolding d1 using object_step by (auto simp: set_total_keys)
  moreover have "length (deleted_keys st) + n_failed st \<le> nat (batch * 2)"
    using e listed_keys_length [of now "batch * 2" d1] sum_length_filter_compl [of "delete_ok S" "ListObjectCleanupKeys now (batch * 2) d1"] by simp
  ultimately show ?thesis
    using q c e live by (auto simp: SweepStalePendingUploads_def)
qed

section \<open>Confirming an upload\<close>

text \<open>C27. A confirmation takes effect only for a photo encrypted under the current epoch of an album
  without rotation debt; it gives the photo the next number of the album, one more than the number
  handed out before and larger than that of every photo there, and makes the album the most recently active one.\<close>

theorem confirm_takes_next_number:
  assumes "MarkConfirmed x a res (run E ops) = Inr (g, d')"
  shows "(\<exists>r\<in>set (medias (run E ops)). pending_row x a res r \<and> epoch_tag r = max_epoch (run E ops) a \<and>
       r\<lparr>confirmed := True, album_seq := Some g\<rparr> \<in> set (medias d'))
    \<and> RotationRequiredExpr (run E ops) a = Some False
    \<and> (\<forall>r\<in>set (medias (run E ops)). md_album r = a \<longrightarrow> (\<forall>s. album_seq r = Some s \<longrightarrow> s < g))
    \<and> MediaGeneration a (run E ops) = Inr (g - 1) \<and> MediaGeneration a d' = Inr g
    \<and> (\<forall>al\<in>set (albums d'). a_id al \<noteq> a \<longrightarrow> (\<forall>al'\<in>set (albums d'). a_id al' = a \<longrightarrow>
         last_activity_seq al < last_activity_seq al'))"
proof -
  let ?d = "run E ops"
  note wf = reachable(1) [of E ops] and sq = reachable(4) [of E ops]
  show ?thesis
  proof (rule MarkConfirmed_Inr [OF assms wfD(4) [OF wf]], goal_cases)
    case (1 al row)
    note al = find_album_Some [OF 1(1)]
    have "row\<lparr>confirmed := True, album_seq := Some g\<rparr> \<in> set (medias d')"
      using 1(2,3) unfolding 1(7) by (auto simp: pending_row_def intro!: image_eqI [of _ _ row])
    moreover have "s < g" if "r \<in> set (medias ?d)" "md_album r = a" "album_seq r = Some s" for r s
      using sq that al 1(6) by (force simp: seq_defs)
    moreover have "MediaGeneration a ?d = Inr (g - 1)" using 1(1,6) by (simp add: MediaGeneration_def)
    moreover have "MediaGeneration a d' = Inr g"
    proof -
      have "wf_albums d'" using wf_MarkConfirmed [OF wf assms] wfD(1) by blast
      moreover have "al\<lparr>media_generation := g, last_activity_seq := activity_seq ?d + 1\<rparr> \<in> set (albums d')"
        unfolding 1(7) using al 1(6) by (auto intro!: image_eqI [of _ _ al])
      ultimately have "find_album d' a = Some (al\<lparr>media_generation := g, last_activity_seq := activity_seq ?d + 1\<rparr>)"
        using find_album_key al by fastforce
      then show ?thesis by (simp add: MediaGeneration_def)
    qed
    moreover have "last_activity_seq b < last_activity_seq b'"
      if "b \<in> set (albums d')" "a_id b \<noteq> a" "b' \<in> set (albums d')" "a_id b' = a" for b b'
    proof -
      note b = that
      let ?f = "\<lambda>al. if a_id al = a then al\<lparr>media_generation := media_generation al + 1,
        last_activity_seq := activity_seq ?d + 1\<rparr> else al"
      have "albums d' = map ?f (albums ?d)" by (simp add: 1(7) sql_update_def)
      then have "b \<in> ?f ` set (albums ?d)" "b' \<in> ?f ` set (albums ?d)" using b(1,3) by (simp_all only: set_map)
      then obtain c c' where c: "c \<in> set (albums ?d)" "b = ?f c" "b' = ?f c'" by (elim imageE)
      have "a_id c \<noteq> a" using b(2) unfolding c(2) by (cases "a_id c = a") simp_all
      moreover have "a_id c' = a" using b(4) unfolding c(3) by (cases "a_id c' = a") simp_all
      ultimately have "b = c" "last_activity_seq b' = activity_seq ?d + 1" using c by simp_all
      moreover have "last_activity_seq c \<le> activity_seq ?d" using sq c(1) by (simp add: seq_defs)
      ultimately show ?thesis by simp
    qed
    ultimately show ?case using 1(4,5) 1(2) 1(3) by (intro conjI bexI [of _ row] allI ballI impI) blast+
  qed
qed

theorem confirm_takes_next_number_witness:
  "MediaGeneration 7 (snd (projr (MarkConfirmed 30 7 31 (then_do (Md (MReserve 30 31 second_photo 0)))))) = Inr 2"
proof -
  let ?x = "MarkConfirmed 30 7 31 (then_do (Md (MReserve 30 31 second_photo 0)))"
  have "\<not> isl ?x \<and> fst (projr ?x) = 2" by code_simp
  then have "?x = Inr (2, snd (projr ?x))" by (cases ?x) (auto simp: prod_eq_iff)
  then show ?thesis unfolding then_do_run by (blast dest: confirm_takes_next_number)
qed

lemma find_media:
  assumes "r \<in> set (medias d)" "md_id r = x" "md_album r = a" "wf d"
  shows "find (\<lambda>r. md_id r = x \<and> md_album r = a) (medias d) = Some r"
proof (cases "find (\<lambda>r. md_id r = x \<and> md_album r = a) (medias d)")
  case None
  then show ?thesis using assms by (simp add: find_None_all)
next
  case (Some q)
  then show ?thesis using assms wfD(4) [OF assms(4)] find_Some_in [OF Some]
    by (auto simp: wf_medias_def dest: distinct_map_eq [where g = md_id])
qed

text \<open>A client that repeats the confirmation of an upload, because it did not see the answer,
  gets the same number again; the repetition notifies nobody and changes nothing.\<close>

theorem confirm_upload_idempotent:
  assumes "ConfirmUpload E S now a x u up (run E ops) (run E ops) = (Inr g, ev, d')"
  shows "ConfirmUpload E S' now' a x u up d' d' = (Inr g, [], d')"
proof -
  let ?d = "run E ops"
  note wf = reachable(1) [of E ops]
  obtain row where row: "media_GetByID x a ?d = Inr row"
    using assms by (cases "media_GetByID x a ?d") (simp_all add: ConfirmUpload_def)
  have f: "find (\<lambda>r. md_id r = x \<and> md_album r = a) (medias ?d) = Some row"
    using row by (auto simp: media_GetByID_def split: option.splits)
  have up: "uploader_token row = up" using assms row by (simp add: ConfirmUpload_def split: if_splits)
  show ?thesis
  proof (cases "confirmed row")
    case True
    have "row \<in> set (medias ?d)" using find_Some_in [OF f] by simp
    then obtain s where s: "album_seq row = Some s" using reachable(4) [of E ops] True by (auto simp: seq_defs)
    then have "d' = ?d" "g = s" using assms row up True by (simp_all add: ConfirmUpload_def)
    then show ?thesis using row up True s by (simp add: ConfirmUpload_def)
  next
    case False
    have co: "check_objects S row = None"
      using assms row up False by (cases "check_objects S row") (auto simp: ConfirmUpload_def)
    have "\<exists>g. MarkConfirmed x a (reservation_id row) ?d = Inr (g, d')"
    proof (cases "MarkConfirmed x a (reservation_id row) ?d")
      case (Inl e)
      have "fst (ConfirmUpload E S now a x u up ?d ?d) = confirm_error x a e ?d"
        using Inl row up False co by (simp add: ConfirmUpload_def)
      then have "confirm_error x a e ?d = Inr g" using assms by simp
      then show ?thesis using row False by (simp add: confirm_error_def split: if_splits)
    qed (use assms row up False co in \<open>auto simp: ConfirmUpload_def split: prod.splits\<close>)
    then have t: "MarkConfirmed x a (reservation_id row) ?d = Inr (g, d')"
      using assms row up False co by (auto simp: ConfirmUpload_def)
    let ?r = "row\<lparr>confirmed := True, album_seq := Some g\<rparr>"
    have "?r \<in> set (medias d')" "md_id row = x" "md_album row = a"
      using t wfD(4) [OF wf] find_Some_in [OF f]
      by (auto elim!: MarkConfirmed_Inr intro!: image_eqI [of _ _ row])
    moreover have "wf d'" using wf_MarkConfirmed [OF wf t] .
    ultimately have "find (\<lambda>r. md_id r = x \<and> md_album r = a) (medias d') = Some ?r"
      by (intro find_media) simp_all
    then have "media_GetByID x a d' = Inr ?r" by (simp add: media_GetByID_def)
    then show ?thesis using up by (simp add: ConfirmUpload_def)
  qed
qed

theorem confirm_upload_idempotent_witness:
  "let d = then_do (Md (MReserve 30 31 second_photo 0)); d' = snd (snd (ConfirmUpload demo demo_store 0 7 30 2 (tok 2) d d))
    in ConfirmUpload demo demo_store 9 7 30 2 (tok 2) d' d' = (Inr 2, [], d')"
proof -
  let ?d = "then_do (Md (MReserve 30 31 second_photo 0))"
  let ?x = "ConfirmUpload demo demo_store 0 7 30 2 (tok 2) ?d ?d"
  have "fst ?x = Inr 2" by code_simp
  then have "?x = (Inr 2, fst (snd ?x), snd (snd ?x))" by (simp add: prod_eq_iff)
  then show ?thesis unfolding then_do_run Let_def by (rule confirm_upload_idempotent)
qed

text \<open>The photo list of an album is complete, lists nothing twice, and is ordered from the newest
  confirmation to the oldest without ties.\<close>

theorem feed_newest_first:
  "mset (ListConfirmed a (run E ops)) = mset (filter (\<lambda>r. md_album r = a \<and> confirmed r) (medias (run E ops)))
    \<and> sorted_wrt (\<lambda>r r'. the (album_seq r') < the (album_seq r)) (ListConfirmed a (run E ops))"
proof
  let ?d = "run E ops" and ?ys = "ListConfirmed a (run E ops)"
  let ?k = "\<lambda>r. (case album_seq r of None \<Rightarrow> (1::int, 0) | Some s \<Rightarrow> (0, - s), - md_created_at r, - uint (md_id r))"
  show m: "mset ?ys = mset (filter (\<lambda>r. md_album r = a \<and> confirmed r) (medias ?d))"
    by (simp add: ListConfirmed_def confirmed_media_def)
  have sq: "seq_media_ok ?d" using reachable(4) by (simp add: seq_ok_def)
  have "distinct (map (\<lambda>r. (md_album r, album_seq r)) (filter confirmed (medias ?d)))" using sq by (simp add: seq_media_ok_def)
  then have "distinct (map (\<lambda>r. (md_album r, album_seq r)) (filter (\<lambda>r. md_album r = a) (filter confirmed (medias ?d))))"
    by (rule distinct_map_filter)
  then have "distinct (map (\<lambda>r. (md_album r, album_seq r)) (filter (\<lambda>r. md_album r = a \<and> confirmed r) (medias ?d)))"
    by (simp add: conj_commute)
  then have dist: "distinct (map (\<lambda>r. (md_album r, album_seq r)) ?ys)"
    using mset_eq_imp_distinct_iff [OF arg_cong [OF m, of "image_mset (\<lambda>r. (md_album r, album_seq r))", folded mset_map]]
    by simp
  have mem: "md_album r = a \<and> album_seq r \<noteq> None" if "r \<in> set ?ys" for r
  proof -
    have "r \<in> set (filter (\<lambda>r. md_album r = a \<and> confirmed r) (medias ?d))" using that unfolding mset_eq_setD [OF m] .
    then have "r \<in> set (medias ?d)" "md_album r = a" "confirmed r" by simp_all
    then show ?thesis using sq unfolding seq_media_ok_def by blast
  qed
  have srt: "sorted (map ?k ?ys)" by (simp add: ListConfirmed_def)
  show "sorted_wrt (\<lambda>r r'. the (album_seq r') < the (album_seq r)) ?ys"
    unfolding sorted_wrt_iff_nth_less
  proof (intro allI impI)
    fix i j assume ij: "i < j" "j < length ?ys"
    define r r' where "r = ?ys ! i" and "r' = ?ys ! j"
    have "r \<in> set ?ys" "r' \<in> set ?ys" using ij by (simp_all add: r_def r'_def)
    then have m: "md_album r = a" "md_album r' = a" "album_seq r \<noteq> None" "album_seq r' \<noteq> None" using mem by blast+
    have "?k r \<le> ?k r'" using sorted_nth_mono [OF srt, of i j] ij by (simp add: r_def r'_def)
    moreover have "(md_album r, album_seq r) \<noteq> (md_album r', album_seq r')"
      using nth_eq_iff_index_eq [OF dist, of i j] ij by (simp add: r_def r'_def)
    ultimately have "the (album_seq r') < the (album_seq r)"
      using m by (auto simp: less_eq_prod_def)
    then show "the (album_seq (?ys ! j)) < the (album_seq (?ys ! i))" by (simp add: r_def r'_def)
  qed
qed

section \<open>Requesting an upload\<close>

lemma RequestUploadURL_Inr:
  assumes "RequestUploadURL S now newID newRes rnd rt a up inp d = (Inr res, d')"
  obtains row where "validateUploadInput inp = None" "RotationRequired a d = Inr False"
    "ReserveUploadRow now newID newRes (upload_row newID (newStorageKey rnd) (newStorageKey rt) a up inp)
      (up_epoch_tag inp) d = Inr (row, d')"
    "presign_upload S (storage_key row) (content_type inp) (up_blob_size inp) (StdEncode (up_blob_sha256 inp))
      = Some (ur_url res, ur_header res)"
    "ur_media_id res = md_id row" "ur_storage_key res = storage_key row"
proof -
  have v: "validateUploadInput inp = None"
    using assms by (cases "validateUploadInput inp") (simp_all add: RequestUploadURL_def)
  obtain c st where c: "CurrentEpoch a d = Some (c, st)"
    using assms v by (cases "CurrentEpoch a d") (auto simp: RequestUploadURL_def)
  have e: "up_epoch_tag inp = c" using assms v c by (simp add: RequestUploadURL_def split: if_splits)
  have r: "RotationRequired a d = Inr False"
    using assms v c e by (auto simp: RequestUploadURL_def split: sum.splits bool.splits)
  let ?t = "ReserveUploadRow now newID newRes (upload_row newID (newStorageKey rnd) (newStorageKey rt) a up inp) (up_epoch_tag inp) d"
  obtain row d1 where t: "?t = Inr (row, d1)"
    using assms v c e r by (cases ?t) (auto simp: RequestUploadURL_def)
  then have p: "presign_row S now inp row d1 = (Inr res, d')"
    using assms v c e r by (simp add: RequestUploadURL_def)
  then obtain url hdr where u: "presign_upload S (storage_key row) (content_type inp) (up_blob_size inp)
      (StdEncode (up_blob_sha256 inp)) = Some (url, hdr)"
    by (auto simp: presign_row_def split: option.splits)
  have "d' = d1 \<and> ur_url res = url \<and> ur_header res = hdr \<and> ur_media_id res = md_id row \<and> ur_storage_key res = storage_key row"
    using p u by (auto simp: presign_row_def Let_def split: if_splits option.splits)
  then show thesis using v r t u by (intro that) auto
qed

lemma validateUploadInput_None:
  assumes "validateUploadInput inp = None"
  shows "0 < up_blob_size inp \<and> up_blob_size inp \<le> MaxBlobBytes \<and> length (up_blob_sha256 inp) = 32
    \<and> (has_thumb inp \<longrightarrow> 0 < up_thumb_size inp \<and> up_thumb_size inp \<le> maxThumbSize)
    \<and> valid_media_type (up_media_type inp)"
  using assms by (auto simp: validateUploadInput_def has_thumb_def sha256Len_def split: if_splits)

text \<open>An upload that is granted is within the size limits, is under the current epoch of an album
  without rotation debt, and its address is for exactly the object and size of a fresh pending
  row of the caller in that album. Confirmed photos and the rows of other photos stay as they are.\<close>

theorem upload_grant_bounds:
  assumes "RequestUploadURL S now newID newRes rnd rt a up inp (run E ops) = (Inr res, d')"
  shows "0 < up_blob_size inp \<and> up_blob_size inp \<le> MaxBlobBytes
    \<and> (has_thumb inp \<longrightarrow> 0 < up_thumb_size inp \<and> up_thumb_size inp \<le> maxThumbSize)
    \<and> up_epoch_tag inp = max_epoch (run E ops) a \<and> RotationRequired a (run E ops) = Inr False
    \<and> (\<exists>r\<in>set (medias d'). md_id r = ur_media_id res \<and> md_album r = a \<and> uploader_token r = up \<and> \<not> confirmed r
         \<and> blob_size r = up_blob_size inp \<and> epoch_tag r = up_epoch_tag inp \<and> storage_key r = ur_storage_key res
         \<and> presign_upload S (storage_key r) (content_type inp) (blob_size r) (StdEncode (blob_sha256 r))
             = Some (ur_url res, ur_header res))
    \<and> (\<forall>q\<in>set (medias (run E ops)). confirmed q \<or> md_id q \<noteq> ur_media_id res \<longrightarrow> q \<in> set (medias d'))"
proof (rule RequestUploadURL_Inr [OF assms], goal_cases)
  case (1 row)
  let ?d = "run E ops" and ?m0 = "upload_row newID (newStorageKey rnd) (newStorageKey rt) a up inp"
  let ?m = "if md_id ?m0 = 0 then ?m0\<lparr>md_id := newID\<rparr> else ?m0"
  have m: "md_album ?m = a" "uploader_token ?m = up" "blob_size ?m = up_blob_size inp"
      "blob_sha256 ?m = up_blob_sha256 inp" "epoch_tag ?m = up_epoch_tag inp"
    by (simp_all add: upload_row_def)
  from 1(3) have "md_album row = a \<and> uploader_token row = up \<and> \<not> confirmed row \<and> blob_size row = up_blob_size inp
      \<and> blob_sha256 row = up_blob_sha256 inp \<and> epoch_tag row = up_epoch_tag inp \<and> row \<in> set (medias d')
      \<and> up_epoch_tag inp = max_epoch ?d a
      \<and> (\<forall>q\<in>set (medias ?d). confirmed q \<or> md_id q \<noteq> md_id row \<longrightarrow> q \<in> set (medias d'))"
  proof (cases rule: ReserveUploadRow_Inr)
    case (fresh m')
    note f = fresh [unfolded fresh(1) m]
    show ?thesis using f(3) by (simp add: f(6,9) m) (simp add: reserved_row_def upload_row_def)
  next
    case (again m' prev)
    note g = again [unfolded again(1) m]
    have reuse: "blob_size (fst (reuse_keys prev ?m)) = up_blob_size inp" "blob_sha256 (fst (reuse_keys prev ?m)) = up_blob_sha256 inp"
      using m by (simp_all add: reuse_keys_def Let_def)
    have rb: "blob_size row = up_blob_size inp" "blob_sha256 row = up_blob_sha256 inp"
      using reuse by (simp_all add: g(11) reserved_row_def)
    have ro: "md_album row = a" "uploader_token row = up" "\<not> confirmed row" "epoch_tag row = up_epoch_tag inp"
      by (simp_all add: g(11) reuse_keys_fields m)
    have "md_id row = md_id ?m" unfolding g(11) by (simp add: reuse_keys_fields)
    moreover have "\<not> (md_id q = md_id ?m \<and> md_album q = a)" if "q \<in> set (medias ?d)" "confirmed q" for q
    proof
      assume q: "md_id q = md_id ?m \<and> md_album q = a"
      then have "md_id q = md_id prev" using g(7) by simp
      then have "q = prev" using wfD(4) [OF reachable(1)] that(1) g(6) by (auto simp: wf_medias_def dest: distinct_map_eq [where g = md_id])
      with that(2) g(9) show False by simp
    qed
    moreover have "medias d' = sql_insert row (sql_delete (\<lambda>r. md_id r = md_id ?m \<and> md_album r = a) (medias ?d))"
      unfolding g(14) by (simp add: enqueueObjectCleanup_def)
    ultimately show ?thesis using g(3) rb ro by auto
  qed
  then show ?case using 1(1,2,4-6) validateUploadInput_None [OF 1(1)] by (intro conjI bexI [of _ row]) auto
qed

theorem upload_grant_bounds_witness:
  "up_epoch_tag upload_request = max_epoch shared_album 7 \<and> 0 < up_blob_size upload_request"
proof -
  let ?x = "RequestUploadURL demo_store 0 40 41 [1] [2] 7 (tok 2) upload_request shared_album"
  have "\<not> isl (fst ?x)" by code_simp
  then obtain res where "?x = (Inr res, snd ?x)" by (cases ?x; cases "fst ?x") auto
  then show ?thesis unfolding shared_album_def by (blast dest: upload_grant_bounds)
qed

section \<open>Retrying and deleting\<close>

text \<open>A deletion that failed is neither hammered nor forgotten: the key is not offered to the
  sweeper for fifteen minutes, and from an hour later on it is in every list that is long enough
  for the queue.\<close>

theorem cleanup_retry_window:
  assumes "k \<in> queued (run E ops)"
  shows "let d' = snd (RescheduleObjectCleanupKey now k (run E ops)) in
    (\<forall>t n. t < now + minutes 15 \<longrightarrow> k \<notin> set (ListObjectCleanupKeys t n d')) \<and>
    (\<forall>t n. now + minutes 60 \<le> t \<and> 0 < n \<and> int (length (cleanup d')) \<le> n \<longrightarrow> k \<in> set (ListObjectCleanupKeys t n d'))"
proof -
  let ?d = "run E ops"
  have dist: "distinct (map c_key (cleanup ?d))" using reachable(5) by (simp add: keys_ok_def total_keys_def)
  obtain r where r: "r \<in> set (cleanup ?d)" "c_key r = k" using assms by (auto simp: queued_def)
  have f: "find (\<lambda>r. c_key r = k) (cleanup ?d) = Some r" using find_key [OF dist r(1)] r(2) by simp
  let ?g = "\<lambda>r. r\<lparr>attempts := attempts r + 1, next_attempt_at := now + cleanup_backoff (attempts r)\<rparr>"
  define d' where "d' = snd (RescheduleObjectCleanupKey now k ?d)"
  have cl: "cleanup d' = sql_update (\<lambda>r. c_key r = k) ?g (cleanup ?d)"
    using f by (simp add: d'_def RescheduleObjectCleanupKey_def)
  have w: "15 \<le> min (15 * 2 ^ min n 8) (60::int)" for n :: nat by simp
  have bo: "minutes 15 \<le> cleanup_backoff n" "cleanup_backoff n \<le> minutes 60" for n
    using w [of n] by (simp_all add: cleanup_backoff_def minutes_def)
  have only: "q = ?g r" if "q \<in> set (cleanup d')" "c_key q = k" for q
  proof -
    from that(1) obtain p where p: "p \<in> set (cleanup ?d)" "q = (if c_key p = k then ?g p else p)" unfolding cl set_sql_update by (elim imageE)
    then have "c_key p = k" using that(2) by (cases "c_key p = k") simp_all
    then show ?thesis using p r distinct_map_eq [OF dist p(1) r(1)] by simp
  qed
  have mem: "?g r \<in> set (cleanup d')" unfolding cl using r by (auto intro!: image_eqI [of _ _ r])
  have "k \<notin> set (ListObjectCleanupKeys t n d')" if "t < now + minutes 15" for t n
  proof
    assume "k \<in> set (ListObjectCleanupKeys t n d')"
    then obtain q where q: "q \<in> set (cleanup d')" "c_key q = k" "next_attempt_at q \<le> t"
      by (auto simp: ListObjectCleanupKeys_def dest!: in_set_takeD split: if_splits)
    show False using only [OF q(1,2)] q(3) that bo(1) [of "attempts r"] by simp
  qed
  moreover have "k \<in> set (ListObjectCleanupKeys t n d')"
    if "now + minutes 60 \<le> t" "0 < n" "int (length (cleanup d')) \<le> n" for t n
  proof -
    let ?fs = "filter (\<lambda>r. next_attempt_at r \<le> t) (cleanup d')"
    have "?g r \<in> set ?fs" using mem that(1) bo(2) [of "attempts r"] by simp
    moreover have "length ?fs \<le> nat n" using length_filter_le [of "\<lambda>r. next_attempt_at r \<le> t" "cleanup d'"] that(3) by linarith
    ultimately show ?thesis using that(2) r(2)
      by (simp add: ListObjectCleanupKeys_def) (auto intro!: image_eqI [of _ _ "?g r"])
  qed
  ultimately show ?thesis by (simp add: d'_def)
qed

theorem cleanup_retry_window_witness:
  "[5] \<notin> set (ListObjectCleanupKeys (minutes 14) 9
     (snd (RescheduleObjectCleanupKey 0 [5] (then_do (Al (ADelete 7 (tok 1)))))))"
proof -
  have "[5] \<in> queued (then_do (Al (ADelete 7 (tok 1))))" by code_simp
  moreover have "minutes 14 < 0 + minutes 15" by (simp add: minutes_def)
  ultimately show ?thesis unfolding then_do_run by (blast dest: cleanup_retry_window [unfolded Let_def])
qed

text \<open>A photo is deleted only by the member who uploaded it, and exactly that photo goes: its
  objects are deleted in the storage or wait in the queue, and no other photo is touched.\<close>

theorem delete_media_owner_only:
  assumes "DeleteMedia E S now a x t (run E ops) = (Inr (), ev, d')"
  shows "\<exists>r\<in>set (medias (run E ops)). md_id r = x \<and> md_album r = a \<and> confirmed r \<and> uploader_token r = t
    \<and> medias d' = filter (\<lambda>q. q \<noteq> r) (medias (run E ops))
    \<and> (\<forall>k\<in>set (media_keys r). k \<notin> set (live_keys d') \<and> (k \<in> queued d' \<longleftrightarrow> \<not> delete_ok S k))"
proof -
  let ?d = "run E ops"
  note wf = reachable(1) [of E ops]
  obtain rm d1 where t: "DeleteOwnedMedia now a x t ?d = Inr (rm, d1)"
    using assms by (cases "DeleteOwnedMedia now a x t ?d") (auto simp: DeleteMedia_def)
  obtain st where c: "cleanupObjectKeys S now (Keys rm) d1 = (st, d')"
    using assms t by (cases "cleanupObjectKeys S now (Keys rm) d1") (simp add: DeleteMedia_def)
  show ?thesis
  proof (rule DeleteOwnedMedia_Inr [OF t], goal_cases)
    case (1 r)
    let ?p = "\<lambda>r. md_id r = x \<and> md_album r = a"
    have f: "filter ?p (medias ?d) = [r]"
      using wfD(4) [OF wf] find_media [OF 1(1-3) wf] 1(2) by (intro filter_unique [where k = md_id]) (auto simp: wf_medias_def)
    have eq: "?p q \<longleftrightarrow> q = r" if "q \<in> set (medias ?d)" for q
      using that 1(2,3) arg_cong [OF f, of set] by auto
    have rm: "Keys rm = media_keys r" "d1 = enqueueObjectCleanup now (media_keys r) (?d\<lparr>medias := sql_delete ?p (medias ?d)\<rparr>)"
      using 1(6) f by (simp_all add: removeMedia_eq)
    note e = cleanup_effects [OF c, unfolded rm(1)]
    have md: "medias d' = filter (\<lambda>q. q \<noteq> r) (medias ?d)"
      using e by (simp add: rm(2) db_fields sql_delete_def eq cong: filter_cong)
    have q: "queued d1 = queued ?d \<union> set (media_keys r)" unfolding rm(2) queued_enqueue by (simp add: queued_def)
    have "keys_ok d1" using keys_law.remove_media [OF wf reachable(5), of now ?p] 1(6) by (metis snd_conv)
    then have "k \<notin> set (live_keys d1)" if "k \<in> set (media_keys r)" for k
      using live_not_queued [of d1] q that by blast
    moreover have "live_keys d' = live_keys d1" using e by (simp add: live_keys_def)
    ultimately show ?case using 1(1-5) md e q by (intro bexI [of _ r]) auto
  qed
qed

theorem delete_media_owner_only_witness:
  "\<exists>r\<in>set (medias shared_album). md_id r = 20 \<and> uploader_token r = tok 2 \<and>
     medias (snd (snd (DeleteMedia demo demo_store 0 7 20 (tok 2) shared_album))) = filter (\<lambda>q. q \<noteq> r) (medias shared_album)"
proof -
  let ?x = "DeleteMedia demo demo_store 0 7 20 (tok 2) shared_album"
  have "fst ?x = Inr ()" by code_simp
  then have "?x = (Inr (), fst (snd ?x), snd (snd ?x))" by (simp add: prod_eq_iff)
  then show ?thesis unfolding shared_album_def by (blast dest: delete_media_owner_only)
qed

lemma avatar_Confirm_find:
  assumes "avatar_Confirm now a t x d = Inr (ks, d')"
  obtains v where "v \<in> set (avatars d)" "avatar_id v = x" "av_album v = a" "av_token v = t"
    "(a, t) \<in> active_pairs d"
proof -
  obtain m where m: "find_member d a t = Some m" "revoked_at m = None" and l: "lockActiveMember a t d = Inr ()"
    using assms by (cases "lockActiveMember a t d") (auto simp: avatar_Confirm_def elim: lockActiveMember_Inr)
  obtain v where v: "find (\<lambda>v. avatar_id v = x \<and> av_album v = a \<and> av_token v = t) (avatars d) = Some v"
    using assms l by (cases "find (\<lambda>v. avatar_id v = x \<and> av_album v = a \<and> av_token v = t) (avatars d)")
      (simp_all add: avatar_Confirm_def)
  have "(a, t) \<in> active_pairs d" using find_member_Some [OF m(1)] m(2) by (force simp: active_pairs_def)
  with find_Some_in [OF v] show thesis using that by blast
qed

lemma avatar_Confirm_result:
  assumes t: "avatar_Confirm now a t x d = Inr (ks, d')" and wf: "wf d"
  shows "\<exists>v\<in>set (avatars d'). avatar_id v = x \<and> av_album v = a \<and> av_token v = t \<and> av_confirmed v"
    "\<forall>v\<in>set (avatars d). \<not> (av_album v = a \<and> av_token v = t) \<longrightarrow> v \<in> set (avatars d')"
proof -
  have uniq: "v = w" if "v \<in> set (avatars d)" "w \<in> set (avatars d)" "avatar_id v = avatar_id w" for v w
    using wfD(6) [OF wf] that by (auto simp: wf_avatars_def dest: distinct_map_eq [where g = avatar_id])
  obtain v where v: "v \<in> set (avatars d)" "avatar_id v = x" "av_album v = a" "av_token v = t"
    using t by (rule avatar_Confirm_find)
  have "(\<exists>v\<in>set (avatars d'). avatar_id v = x \<and> av_album v = a \<and> av_token v = t \<and> av_confirmed v) \<and>
    (\<forall>w\<in>set (avatars d). \<not> (av_album w = a \<and> av_token w = t) \<longrightarrow> w \<in> set (avatars d'))"
    using t
  proof (cases rule: avatar_Confirm_Inr)
    case (already v')
    then have "v' = v" using uniq v by simp
    then show ?thesis using already v by auto
  next
    case (confirm v')
    let ?del = "sql_delete (\<lambda>y. av_album y = a \<and> av_token y = t \<and> avatar_id y \<noteq> x) (avatars d)"
    have av: "avatars d' = map (\<lambda>y. if avatar_id y = x then y\<lparr>av_confirmed := True\<rparr> else y) ?del"
      by (simp add: confirm(9) enqueueObjectCleanup_def sql_update_def)
    have vd: "v \<in> set ?del" using v by simp
    have "v\<lparr>av_confirmed := True\<rparr> \<in> set (avatars d')" unfolding av set_map by (rule image_eqI [OF _ vd]) (simp add: v)
    moreover have "w \<in> set (avatars d')" if w: "w \<in> set (avatars d)" "\<not> (av_album w = a \<and> av_token w = t)" for w
    proof -
      have "avatar_id w \<noteq> x" using uniq [OF w(1) v(1)] w(2) v by auto
      moreover have wd: "w \<in> set ?del" using w by auto
      ultimately show ?thesis unfolding av set_map by (intro image_eqI [OF _ wd]) simp
    qed
    ultimately show ?thesis using v by (intro conjI bexI [of _ "v\<lparr>av_confirmed := True\<rparr>"]) auto
  qed
  then show "\<exists>v\<in>set (avatars d'). avatar_id v = x \<and> av_album v = a \<and> av_token v = t \<and> av_confirmed v"
    "\<forall>v\<in>set (avatars d). \<not> (av_album v = a \<and> av_token v = t) \<longrightarrow> v \<in> set (avatars d')" by blast+
qed

text \<open>After a confirmed avatar upload the member has exactly one current avatar, the confirmed
  one, however the row had changed since it was read; the avatars of the other members stay.\<close>

theorem avatar_confirm_replaces:
  assumes "svc_avatar_Confirm E S now a caller t x d_read (run E ops) = (Inr (), ev, d')"
  shows "(\<exists>v. filter (\<lambda>v. av_album v = a \<and> av_token v = t \<and> av_confirmed v) (avatars d') = [v] \<and>
       current_avatar d' a t = Some v \<and> avatar_id v = x)
    \<and> (a, t) \<in> active_pairs (run E ops)
    \<and> (\<forall>v\<in>set (avatars (run E ops)). \<not> (av_album v = a \<and> av_token v = t) \<longrightarrow> v \<in> set (avatars d'))"
proof -
  let ?d = "run E ops"
  note wf = reachable(1) [of E ops]
  obtain row where row: "avatar_Get a x d_read = Inr row"
    using assms by (cases "avatar_Get a x d_read") (simp_all add: svc_avatar_Confirm_def)
  obtain ks d1 where t: "avatar_Confirm now a t x ?d = Inr (ks, d1)"
    using assms row by (cases "avatar_Confirm now a t x ?d") (auto simp: svc_avatar_Confirm_def split: if_splits)
  then have "d' = avatar_cleanup S now ks d1" using assms row by (simp add: svc_avatar_Confirm_def Let_def split: if_splits)
  then have av: "avatars d' = avatars d1"
    using cleanup_effects [of S now ks d1] by (cases "cleanupObjectKeys S now ks d1") (simp add: avatar_cleanup_def)
  have wf1: "wf d1" using wf_avatar_Confirm [OF wf t] .
  note res = avatar_Confirm_result [OF t wf]
  obtain v where v: "v \<in> set (avatars d1)" "avatar_id v = x" "av_album v = a" "av_token v = t" "av_confirmed v"
    using res(1) by blast
  have k: "distinct (map (\<lambda>v. (av_album v, av_token v)) (filter av_confirmed (avatars d1)))"
    using wfD(6) [OF wf1] by (simp add: wf_avatars_def)
  have same: "w = v" if "w \<in> set (avatars d1)" "av_album w = a" "av_token w = t" "av_confirmed w" for w
    using distinct_map_eq [OF k] that v by simp
  let ?c = "\<lambda>v. av_album v = a \<and> av_token v = t \<and> av_confirmed v"
  have cur: "find ?c (avatars d1) = Some v"
  proof (cases "find ?c (avatars d1)")
    case (Some w)
    then show ?thesis using same find_Some_in [OF Some] by simp
  qed (use v in \<open>simp add: find_None_all\<close>)
  have "filter ?c (avatars d1) = [v]"
    using wfD(6) [OF wf1] cur same by (intro filter_unique [where k = avatar_id]) (auto simp: wf_avatars_def)
  moreover have "(a, t) \<in> active_pairs ?d" using t by (rule avatar_Confirm_find)
  ultimately show ?thesis using res(2) cur v(2) by (simp add: av current_avatar_def)
qed

theorem avatar_confirm_replaces_witness:
  "\<exists>v. current_avatar (snd (snd (svc_avatar_Confirm demo demo_store 0 7 2 (tok 2) 50
     (then_do (Md (VReserve portrait))) (then_do (Md (VReserve portrait)))))) 7 (tok 2) = Some v \<and> avatar_id v = 50"
proof -
  let ?x = "svc_avatar_Confirm demo demo_store 0 7 2 (tok 2) 50 (then_do (Md (VReserve portrait))) (then_do (Md (VReserve portrait)))"
  have "fst ?x = Inr ()" by code_simp
  then have "?x = (Inr (), fst (snd ?x), snd (snd ?x))" by (simp add: prod_eq_iff)
  then show ?thesis unfolding then_do_run by (blast dest: avatar_confirm_replaces)
qed

end
