(* ===== verification/Deletion_Properties.thy ===== *)
theory Deletion_Properties
  imports Reachable Scenario
begin

text \<open>
  Properties of the deletion of an account: which accounts are on their way out, that the job
  finishes, what it leaves behind, and the receipt the device keeps.
\<close>

section \<open>The job\<close>

text \<open>The queue of deletion jobs and the mark on the accounts agree in every reachable state: the
  accounts marked as being deleted are exactly those with a job, one job each. No account can be
  marked and then forgotten.\<close>

theorem deletion_jobs_exact:
  "d_user ` set (deletions (run E ops)) = {u_id r | r. r \<in> set (users (run E ops)) \<and> deleting_at r \<noteq> None}
    \<and> distinct (map d_user (deletions (run E ops)))"
  using reachable(6) [of E ops] by (auto simp: accounts_ok_def jobs_ok_def)

lemma cleanup_only_queue:
  "\<exists>q. snd (cleanupObjectKeys S now ks d) = d\<lparr>cleanup := q\<rparr>"
proof (induction ks arbitrary: d)
  case Nil
  show ?case by (intro exI [of _ "cleanup d"]) simp
next
  case (Cons k ks)
  have r: "\<exists>q. snd (RescheduleObjectCleanupKey now k d) = d\<lparr>cleanup := q\<rparr>"
  proof (cases "find (\<lambda>r. c_key r = k) (cleanup d)")
    case None
    then show ?thesis by (intro exI [of _ "cleanup d"]) (simp add: RescheduleObjectCleanupKey_def)
  qed (simp add: RescheduleObjectCleanupKey_def, blast)
  have a: "DeleteObjectCleanupKey k d = d\<lparr>cleanup := cleanup (DeleteObjectCleanupKey k d)\<rparr>"
    by (simp add: DeleteObjectCleanupKey_def)
  obtain d1 q1 where d1: "snd (cleanupObjectKeys S now (k # ks) d) = snd (cleanupObjectKeys S now ks d1)"
      "d1 = d\<lparr>cleanup := q1\<rparr>"
    using r a by (cases "delete_ok S k") (auto simp: split_beta Let_def, metis)
  obtain q where "snd (cleanupObjectKeys S now ks d1) = d1\<lparr>cleanup := q\<rparr>" using Cons by blast
  then show ?case using d1 by (intro exI [of _ q]) simp
qed

text \<open>The albums an account is recorded in, by its handle.\<close>

definition recorded_albums :: "env \<Rightarrow> uuid \<Rightarrow> db \<Rightarrow> uuid set" where
  "recorded_albums E u d = i_album ` {i \<in> set (amids d). user_handle i = lhash E u}"

lemma recorded_cleanup [simp]: "recorded_albums E u (d\<lparr>cleanup := q\<rparr>) = recorded_albums E u d"
  by (simp add: recorded_albums_def)

lemma RemoveMembership_leaves:
  assumes wf: "wf d"
  obtains out d' where "RemoveMembership E now u a d = Inr (out, d')" "wf d'"
    "recorded_albums E u d' = recorded_albums E u d - {a}" "same_accounts d d'"
proof -
  have keep: "wf d'" if "RemoveMembership E now u a d = Inr (out, d')" for out d'
    using wf_RemoveMembership [OF wf, of E now u a] that by simp
  have rec: "recorded_albums E u (drop_identity (i_token i) d0) = recorded_albums E u d - {a}"
    if i: "i \<in> set (amids d)" "user_handle i = lhash E u" "i_album i = a" and d0: "amids d0 = amids d" for i d0
  proof -
    let ?S = "{i \<in> set (amids d). user_handle i = lhash E u}"
    have k: "distinct (map (\<lambda>i. (user_handle i, i_album i)) (amids d))" "distinct (map i_token (amids d))"
      using wfD(2) [OF wf] by (simp_all add: wf_amids_def)
    have inj: "inj_on i_album ?S" by (intro inj_onI distinct_map_eq [OF k(1)]) simp_all
    have "{j \<in> set (amids (drop_identity (i_token i) d0)). user_handle j = lhash E u} = ?S - {i}"
      using distinct_map_eq [OF k(2) _ i(1)] by (auto simp: db_fields d0)
    then show ?thesis unfolding recorded_albums_def
      using inj_on_image_set_diff [OF inj, of ?S "{i}"] i by simp
  qed
  show thesis
  proof (rule RemoveMembership_Inr [OF wf, of E now u a], goal_cases)
    case 1
    then have "a \<notin> recorded_albums E u d"
      using wfD(2) [OF wf] by (force simp: recorded_albums_def wf_amids_def)
    then show ?case using 1 wf by (intro that [OF 1(1)]) simp_all
  next
    case (2 i out)
    have "recorded_albums E u (drop_identity (i_token i) (enqueueObjectCleanup now (member_keys a (i_token i) d) d))
        = recorded_albums E u d - {a}"
      using 2 by (intro rec) (simp_all add: db_fields)
    then show ?case by (intro that [OF 2(5) keep [OF 2(5)]]) (simp_all add: same_accounts_def drop_identity_def enqueueObjectCleanup_def require_rotation_def drop_album_def)
  next
    case (3 i out)
    have "recorded_albums E u (drop_identity (i_token i) (enqueueObjectCleanup now (member_keys a (i_token i) d) (require_rotation a d)))
        = recorded_albums E u d - {a}"
      using 3 by (intro rec) (simp_all add: db_fields)
    then show ?case by (intro that [OF 3(5) keep [OF 3(5)]]) (simp_all add: same_accounts_def drop_identity_def enqueueObjectCleanup_def require_rotation_def drop_album_def)
  next
    case (4 i out)
    have "recorded_albums E u (drop_album a (enqueueObjectCleanup now (album_keys a d) d)) = recorded_albums E u d - {a}"
      by (auto simp: recorded_albums_def db_fields)
    then show ?case by (intro that [OF 4(5) keep [OF 4(5)]]) (simp_all add: same_accounts_def drop_identity_def enqueueObjectCleanup_def require_rotation_def drop_album_def)
  qed
qed

lemma remove_all_leaves:
  assumes "wf d"
  shows "\<exists>em d'. remove_all E S now u as d = (Inr em, d') \<and> wf d' \<and> same_accounts d d' \<and>
    recorded_albums E u d' = recorded_albums E u d - set as"
  using assms
proof (induction as arbitrary: d)
  case (Cons a as)
  obtain out d1 where d1: "RemoveMembership E now u a d = Inr (out, d1)" "wf d1"
    "recorded_albums E u d1 = recorded_albums E u d - {a}" "same_accounts d d1"
    using RemoveMembership_leaves [OF Cons.prems] by blast
  obtain q where q: "snd (cleanupObjectKeys S now (rm_keys out) d1) = d1\<lparr>cleanup := q\<rparr>"
    using cleanup_only_queue by blast
  obtain em d2 where d2: "remove_all E S now u as (d1\<lparr>cleanup := q\<rparr>) = (Inr em, d2)" "wf d2"
      "same_accounts (d1\<lparr>cleanup := q\<rparr>) d2" "recorded_albums E u d2 = recorded_albums E u d1 - set as"
    using Cons.IH [of "d1\<lparr>cleanup := q\<rparr>"] d1(2) by auto
  have "same_accounts d d2" using d1(4) d2(3) by (simp add: same_accounts_def)
  then show ?case using d1 d2 q by (auto simp: Let_def)
qed simp

lemma memberships_albums: "set (map ms_album (Memberships E u d)) = recorded_albums E u d"
  by (auto simp: Memberships_def memberships_def membership_row_def recorded_albums_def)

text \<open>The job of one account ends in its first pass, and what it leaves of the account tables.\<close>

lemma process_result:
  assumes "wf d"
  shows "\<exists>em d1. process E S now u d = (Inr (True, em), if find_user d u = None then d1 else delete_user u d1) \<and>
    wf d1 \<and> same_accounts d d1 \<and> recorded_albums E u d1 = {}"
proof -
  let ?as = "map ms_album (Memberships E u d)"
  obtain em d1 where r: "remove_all E S now u ?as d = (Inr em, d1)" "wf d1" "same_accounts d d1"
      "recorded_albums E u d1 = recorded_albums E u d - set ?as"
    using remove_all_leaves [OF assms] by blast
  have e: "recorded_albums E u d1 = {}" using r(4) by (simp only: memberships_albums) simp
  have "find_user d1 u = find_user d u" using r(3) by (simp add: find_user_def same_accounts_def)
  then have f: "FinishAccount E u d1 = (True, if find_user d u = None then d1 else delete_user u d1)"
    using e by (cases "find_user d u") (auto simp: FinishAccount_def recorded_albums_def)
  have passes: "maxDeletionPasses = Suc 4" by (simp add: maxDeletionPasses_def)
  have "process E S now u d = (Inr (True, em), if find_user d u = None then d1 else delete_user u d1)"
    unfolding process_def passes process_passes.simps using r(1) f by simp
  then show ?thesis using r e by blast
qed

text \<open>C10. The deletion job of an account always finishes, in one pass and whatever the storage does:
  run alone in any reachable state it leaves no membership, session, one-time prekey, job or row of the
  account behind.\<close>

theorem deletion_completes:
  "\<exists>em d'. process E S now u (run E ops) = (Inr (True, em), d') \<and>
    find_user d' u = None \<and> lhash E u \<notin> user_handle ` set (amids d') \<and> u \<notin> s_user ` set (sessions d') \<and>
    u \<notin> o_user ` set (opks d') \<and> u \<notin> d_user ` set (deletions d')"
proof -
  let ?d = "run E ops"
  obtain em d1 where p: "process E S now u ?d = (Inr (True, em), if find_user ?d u = None then d1 else delete_user u d1)"
    and s: "same_accounts ?d d1" and e: "recorded_albums E u d1 = {}"
    using process_result [OF reachable(1)] by blast
  have am: "lhash E u \<notin> user_handle ` set (amids d1)" using e by (auto simp: recorded_albums_def)
  show ?thesis
  proof (cases "find_user ?d u")
    case None
    then have "u \<notin> u_id ` set (users ?d)" by (auto simp: find_user_def find_None_all)
    moreover have "accounts_ok d1" using reachable(6) accounts_ok_same [OF s] by blast
    moreover have "users d1 = users ?d" using s by (simp add: same_accounts_def)
    ultimately have "u \<notin> s_user ` set (sessions d1)" "u \<notin> o_user ` set (opks d1)" "u \<notin> d_user ` set (deletions d1)"
        "find_user d1 u = None"
      by (auto simp: accounts_defs find_user_def find_None_all)
    then show ?thesis using p None am by auto
  next
    case (Some r)
    then show ?thesis using p am
      by (auto simp: delete_user_def find_user_def find_None_all)
  qed
qed

section \<open>The runs\<close>

lemma process_deletions:
  assumes wf: "wf d" and ok: "accounts_ok d"
  shows "\<exists>em d'. process E S now u d = (Inr (True, em), d') \<and> wf d' \<and> accounts_ok d' \<and>
    deletions d' = sql_delete (\<lambda>r. d_user r = u) (deletions d)"
proof -
  obtain em d1 where p: "process E S now u d = (Inr (True, em), if find_user d u = None then d1 else delete_user u d1)"
    "wf d1" and s: "same_accounts d d1" using process_result [OF wf] by blast
  have ok1: "accounts_ok d1" using ok accounts_ok_same [OF s] by blast
  have "wf (delete_user u d1)" using p(2) wf_cong [of "delete_user u d1" d1] by (simp add: delete_user_def)
  moreover have "deletions d = sql_delete (\<lambda>r. d_user r = u) (deletions d)" if "find_user d u = None"
  proof -
    have "u \<notin> u_id ` set (users d)" using that by (auto simp: find_user_def find_None_all)
    then have "u \<notin> d_user ` set (deletions d)" using ok by (auto simp: accounts_defs)
    then show ?thesis by (intro sql_delete_id [symmetric]) auto
  qed
  moreover have "deletions d1 = deletions d" using s by (simp add: same_accounts_def)
  ultimately show ?thesis
    using p ok1 accounts_ok_delete_user [OF ok1, of u]
    by (cases "find_user d u") (auto simp: delete_user_def)
qed

lemma sql_count_delete_key:
  assumes "distinct (map k t)" "r \<in> set t" "q r"
  shows "sql_count q t = Suc (sql_count q (sql_delete (\<lambda>x. k x = k r) t))"
  using assms
proof (induction t)
  case (Cons a t)
  show ?case
  proof (cases "k a = k r")
    case True
    then have "a = r" "sql_delete (\<lambda>x. k x = k r) t = t"
      using Cons.prems by (auto intro!: sql_delete_id simp: image_iff)
    then show ?thesis using Cons.prems(3) by (simp add: sql_count_def sql_delete_def)
  next
    case False
    then have "r \<in> set t" using Cons.prems(2) by auto
    then show ?thesis using Cons False by (simp add: sql_count_def sql_delete_def)
  qed
qed simp

definition due_count :: "time \<Rightarrow> db \<Rightarrow> nat" where
  "due_count now d = sql_count (\<lambda>r. d_next_attempt_at r \<le> now) (deletions d)"

lemma due_jobs_length: "length (due_jobs now d) = due_count now d"
  by (simp add: due_jobs_def due_count_def sql_count_def)

lemma ClaimDue_some:
  assumes ok: "accounts_ok d" and j: "due_jobs now d = j # js"
  obtains d1 where "ClaimDue now d = (Some (d_user j), d1)" "wf d1 = wf d" "accounts_ok d1"
    "sql_count (\<lambda>r. d_next_attempt_at r \<le> now) (sql_delete (\<lambda>r. d_user r = d_user j) (deletions d1)) + 1 = due_count now d"
proof -
  let ?f = "\<lambda>r. r\<lparr>d_attempts := d_attempts r + 1, d_next_attempt_at := now + deletion_backoff (d_attempts r)\<rparr>"
  let ?u = "\<lambda>r. d_user r = d_user j"
  define d1 where "d1 = d\<lparr>deletions := sql_update ?u ?f (deletions d)\<rparr>"
  have c: "ClaimDue now d = (Some (d_user j), d1)" by (simp add: ClaimDue_def j d1_def)
  have "j \<in> set (due_jobs now d)" by (simp add: j)
  then have jd: "j \<in> set (deletions d)" "d_next_attempt_at j \<le> now" by (auto simp: due_jobs_def)
  have "distinct (map d_user (deletions d))" using ok by (simp add: accounts_defs)
  from sql_count_delete_key [OF this jd(1), of "\<lambda>r. d_next_attempt_at r \<le> now"] jd(2)
  have "due_count now d = Suc (sql_count (\<lambda>r. d_next_attempt_at r \<le> now) (sql_delete ?u (deletions d)))"
    by (simp add: due_count_def)
  moreover have "sql_delete ?u (sql_update ?u ?f t) = sql_delete ?u t" for t :: "deletion list"
    by (induction t) (auto simp: sql_delete_def sql_update_def)
  moreover have "accounts_ok d1" using accounts_ok_ClaimDue [OF ok, of now] c by simp
  moreover have "wf d1 = wf d" unfolding d1_def by (rule wf_cong) simp_all
  ultimately show thesis by (intro that [OF c]) (simp_all add: d1_def)
qed

lemma rounds_result:
  assumes "wf d" "accounts_ok d" "due_count now d < n"
  shows "fst (fst (process_due_rounds n E S now d)) = due_count now d \<and> due_count now (snd (process_due_rounds n E S now d)) = 0"
  using assms
proof (induction n arbitrary: d)
  case (Suc n)
  show ?case
  proof (cases "due_jobs now d")
    case Nil
    then have "ClaimDue now d = (None, d)" "due_count now d = 0"
      using due_jobs_length [of now d] by (simp_all add: ClaimDue_def)
    then show ?thesis by simp
  next
    case (Cons j js)
    obtain d1 where d1: "ClaimDue now d = (Some (d_user j), d1)" "wf d1" "accounts_ok d1"
      "sql_count (\<lambda>r. d_next_attempt_at r \<le> now) (sql_delete (\<lambda>r. d_user r = d_user j) (deletions d1)) + 1 = due_count now d"
      using ClaimDue_some [OF Suc.prems(2) Cons] Suc.prems(1) by metis
    obtain em d2 where d2: "process E S now (d_user j) d1 = (Inr (True, em), d2)" "wf d2" "accounts_ok d2"
      "deletions d2 = sql_delete (\<lambda>r. d_user r = d_user j) (deletions d1)"
      using process_deletions [OF d1(2,3)] by blast
    have less: "due_count now d2 + 1 = due_count now d" using d1(4) by (simp add: due_count_def d2(4))
    then have IH: "fst (fst (process_due_rounds n E S now d2)) = due_count now d2"
        "due_count now (snd (process_due_rounds n E S now d2)) = 0"
      using Suc.IH [OF d2(2,3)] Suc.prems(3) by simp_all
    show ?thesis using d1(1) d2(1) IH less by (simp add: split_beta)
  qed
qed simp

text \<open>C22. One run of the background worker, alone and at one instant, finishes every deletion job that is due:
  it reports as many accounts as jobs were due, no due job is left, and the number of rounds it is given is enough.\<close>

theorem process_due_finishes:
  "fst (fst (ProcessDue E S now (run E ops))) = length (due_jobs now (run E ops))
    \<and> due_jobs now (snd (ProcessDue E S now (run E ops))) = []"
proof -
  let ?d = "PruneReceipts (now - DeletionReceiptRetention) (run E ops)"
  have "due_count now ?d < Suc (length (deletions ?d))"
    unfolding due_count_def sql_count_def using length_filter_le less_Suc_eq_le by blast
  moreover have "wf ?d" using reachable(1) [of E ops] wf_cong [of ?d "run E ops"] by (simp add: PruneReceipts_def)
  moreover have "accounts_ok ?d" by (rule accounts_ok_receipts(2) [OF reachable(6)])
  ultimately have "fst (fst (ProcessDue E S now (run E ops))) = due_count now ?d"
      "due_count now (snd (ProcessDue E S now (run E ops))) = 0"
    unfolding ProcessDue_def Let_def using rounds_result by blast+
  moreover have "due_count now ?d = due_count now (run E ops)" by (simp add: due_count_def PruneReceipts_def)
  ultimately show ?thesis using due_jobs_length by (metis length_0_conv)
qed

end
