(* ===== verification/Histories.thy ===== *)
theory Histories
  imports Reachable
begin

text \<open>
  What the life of an account cannot undo: once published, an identity key stays, the time stamp of
  its signed prekey only grows, a mark for deletion stays, and a used one-time prekey stays used,
  until the account itself is deleted.
\<close>

section \<open>Accounts\<close>

definition user_le :: "user \<Rightarrow> user \<Rightarrow> bool" where
  "user_le r r' \<longleftrightarrow> u_id r' = u_id r \<and> email_hmac r' = email_hmac r \<and> u_miuchio_id r' = u_miuchio_id r
     \<and> (ik_pub r \<noteq> None \<longrightarrow> ik_pub r' = ik_pub r \<and> lk_pub r' = lk_pub r
           \<and> (\<forall>t. spk_ts r = Some t \<longrightarrow> (\<exists>t'. spk_ts r' = Some t' \<and> sint t \<le> sint t')))
     \<and> (deleting_at r \<noteq> None \<longrightarrow> deleting_at r' = deleting_at r)"

lemma user_le_refl [simp]: "user_le r r"
  by (simp add: user_le_def)

lemma user_le_trans: "user_le r s \<Longrightarrow> user_le s t \<Longrightarrow> user_le r t"
  unfolding user_le_def by (auto intro: order_trans)

definition evolves :: "uuid \<Rightarrow> db \<Rightarrow> db \<Rightarrow> bool" where
  "evolves u d d' \<longleftrightarrow> (\<forall>r. find_user d u = Some r \<longrightarrow> (\<exists>r'. find_user d' u = Some r' \<and> user_le r r'))"

lemma evolves_refl [simp]: "evolves u d d"
  by (simp add: evolves_def)

lemma evolves_trans: "evolves u d d' \<Longrightarrow> evolves u d' d'' \<Longrightarrow> evolves u d d''"
  unfolding evolves_def using user_le_trans by blast

lemma evolves_same: "users d' = users d \<Longrightarrow> evolves u d d'"
  by (simp add: evolves_def find_user_def)

lemma evolves_insert: "users d' = sql_insert r (users d) \<Longrightarrow> evolves u d d'"
proof -
  assume d': "users d' = sql_insert r (users d)"
  have "find p t = Some x \<Longrightarrow> find p (t @ [r]) = Some x" for p t x by (induction t) auto
  then show ?thesis unfolding evolves_def find_user_def d' sql_insert_def using user_le_refl by blast
qed

lemma find_sql_update:
  assumes "\<And>r. k (f r) = k r"
  shows "find (\<lambda>r. k r = x) (sql_update p f t) = map_option (\<lambda>r. if p r then f r else r) (find (\<lambda>r. k r = x) t)"
  by (induction t) (auto simp: sql_update_def assms)

lemma evolves_update:
  assumes "users d' = sql_update p f (users d)" "\<And>r. u_id (f r) = u_id r"
    "\<And>r. find_user d (u_id r) = Some r \<Longrightarrow> p r \<Longrightarrow> user_le r (f r)"
  shows "evolves u d d'"
  unfolding evolves_def
proof (intro allI impI)
  fix r assume r: "find_user d u = Some r"
  have "find_user d' u = Some (if p r then f r else r)"
    using r by (simp add: find_user_def assms(1) find_sql_update [where k = u_id, OF assms(2)])
  moreover have "user_le r (if p r then f r else r)" using assms(3) find_user_Some [OF r] r by simp
  ultimately show "\<exists>r'. find_user d' u = Some r' \<and> user_le r r'" by blast
qed

lemma evolves_delete:
  assumes "users d' = sql_delete (\<lambda>r. u_id r = v) (users d)" "u \<noteq> v"
  shows "evolves u d d'"
proof -
  have "find (\<lambda>r. u_id r = u) (sql_delete (\<lambda>r. u_id r = v) t) = find (\<lambda>r. u_id r = u) t" for t :: "user list"
    using assms(2) by (induction t) (auto simp: sql_delete_def)
  then show ?thesis by (simp add: evolves_def find_user_def assms(1))
qed

lemma evolves_publish:
  assumes "PublishOrRefreshIdentity now v ik lk spk sg ts d = Inr (x, d')"
  shows "evolves u d d'"
proof -
  let ?new = "snd (publish_new now v ik lk spk sg ts d)"
  have n: "evolves u d ?new"
    by (rule evolves_update [where p = "\<lambda>r. u_id r = v \<and> ik_pub r = None" and f = "\<lambda>r. r\<lparr>ik_pub := Some ik,
          lk_pub := Some lk, spk_pub := Some spk, spk_sig := Some sg, spk_ts := Some ts, u_updated_at := now\<rparr>"])
      (simp_all add: publish_new_def Let_def user_le_def)
  moreover have "evolves u ?new (snd (publish_refresh now v ik lk spk sg ts ?new))"
    by (rule evolves_update [where p = "\<lambda>r. u_id r = v \<and> ik_pub r = Some ik \<and> lk_pub r = Some lk \<and> spk_pub r = Some spk"
          and f = "\<lambda>r. r\<lparr>spk_sig := if newer_ts ts (spk_ts r) then Some sg else spk_sig r,
               spk_ts := if newer_ts ts (spk_ts r) then Some ts else spk_ts r, u_updated_at := now\<rparr>"])
      (auto simp: publish_refresh_def newer_ts_def Let_def user_le_def split: option.splits)
  ultimately show ?thesis using Publish_Inr [OF assms] evolves_trans by auto
qed

lemma evolves_rotate:
  assumes "repo_RotateSPK now v spk sg ts d = Inr (x, d')"
  shows "evolves u d d'"
  using assms
proof (cases rule: repo_RotateSPK_Inr)
  case (1 usr)
  show ?thesis
    by (rule evolves_update [OF 1(3)])
      (use 1(1,2) in \<open>auto simp: user_le_def newer_ts_def\<close>)
qed

lemma evolves_accept:
  assumes "Accept E now v shared h d = Inr (x, d')"
  shows "evolves u d d'"
  using assms
proof (cases rule: Accept_Inr)
  case again
  then show ?thesis by (simp add: evolves_same)
next
  case (accepted rs usr)
  show ?thesis
    by (rule evolves_update [of d' "\<lambda>r. u_id r = v" "\<lambda>r. r\<lparr>deleting_at := Some (trunc_hour now)\<rparr>" d])
      (use accepted in \<open>auto simp: user_le_def\<close>)
qed

lemma evolves_tx: "(\<And>r d'. t d = Inr (r, d') \<Longrightarrow> evolves u d d') \<Longrightarrow> evolves u d (snd (run_tx t d))"
  by (rule run_tx_inv [of "evolves u d"]) simp_all

lemma CreateBatchAtomic_users: "CreateBatchAtomic now v xs d = Inr (r, d') \<Longrightarrow> users d' = users d"
  by (induction xs arbitrary: d) (auto split: sum.splits elim!: create_opk_Inr)

lemma account_users:
  "session_Create now newID v h ex d = Inr (r, d') \<Longrightarrow> users d' = users d"
  "ExtendByToken E t ex d = Inr (r, d') \<Longrightarrow> users d' = users d"
  "users (DeleteByToken E t d) = users d" "users (snd (PopRandom pick v d)) = users d"
  "users (snd (repo_AbandonReceipt now h d)) = users d" "users (PruneReceipts cutoff d) = users d"
  "users (snd (ClaimDue now d)) = users d"
  by (auto simp: session_Create_def ExtendByToken_def DeleteByToken_def PopRandom_def repo_AbandonReceipt_def
      PruneReceipts_def ClaimDue_def Let_def split: if_splits list.splits option.splits)

lemma evolves_remove:
  assumes "wf d"
  shows "evolves u d (snd (run_tx (RemoveMembership E now v a) d))"
  using assms
  by (cases rule: RemoveMembership_Inr [where E = E and now = now and u = v and a = a])
    (simp_all add: evolves_same drop_identity_def drop_album_def enqueueObjectCleanup_def require_rotation_def)

lemma evolves_account:
  assumes wf: "wf d" and x: "x \<noteq> DFinish u"
  shows "evolves u d (account_exec E now x d)"
proof (cases x)
  case (UCreate newID usr)
  show ?thesis unfolding UCreate account_exec.simps
    by (rule evolves_tx) (auto dest!: user_Create_Inr(1) intro: evolves_insert)
next
  case (DFinish v)
  with x have "u \<noteq> v" by simp
  then show ?thesis unfolding DFinish account_exec.simps
    by (cases "find_user d v") (auto simp: FinishAccount_def delete_user_def intro: evolves_delete)
next
  case DRemove
  then show ?thesis using evolves_remove [OF wf] by simp
next
  case (UPublish v ik lk spk sg ts)
  show ?thesis unfolding UPublish account_exec.simps by (rule evolves_tx) (rule evolves_publish)
next
  case (URotate v spk sg ts)
  show ?thesis unfolding URotate account_exec.simps by (rule evolves_tx) (rule evolves_rotate)
next
  case (DAccept v shared h)
  show ?thesis unfolding DAccept account_exec.simps by (rule evolves_tx) (rule evolves_accept)
qed (simp_all only: account_exec.simps account_users(3-) [THEN evolves_same],
  (rule evolves_tx, rule evolves_same, erule CreateBatchAtomic_users account_users(1,2))+)

lemma evolves_exec:
  assumes "wf d" "x \<noteq> Ac (DFinish u)"
  shows "evolves u d (exec E now x d)"
proof (cases x)
  case (Al y)
  then show ?thesis using album_exec_accounts [OF assms(1), of E now y] by (simp add: evolves_same)
next
  case (Md y)
  then show ?thesis using media_exec_accounts [OF assms(1), of now y] by (simp add: evolves_same same_accounts_def)
next
  case (Ac y)
  then show ?thesis using assms by (simp add: evolves_account)
qed

lemma evolves_step: "consistent d \<Longrightarrow> snd x \<noteq> Ac (DFinish u) \<Longrightarrow> evolves u d (step E x d)"
  by (auto simp: step_def consistentD evolves_exec)

text \<open>Over any history that does not delete the account itself.\<close>

lemma evolves_history:
  assumes "\<forall>x\<in>set later. snd x \<noteq> Ac (DFinish u)"
  shows "evolves u (run E ops) (run E (ops @ later))"
  unfolding run_append
  by (rule server.run_rel [of _ "{x. snd x \<noteq> Ac (DFinish u)}"])
    (use assms evolves_trans evolves_step consistent_run in \<open>auto simp: subset_iff\<close>)

section \<open>One-time prekeys\<close>

definition used_keys :: "uuid \<Rightarrow> db \<Rightarrow> (int \<times> bytes) set" where
  "used_keys u d = {(opk_idx r, key_pub r) | r. r \<in> set (opks d) \<and> o_user r = u \<and> consumed r}"

lemma used_keys_same: "opks d' = opks d \<Longrightarrow> used_keys u d' = used_keys u d"
  by (simp add: used_keys_def)

lemma used_keys_update:
  assumes "opks_used d d'"
  shows "used_keys u d \<subseteq> used_keys u d'"
proof -
  obtain p where p: "opks d' = map (\<lambda>r. if p r then r\<lparr>consumed := True\<rparr> else r) (opks d)"
    using assms by (auto simp: opks_used_def sql_update_def)
  have "(opk_idx r, key_pub r) \<in> used_keys u d'" if "r \<in> set (opks d)" "o_user r = u" "consumed r" for r
  proof -
    let ?r = "if p r then r\<lparr>consumed := True\<rparr> else r"
    have "?r \<in> set (opks d')" using that(1) by (simp add: p)
    then show ?thesis unfolding used_keys_def using that by (intro CollectI exI [of _ ?r]) simp
  qed
  then show ?thesis by (auto simp: used_keys_def)
qed

lemma used_keys_create_opk:
  assumes "create_opk now v y d = Inr d'"
  shows "used_keys u d \<subseteq> used_keys u d'"
proof -
  obtain i up where y: "y = (i, up)" by (cases y)
  show ?thesis using assms [unfolded y] by (rule create_opk_Inr) (auto simp: used_keys_def)
qed

lemma used_keys_batch: "CreateBatchAtomic now v xs d = Inr (r, d') \<Longrightarrow> used_keys u d \<subseteq> used_keys u d'"
  by (induction xs arbitrary: d) (auto split: sum.splits dest: used_keys_create_opk)

lemma PopRandom_some:
  assumes "PopRandom pick u d = (Some r, d')"
  obtains q where "q \<in> set (opks d)" "o_user q = u" "\<not> consumed q" "r = q\<lparr>consumed := True\<rparr>"
    "opks d' = sql_update (\<lambda>x. o_id x = o_id q) (\<lambda>x. x\<lparr>consumed := True\<rparr>) (opks d)"
proof -
  obtain y ys where ys: "fresh_opks u d = y # ys"
    using assms by (cases "fresh_opks u d") (simp_all add: PopRandom_def)
  let ?q = "(y # ys) ! (pick mod length (y # ys))"
  have "?q \<in> set (fresh_opks u d)" unfolding ys by (rule nth_mem) simp
  moreover have "r = ?q\<lparr>consumed := True\<rparr>" "opks d' = sql_update (\<lambda>x. o_id x = o_id ?q) (\<lambda>x. x\<lparr>consumed := True\<rparr>) (opks d)"
    using assms by (auto simp: PopRandom_def ys Let_def)
  ultimately show thesis by (intro that [of ?q]) (auto simp: fresh_opks_def)
qed

lemma PopRandom_used: "opks_used d (snd (PopRandom pick u d))"
proof (cases "PopRandom pick u d")
  case (Pair o' d')
  show ?thesis
  proof (cases o')
    case None
    then show ?thesis using Pair by (cases "fresh_opks u d") (auto simp: PopRandom_def Let_def intro: opks_used_same)
  next
    case (Some r)
    with Pair have "PopRandom pick u d = (Some r, d')" by simp
    then show ?thesis by (rule PopRandom_some) (auto simp: opks_used_def Pair)
  qed
qed

lemma used_keys_tx: "(\<And>r d'. t d = Inr (r, d') \<Longrightarrow> used_keys u d \<subseteq> used_keys u d') \<Longrightarrow> used_keys u d \<subseteq> used_keys u (snd (run_tx t d))"
  by (rule run_tx_inv [of "\<lambda>d'. used_keys u d \<subseteq> used_keys u d'"]) simp_all

lemma account_opks_tx:
  "session_Create now newID v h ex d = Inr (r, d') \<Longrightarrow> opks d' = opks d"
  "ExtendByToken E t ex d = Inr (r, d') \<Longrightarrow> opks d' = opks d"
  "user_Create now newID usr d = Inr (r'', d') \<Longrightarrow> opks d' = opks d"
    apply (auto simp: session_Create_def split: if_splits)[1]
   apply (auto simp: ExtendByToken_def Let_def split: if_splits)[1]
  by (drule user_Create_Inr(1)) simp

lemma account_opks_publish: "PublishOrRefreshIdentity now v ik lk spk sg ts d = Inr (r, d') \<Longrightarrow> opks d' = opks d"
proof -
  have "opks (snd (publish_new now v ik lk spk sg ts d)) = opks d" "opks (snd (publish_refresh now v ik lk spk sg ts d)) = opks d" for d
    by (simp_all add: publish_new_def publish_refresh_def Let_def)
  then show "PublishOrRefreshIdentity now v ik lk spk sg ts d = Inr (r, d') \<Longrightarrow> opks d' = opks d"
    by (drule_tac Publish_Inr) (elim disjE conjE; simp only:)
qed

lemma account_opks_rotate: "repo_RotateSPK now v spk sg ts d = Inr (r, d') \<Longrightarrow> opks d' = opks d"
  by (erule repo_RotateSPK_Inr) simp

lemma account_opks_accept: "Accept E now v shared h d = Inr (r, d') \<Longrightarrow> opks d' = opks d"
  by (erule Accept_Inr) simp_all

lemma account_opks_plain:
  "opks (DeleteByToken E t d) = opks d"
  "opks (snd (repo_AbandonReceipt now h d)) = opks d" "opks (PruneReceipts cutoff d) = opks d"
  "opks (snd (ClaimDue now d)) = opks d"
  by (simp_all add: DeleteByToken_def repo_AbandonReceipt_def PruneReceipts_def ClaimDue_def split: list.split option.split)

lemma used_keys_remove:
  assumes "wf d"
  shows "used_keys u (snd (run_tx (RemoveMembership E now v a) d)) = used_keys u d"
proof (rule used_keys_same)
  show "opks (snd (run_tx (RemoveMembership E now v a) d)) = opks d"
    using assms
    by (cases rule: RemoveMembership_Inr [where E = E and now = now and u = v and a = a])
      (simp_all add: drop_identity_def drop_album_def enqueueObjectCleanup_def require_rotation_def)
qed

lemma used_keys_account:
  assumes wf: "wf d" and x: "x \<noteq> DFinish u"
  shows "used_keys u d \<subseteq> used_keys u (account_exec E now x d)"
proof (cases x)
  case (DFinish v)
  with x have "u \<noteq> v" by simp
  then show ?thesis unfolding DFinish account_exec.simps
    by (cases "find_user d v") (auto simp: FinishAccount_def delete_user_def used_keys_def)
next
  case DRemove
  then show ?thesis using used_keys_remove [OF wf] by simp
next
  case (UReplenish v xs)
  show ?thesis unfolding UReplenish account_exec.simps by (rule used_keys_tx) (rule used_keys_batch)
next
  case (UPop pick v)
  then show ?thesis using used_keys_update [OF PopRandom_used] by simp
qed (simp_all only: account_exec.simps account_opks_plain [THEN used_keys_same] order_refl,
  (rule used_keys_tx, rule equalityD2, rule used_keys_same,
    erule account_opks_tx account_opks_publish account_opks_rotate account_opks_accept)+)

lemma used_keys_exec:
  assumes "wf d" "x \<noteq> Ac (DFinish u)"
  shows "used_keys u d \<subseteq> used_keys u (exec E now x d)"
proof (cases x)
  case (Al y)
  then show ?thesis using album_exec_accounts [OF assms(1), of E now y] by (simp add: used_keys_update)
next
  case (Md y)
  then show ?thesis using media_exec_accounts [OF assms(1), of now y]
    by (auto simp: same_accounts_def dest: used_keys_same [of _ d])
next
  case (Ac y)
  then show ?thesis using assms by (simp add: used_keys_account)
qed

lemma used_keys_history:
  assumes "\<forall>x\<in>set later. snd x \<noteq> Ac (DFinish u)"
  shows "used_keys u (run E ops) \<subseteq> used_keys u (run E (ops @ later))"
proof -
  have one: "used_keys u d \<subseteq> used_keys u (step E x d)" if "consistent d" "x \<in> {x. snd x \<noteq> Ac (DFinish u)}" for d x
    using that by (simp add: step_def consistentD used_keys_exec)
  have sub: "set later \<subseteq> {x. snd x \<noteq> Ac (DFinish u)}" using assms by blast
  show ?thesis unfolding run_append
    by (rule server.run_rel [where R = "\<lambda>d d'. used_keys u d \<subseteq> used_keys u d'", OF _ _ one consistent_run sub]) blast+
qed

section \<open>Receipts\<close>

lemma receipts_tx: "(\<And>r d'. t d = Inr (r, d') \<Longrightarrow> set (receipts d) \<subseteq> set (receipts d')) \<Longrightarrow>
    set (receipts d) \<subseteq> set (receipts (snd (run_tx t d)))"
  by (rule run_tx_inv [of "\<lambda>d'. set (receipts d) \<subseteq> set (receipts d')"]) simp_all

lemma receipts_same_tx:
  "session_Create now newID v h ex d = Inr (r, d') \<Longrightarrow> receipts d' = receipts d"
  "ExtendByToken E t ex d = Inr (r, d') \<Longrightarrow> receipts d' = receipts d"
  "user_Create now newID usr d = Inr (r'', d') \<Longrightarrow> receipts d' = receipts d"
    apply (auto simp: session_Create_def split: if_splits)[1]
   apply (auto simp: ExtendByToken_def Let_def split: if_splits)[1]
  by (drule user_Create_Inr(1)) simp

lemma receipts_publish: "PublishOrRefreshIdentity now v ik lk spk sg ts d = Inr (r, d') \<Longrightarrow> receipts d' = receipts d"
proof -
  have "receipts (snd (publish_new now v ik lk spk sg ts d)) = receipts d"
    "receipts (snd (publish_refresh now v ik lk spk sg ts d)) = receipts d" for d
    by (simp_all add: publish_new_def publish_refresh_def Let_def)
  then show "PublishOrRefreshIdentity now v ik lk spk sg ts d = Inr (r, d') \<Longrightarrow> receipts d' = receipts d"
    by (drule_tac Publish_Inr) (elim disjE conjE; simp only:)
qed

lemma receipts_rotate: "repo_RotateSPK now v spk sg ts d = Inr (r, d') \<Longrightarrow> receipts d' = receipts d"
  by (erule repo_RotateSPK_Inr) simp

lemma receipts_batch: "CreateBatchAtomic now v xs d = Inr (r, d') \<Longrightarrow> receipts d' = receipts d"
  by (induction xs arbitrary: d) (auto split: sum.splits elim!: create_opk_Inr)

lemma receipts_plain:
  "receipts (DeleteByToken E t d) = receipts d" "receipts (snd (PopRandom pick v d)) = receipts d"
  "receipts (snd (ClaimDue now d)) = receipts d" "receipts (snd (FinishAccount E v d)) = receipts d"
  by (simp_all add: DeleteByToken_def PopRandom_def ClaimDue_def FinishAccount_def delete_user_def Let_def
      split: list.split option.split)

lemma receipts_accept: "Accept E now v shared h d = Inr (r, d') \<Longrightarrow> set (receipts d) \<subseteq> set (receipts d')"
  by (erule Accept_Inr) auto

lemma receipts_abandon: "set (receipts d) \<subseteq> set (receipts (snd (repo_AbandonReceipt now h d)))"
  by (auto simp: repo_AbandonReceipt_def split: option.split)

lemma receipts_remove:
  assumes "wf d"
  shows "receipts (snd (run_tx (RemoveMembership E now v a) d)) = receipts d"
  using assms
  by (cases rule: RemoveMembership_Inr [where E = E and now = now and u = v and a = a])
    (simp_all add: drop_identity_def drop_album_def enqueueObjectCleanup_def require_rotation_def)

lemma receipts_account:
  assumes wf: "wf d" and q: "q \<in> set (receipts d)" and x: "\<And>c. x = DPrune c \<Longrightarrow> c \<le> accepted_at q"
  shows "q \<in> set (receipts (account_exec E now x d))"
proof (cases "\<exists>c. x = DPrune c")
  case True
  then show ?thesis using q x by (force simp: PruneReceipts_def)
next
  case False
  have "set (receipts d) \<subseteq> set (receipts (account_exec E now x d))"
  proof (cases x)
    case (DPrune c)
    with False show ?thesis by blast
  next
    case (DAccept v shared h)
    show ?thesis unfolding DAccept account_exec.simps by (rule receipts_tx) (rule receipts_accept)
  qed (simp_all only: account_exec.simps receipts_plain receipts_abandon receipts_remove [OF wf] order_refl,
    (rule receipts_tx, simp only: receipts_batch receipts_rotate receipts_publish receipts_same_tx order_refl)+)
  then show ?thesis using q by blast
qed

lemma receipts_exec:
  assumes "wf d" "q \<in> set (receipts d)" "\<And>c. x = Ac (DPrune c) \<Longrightarrow> c \<le> accepted_at q"
  shows "q \<in> set (receipts (exec E now x d))"
proof (cases x)
  case (Al y)
  then show ?thesis using album_exec_accounts [OF assms(1), of E now y] assms(2) by simp
next
  case (Md y)
  then show ?thesis using media_exec_accounts [OF assms(1), of now y] assms(2) by (simp add: same_accounts_def)
next
  case (Ac y)
  then show ?thesis using assms by (simp add: receipts_account)
qed

text \<open>A receipt stays as long as every prune spares the hour it was recorded in.\<close>

lemma receipts_history:
  assumes "q \<in> set (receipts (run E ops))" "\<forall>x\<in>set later. \<forall>c. snd x = Ac (DPrune c) \<longrightarrow> c \<le> accepted_at q"
  shows "q \<in> set (receipts (run E (ops @ later)))"
proof -
  let ?A = "{x. \<forall>c. snd x = Ac (DPrune c) \<longrightarrow> c \<le> accepted_at q}"
  have one: "q \<in> set (receipts d) \<longrightarrow> q \<in> set (receipts (step E x d))" if "consistent d" "x \<in> ?A" for d x
    using that by (simp add: step_def consistentD receipts_exec)
  have sub: "set later \<subseteq> ?A" using assms(2) by blast
  have "q \<in> set (receipts (run E ops)) \<longrightarrow> q \<in> set (receipts (run E (ops @ later)))" unfolding run_append
    by (rule server.run_rel [where R = "\<lambda>d d'. q \<in> set (receipts d) \<longrightarrow> q \<in> set (receipts d')", OF _ _ one consistent_run sub]) blast+
  then show ?thesis using assms(1) by blast
qed

end
