(* ===== verification/Account_Properties.thy ===== *)
theory Account_Properties
  imports Histories Scenario
begin

text \<open>
  Properties of accounts: their names and keys, one-time prekeys, sign-in and sessions, and the
  acceptance of a deletion.
\<close>

section \<open>Names and keys\<close>

text \<open>C34. In every reachable state an account is determined by its identifier, by its mail digest and
  by its public handle, a session belongs to an existing account, and no two sessions share a
  token digest.\<close>

theorem accounts_unique:
  "distinct (map u_id (users (run E ops))) \<and> distinct (map email_hmac (users (run E ops)))
    \<and> distinct (map u_miuchio_id (users (run E ops))) \<and> distinct (map token_hash (sessions (run E ops)))
    \<and> s_user ` set (sessions (run E ops)) \<subseteq> u_id ` set (users (run E ops))"
  using reachable(6) [of E ops] by (auto simp: accounts_defs wf_users_def)

text \<open>C16. A published identity is never replaced: whatever requests follow, as long as the account
  itself is not deleted, it has the same identity and link key, and the time stamp of its signed
  prekey has not gone back.\<close>

theorem identity_never_replaced:
  assumes "find_user (run E ops) u = Some r" "ik_pub r = Some ik"
    and "\<forall>x\<in>set later. snd x \<noteq> Ac (DFinish u)"
  shows "\<exists>r'. find_user (run E (ops @ later)) u = Some r' \<and> ik_pub r' = Some ik \<and> lk_pub r' = lk_pub r
    \<and> (\<forall>t. spk_ts r = Some t \<longrightarrow> (\<exists>t'. spk_ts r' = Some t' \<and> sint t \<le> sint t'))"
proof -
  have "evolves u (run E ops) (run E (ops @ later))" using assms(3) by (rule evolves_history)
  then obtain r' where r': "find_user (run E (ops @ later)) u = Some r'" "user_le r r'"
    using assms(1) unfolding evolves_def by blast
  show ?thesis using r' assms(2) unfolding user_le_def by (intro exI [of _ r']) simp
qed

theorem identity_never_replaced_witness:
  "\<exists>r'. find_user (run demo (history @ [(0, Ac (URotate 1 (tok 9) (tok 9) 5))])) 1 = Some r' \<and> ik_pub r' = Some (tok 1)"
proof -
  have "find_user shared_album 1 = Some ((person 1)\<lparr>u_id := 1, ik_pub := Some (tok 1), lk_pub := Some (tok 1),
      spk_pub := Some (tok 1), spk_sig := Some (tok 1), spk_ts := Some 1\<rparr>)" by code_simp
  then show ?thesis unfolding shared_album_def
    using identity_never_replaced [where later = "[(0, Ac (URotate 1 (tok 9) (tok 9) 5))]" and u = 1] by fastforce
qed

text \<open>C9. A one-time prekey is handed out at most once: after a bundle took a prekey of an account, no
  later bundle of that account contains a prekey with the same index, whatever happened in
  between, uploads of the same index included, unless the account was deleted.\<close>

theorem opk_handed_out_once:
  assumes "PopRandom pick u (run E ops) = (Some r, d')"
    and "\<forall>x\<in>set later. snd x \<noteq> Ac (DFinish u)"
    and "PopRandom pick' u (fold (step E) later d') = (Some r', d'')"
  shows "opk_idx r' \<noteq> opk_idx r"
proof
  assume same: "opk_idx r' = opk_idx r"
  let ?ops = "ops @ [(0, Ac (UPop pick u))]"
  have d': "d' = run E ?ops" using assms(1) by (simp add: run_extend)
  have d'': "fold (step E) later d' = run E (?ops @ later)" by (simp add: d' run_append)
  obtain q where q: "q \<in> set (opks (run E ops))" "o_user q = u" "r = q\<lparr>consumed := True\<rparr>"
    "opks d' = sql_update (\<lambda>x. o_id x = o_id q) (\<lambda>x. x\<lparr>consumed := True\<rparr>) (opks (run E ops))"
    using assms(1) by (rule PopRandom_some)
  have "r \<in> set (opks d')" unfolding q(4) sql_update_def set_map by (rule image_eqI [OF _ q(1)]) (simp add: q(3))
  then have "(opk_idx r, key_pub r) \<in> used_keys u d'" using q(2,3) unfolding used_keys_def by (intro CollectI exI [of _ r]) simp
  then have "(opk_idx r, key_pub r) \<in> used_keys u (run E (?ops @ later))"
    using used_keys_history [OF assms(2)] unfolding d' by blast
  then obtain p where p: "p \<in> set (opks (run E (?ops @ later)))" "o_user p = u" "consumed p" "opk_idx p = opk_idx r"
    by (auto simp: used_keys_def)
  obtain q' where q': "q' \<in> set (opks (run E (?ops @ later)))" "o_user q' = u" "\<not> consumed q'" "r' = q'\<lparr>consumed := True\<rparr>"
    using assms(3) unfolding d'' by (rule PopRandom_some)
  have "distinct (map opk_key (opks (run E (?ops @ later))))"
    using reachable(6) by (simp add: accounts_ok_def opks_ok_def)
  then have "p = q'" using p q' same by (intro distinct_map_eq [of opk_key]) (simp_all add: opk_key_def)
  then show False using p(3) q'(3) by simp
qed

theorem opk_handed_out_once_witness:
  "let x = Ac (UReplenish 1 [(60, \<lparr>opk_Idx = 0, opk_KeyPub = tok 5\<rparr>), (61, \<lparr>opk_Idx = 1, opk_KeyPub = tok 6\<rparr>)]);
       y = PopRandom 0 1 (then_do x); z = PopRandom 0 1 (fold (step demo) [(1, x)] (snd y))
    in fst y \<noteq> None \<and> fst z \<noteq> None \<and> opk_idx (the (fst z)) \<noteq> opk_idx (the (fst y))"
proof -
  let ?x = "Ac (UReplenish 1 [(60, \<lparr>opk_Idx = 0, opk_KeyPub = tok 5\<rparr>), (61, \<lparr>opk_Idx = 1, opk_KeyPub = tok 6\<rparr>)])"
  let ?y = "PopRandom 0 1 (then_do ?x)"
  let ?z = "PopRandom 0 1 (fold (step demo) [(1, ?x)] (snd ?y))"
  have n: "fst ?y \<noteq> None \<and> fst ?z \<noteq> None" by code_simp
  then have y: "?y = (Some (the (fst ?y)), snd ?y)" and z: "?z = (Some (the (fst ?z)), snd ?z)" by (simp_all add: prod_eq_iff)
  have "opk_idx (the (fst ?z)) \<noteq> opk_idx (the (fst ?y))"
    by (rule opk_handed_out_once [OF y [unfolded then_do_run] _ z [unfolded then_do_run], folded then_do_run]) simp
  with n show ?thesis by (simp only: Let_def simp_thms)
qed

section \<open>Sessions\<close>

lemma split_space_nonempty [simp]: "split_space s \<noteq> []"
  by (induction s) (auto split: list.split)

lemma split_space_one: "split_space s = [t] \<longleftrightarrow> s = t \<and> 32 \<notin> set t"
proof (induction s arbitrary: t)
  case (Cons b s)
  show ?case using Cons [of "tl t"] by (cases "split_space s"; cases t) (auto split: if_splits)
qed auto

lemma split_space_two: "split_space s = [p, t] \<longleftrightarrow> s = p @ 32 # t \<and> 32 \<notin> set p \<and> 32 \<notin> set t"
proof (induction s arbitrary: p)
  case (Cons b s)
  show ?case using Cons [of "tl p"] split_space_one [of s t]
    by (cases "split_space s"; cases p) (auto split: if_splits)
qed auto

lemma GetByToken_iff:
  assumes "accounts_ok d"
  shows "GetByToken E token d = Inr s \<longleftrightarrow> s \<in> set (sessions d) \<and> token_hash s = HashToken E token \<and> live_user d (s_user s)"
    (is "?L \<longleftrightarrow> ?R")
proof
  assume ?L then show ?R by (auto simp: GetByToken_def split: option.splits dest: find_Some_in)
next
  assume r: ?R
  let ?p = "\<lambda>s. token_hash s = HashToken E token \<and> live_user d (s_user s)"
  have "find ?p (sessions d) \<noteq> None" using r by (auto simp: find_None_all)
  then obtain s' where s': "find ?p (sessions d) = Some s'" by blast
  have "distinct (map token_hash (sessions d))" using assms by (simp add: accounts_defs)
  from distinct_map_eq [OF this, of s' s] have "s' = s" using r find_Some_in [OF s'] by simp
  then show ?L using s' by (simp add: GetByToken_def)
qed

text \<open>C12. The authentication middleware lets a request through as a user exactly when its header is
  the word Bearer, one space and a token without spaces whose digest is that of a stored session
  of that user that has not expired, and the account is not being deleted.\<close>

theorem authenticate_iff:
  "Authenticate E now hdr (run E ops) = Inr u \<longleftrightarrow>
    (\<exists>token s r. hdr = ascii ''Bearer'' @ 32 # token \<and> 32 \<notin> set token \<and>
       s \<in> set (sessions (run E ops)) \<and> token_hash s = HashToken E token \<and> s_user s = u \<and> now \<le> expires_at s \<and>
       find_user (run E ops) u = Some r \<and> deleting_at r = None)"
    (is "?L \<longleftrightarrow> ?R")
proof
  let ?d = "run E ops"
  note gt = GetByToken_iff [OF reachable(6)]
  assume ?L
  then obtain token s where s: "split_space hdr = [ascii ''Bearer'', token]" "GetByToken E token ?d = Inr s" "now \<le> expires_at s" "u = s_user s"
    by (auto simp: Authenticate_def split: if_splits list.splits sum.splits)
  then show ?R using s(2) [unfolded gt] by (auto simp: split_space_two live_user_def split: option.splits)
next
  let ?d = "run E ops"
  note gt = GetByToken_iff [OF reachable(6)]
  assume ?R
  then obtain token s r where s: "hdr = ascii ''Bearer'' @ 32 # token" "32 \<notin> set token" "s \<in> set (sessions ?d)"
    "token_hash s = HashToken E token" "s_user s = u" "now \<le> expires_at s" "find_user ?d u = Some r" "deleting_at r = None"
    by blast
  have "32 \<notin> set (ascii ''Bearer'')" by (simp add: ascii_def)
  then have "split_space hdr = [ascii ''Bearer'', token]" using s(1,2) by (simp add: split_space_two)
  moreover have "GetByToken E token ?d = Inr s" using s by (simp add: gt live_user_def)
  moreover have "hdr \<noteq> []" using s(1) by simp
  ultimately show ?L using s(5,6) by (simp add: Authenticate_def)
qed

lemma createWithMiuchioID_Inr:
  "createWithMiuchioID now newID hs u d = Inr (r, d') \<Longrightarrow> \<exists>h\<in>set hs. user_Create now newID (u\<lparr>u_miuchio_id := h\<rparr>) d = Inr (r, d')"
  by (induction hs) (auto split: sum.splits if_splits)

lemma signin_account_Inr:
  assumes "signin_account A now R h d = Inr (u, d')" and ok: "accounts_ok d"
  shows "accounts_ok d'" "find_user d' (u_id u) = Some u" "email_hmac u = h"
proof -
  have "accounts_ok d' \<and> find_user d' (u_id u) = Some u \<and> email_hmac u = h"
  proof (cases "GetByEmailHMAC h d")
    case (Inr v)
    then have v: "v = u" "d' = d" "find (\<lambda>r. email_hmac r = h) (users d) = Some u"
      using assms by (auto simp: signin_account_def GetByEmailHMAC_def split: option.splits)
    then show ?thesis using find_Some_in [OF v(3)] ok find_user_key by (auto simp: accounts_defs)
  next
    case (Inl e)
    then obtain h' where c: "user_Create now (rn_user R) (new_user h\<lparr>u_miuchio_id := h'\<rparr>) d = Inr (u, d')"
      using assms createWithMiuchioID_Inr by (fastforce simp: signin_account_def split: if_splits)
    note n = user_Create_Inr [OF c]
    have ok': "accounts_ok d'" using accounts_ok_user_Create [OF ok c] .
    moreover have "u \<in> set (users d')" by (simp add: n(1))
    ultimately have "find_user d' (u_id u) = Some u" using find_user_key by (auto simp: accounts_defs)
    then show ?thesis using n(3) ok' by (simp add: new_user_def)
  qed
  then show "accounts_ok d'" "find_user d' (u_id u) = Some u" "email_hmac u = h" by simp_all
qed

lemma length_b64_url: "length b64_url = 64"
  by code_simp

lemma token_no_space: "32 \<notin> set (URLEncode rnd)"
proof -
  have "unat b < 256" for b :: byte using unsigned_less [of b] by simp
  then have "\<forall>y\<in>set (sixes (map unat rnd)). y < 64" by (intro sixes_bound) auto
  then have "set (RawURLEncode rnd) \<subseteq> set b64_url"
    by (auto simp: RawURLEncode_def length_b64_url intro!: nth_mem)
  moreover have "32 \<notin> set b64_url" by code_simp
  ultimately show ?thesis by (auto simp: URLEncode_def b64_pad_def)
qed

text \<open>C35. A successful sign-in is a working session: the token it returns authenticates, until it
  expires after thirty days, as the account it names, and that account is the one of the mail
  address the code was sent to.\<close>

theorem signin_authenticates:
  assumes "VerifyOTP A now R email otp (s, run (a_env A) ops) = (Inr v, s', d')"
    and "now' \<le> v_expires v"
  shows "Authenticate (a_env A) now' (ascii ''Bearer '' @ v_token v) d' = Inr (v_user v)
    \<and> (\<exists>r. find_user d' (v_user v) = Some r \<and> email_hmac r = HashEmail A email \<and> deleting_at r = None)
    \<and> v_expires v = now + sessionTTL"
proof -
  let ?d = "run (a_env A) ops" and ?E = "a_env A" and ?h = "HashEmail A email"
  obtain s1 where s1: "CheckOTP now (hex ?h) (otpMAC A ?h otp) maxOTPAttempts s = (True, s1)"
    using assms(1) by (cases "CheckOTP now (hex ?h) (otpMAC A ?h otp) maxOTPAttempts s")
      (auto simp: VerifyOTP_def Let_def split: if_splits)
  obtain u d1 where u: "signin_account A now R ?h ?d = Inr (u, d1)"
    using assms(1) s1 by (cases "signin_account A now R ?h ?d") (auto simp: VerifyOTP_def Let_def)
  let ?t = "generateToken (rn_token R)" and ?x = "now + sessionTTL"
  have dl: "deleting_at u = None" using assms(1) s1 u by (auto simp: VerifyOTP_def Let_def split: if_splits)
  obtain d2 where c: "session_Create now (rn_session R) (u_id u) (HashToken ?E ?t) ?x d1 = Inr ((), d2)"
    using assms(1) s1 u dl by (cases "session_Create now (rn_session R) (u_id u) (HashToken ?E ?t) ?x d1")
      (auto simp: VerifyOTP_def Let_def)
  have v: "v = \<lparr>v_user = u_id u, v_token = ?t, v_expires = ?x\<rparr>" "d' = d2"
    using assms(1) s1 u dl c by (auto simp: VerifyOTP_def Let_def)
  note sg = signin_account_Inr [OF u reachable(6)]
  have ok: "accounts_ok d2" using accounts_ok_session_Create [OF sg(1) c] .
  let ?y = "\<lparr>s_id = rn_session R, s_user = u_id u, token_hash = HashToken ?E ?t, expires_at = ?x,
    s_created_at = trunc_hour now\<rparr>"
  have d2: "d2 = d1\<lparr>sessions := sql_insert ?y (sessions d1)\<rparr>" using c by (simp add: session_Create_def split: if_splits)
  then have us: "users d2 = users d1" by simp
  obtain y where y: "y \<in> set (sessions d2)" "token_hash y = HashToken ?E ?t" "s_user y = u_id u" "expires_at y = ?x"
    using d2 by (intro that [of ?y]) simp_all
  have fu: "find_user d2 (u_id u) = Some u" using sg(2) us by (simp add: find_user_def)
  have "GetByToken ?E ?t d2 = Inr y" using y fu dl by (simp add: GetByToken_iff [OF ok] live_user_def)
  moreover have "split_space (ascii ''Bearer '' @ ?t) = [ascii ''Bearer'', ?t]"
    unfolding split_space_two using token_no_space by (simp add: ascii_def generateToken_def)
  moreover have "ascii ''Bearer '' \<noteq> []" by (simp add: ascii_def)
  ultimately have "Authenticate ?E now' (ascii ''Bearer '' @ ?t) d2 = Inr (u_id u)"
    using y assms(2) v(1) by (simp add: Authenticate_def)
  then show ?thesis using v fu sg(3) dl by auto
qed

definition demo_auth :: auth_env where
  "demo_auth = \<lparr>a_env = demo, emailHMACKey = [], norm_email = (\<lambda>e. e)\<rparr>"

definition demo_signin :: "(err + verified_session) \<times> otp_store \<times> db" where
  "demo_signin = VerifyOTP demo_auth 1 \<lparr>rn_user = 70, rn_session = 71, rn_handles = [], rn_token = [1, 2, 3]\<rparr> [1]
     (generateOTP [1, 2, 3, 4, 5, 6])
     (snd (RequestOTP demo_auth 0 [1, 2, 3, 4, 5, 6] True [1] empty_otp), shared_album)"

theorem signin_authenticates_witness:
  "Authenticate demo 5 (ascii ''Bearer '' @ v_token (projr (fst demo_signin))) (snd (snd demo_signin)) = Inr 1"
proof -
  have e: "\<not> isl (fst demo_signin) \<and> v_user (projr (fst demo_signin)) = 1 \<and> 5 \<le> v_expires (projr (fst demo_signin))" by code_simp
  then have "demo_signin = (Inr (projr (fst demo_signin)), fst (snd demo_signin), snd (snd demo_signin))"
    by (simp add: prod_eq_iff)
  moreover have "demo_signin = VerifyOTP demo_auth 1 \<lparr>rn_user = 70, rn_session = 71, rn_handles = [], rn_token = [1, 2, 3]\<rparr> [1]
     (generateOTP [1, 2, 3, 4, 5, 6])
     (snd (RequestOTP demo_auth 0 [1, 2, 3, 4, 5, 6] True [1] empty_otp), run (a_env demo_auth) history)"
    by (simp add: demo_signin_def shared_album_def demo_auth_def)
  ultimately have "Authenticate (a_env demo_auth) 5 (ascii ''Bearer '' @ v_token (projr (fst demo_signin))) (snd (snd demo_signin)) =
      Inr (v_user (projr (fst demo_signin)))"
    using e by (metis signin_authenticates)
  then show ?thesis using e by (simp add: demo_auth_def)
qed

section \<open>Accepting a deletion\<close>

lemma deletion_Request_Inr:
  assumes "deletion_Request E now u shared r d = Inr (x, d')"
  shows "Accept E now u shared (del_receiptHash E r) d = Inr (x, d')"
  using assms by (auto simp: deletion_Request_def split: if_splits sum.splits)

text \<open>C18. An accepted deletion locks the account for good: from its commit on no token authenticates
  as the account, whatever requests follow, as long as the account itself still exists.\<close>

theorem deletion_locks_account:
  assumes "deletion_Request E now u shared r (run E ops) = Inr ((), d')"
    and "\<forall>x\<in>set later. snd x \<noteq> Ac (DFinish u)"
  shows "Authenticate E now' hdr (fold (step E) later d') \<noteq> Inr u"
proof
  let ?ops = "ops @ [(now, Ac (DAccept u shared (del_receiptHash E r)))]"
  note ac = deletion_Request_Inr [OF assms(1)]
  have d': "d' = run E ?ops" using ac by (simp add: run_extend run_tx_def)
  have d'': "fold (step E) later d' = run E (?ops @ later)" by (simp add: d' run_append)
  assume "Authenticate E now' hdr (fold (step E) later d') = Inr u"
  then obtain q where q: "find_user (run E (?ops @ later)) u = Some q" "deleting_at q = None"
    unfolding d'' authenticate_iff by blast
  have "\<exists>p. find_user d' u = Some p \<and> deleting_at p \<noteq> None"
    using ac
  proof (cases rule: Accept_Inr)
    case (again rs usr)
    then show ?thesis by (simp add: find_user_def)
  next
    case (accepted rs usr)
    then show ?thesis
      using find_sql_update [where k = u_id and p = "\<lambda>r. u_id r = u" and f = "\<lambda>r. r\<lparr>deleting_at := Some (trunc_hour now)\<rparr>"
          and x = u and t = "users (run E ops)"] find_user_Some [OF accepted(1)]
      by (simp add: find_user_def)
  qed
  then obtain p where p: "find_user (run E ?ops) u = Some p" "deleting_at p \<noteq> None" unfolding d' by blast
  have "evolves u (run E ?ops) (run E (?ops @ later))" using assms(2) by (rule evolves_history)
  then show False using p q unfolding evolves_def user_le_def by force
qed

theorem deletion_locks_account_witness:
  "Authenticate demo 5 [] (fold (step demo) [(1, Ac (SCreate 80 1 [9] 99))]
     (snd (projr (deletion_Request demo 0 1 [7] (replicate 32 0) shared_album)))) \<noteq> Inr 1"
proof -
  let ?x = "deletion_Request demo 0 1 [7] (replicate 32 0) shared_album"
  have "\<not> isl ?x" by code_simp
  then have "?x = Inr ((), snd (projr ?x))" by (cases ?x) auto
  then show ?thesis unfolding shared_album_def by (rule deletion_locks_account) simp
qed

lemma find_receipt_iff:
  assumes "accounts_ok d"
  shows "find_receipt h d = Some r \<longleftrightarrow> r \<in> set (receipts d) \<and> receipt_hash r = h"
    (is "?L \<longleftrightarrow> ?R")
proof
  assume r: ?R
  have "distinct (map receipt_hash (receipts d))" using assms by (simp add: accounts_defs)
  from find_key [OF this, of r] show ?L using r by (simp add: find_receipt_def)
qed (auto simp: find_receipt_def dest: find_Some_in)

lemma Accept_receipt:
  assumes "Accept E now u shared h d = Inr (x, d')" "accounts_ok d"
  obtains r where "r \<in> set (receipts d')" "receipt_hash r = h" "\<not> abandoned r"
    "accepted_at r = (case find_receipt h d of None \<Rightarrow> trunc_hour now | Some q \<Rightarrow> accepted_at q)"
proof -
  obtain usr where usr: "find_user d u = Some usr" using assms by (cases "find_user d u") (simp_all add: Accept_def)
  obtain d1 where d1: "claimReceipt now h d = Inr ((), d1)"
    using assms usr by (cases "claimReceipt now h d") (auto simp: Accept_def)
  have "receipts d' = receipts d1" using assms(1) usr d1 by (auto simp: Accept_def split: if_splits)
  moreover have "\<exists>r\<in>set (receipts d1). receipt_hash r = h \<and> \<not> abandoned r \<and>
      accepted_at r = (case find_receipt h d of None \<Rightarrow> trunc_hour now | Some q \<Rightarrow> accepted_at q)"
  proof (cases "find_receipt h d")
    case None
    then show ?thesis using d1 by (auto simp: claimReceipt_def)
  next
    case (Some q)
    then have "\<not> abandoned q" "d1 = d" using d1 by (auto simp: claimReceipt_def split: if_splits)
    moreover have "q \<in> set (receipts d)" "receipt_hash q = h" using Some find_receipt_iff [OF assms(2)] by simp_all
    ultimately show ?thesis using Some by auto
  qed
  ultimately show thesis using that by auto
qed

lemma membership_row_shared:
  assumes "LookupMember E u a d = Inr (t, Admin)" "1 < active_count d a"
  obtains m where "m \<in> set (memberships E u None d)" "Outcome m = OutcomeDeleteShared" "ms_album m = a"
proof -
  obtain i m where im: "membership_of d (lhash E u) a = Some (i, m)" "revoked_at m = None" "i_token i = t" "role m = Admin"
    using assms(1) by (auto simp: LookupMember_def split: option.splits if_splits)
  note i = membership_of_Some [OF im(1)]
  have "membership_row d i \<in> set (memberships E u None d)" using i by (simp add: memberships_def)
  moreover have "Outcome (membership_row d i) = OutcomeDeleteShared" "ms_album (membership_row d i) = a"
    using i im assms(2) by (simp_all add: Outcome_def membership_row_def)
  ultimately show thesis by (rule that)
qed

text \<open>C19. A deletion is accepted only if every album the account would take down for others, each one
  it administers with somebody else in it, was among the albums the user confirmed; acceptance
  ends every session, queues the job and makes the receipt valid.\<close>

theorem deletion_accepted:
  assumes "deletion_Request E now u shared r (run E ops) = Inr ((), d')"
    and "find_user (run E ops) u = Some usr" "deleting_at usr = None"
  shows "(\<forall>a t. LookupMember E u a (run E ops) = Inr (t, Admin) \<and> 1 < active_count (run E ops) a \<longrightarrow> a \<in> set shared)
    \<and> u \<notin> s_user ` set (sessions d') \<and> u \<in> d_user ` set (deletions d')
    \<and> handle_DeletionReceipt E r d' = Inr ()"
proof -
  note ac = deletion_Request_Inr [OF assms(1)]
  have len: "length r = DeletionReceiptLen" using assms(1) by (simp add: deletion_Request_def split: if_splits)
  have rc: "handle_DeletionReceipt E r d' = Inr ()"
    using Accept_receipt [OF ac reachable(6)] len
    by (auto simp: handle_DeletionReceipt_def svc_ReceiptAccepted_def repo_ReceiptAccepted_def)
  show ?thesis
    using ac
  proof (cases rule: Accept_Inr)
    case (again rs usr')
    then show ?thesis using assms(2,3) by simp
  next
    case (accepted rs usr')
    have "a \<in> set shared" if "LookupMember E u a (run E ops) = Inr (t, Admin)" "1 < active_count (run E ops) a" for a t
      using membership_row_shared [OF that] accepted(4) by metis
    then show ?thesis using rc by (auto simp: accepted(5) queue_deletion_users)
  qed
qed

theorem deletion_accepted_witness:
  "handle_DeletionReceipt demo (replicate 32 0)
     (snd (projr (deletion_Request demo 0 1 [7] (replicate 32 0) shared_album))) = Inr ()"
proof -
  let ?x = "deletion_Request demo 0 1 [7] (replicate 32 0) shared_album"
  let ?u = "(person 1)\<lparr>u_id := 1, ik_pub := Some (tok 1), lk_pub := Some (tok 1), spk_pub := Some (tok 1),
      spk_sig := Some (tok 1), spk_ts := Some 1\<rparr>"
  have "\<not> isl ?x" by code_simp
  then have "?x = Inr ((), snd (projr ?x))" by (cases ?x) auto
  moreover have "find_user shared_album 1 = Some ?u" "deleting_at ?u = None" by code_simp+
  ultimately show ?thesis unfolding shared_album_def by (blast dest: deletion_accepted)
qed

text \<open>The hour a receipt is kept since, once it is used at \<open>now\<close>, and prunes as the worker issues
  them, within 180 days of that hour.\<close>

definition receipt_since :: "env \<Rightarrow> time \<Rightarrow> bytes \<Rightarrow> db \<Rightarrow> time" where
  "receipt_since E now r d = (case find_receipt (del_receiptHash E r) d of
     None \<Rightarrow> trunc_hour now | Some q \<Rightarrow> accepted_at q)"

definition prunes_from :: "time \<Rightarrow> (time \<times> op) list \<Rightarrow> bool" where
  "prunes_from since later \<longleftrightarrow> (\<forall>x\<in>set later. \<forall>c. snd x = Ac (DPrune c) \<longrightarrow>
     c = fst x - DeletionReceiptRetention \<and> fst x \<le> since + DeletionReceiptRetention)"

lemma receipt_kept:
  assumes "q \<in> set (receipts (run E ops))" "receipt_hash q = h" "prunes_from (accepted_at q) later"
  shows "find_receipt h (run E (ops @ later)) = Some q"
proof -
  have "\<forall>x\<in>set later. \<forall>c. snd x = Ac (DPrune c) \<longrightarrow> c \<le> accepted_at q"
    using assms(3) by (fastforce simp: prunes_from_def)
  then have "q \<in> set (receipts (run E (ops @ later)))" by (rule receipts_history [OF assms(1)])
  then show ?thesis using assms(2) by (simp add: find_receipt_iff [OF reachable(6)])
qed

lemma accepted_not_abandoned:
  assumes a: "deletion_Request E now u shared r (run E ops) = Inr ((), d')"
    and later: "prunes_from (receipt_since E now r (run E ops)) later"
  shows "fst (handle_AbandonDeletion E now' r (fold (step E) later d')) =
    Inl (Api E_DELETION_ACCEPTED ''this deletion was already accepted'')"
proof -
  let ?h = "del_receiptHash E r"
  note ac = deletion_Request_Inr [OF a]
  have len: "length r = DeletionReceiptLen" using a by (simp add: deletion_Request_def split: if_splits)
  let ?ops = "ops @ [(now, Ac (DAccept u shared ?h))]"
  have d': "d' = run E ?ops" using ac by (simp add: run_extend run_tx_def)
  obtain q where q: "q \<in> set (receipts d')" "receipt_hash q = ?h" "\<not> abandoned q"
      "accepted_at q = receipt_since E now r (run E ops)"
    using Accept_receipt [OF ac reachable(6)] unfolding receipt_since_def by blast
  then have "find_receipt ?h (run E (?ops @ later)) = Some q"
    using later unfolding d' by (intro receipt_kept) simp_all
  then show ?thesis
    using q(3) len by (simp add: d' run_append [symmetric] handle_AbandonDeletion_def svc_AbandonReceipt_def repo_AbandonReceipt_def)
qed

lemma abandoned_not_accepted:
  assumes a: "handle_AbandonDeletion E now r (run E ops) = (Inr (), d')"
    and later: "prunes_from (receipt_since E now r (run E ops)) later"
  shows "isl (deletion_Request E now' u shared r (fold (step E) later d'))"
proof -
  let ?h = "del_receiptHash E r"
  have len: "length r = DeletionReceiptLen"
    using a by (auto simp: handle_AbandonDeletion_def svc_AbandonReceipt_def split: if_splits)
  obtain acc where ab: "repo_AbandonReceipt now ?h (run E ops) = (acc, d')" "\<not> acc"
    using a len by (cases "repo_AbandonReceipt now ?h (run E ops)")
      (auto simp: handle_AbandonDeletion_def svc_AbandonReceipt_def split: if_splits)
  let ?ops = "ops @ [(now, Ac (DAbandon ?h))]"
  have d': "d' = run E ?ops" using ab by (simp add: run_extend)
  obtain q where q: "q \<in> set (receipts d')" "receipt_hash q = ?h" "abandoned q"
      "accepted_at q = receipt_since E now r (run E ops)"
  proof (cases "find_receipt ?h (run E ops)")
    case None
    then show thesis using ab
      by (intro that [of "\<lparr>receipt_hash = ?h, abandoned = True, accepted_at = trunc_hour now\<rparr>"])
        (auto simp: repo_AbandonReceipt_def receipt_since_def)
  next
    case (Some q)
    then have "abandoned q" "d' = run E ops" using ab by (simp_all add: repo_AbandonReceipt_def)
    moreover have "q \<in> set (receipts (run E ops)) \<and> receipt_hash q = ?h" using Some by (simp add: find_receipt_iff [OF reachable(6)])
    ultimately show thesis using Some by (intro that [of q]) (simp_all add: receipt_since_def)
  qed
  then have "find_receipt ?h (run E (?ops @ later)) = Some q"
    using later unfolding d' by (intro receipt_kept) simp_all
  then have "claimReceipt now' ?h (run E (?ops @ later)) = Inl (Repo ErrReceiptAbandoned)" using q(3) by (simp add: claimReceipt_def)
  then have "isl (Accept E now' u shared ?h (run E (?ops @ later)))" by (simp add: Accept_def split: option.split)
  then show ?thesis
    using len by (auto simp: d' run_append [symmetric] deletion_Request_def split: sum.split)
qed

text \<open>C17. The two answers to a receipt exclude each other for the 180 days from the hour it is recorded
  in: once a deletion was accepted with it, the device is told so when it tries to abandon it, and once
  it was abandoned no deletion is accepted with it, however the two requests race, whatever else
  happens, and however often the worker prunes receipts in that time.\<close>

theorem receipt_decides_once:
  assumes "prunes_from (receipt_since E now r (run E ops)) later"
  shows "(\<forall>u shared d'. deletion_Request E now u shared r (run E ops) = Inr ((), d') \<longrightarrow>
      fst (handle_AbandonDeletion E now' r (fold (step E) later d')) =
        Inl (Api E_DELETION_ACCEPTED ''this deletion was already accepted''))
    \<and> (\<forall>d' u shared. handle_AbandonDeletion E now r (run E ops) = (Inr (), d') \<longrightarrow>
      isl (deletion_Request E now' u shared r (fold (step E) later d')))"
  using accepted_not_abandoned [OF _ assms] abandoned_not_accepted [OF _ assms] by blast

theorem receipt_decides_once_witness:
  "isl (deletion_Request demo (hours 25) 1 [7] (replicate 32 0)
     (fold (step demo) [(hours 24, Ac (DPrune (hours 24 - DeletionReceiptRetention))), (hours 24, Ac DClaim)]
       (snd (handle_AbandonDeletion demo 0 (replicate 32 0) shared_album))))"
proof -
  let ?x = "handle_AbandonDeletion demo 0 (replicate 32 0) shared_album"
  let ?later = "[(hours 24, Ac (DPrune (hours 24 - DeletionReceiptRetention))), (hours 24, Ac DClaim)]"
  have "fst ?x = Inr ()" by code_simp
  then have x: "?x = (Inr (), snd ?x)" by (simp add: prod_eq_iff)
  have "receipt_since demo 0 (replicate 32 0) shared_album = 0"
    by (simp add: receipt_since_def find_receipt_def shared_album_code empty_db_def trunc_hour_def)
  then have "prunes_from (receipt_since demo 0 (replicate 32 0) (run demo history)) ?later"
    by (simp add: prunes_from_def DeletionReceiptRetention_def hours_def flip: shared_album_def)
  from receipt_decides_once [OF this] x show ?thesis unfolding shared_album_def by blast
qed

end
