(* ===== verification/Rate_Limit.thy ===== *)
theory Rate_Limit
  imports Realtime
begin

text \<open>
  \<^verbatim>\<open>middleware/ratelimit.go\<close>: a sliding window over a Redis sorted set whose members
  are the times of the events in nanoseconds. Scores are doubles: \<open>f64\<close> is the rounding of an
  integer to 53 significant bits, to nearest and ties to even.
\<close>

fun bit_length :: "nat \<Rightarrow> nat" where
  "bit_length n = (if n = 0 then 0 else Suc (bit_length (n div 2)))"

declare bit_length.simps [simp del]

definition f64 :: "nat \<Rightarrow> nat" where
  "f64 n =
     (if bit_length n \<le> 53 then n
      else let u = 2 ^ (bit_length n - 53); q = n div u; r = n mod u
           in if 2 * r < u \<or> (2 * r = u \<and> even q) then q * u else (q + 1) * u)"

text \<open>A sorted set: members with scores, and the time its key expires at.\<close>

record zset =
  z_members :: "(nat \<times> nat) list"
  z_expires :: nat

type_synonym zstore = "bytes \<rightharpoonup> zset"

definition z_entries :: "nat \<Rightarrow> zstore \<Rightarrow> bytes \<Rightarrow> (nat \<times> nat) list" where
  "z_entries now s k = (case s k of None \<Rightarrow> [] | Some z \<Rightarrow> if now < z_expires z then z_members z else [])"

text \<open>\<^verbatim>\<open>ZADD\<close> of a member that is present only changes its score.\<close>

definition zadd :: "nat \<Rightarrow> nat \<Rightarrow> (nat \<times> nat) list \<Rightarrow> (nat \<times> nat) list" where
  "zadd m sc es = (if \<exists>e\<in>set es. fst e = m
     then map (\<lambda>e. if fst e = m then (m, sc) else e) es else es @ [(m, sc)])"

definition zremrange :: "nat \<Rightarrow> (nat \<times> nat) list \<Rightarrow> (nat \<times> nat) list" where
  "zremrange cutoff es = filter (\<lambda>e. cutoff < snd e) es"

definition zrem :: "nat \<Rightarrow> (nat \<times> nat) list \<Rightarrow> (nat \<times> nat) list" where
  "zrem m es = filter (\<lambda>e. fst e \<noteq> m) es"

record limit_config =
  lc_key :: bytes
  lc_max :: int
  lc_window :: int

text \<open>The pipeline is one Redis transaction: it drops what has left the window, counts, and adds the
  event. A negative cutoff removes nothing, as the range starts at zero. The removal of a rejected
  event is a command of its own, so other requests may come between the two.\<close>

definition allow_pipeline :: "nat \<Rightarrow> limit_config \<Rightarrow> zstore \<Rightarrow> nat \<times> zstore" where
  "allow_pipeline now cfg s =
     (let es = z_entries now s (lc_key cfg);
          kept = (if int now - lc_window cfg < 0 then es
                  else zremrange (f64 (nat (int now - lc_window cfg))) es)
      in (length kept, s(lc_key cfg \<mapsto> \<lparr>z_members = zadd now (f64 now) kept,
            z_expires = now + nat (lc_window cfg) + 1000000000\<rparr>)))"

definition allow_withdraw :: "nat \<Rightarrow> limit_config \<Rightarrow> zstore \<Rightarrow> zstore" where
  "allow_withdraw now cfg s =
     (case s (lc_key cfg) of None \<Rightarrow> s
      | Some z \<Rightarrow> s(lc_key cfg \<mapsto> z\<lparr>z_members := zrem now (z_members z)\<rparr>))"

text \<open>The two in a row.\<close>

definition Allow :: "nat \<Rightarrow> limit_config \<Rightarrow> zstore \<Rightarrow> (err + (bool \<times> nat)) \<times> zstore" where
  "Allow now cfg s =
     (if lc_max cfg \<le> 0 \<or> lc_window cfg \<le> 0
        then (Inl (ErrText ''ratelimit: Max and Window must be > 0''), s)
      else let (current, s') = allow_pipeline now cfg s
           in if int current \<ge> lc_max cfg then (Inr (False, current), allow_withdraw now cfg s')
              else (Inr (True, current), s'))"

text \<open>How Go prints a duration of whole seconds.\<close>

definition number_text :: "nat \<Rightarrow> string" where
  "number_text n = map (\<lambda>b. char_of (unat b)) (decimal n)"

definition duration_text :: "int \<Rightarrow> string" where
  "duration_text w =
     (let s = nat (w div 1000000000); h = s div 3600; m = s div 60 mod 60
      in (if h > 0 then number_text h @ ''h'' else []) @
         (if s \<ge> 60 then number_text m @ ''m'' else []) @ number_text (s mod 60) @ ''s'')"

text \<open>The middleware: an empty key is not limited.\<close>

definition limit_middleware :: "nat \<Rightarrow> bytes \<Rightarrow> int \<Rightarrow> int \<Rightarrow> zstore \<Rightarrow> (err + unit) \<times> zstore" where
  "limit_middleware now key mx window s =
     (if key = [] then (Inr (), s)
      else case Allow now \<lparr>lc_key = key, lc_max = mx, lc_window = window\<rparr> s of
        (Inl _, s') \<Rightarrow> (Inr (), s')
      | (Inr (ok, n), s') \<Rightarrow>
        (if ok then Inr ()
         else Inl (Api E_RATE_LIMITED (''rate limit exceeded ('' @ number_text n @ '' in '' @
           duration_text window @ '')'')), s'))"

text \<open>\<^verbatim>\<open>ProbeDistinctMiddleware\<close>: the set of distinct members, whose only effect is a
  warning for a new member beyond the threshold.\<close>

definition probe_distinct ::
  "bytes \<Rightarrow> bytes \<Rightarrow> nat \<Rightarrow> (bytes \<Rightarrow> bytes list) \<Rightarrow> bool \<times> (bytes \<Rightarrow> bytes list)" where
  "probe_distinct key member threshold s =
     (if key = [] \<or> member = [] then (False, s)
      else let old = s key; new = (if member \<in> set old then old else old @ [member])
           in (member \<notin> set old \<and> length new > threshold, s(key := new)))"

end
