(* ===== verification/Windows.thy ===== *)
theory Windows
  imports Rate_Limit
begin

text \<open>
  The sliding window of \<open>Allow\<close> against its specification: a log of the admitted times, where an
  event is admitted while fewer than the maximum of them count as recent (\<open>window_log\<close>). Which
  events count is only specified up to 512 nanoseconds at the old end of the window
  (\<open>near_window\<close>): the scores are doubles, and the code's \<open>recent\<close> compares rounded times.
  Rounding is monotone and off by at most 256 for times below \<open>2 ^ 62\<close> nanoseconds (the year
  2116). The other half is the expiry of the key, which must not forget a recent event. The second
  part lets the removals of refused events happen late, in any order, or never.
\<close>

section \<open>Rounding is monotone\<close>

lemma bit_length_less: "n < 2 ^ bit_length n"
proof (induction n rule: bit_length.induct)
  case (1 n)
  then show ?case by (cases "n = 0") (simp_all add: bit_length.simps [of n])
qed

lemma bit_length_Suc: "n \<noteq> 0 \<Longrightarrow> bit_length n = Suc (bit_length (n div 2))"
  by (simp add: bit_length.simps [of n])

lemma bit_length_le: "0 < n \<Longrightarrow> 2 ^ (bit_length n - 1) \<le> n"
proof (induction n rule: bit_length.induct)
  case (1 n)
  show ?case
  proof (cases "n div 2 = 0")
    case True
    then have "n = 1" using 1 by simp
    then show ?thesis by (simp add: bit_length.simps [of "Suc 0"] bit_length.simps [of 0])
  next
    case False
    then have "2 ^ (bit_length (n div 2) - 1) \<le> n div 2" using 1 by simp
    moreover have "2 ^ bit_length (n div 2) = 2 * (2::nat) ^ (bit_length (n div 2) - 1)"
      using bit_length_Suc [OF False] by simp
    ultimately have "2 ^ bit_length (n div 2) \<le> n" by linarith
    then show ?thesis using bit_length_Suc [of n] 1 by simp
  qed
qed

lemmas bit_length_bounds = bit_length_less bit_length_le

lemma bit_length_mono: "n \<le> m \<Longrightarrow> bit_length n \<le> bit_length m"
proof (rule ccontr)
  assume le: "n \<le> m" and "\<not> bit_length n \<le> bit_length m"
  then have lt: "bit_length m \<le> bit_length n - 1" and "0 < n"
    by (cases "n = 0"; simp add: bit_length.simps [of 0])+
  have "m < 2 ^ bit_length m" by (rule bit_length_bounds)
  also have "\<dots> \<le> 2 ^ (bit_length n - 1)" using lt by (simp add: power_increasing)
  also have "\<dots> \<le> n" using \<open>0 < n\<close> by (rule bit_length_bounds)
  finally show False using le by simp
qed

definition round_to :: "nat \<Rightarrow> nat \<Rightarrow> nat" where
  "round_to u n = (if 2 * (n mod u) < u \<or> (2 * (n mod u) = u \<and> even (n div u))
     then n div u * u else (n div u + 1) * u)"

lemma f64_round: "f64 n = (if bit_length n \<le> 53 then n else round_to (2 ^ (bit_length n - 53)) n)"
  by (simp add: f64_def round_to_def Let_def)

lemma round_to_bounds: "n div u * u \<le> round_to u n" "round_to u n \<le> (n div u + 1) * u"
  by (simp_all add: round_to_def)

lemma round_to_mono: "n \<le> m \<Longrightarrow> round_to u n \<le> round_to u m"
proof -
  assume le: "n \<le> m"
  then have "n div u \<le> m div u" by (rule div_le_mono)
  then consider "n div u = m div u" | "n div u + 1 \<le> m div u" by linarith
  then show ?thesis
  proof cases
    case 1
    then have "n mod u \<le> m mod u" using le by (metis div_mult_mod_eq nat_add_left_cancel_le)
    then show ?thesis using 1 by (auto simp: round_to_def)
  next
    case 2
    then have "(n div u + 1) * u \<le> m div u * u" by (rule mult_le_mono1)
    then show ?thesis using round_to_bounds [of u n] round_to_bounds [of m u] by linarith
  qed
qed

lemma f64_binade: "f64 n \<le> 2 ^ bit_length n" "0 < n \<Longrightarrow> 2 ^ (bit_length n - 1) \<le> f64 n"
proof -
  let ?L = "bit_length n" let ?u = "(2::nat) ^ (?L - 53)"
  have split: "(2::nat) ^ ?L = 2 ^ 53 * ?u" "(2::nat) ^ (?L - 1) = 2 ^ 52 * ?u" if "53 < ?L"
    using that by (simp_all only: power_add [symmetric]) simp_all
  show "f64 n \<le> 2 ^ ?L"
  proof (cases "?L \<le> 53")
    case False
    then have "n < 2 ^ 53 * ?u" using bit_length_bounds(1) [of n] split by simp
    then have "n div ?u + 1 \<le> 2 ^ 53" by (simp add: less_mult_imp_div_less Suc_le_eq)
    then have "(n div ?u + 1) * ?u \<le> 2 ^ 53 * ?u" by (rule mult_le_mono1)
    with round_to_bounds(2) [of ?u n] have "round_to ?u n \<le> 2 ^ 53 * ?u" by (rule order_trans)
    then show ?thesis using False split(1) by (simp add: f64_round)
  qed (use bit_length_bounds(1) [of n] in \<open>simp add: f64_round\<close>)
  show "2 ^ (?L - 1) \<le> f64 n" if "0 < n"
  proof (cases "?L \<le> 53")
    case False
    then have "2 ^ 52 * ?u \<le> n" using bit_length_bounds(2) [OF that] split by simp
    then have "2 ^ 52 * ?u div ?u \<le> n div ?u" by (rule div_le_mono)
    then have "2 ^ 52 \<le> n div ?u" by simp
    then have "2 ^ 52 * ?u \<le> n div ?u * ?u" by (rule mult_le_mono1)
    then have "2 ^ 52 * ?u \<le> round_to ?u n" using round_to_bounds(1) by (rule order_trans)
    then show ?thesis using False split(2) by (simp add: f64_round)
  qed (use bit_length_bounds(2) [OF that] in \<open>simp add: f64_round\<close>)
qed

lemma f64_mono: "n \<le> m \<Longrightarrow> f64 n \<le> f64 m"
proof -
  assume le: "n \<le> m"
  from bit_length_mono [OF le] consider "bit_length n = bit_length m" | "bit_length n \<le> bit_length m - 1"
    by linarith
  then show ?thesis
  proof cases
    case 1
    then show ?thesis using le by (simp add: f64_round round_to_mono)
  next
    case 2
    show ?thesis
    proof (cases "m = 0")
      case False
      have "f64 n \<le> 2 ^ bit_length n" by (rule f64_binade)
      also have "\<dots> \<le> 2 ^ (bit_length m - 1)" using 2 by (simp add: power_increasing)
      also have "\<dots> \<le> f64 m" using False by (intro f64_binade) simp
      finally show ?thesis .
    qed (use le in simp)
  qed
qed

text \<open>Below \<open>2 ^ 62\<close> the distance between neighbouring doubles is at most 512.\<close>

lemma round_to_near: "0 < u \<Longrightarrow> u \<le> 2 * h \<Longrightarrow> n \<le> round_to u n + h \<and> round_to u n \<le> n + h"
proof -
  assume u: "0 < u" "u \<le> 2 * h"
  obtain b where b: "b = n div u * u" by simp
  have n: "n = b + n mod u" by (simp add: b)
  have "n mod u \<le> u" using u by (simp add: less_imp_le)
  moreover have "round_to u n = b \<and> 2 * (n mod u) \<le> u \<or> round_to u n = b + u \<and> u \<le> 2 * (n mod u)"
    by (auto simp: round_to_def b)
  ultimately show ?thesis using n u by linarith
qed

lemma f64_near:
  assumes "n < 2 ^ 62"
  shows "n \<le> f64 n + 256" "f64 n \<le> n + 256"
proof -
  have "\<not> 63 \<le> bit_length n"
  proof
    assume "63 \<le> bit_length n"
    then have "2 ^ 62 \<le> (2::nat) ^ (bit_length n - 1)" by (intro power_increasing) simp_all
    also have "\<dots> \<le> n" using \<open>63 \<le> bit_length n\<close> by (intro bit_length_bounds) (cases "n = 0"; simp add: bit_length.simps [of 0])
    finally show False using assms by simp
  qed
  then have "(2::nat) ^ (bit_length n - 53) \<le> 2 ^ 9" by (intro power_increasing) simp_all
  then have "(2::nat) ^ (bit_length n - 53) \<le> 2 * 256" by simp
  from round_to_near [OF _ this] show "n \<le> f64 n + 256" "f64 n \<le> n + 256"
    by (simp_all add: f64_round)
qed

section \<open>The log of admitted events\<close>

text \<open>An event at \<open>u\<close> counts at \<open>t\<close> only when it is less than the window old, and it does count when
  it is more than 512 nanoseconds short of that.\<close>

definition near_window :: "nat \<Rightarrow> (nat \<Rightarrow> nat \<Rightarrow> bool) \<Rightarrow> bool" where
  "near_window w counts \<longleftrightarrow> (\<forall>t u. t < 2 ^ 62 \<and> u < 2 ^ 62 \<longrightarrow>
     (counts t u \<longrightarrow> t < u + w) \<and> (t + 512 < u + w \<longrightarrow> counts t u))"

definition recent :: "nat \<Rightarrow> nat \<Rightarrow> nat \<Rightarrow> bool" where
  "recent w t u \<longleftrightarrow> t < w \<or> f64 (t - w) < f64 u"

fun window_log :: "(nat \<Rightarrow> nat \<Rightarrow> bool) \<Rightarrow> int \<Rightarrow> nat list \<Rightarrow> nat list \<Rightarrow> (bool \<times> nat) list" where
  "window_log counts mx adm [] = []"
| "window_log counts mx adm (t # ts) =
     (let n = length (filter (counts t) adm); ok = int n < mx
      in (ok, n) # window_log counts mx (if ok then adm @ [t] else adm) ts)"

fun Allow_run :: "limit_config \<Rightarrow> zstore \<Rightarrow> nat list \<Rightarrow> (err + bool \<times> nat) list" where
  "Allow_run cfg s [] = []"
| "Allow_run cfg s (t # ts) = (let (r, s') = Allow t cfg s in r # Allow_run cfg s' ts)"

lemma recent_earlier: "t \<le> t' \<Longrightarrow> recent w t' u \<Longrightarrow> recent w t u"
proof -
  assume "t \<le> t'" "recent w t' u"
  moreover from this have "f64 (t - w) \<le> f64 (t' - w)" by (intro f64_mono diff_le_mono)
  ultimately show ?thesis by (auto simp: recent_def)
qed

lemma not_recent: "u + w \<le> t \<Longrightarrow> \<not> recent w t u"
proof -
  assume "u + w \<le> t"
  moreover from this have "f64 u \<le> f64 (t - w)" by (intro f64_mono) simp
  ultimately show ?thesis by (simp add: recent_def)
qed

lemma near_window_recent: "near_window w (recent w)"
  unfolding near_window_def
proof (intro allI impI conjI)
  fix t u :: nat assume lt: "t < 2 ^ 62 \<and> u < 2 ^ 62"
  show "recent w t u \<Longrightarrow> t < u + w" using not_recent [of u w t] by (meson not_less)
  assume near: "t + 512 < u + w"
  have "t - w < 2 ^ 62" using lt by linarith
  then have "f64 (t - w) \<le> t - w + 256" "u \<le> f64 u + 256" using lt by (simp_all only: f64_near)
  then show "recent w t u" using near by (auto simp: recent_def)
qed

text \<open>What the key holds after an event at \<open>l\<close>: at every later time its entries and the log have
  the same recent members.\<close>

definition window_sim :: "nat \<Rightarrow> nat \<Rightarrow> zset option \<Rightarrow> nat list \<Rightarrow> bool" where
  "window_sim w l z adm \<longleftrightarrow> (case z of None \<Rightarrow> adm = []
     | Some z \<Rightarrow> z_expires z = l + w + 1000000000 \<and> (\<forall>u\<in>set adm. u \<le> l) \<and>
         (\<exists>us. z_members z = map (\<lambda>u. (u, f64 u)) us \<and> set us \<subseteq> set adm \<and>
            (\<forall>t>l. filter (recent w t) us = filter (recent w t) adm)))"

lemma zremrange_scored:
  "zremrange c (map (\<lambda>u. (u, f64 u)) us) = map (\<lambda>u. (u, f64 u)) (filter (\<lambda>u. c < f64 u) us)"
  by (simp add: zremrange_def filter_map comp_def)

lemma window_kept:
  assumes sim: "window_sim w l (s k) adm" and later: "s k \<noteq> None \<Longrightarrow> l < t"
  shows "(let es = z_entries t s k
          in if int t - int w < 0 then es else zremrange (f64 (nat (int t - int w))) es)
    = map (\<lambda>u. (u, f64 u)) (filter (recent w t) adm)"
proof (cases "s k")
  case None
  then show ?thesis using sim by (simp add: window_sim_def z_entries_def zremrange_def)
next
  case (Some z)
  then obtain us where z: "z_expires z = l + w + 1000000000" "\<forall>u\<in>set adm. u \<le> l"
    "z_members z = map (\<lambda>u. (u, f64 u)) us" "\<forall>t>l. filter (recent w t) us = filter (recent w t) adm"
    using sim by (auto simp: window_sim_def)
  have lt: "l < t" using later Some by simp
  have cut: "nat (int t - int w) = t - w" by linarith
  show ?thesis
  proof (cases "t < z_expires z")
    case True
    then have "z_entries t s k = map (\<lambda>u. (u, f64 u)) us" using Some z(3) by (simp add: z_entries_def)
    moreover have "filter (recent w t) us = filter (recent w t) adm" using z(4) lt by blast
    ultimately show ?thesis
      by (cases "t < w") (simp_all add: recent_def [abs_def] zremrange_scored Let_def cut)
  next
    case False
    then have "\<not> recent w t u" if "u \<in> set adm" for u
      using that z(1,2) by (intro not_recent) auto
    then have "filter (recent w t) adm = []" by (simp add: filter_empty_conv)
    moreover have "z_entries t s k = []" using Some False by (simp add: z_entries_def)
    ultimately show ?thesis by (simp add: zremrange_def Let_def)
  qed
qed

lemma zadd_new: "m \<notin> set us \<Longrightarrow> zadd m sc (map (\<lambda>u. (u, f64 u)) us) = map (\<lambda>u. (u, f64 u)) us @ [(m, sc)]"
  by (auto simp: zadd_def)

lemma zrem_new: "m \<notin> set us \<Longrightarrow> zrem m (map (\<lambda>u. (u, f64 u)) us @ [(m, sc)]) = map (\<lambda>u. (u, f64 u)) us"
proof -
  assume "m \<notin> set us"
  then have "filter (\<lambda>u. u \<noteq> m) us = us" by (auto intro: filter_True)
  then show ?thesis by (simp add: zrem_def filter_map comp_def)
qed

lemma Allow_kept:
  assumes pos: "0 < mx" "0 < w"
    and kept: "(let es = z_entries t s k
      in if int t - int w < 0 then es else zremrange (f64 (nat (int t - int w))) es) = K"
  shows "Allow t \<lparr>lc_key = k, lc_max = mx, lc_window = int w\<rparr> s =
    (Inr (int (length K) < mx, length K), s(k \<mapsto>
       \<lparr>z_members = (if int (length K) < mx then zadd t (f64 t) K else zrem t (zadd t (f64 t) K)),
        z_expires = t + w + 1000000000\<rparr>))"
proof -
  have ok: "\<not> (mx \<le> 0 \<or> int w \<le> 0)" using pos by simp
  have le: "mx \<le> int (length K) \<longleftrightarrow> \<not> int (length K) < mx" by linarith
  show ?thesis
    unfolding Allow_def allow_pipeline_def allow_withdraw_def Let_def limit_config.simps
      kept [unfolded Let_def] if_not_P [OF ok] prod.case le
    by simp
qed

lemma Allow_sim:
  assumes pos: "0 < mx" "0 < w" and sim: "window_sim w l (s k) adm"
    and later: "s k \<noteq> None \<Longrightarrow> l < t" and bound: "\<forall>u\<in>set adm. u < t"
  shows "\<exists>s'. Allow t \<lparr>lc_key = k, lc_max = mx, lc_window = int w\<rparr> s =
      (Inr (int (length (filter (recent w t) adm)) < mx, length (filter (recent w t) adm)), s')
    \<and> window_sim w t (s' k) (if int (length (filter (recent w t) adm)) < mx then adm @ [t] else adm)"
proof -
  let ?us = "filter (recent w t) adm"
  let ?K = "map (\<lambda>u. (u, f64 u)) ?us"
  have new: "t \<notin> set ?us" using bound by auto
  have keep: "filter (recent w t') ?us = filter (recent w t') adm" if "t < t'" for t'
    using recent_earlier [of t t'] that by (auto intro: filter_cong)
  note allow = Allow_kept [where s = s and k = k and t = t, OF pos window_kept [where s = s and k = k and t = t, OF sim later]]
  show ?thesis
  proof (cases "int (length ?us) < mx")
    case True
    let ?z = "\<lparr>z_members = map (\<lambda>u. (u, f64 u)) (?us @ [t]), z_expires = t + w + 1000000000\<rparr>"
    have "\<forall>t'>t. filter (recent w t') (?us @ [t]) = filter (recent w t') (adm @ [t])"
      using keep by simp
    then have "window_sim w t (Some ?z) (adm @ [t])"
      unfolding window_sim_def option.case zset.simps
      using bound by (intro conjI exI [of _ "?us @ [t]"] refl) (auto simp: less_imp_le)
    moreover have "Allow t \<lparr>lc_key = k, lc_max = mx, lc_window = int w\<rparr> s = (Inr (True, length ?us), s(k \<mapsto> ?z))"
      using True by (simp add: allow zadd_new [OF new])
    ultimately show ?thesis using True by simp
  next
    case False
    let ?z = "\<lparr>z_members = ?K, z_expires = t + w + 1000000000\<rparr>"
    have "window_sim w t (Some ?z) adm"
      unfolding window_sim_def option.case zset.simps
      using bound keep by (intro conjI exI [of _ ?us] refl) (auto simp: less_imp_le)
    moreover have "Allow t \<lparr>lc_key = k, lc_max = mx, lc_window = int w\<rparr> s = (Inr (False, length ?us), s(k \<mapsto> ?z))"
      using False by (simp add: allow zadd_new [OF new] zrem_new [OF new])
    ultimately show ?thesis using False by simp
  qed
qed

lemma Allow_run_window:
  assumes "0 < mx" "0 < w" "sorted_wrt (<) ts" "window_sim w l (s k) adm"
    "s k \<noteq> None \<Longrightarrow> \<forall>t\<in>set ts. l < t" "\<forall>u\<in>set adm. \<forall>t\<in>set ts. u < t"
  shows "Allow_run \<lparr>lc_key = k, lc_max = mx, lc_window = int w\<rparr> s ts = map Inr (window_log (recent w) mx adm ts)"
  using assms(3-)
proof (induction ts arbitrary: s l adm)
  case (Cons t ts)
  let ?adm = "if int (length (filter (recent w t) adm)) < mx then adm @ [t] else adm"
  obtain s' where s': "Allow t \<lparr>lc_key = k, lc_max = mx, lc_window = int w\<rparr> s =
      (Inr (int (length (filter (recent w t) adm)) < mx, length (filter (recent w t) adm)), s')"
    "window_sim w t (s' k) ?adm"
    using Allow_sim [where s = s and k = k and t = t, OF assms(1,2) Cons.prems(2)] Cons.prems(3,4) by auto
  have "Allow_run \<lparr>lc_key = k, lc_max = mx, lc_window = int w\<rparr> s' ts = map Inr (window_log (recent w) mx ?adm ts)"
    by (rule Cons.IH [where l = t and s = s' and adm = ?adm, OF _ s'(2)]) (use Cons.prems in auto)
  then show ?case using s'(1) by (simp add: Let_def)
qed simp

section \<open>Late removals\<close>

text \<open>The events of one key as Redis sees them: an arrival is the transaction that counts and adds
  the event, and decides; a withdrawal is the later removal of an event that was refused. The result
  is the time, the decision and the count of every arrival.\<close>

datatype limit_act = Arrive nat | Withdraw nat

fun limit_run :: "limit_config \<Rightarrow> nat list \<Rightarrow> zstore \<Rightarrow> limit_act list \<Rightarrow> (nat \<times> bool \<times> nat) list" where
  "limit_run cfg pend s [] = []"
| "limit_run cfg pend s (Arrive t # acts) =
     (let (n, s') = allow_pipeline t cfg s; ok = int n < lc_max cfg
      in (t, ok, n) # limit_run cfg (if ok then pend else t # pend) s' acts)"
| "limit_run cfg pend s (Withdraw t # acts) =
     (if t \<in> set pend then limit_run cfg (removeAll t pend) (allow_withdraw t cfg s) acts
      else limit_run cfg pend s acts)"

fun arrivals :: "limit_act list \<Rightarrow> nat list" where
  "arrivals [] = []"
| "arrivals (Arrive t # acts) = t # arrivals acts"
| "arrivals (Withdraw t # acts) = arrivals acts"

text \<open>With every removal right after its arrival these are the decisions of \<open>Allow\<close>.\<close>

lemma limit_run_Allow:
  assumes "0 < lc_max cfg" "0 < lc_window cfg"
  shows "map (Inr \<circ> snd) (limit_run cfg [] s (concat (map (\<lambda>t. [Arrive t, Withdraw t]) ts))) = Allow_run cfg s ts"
proof (induction ts arbitrary: s)
  case (Cons t ts)
  obtain n s' where p: "allow_pipeline t cfg s = (n, s')" by (cases "allow_pipeline t cfg s")
  show ?case using assms Cons.IH by (simp add: Allow_def p not_less)
qed simp

text \<open>What the key holds, with removals pending and after the decisions \<open>rs\<close>: every admitted event
  that can still be recent is a member, and every member has arrived.\<close>

definition late_sim :: "nat \<Rightarrow> nat list \<Rightarrow> (nat \<times> bool \<times> nat) list \<Rightarrow> zset option \<Rightarrow> bool" where
  "late_sim w pend rs z \<longleftrightarrow> distinct (map fst rs) \<and> (\<forall>u\<in>set pend. \<exists>n. (u, False, n) \<in> set rs) \<and>
     (case z of None \<Rightarrow> rs = [] | Some z \<Rightarrow> (\<exists>l us. z_expires z = l + w + 1000000000 \<and>
        l \<in> fst ` set rs \<and> (\<forall>e\<in>set rs. fst e \<le> l) \<and> z_members z = map (\<lambda>u. (u, f64 u)) us \<and> distinct us \<and>
        set us \<subseteq> fst ` set rs \<and>
        (\<forall>u n. (u, True, n) \<in> set rs \<longrightarrow> u \<in> set us \<or> (\<forall>t>l. \<not> recent w t u))))"

definition window_fair :: "nat \<Rightarrow> int \<Rightarrow> (nat \<times> bool \<times> nat) list \<Rightarrow> nat \<times> bool \<times> nat \<Rightarrow> bool" where
  "window_fair w mx rs r \<longleftrightarrow> (case r of (t, ok, n) \<Rightarrow>
     if ok then int (length (filter (\<lambda>(u, ok, n). ok \<and> t + 512 < u + w) rs)) < mx
     else mx \<le> int (length (filter (\<lambda>(u, ok, n). t < u + w) rs)))"

lemma late_kept:
  assumes sim: "late_sim w pend rs (s k)" and later: "\<forall>e\<in>set rs. fst e < t"
  obtains us where "(let es = z_entries t s k
      in if int t - int w < 0 then es else zremrange (f64 (nat (int t - int w))) es) = map (\<lambda>u. (u, f64 u)) us"
    "distinct us" "\<forall>u\<in>set us. u \<in> fst ` set rs \<and> recent w t u"
    "\<forall>u n. (u, True, n) \<in> set rs \<longrightarrow> recent w t u \<longrightarrow> u \<in> set us"
proof (cases "s k")
  case None
  then have "rs = []" using sim by (simp add: late_sim_def)
  then show thesis using that [of "[]"] None by (simp add: z_entries_def zremrange_def)
next
  case (Some z)
  then obtain l us where z: "z_expires z = l + w + 1000000000" "\<forall>e\<in>set rs. fst e \<le> l"
    "z_members z = map (\<lambda>u. (u, f64 u)) us" "distinct us" "l \<in> fst ` set rs" "set us \<subseteq> fst ` set rs"
    "\<forall>u n. (u, True, n) \<in> set rs \<longrightarrow> u \<in> set us \<or> (\<forall>t>l. \<not> recent w t u)"
    using sim by (auto simp: late_sim_def)
  have cut: "nat (int t - int w) = t - w" by linarith
  show thesis
  proof (cases "t < z_expires z")
    case True
    have "l < t" using z(5) later by auto
    then have in_us: "u \<in> set us" if "(u, True, n) \<in> set rs" "recent w t u" for u n
      using z(7) that by blast
    show thesis
    proof (rule that [of "filter (recent w t) us"])
      show "(let es = z_entries t s k
        in if int t - int w < 0 then es else zremrange (f64 (nat (int t - int w))) es)
        = map (\<lambda>u. (u, f64 u)) (filter (recent w t) us)"
        using True Some z(3)
        by (cases "t < w") (simp_all add: z_entries_def recent_def [abs_def] zremrange_scored Let_def cut)
    qed (use z(4,6) in_us in auto)
  next
    case False
    then have "\<not> recent w t u" if "(u, True, n) \<in> set rs" for u n
      using that z(1,2) by (intro not_recent) fastforce
    moreover have "z_entries t s k = []" using Some False by (simp add: z_entries_def)
    ultimately show thesis using that [of "[]"] by (simp add: zremrange_def Let_def)
  qed
qed

lemma late_arrival:
  assumes sim: "late_sim w pend rs (s k)" and later: "\<forall>e\<in>set rs. fst e < t"
    and p: "allow_pipeline t \<lparr>lc_key = k, lc_max = mx, lc_window = int w\<rparr> s = (n, s')"
  defines "ok \<equiv> int n < mx"
  shows "late_sim w (if ok then pend else t # pend) (rs @ [(t, ok, n)]) (s' k)"
    and "\<forall>e\<in>set rs. fst e < 2 ^ 62 \<Longrightarrow> t < 2 ^ 62 \<Longrightarrow> window_fair w mx rs (t, ok, n)"
proof -
  obtain us where us: "(let es = z_entries t s k
      in if int t - int w < 0 then es else zremrange (f64 (nat (int t - int w))) es) = map (\<lambda>u. (u, f64 u)) us"
    "distinct us" "\<forall>u\<in>set us. u \<in> fst ` set rs \<and> recent w t u"
    "\<forall>u n. (u, True, n) \<in> set rs \<longrightarrow> recent w t u \<longrightarrow> u \<in> set us"
    using late_kept [where s = s and k = k, OF sim later] by blast
  have new: "t \<notin> set us" "t \<notin> fst ` set rs" using us(3) later by auto
  have "n = length us" and s': "s' k = Some \<lparr>z_members = map (\<lambda>u. (u, f64 u)) (us @ [t]), z_expires = t + w + 1000000000\<rparr>"
    using p us(1) by (auto simp: allow_pipeline_def Let_def zadd_new [OF new(1)])
  have rs: "distinct (map fst rs)" "\<forall>u\<in>set pend. \<exists>n. (u, False, n) \<in> set rs" using sim by (simp_all add: late_sim_def)
  have "u \<in> set (us @ [t]) \<or> (\<forall>t'>t. \<not> recent w t' u)" if "(u, True, m) \<in> set (rs @ [(t, ok, n)])" for u m
  proof (cases "(u, True, m) \<in> set rs \<and> \<not> recent w t u")
    case True
    then show ?thesis using recent_earlier [of t _ w u] by (meson less_imp_le)
  next
    case False
    then show ?thesis using that us(4) by auto
  qed
  then show "late_sim w (if ok then pend else t # pend) (rs @ [(t, ok, n)]) (s' k)"
    unfolding late_sim_def s' option.case zset.simps
    using rs us(2,3) new later
    by (intro conjI exI [of _ t] exI [of _ "us @ [t]"] refl) (auto simp: less_imp_le)
  assume small: "\<forall>e\<in>set rs. fst e < 2 ^ 62" "t < 2 ^ 62"
  have card: "length (filter P rs) = card (fst ` set (filter P rs))" for P
    using distinct_card [OF distinct_map_filter [OF rs(1), of P]] by simp
  have len: "n = card (set us)" using us(2) \<open>n = length us\<close> by (simp add: distinct_card)
  show "window_fair w mx rs (t, ok, n)"
  proof (cases ok)
    case True
    have "u \<in> set us" if "(u, True, m) \<in> set rs" "t + 512 < u + w" for u m
      using us(4) near_window_recent [of w] that small by (force simp: near_window_def)
    then have "fst ` set (filter (\<lambda>(u, ok, n). ok \<and> t + 512 < u + w) rs) \<subseteq> set us" by auto
    then have "length (filter (\<lambda>(u, ok, n). ok \<and> t + 512 < u + w) rs) \<le> n"
      unfolding card len by (rule card_mono [rotated]) simp
    then show ?thesis using True by (simp add: window_fair_def ok_def)
  next
    case False
    have "set us \<subseteq> fst ` set (filter (\<lambda>(u, ok, n). t < u + w) rs)"
      using us(3) not_recent [of _ w t] by (force simp: not_less)
    then have "n \<le> length (filter (\<lambda>(u, ok, n). t < u + w) rs)"
      unfolding card len by (rule card_mono [rotated]) simp
    then show ?thesis using False by (simp add: window_fair_def ok_def)
  qed
qed

lemma late_withdrawal:
  assumes sim: "late_sim w pend rs (s k)" and t: "t \<in> set pend"
  shows "late_sim w (removeAll t pend) rs (allow_withdraw t \<lparr>lc_key = k, lc_max = mx, lc_window = int w\<rparr> s k)"
proof (cases "s k")
  case None
  then show ?thesis using sim t by (auto simp: late_sim_def allow_withdraw_def)
next
  case (Some z)
  then obtain l us where z: "z_expires z = l + w + 1000000000" "\<forall>e\<in>set rs. fst e \<le> l"
    "z_members z = map (\<lambda>u. (u, f64 u)) us" "distinct us" "l \<in> fst ` set rs" "set us \<subseteq> fst ` set rs"
    "\<forall>u n. (u, True, n) \<in> set rs \<longrightarrow> u \<in> set us \<or> (\<forall>t>l. \<not> recent w t u)"
    using sim by (auto simp: late_sim_def)
  have rs: "distinct (map fst rs)" "\<forall>u\<in>set pend. \<exists>n. (u, False, n) \<in> set rs" using sim by (simp_all add: late_sim_def)
  have other: "u \<noteq> t" if u: "(u, True, n) \<in> set rs" for u n
  proof
    assume "u = t"
    then obtain m where "(u, False, m) \<in> set rs" using rs(2) t by blast
    then show False using rs(1) u by (metis Pair_inject eq_key_imp_eq_value)
  qed
  have "zrem t (z_members z) = map (\<lambda>u. (u, f64 u)) (filter (\<lambda>u. u \<noteq> t) us)"
    by (simp add: z(3) zrem_def filter_map comp_def)
  then have "allow_withdraw t \<lparr>lc_key = k, lc_max = mx, lc_window = int w\<rparr> s k
      = Some (z\<lparr>z_members := map (\<lambda>u. (u, f64 u)) (filter (\<lambda>u. u \<noteq> t) us)\<rparr>)"
    by (simp add: allow_withdraw_def Some)
  moreover have "u \<in> set (filter (\<lambda>u. u \<noteq> t) us) \<or> (\<forall>t>l. \<not> recent w t u)" if "(u, True, n) \<in> set rs" for u n
    using z(7) other [OF that] that by auto
  ultimately show ?thesis unfolding late_sim_def
    using rs z(1-6) by (simp, intro exI [of _ l] exI [of _ "filter (\<lambda>u. u \<noteq> t) us"]) auto
qed

lemma limit_run_fair:
  assumes "late_sim w pend rs (s k)" "sorted_wrt (<) (map fst rs @ arrivals acts)"
    "\<forall>t\<in>set (map fst rs @ arrivals acts). t < 2 ^ 62"
    "limit_run \<lparr>lc_key = k, lc_max = mx, lc_window = int w\<rparr> pend s acts = earlier @ r # later"
  shows "window_fair w mx (rs @ earlier) r"
  using assms
proof (induction acts arbitrary: pend rs s earlier)
  case (Cons a acts)
  show ?case
  proof (cases a)
    case (Arrive t)
    obtain n s' where p: "allow_pipeline t \<lparr>lc_key = k, lc_max = mx, lc_window = int w\<rparr> s = (n, s')"
      by (cases "allow_pipeline t \<lparr>lc_key = k, lc_max = mx, lc_window = int w\<rparr> s")
    have later: "\<forall>e\<in>set rs. fst e < t" using Cons.prems(2) by (auto simp: Arrive sorted_wrt_append)
    note step = late_arrival [where s = s and k = k, OF Cons.prems(1) later p]
    show ?thesis
    proof (cases earlier)
      case Nil
      then have "r = (t, int n < mx, n)" using Cons.prems(4) by (simp add: Arrive p Let_def)
      then show ?thesis using step(2) Cons.prems(3) Nil by (auto simp: Arrive)
    next
      case (Cons e earlier')
      then have e: "e = (t, int n < mx, n)"
        "limit_run \<lparr>lc_key = k, lc_max = mx, lc_window = int w\<rparr> (if int n < mx then pend else t # pend) s' acts
          = earlier' @ r # later"
        using Cons.prems(4) by (simp_all add: Arrive p Let_def)
      have "window_fair w mx ((rs @ [e]) @ earlier') r"
        by (rule Cons.IH [OF step(1) [folded e(1)] _ _ e(2)]) (use Cons.prems(2,3) e(1) in \<open>simp_all add: Arrive\<close>)
      then show ?thesis by (simp add: Cons)
    qed
  next
    case (Withdraw t)
    then show ?thesis
      using Cons.IH [where s = s, OF Cons.prems(1)] Cons.IH [where s = "allow_withdraw t \<lparr>lc_key = k, lc_max = mx, lc_window = int w\<rparr> s",
          OF late_withdrawal [where s = s and k = k and mx = mx, OF Cons.prems(1)]] Cons.prems(2-)
      by (auto split: if_splits)
  qed
qed simp

end
