(* ===== verification/Canonical_Json.thy ===== *)
theory Canonical_Json
  imports Utf8 Encoding
begin

text \<open>
  \<^verbatim>\<open>server/internal/crypto/canonical_json.go\<close>: the byte form of a value that both
  sides sign. The Go type switch is the datatype \<open>jvalue\<close>: the six integer types are one
  constructor (their decimal form is the same), a map is the list of its entries in any order,
  \<open>JFloat\<close> and \<open>JOther\<close> are the types the code refuses.
\<close>

datatype jvalue =
  JNull | JBool bool | JInt int | JString bytes | JArray "jvalue list"
| JObject "(bytes \<times> jvalue) list" | JFloat | JOther

definition signed_decimal :: "int \<Rightarrow> bytes" where
  "signed_decimal i = (if i < 0 then 45 # decimal (nat (- i)) else decimal (nat i))"

definition hex4 :: "nat \<Rightarrow> bytes" where
  "hex4 r = [hexdigit (r div 4096 mod 16), hexdigit (r div 256 mod 16), hexdigit (r div 16 mod 16),
     hexdigit (r mod 16)]"

text \<open>One round of the loop of \<^verbatim>\<open>encodeString\<close>.\<close>

definition encode_char :: "nat \<Rightarrow> bytes" where
  "encode_char r =
     (if r = 34 then [92, 34]
      else if r = 92 then [92, 92]
      else if r = 8 then [92, 98]
      else if r = 12 then [92, 102]
      else if r = 10 then [92, 110]
      else if r = 13 then [92, 114]
      else if r = 9 then [92, 116]
      else if r < 0x20 then [92, 117] @ hex4 r
      else encode_rune r)"

definition encodeString :: "bytes \<Rightarrow> err + bytes" where
  "encodeString s =
     (if \<not> ValidString s then Inl (ErrText ''crypto : string is not valid UTF-8'')
      else Inr (34 # concat (map encode_char (runes s)) @ [34]))"

text \<open>The elements with the commas between them.\<close>

fun join_comma :: "bytes list \<Rightarrow> bytes" where
  "join_comma [] = []"
| "join_comma [x] = x"
| "join_comma (x # xs) = x @ 44 # join_comma xs"

fun collect :: "(err + 'a) list \<Rightarrow> err + 'a list" where
  "collect [] = Inr []"
| "collect (x # xs) = (case x of Inl e \<Rightarrow> Inl e
     | Inr a \<Rightarrow> (case collect xs of Inl e \<Rightarrow> Inl e | Inr as \<Rightarrow> Inr (a # as)))"

definition encode_entry :: "(bytes \<times> (err + bytes)) \<Rightarrow> err + bytes" where
  "encode_entry x = (case encodeString (fst x) of Inl e \<Rightarrow> Inl e
     | Inr k \<Rightarrow> (case snd x of Inl e \<Rightarrow> Inl e | Inr v \<Rightarrow> Inr (k @ 58 # v)))"

fun encodeCanonical :: "jvalue \<Rightarrow> err + bytes" where
  "encodeCanonical JNull = Inr (ascii ''null'')"
| "encodeCanonical (JBool b) = Inr (if b then ascii ''true'' else ascii ''false'')"
| "encodeCanonical (JInt i) = Inr (signed_decimal i)"
| "encodeCanonical (JString s) = encodeString s"
| "encodeCanonical (JArray vs) =
     (case collect (map encodeCanonical vs) of Inl e \<Rightarrow> Inl e
      | Inr xs \<Rightarrow> Inr (91 # join_comma xs @ [93]))"
| "encodeCanonical (JObject es) =
     (case collect (map encode_entry (sort_key fst (map (\<lambda>x. (fst x, encodeCanonical (snd x))) es))) of
        Inl e \<Rightarrow> Inl e
      | Inr xs \<Rightarrow> Inr (123 # join_comma xs @ [125]))"
| "encodeCanonical JFloat = Inl (ErrText ''crypto : floats are rejected by canonical JSON'')"
| "encodeCanonical JOther = Inl (ErrText ''crypto : canonical JSON does not support type'')"

definition CanonicalSerialize :: "jvalue \<Rightarrow> err + bytes" where
  "CanonicalSerialize v = encodeCanonical v"

end
