(* ===== verification/Canonical_Unique.thy ===== *)
theory Canonical_Unique
  imports Canonical_Json "HOL-Library.Sublist"
begin

text \<open>
  Unique readability of the canonical JSON: the bytes determine the value up to the order of the
  entries of its objects. \<open>json_norm\<close> sorts the entries at every level, \<open>json_text\<close> is the text
  of a value without errors and without sorting, and every text is prefix free as long as what
  follows does not start with a digit.
\<close>

section \<open>The text of a value\<close>

fun json_norm :: "jvalue \<Rightarrow> jvalue" where
  "json_norm (JArray vs) = JArray (map json_norm vs)"
| "json_norm (JObject es) = JObject (sort_key fst (map (\<lambda>x. (fst x, json_norm (snd x))) es))"
| "json_norm v = v"

fun json_ok :: "jvalue \<Rightarrow> bool" where
  "json_ok (JString s) = ValidString s"
| "json_ok (JArray vs) = list_all json_ok vs"
| "json_ok (JObject es) = list_all (\<lambda>x. ValidString (fst x) \<and> json_ok (snd x)) es"
| "json_ok JFloat = False"
| "json_ok JOther = False"
| "json_ok v = True"

definition string_text :: "bytes \<Rightarrow> bytes" where
  "string_text s = 34 # concat (map encode_char (runes s)) @ [34]"

fun json_text :: "jvalue \<Rightarrow> bytes" where
  "json_text JNull = ascii ''null''"
| "json_text (JBool b) = (if b then ascii ''true'' else ascii ''false'')"
| "json_text (JInt i) = signed_decimal i"
| "json_text (JString s) = string_text s"
| "json_text (JArray vs) = 91 # join_comma (map json_text vs) @ [93]"
| "json_text (JObject es) =
     123 # join_comma (map (\<lambda>x. string_text (fst x) @ 58 # json_text (snd x)) es) @ [125]"
| "json_text v = []"

lemma insort_key_image: "insort_key f (g x) (map g xs) = map g (insort_key (\<lambda>x. f (g x)) x xs)"
  by (induction xs) auto

lemma sort_key_image: "sort_key f (map g xs) = map g (sort_key (\<lambda>x. f (g x)) xs)"
  by (induction xs) (simp_all add: insort_key_image)

lemma collect_Inr:
  "collect (map f xs) = Inr ys \<longleftrightarrow> (\<forall>x\<in>set xs. \<exists>y. f x = Inr y) \<and> ys = map (\<lambda>x. projr (f x)) xs"
  by (induction xs arbitrary: ys) (auto split: sum.splits, metis)

lemma encodeString_Inr: "encodeString s = Inr b \<longleftrightarrow> ValidString s \<and> b = string_text s"
  by (auto simp: encodeString_def string_text_def)

lemma encode_entry_Inr:
  "encode_entry (k, r) = Inr b \<longleftrightarrow> ValidString k \<and> (\<exists>v. r = Inr v \<and> b = string_text k @ 58 # v)"
  by (auto simp: encode_entry_def encodeString_Inr split: sum.splits)
     (auto simp: encodeString_def split: if_splits)


lemma encode_text: "encodeCanonical v = Inr a \<longleftrightarrow> json_ok v \<and> a = json_text (json_norm v)"
proof (induction v arbitrary: a)
  case (JString s)
  show ?case by (simp add: encodeString_Inr)
next
  case (JArray vs)
  have texts: "\<forall>v\<in>set vs. json_ok v \<Longrightarrow>
      map (\<lambda>v. projr (encodeCanonical v)) vs = map (\<lambda>v. json_text (json_norm v)) vs"
    using JArray by (intro map_cong refl) (metis sum.sel(2))
  have oks: "(\<forall>v\<in>set vs. \<exists>y. encodeCanonical v = Inr y) \<longleftrightarrow> (\<forall>v\<in>set vs. json_ok v)"
    using JArray by (metis (no_types, lifting))
  have "encodeCanonical (JArray vs) = Inr a \<longleftrightarrow>
      (\<exists>xs. collect (map encodeCanonical vs) = Inr xs \<and> a = 91 # join_comma xs @ [93])"
    by (auto split: sum.splits)
  then show ?case
    by (auto simp: collect_Inr oks texts list_all_iff comp_def)
next
  case (JObject es)
  let ?es = "sort_key fst es"
  let ?f = "\<lambda>x. encode_entry (fst x, encodeCanonical (snd x))"
  let ?t = "\<lambda>x. string_text (fst x) @ 58 # json_text (json_norm (snd x))"
  have IH: "encodeCanonical (snd x) = Inr b \<longleftrightarrow> json_ok (snd x) \<and> b = json_text (json_norm (snd x))"
    if "x \<in> set es" for x b using JObject that by (metis prod.collapse snds.intros)
  have f: "?f x = Inr b \<longleftrightarrow> (ValidString (fst x) \<and> json_ok (snd x)) \<and> b = ?t x"
    if "x \<in> set es" for x b using IH [OF that] by (auto simp: encode_entry_Inr)
  have oks: "(\<forall>x\<in>set es. \<exists>y. ?f x = Inr y) \<longleftrightarrow> (\<forall>x\<in>set es. ValidString (fst x) \<and> json_ok (snd x))"
    using f by (metis (no_types, lifting))
  have texts: "map (\<lambda>x. projr (?f x)) ?es = map ?t ?es"
    if "\<forall>x\<in>set es. ValidString (fst x) \<and> json_ok (snd x)"
    using f that by (intro map_cong refl) (metis (no_types, lifting) set_sort sum.sel(2))
  have "encodeCanonical (JObject es) = Inr a \<longleftrightarrow>
      (\<exists>xs. collect (map ?f ?es) = Inr xs \<and> a = 123 # join_comma xs @ [125])"
    by (auto simp: sort_key_image comp_def split: sum.splits)
  then show ?case
    by (auto simp: collect_Inr oks texts list_all_iff comp_def sort_key_image)
qed auto


lemma json_ok_norm: "json_ok (json_norm v) \<longleftrightarrow> json_ok v"
proof (induction v)
  case (JObject es)
  then have "json_ok (json_norm (snd x)) \<longleftrightarrow> json_ok (snd x)" if "x \<in> set es" for x
    using that by (metis prod.collapse snds.intros)
  then show ?case by (auto simp: list_all_iff)
qed (auto simp: list_all_iff)

section \<open>Prefix-free parts\<close>

text \<open>\<open>reads f follow A B\<close>: the texts of a member of \<open>A\<close> and of a member of \<open>B\<close>, before
  continuations admitted by \<open>follow\<close>, agree only if the members and the continuations do.\<close>

definition reads :: "('a \<Rightarrow> bytes) \<Rightarrow> (bytes \<Rightarrow> bool) \<Rightarrow> 'a set \<Rightarrow> 'a set \<Rightarrow> bool" where
  "reads f follow A B \<longleftrightarrow> (\<forall>x\<in>A. \<forall>y\<in>B. \<forall>s t. follow s \<longrightarrow> follow t \<longrightarrow> f x @ s = f y @ t \<longrightarrow> x = y \<and> s = t)"

lemma readsD: "reads f follow A B \<Longrightarrow> f x @ s = f y @ t \<Longrightarrow> x \<in> A \<Longrightarrow> y \<in> B \<Longrightarrow> follow s \<Longrightarrow> follow t
    \<Longrightarrow> x = y \<and> s = t"
  unfolding reads_def by blast

lemma reads_mono: "(\<And>x. x \<in> A \<Longrightarrow> reads f follow {x} C) \<Longrightarrow> B \<subseteq> C \<Longrightarrow> reads f follow A B"
  unfolding reads_def by (metis singletonI subsetD)

definition delim :: "bytes \<Rightarrow> bool" where
  "delim s \<longleftrightarrow> (case s of [] \<Rightarrow> True | b # _ \<Rightarrow> \<not> is_digit b)"

lemma unat_word_byte: "n < 256 \<Longrightarrow> unat (word_of_nat n :: byte) = n"
  by (subst unat_of_nat) simp

lemma encode_nat_bytes: "x \<in> set (encode_nat r) \<Longrightarrow> x < 256"
proof -
  define k where "k = (if scalar r then r else RuneError)"
  have k: "k < 0x110000" by (auto simp: k_def scalar_def RuneError_def)
  have "k div 262144 \<le> 4" "k div 4096 mod 64 \<le> 63" "k div 64 mod 64 \<le> 63" "k mod 64 \<le> 63"
    "k < 0x10000 \<Longrightarrow> k div 4096 \<le> 15" "k < 0x800 \<Longrightarrow> k div 64 \<le> 31"
    using k by auto
  moreover assume "x \<in> set (encode_nat r)"
  then have "x \<in> set (if k < 0x80 then [k] else if k < 0x800 then [0xC0 + k div 64, 0x80 + k mod 64]
      else if k < 0x10000 then [0xE0 + k div 4096, 0x80 + k div 64 mod 64, 0x80 + k mod 64]
      else [0xF0 + k div 262144, 0x80 + k div 4096 mod 64, 0x80 + k div 64 mod 64, 0x80 + k mod 64])"
    by (simp only: encode_nat_def Let_def k_def)
  ultimately show ?thesis by (simp split: if_splits) linarith+
qed

lemma encode_rune_unat: "map unat (encode_rune r) = encode_nat r"
  unfolding encode_rune_def map_map comp_def
  by (rule map_idI) (rule unat_word_byte, rule encode_nat_bytes)

lemma reads_encode_rune: "reads encode_rune (\<lambda>_. True) {r. scalar r} {r. scalar r}"
proof -
  have "r = r' \<and> s = t" if c: "scalar r" "scalar r'" and eq: "encode_rune r @ s = encode_rune r' @ t"
    for r r' s t
  proof -
    have "encode_nat r @ map unat s = encode_nat r' @ map unat t"
      using arg_cong [OF eq, of "map unat"] by (simp add: encode_rune_unat)
    from arg_cong [OF this, of decode_nat] have "r = r'" using c by (simp add: decode_encode)
    with eq show ?thesis by simp
  qed
  then show ?thesis unfolding reads_def by blast
qed

text \<open>The runes with an escape, and the byte after the backslash.\<close>

definition escaped :: "nat \<Rightarrow> bool" where "escaped r \<longleftrightarrow> r < 32 \<or> r = 34 \<or> r = 92"

definition second_byte :: "nat \<Rightarrow> byte" where
  "second_byte r = (if r = 34 then 34 else if r = 92 then 92 else if r = 8 then 98 else if r = 12 then 102
     else if r = 10 then 110 else if r = 13 then 114 else if r = 9 then 116 else 117)"

lemma encode_char_escaped:
  "escaped r \<Longrightarrow> encode_char r = 92 # second_byte r # (if second_byte r = 117 then hex4 r else [])"
  by (auto simp: escaped_def encode_char_def second_byte_def)

lemma second_byte_inject: "second_byte r = second_byte r' \<Longrightarrow> second_byte r \<noteq> 117 \<Longrightarrow> r = r'"
  by (simp add: second_byte_def split: if_splits)

lemma hex4_inject: "r < 32 \<Longrightarrow> r' < 32 \<Longrightarrow> hex4 r = hex4 r' \<Longrightarrow> r = r'"
proof -
  assume r: "r < 32" "r' < 32" and "hex4 r = hex4 r'"
  then have "r div 16 mod 16 = r' div 16 mod 16" "r mod 16 = r' mod 16"
    by (simp_all add: hex4_def hexdigit_inj)
  with r have "r div 16 = r' div 16" "r mod 16 = r' mod 16"
    by (simp_all add: less_mult_imp_div_less)
  then show ?thesis by (metis div_mult_mod_eq)
qed

lemma reads_escaped: "reads encode_char (\<lambda>_. True) {r. escaped r} {r. escaped r}"
proof -
  have "r = r'" if e: "escaped r" "escaped r'" and eq: "encode_char r @ s = encode_char r' @ t" for r r' s t
  proof -
    have two: "second_byte r = second_byte r'" using eq e by (simp add: encode_char_escaped)
    show ?thesis
    proof (cases "second_byte r = 117")
      case True
      then have "hex4 r = hex4 r'" using eq e two by (simp add: encode_char_escaped hex4_def)
      moreover have "r < 32" "r' < 32"
        using True two e by (auto simp: second_byte_def escaped_def split: if_splits)
      ultimately show ?thesis by (simp add: hex4_inject)
    qed (use two second_byte_inject in blast)
  qed
  then show ?thesis unfolding reads_def by (metis mem_Collect_eq same_append_eq)
qed

lemma encode_char_plain:
  assumes "\<not> escaped r" "scalar r"
  shows "encode_char r = encode_rune r" "hd (encode_rune r) \<noteq> 92" "hd (encode_rune r) \<noteq> 34"
proof -
  have r: "32 \<le> r" "r \<noteq> 34" "r \<noteq> 92" using assms(1) by (auto simp: escaped_def)
  then show "encode_char r = encode_rune r" by (simp add: encode_char_def)
  have "hd (encode_nat r) \<noteq> 92 \<and> hd (encode_nat r) \<noteq> 34"
    using r assms(2) by (simp add: encode_nat_def)
  moreover have "unat (hd (encode_rune r)) = hd (encode_nat r)"
    by (metis encode_nat_nonempty encode_rune_unat list.map_disc_iff list.map_sel(1))
  ultimately have "unat (hd (encode_rune r)) \<noteq> 92 \<and> unat (hd (encode_rune r)) \<noteq> 34" by simp
  then show "hd (encode_rune r) \<noteq> 92" "hd (encode_rune r) \<noteq> 34" by auto
qed

lemma encode_char_hd: "scalar r \<Longrightarrow> encode_char r \<noteq> [] \<and> hd (encode_char r) \<noteq> 34
    \<and> (hd (encode_char r) = 92 \<longleftrightarrow> escaped r)"
proof (cases "escaped r")
  case True
  then show ?thesis by (simp add: encode_char_escaped)
next
  case False
  moreover have "encode_rune r \<noteq> []" by (simp add: encode_rune_def)
  ultimately show "scalar r \<Longrightarrow> ?thesis" using encode_char_plain by simp
qed

lemma reads_encode_char: "reads encode_char (\<lambda>_. True) {r. scalar r} {r. scalar r}"
proof -
  have "r = r' \<and> s = t" if c: "scalar r" "scalar r'" and eq: "encode_char r @ s = encode_char r' @ t"
    for r r' s t
  proof -
    have "hd (encode_char r) = hd (encode_char r')"
      using arg_cong [OF eq, of hd] encode_char_hd [OF c(1)] encode_char_hd [OF c(2)] by simp
    then have same: "escaped r \<longleftrightarrow> escaped r'"
      using encode_char_hd [OF c(1)] encode_char_hd [OF c(2)] by simp
    show ?thesis
    proof (cases "escaped r")
      case True
      from readsD [OF reads_escaped eq] True same show ?thesis by simp
    next
      case False
      then have "encode_rune r @ s = encode_rune r' @ t"
        using eq same c by (simp add: encode_char_plain(1))
      from readsD [OF reads_encode_rune this] c show ?thesis by simp
    qed
  qed
  then show ?thesis unfolding reads_def by blast
qed


lemma reads_concat:
  assumes "reads f (\<lambda>_. True) A A" "\<forall>x\<in>A. f x \<noteq> [] \<and> hd (f x) \<noteq> c"
  shows "set xs \<subseteq> A \<Longrightarrow> set ys \<subseteq> A \<Longrightarrow> concat (map f xs) @ c # s = concat (map f ys) @ c # t
    \<Longrightarrow> xs = ys \<and> s = t"
proof (induction xs arbitrary: ys)
  case Nil
  then show ?case using assms(2) by (cases ys) (auto simp: Cons_eq_append_conv, metis list.sel(1))
next
  case (Cons x xs)
  show ?case
  proof (cases ys)
    case Nil
    then show ?thesis using Cons.prems assms(2) by (auto simp: append_eq_Cons_conv)
  next
    case (Cons y ys')
    then have "f x @ (concat (map f xs) @ c # s) = f y @ (concat (map f ys') @ c # t)"
      using Cons.prems by simp
    from readsD [OF assms(1) this] Cons Cons.prems Cons.IH [of ys'] show ?thesis by simp
  qed
qed

lemma runes_fuel_valid:
  "length bs \<le> n \<Longrightarrow> list_all snd (runes_fuel n bs) \<Longrightarrow>
    (\<forall>x\<in>set (runes_fuel n bs). scalar (fst x)) \<and> concat (map (encode_nat \<circ> fst) (runes_fuel n bs)) = bs"
proof (induction n arbitrary: bs)
  case (Suc n)
  show ?case
  proof (cases "bs = []")
    case False
    then obtain r k where d: "decode_nat bs = Some (r, k)"
      using Suc.prems(2) by (auto split: option.splits)
    then have "length (drop k bs) \<le> n" "list_all snd (runes_fuel n (drop k bs))"
      using Suc.prems False decode_width [OF d] by auto
    from Suc.IH [OF this] encode_decode [OF d] d False show ?thesis by auto
  qed simp
qed simp

lemma ValidString_runes:
  assumes "ValidString s"
  shows "set (runes s) \<subseteq> {r. scalar r}" "concat (map encode_nat (runes s)) = map unat s"
  using runes_fuel_valid [of "map unat s" "length s"] assms
  by (auto simp: ValidString_def runes_def rune_flags_def)

lemma map_unat_inject: "map unat s = map unat t \<longleftrightarrow> s = (t :: bytes)"
  by (rule inj_map_eq_map) (rule injI, simp only: word_unat_eq_iff)

lemma reads_string: "reads string_text (\<lambda>_. True) {s. ValidString s} {s. ValidString s}"
proof -
  have "x = y \<and> s = t" if v: "ValidString x" "ValidString y"
    and eq: "string_text x @ s = string_text y @ t" for x y s t
  proof -
    have "concat (map encode_char (runes x)) @ 34 # s = concat (map encode_char (runes y)) @ 34 # t"
      using eq by (simp add: string_text_def)
    then have "runes x = runes y \<and> s = t"
      by (rule reads_concat [OF reads_encode_char, rotated -1])
        (use v ValidString_runes(1) encode_char_hd in blast)+
    then show ?thesis using ValidString_runes(2) v map_unat_inject by metis
  qed
  then show ?thesis unfolding reads_def by blast
qed

section \<open>Numbers\<close>

definition digits_value :: "bytes \<Rightarrow> nat" where
  "digits_value ds = foldl (\<lambda>a b. a * 10 + (unat b - 48)) 0 ds"

lemma digits_value_decimal: "digits_value (decimal n) = n"
proof (induction n rule: decimal.induct)
  case (1 n)
  have d: "unat (digit k) - 48 = k" if "k < 10" for k
  proof -
    have "unat (digit k) = 48 + k" unfolding digit_def by (rule unat_word_byte) (use that in simp)
    then show ?thesis by simp
  qed
  show ?case
    using 1 by (cases "n < 10") (simp_all add: decimal.simps [of n] digits_value_def d)
qed

lemma decimal_nonempty: "decimal n \<noteq> [] \<and> is_digit (hd (decimal n))"
  using decimal_digits [of n] by (cases "decimal n") (simp_all add: decimal.simps [of n] split: if_splits)

lemma reads_decimal: "reads decimal delim UNIV UNIV"
proof -
  have tw: "takeWhile is_digit (decimal n @ s) = decimal n" if "delim s" for n s
    using that decimal_digits [of n]
    by (cases s) (auto simp: delim_def takeWhile_tail takeWhile_eq_all_conv)
  have "m = n \<and> s = t" if "delim s" "delim t" "decimal m @ s = decimal n @ t" for m n s t
  proof -
    have "decimal m = decimal n" using that tw by metis
    then have "m = n" using digits_value_decimal by metis
    with that(3) show ?thesis by simp
  qed
  then show ?thesis unfolding reads_def by blast
qed

lemma digit_byte: "is_digit b \<Longrightarrow> b \<noteq> 45 \<and> b \<noteq> 34 \<and> b \<noteq> 91 \<and> b \<noteq> 123 \<and> b \<noteq> 110 \<and> b \<noteq> 116 \<and> b \<noteq> 102"
  by (auto simp: is_digit_def)

lemma signed_hd: "signed_decimal i \<noteq> [] \<and> (if i < 0 then hd (signed_decimal i) = 45
    else is_digit (hd (signed_decimal i)))"
  using decimal_nonempty by (simp add: signed_decimal_def)

lemma reads_signed: "reads signed_decimal delim UNIV UNIV"
proof -
  have "i = j \<and> s = t" if f: "delim s" "delim t" and eq: "signed_decimal i @ s = signed_decimal j @ t"
    for i j s t
  proof -
    have "hd (signed_decimal i) = hd (signed_decimal j)"
      using arg_cong [OF eq, of hd] signed_hd [of i] signed_hd [of j] by simp
    then have sgn: "i < 0 \<longleftrightarrow> j < 0"
      using signed_hd [of i] signed_hd [of j] digit_byte by (auto split: if_splits)
    then have "decimal (nat \<bar>i\<bar>) @ s = decimal (nat \<bar>j\<bar>) @ t"
      using eq by (simp add: signed_decimal_def split: if_splits)
    from readsD [OF reads_decimal this _ _ f] have "nat \<bar>i\<bar> = nat \<bar>j\<bar> \<and> s = t" by simp
    with sgn show ?thesis by linarith
  qed
  then show ?thesis unfolding reads_def by blast
qed


section \<open>Lists and values\<close>

lemma join_comma_Cons: "join_comma (x # xs) = x @ (if xs = [] then [] else 44 # join_comma xs)"
  by (cases xs) simp_all

lemma reads_join:
  assumes "\<And>s. follow (44 # s)" "\<And>s. follow (c # s)" "c \<noteq> 44"
    and "reads f follow A B" and "\<forall>x\<in>A \<union> B. f x \<noteq> [] \<and> hd (f x) \<noteq> c"
  shows "set xs \<subseteq> A \<Longrightarrow> set ys \<subseteq> B \<Longrightarrow>
    join_comma (map f xs) @ c # s = join_comma (map f ys) @ c # t \<Longrightarrow> xs = ys \<and> s = t"
proof (induction xs arbitrary: ys)
  case Nil
  show ?case
  proof (cases ys)
    case (Cons y ys')
    then have y: "f y \<noteq> []" "hd (f y) \<noteq> c" using Nil.prems(2) assms(5) by auto
    have "c # s = f y @ (if ys' = [] then [] else 44 # join_comma (map f ys')) @ c # t"
      using Nil.prems(3) Cons by (simp add: join_comma_Cons)
    from arg_cong [OF this, of hd] y show ?thesis by simp
  qed (use Nil.prems in simp)
next
  case (Cons x xs)
  have x: "x \<in> A" "f x \<noteq> []" "hd (f x) \<noteq> c" using Cons.prems(1) assms(5) by auto
  let ?rest = "\<lambda>zs s. (if zs = [] then [] else 44 # join_comma (map f zs)) @ c # s"
  have follow: "follow (?rest zs s)" for zs s using assms(1,2) by simp
  show ?case
  proof (cases ys)
    case Nil
    then have "f x @ ?rest xs s = c # t" using Cons.prems(3) by (simp add: join_comma_Cons)
    from arg_cong [OF this, of hd] x show ?thesis by simp
  next
    case (Cons y ys')
    have y: "y \<in> B" using Cons.prems(2) Cons by simp
    have "f x @ ?rest xs s = f y @ ?rest ys' t"
      using Cons.prems(3) Cons by (simp add: join_comma_Cons)
    from readsD [OF assms(4) this x(1) y follow follow]
    have "x = y" "?rest xs s = ?rest ys' t" by simp_all
    moreover have "xs = ys' \<and> s = t"
    proof (cases "xs = [] \<or> ys' = []")
      case True
      then show ?thesis using \<open>?rest xs s = ?rest ys' t\<close> assms(3) by (auto split: if_splits)
    next
      case False
      then show ?thesis using \<open>?rest xs s = ?rest ys' t\<close> Cons.IH [of ys'] Cons.prems(1,2) Cons by simp
    qed
    ultimately show ?thesis using Cons by simp
  qed
qed

text \<open>The first byte tells the constructor.\<close>

fun json_kind :: "jvalue \<Rightarrow> nat" where
  "json_kind JNull = 0"
| "json_kind (JBool b) = 1"
| "json_kind (JInt i) = 2"
| "json_kind (JString s) = 3"
| "json_kind (JArray vs) = 4"
| "json_kind _ = 5"

definition byte_kind :: "byte \<Rightarrow> nat" where
  "byte_kind b = (if b = 110 then 0 else if b = 116 \<or> b = 102 then 1 else if b = 34 then 3
     else if b = 91 then 4 else if b = 123 then 5 else 2)"

lemma json_text_hd:
  assumes "json_ok v"
  shows "json_text v \<noteq> []" "byte_kind (hd (json_text v)) = json_kind v" "\<not> hd (json_text v) = 93"
proof -
  have num: "hd (signed_decimal i) = 45 \<or> is_digit (hd (signed_decimal i))" for i
    using signed_hd [of i] by (auto split: if_splits)
  have kind: "byte_kind b = 2 \<and> b \<noteq> 93" if "b = 45 \<or> is_digit b" for b
    using that digit_byte [of b] by (auto simp: byte_kind_def is_digit_def)
  show "json_text v \<noteq> []" "byte_kind (hd (json_text v)) = json_kind v" "\<not> hd (json_text v) = 93"
    using assms kind [OF num] signed_hd
    by (cases v; auto simp: ascii_def string_text_def byte_kind_def)+
qed


lemma json_same_kind:
  assumes "json_ok v" "json_ok w" "json_text v @ s = json_text w @ t"
  shows "json_kind v = json_kind w"
  using arg_cong [OF assms(3), of hd] json_text_hd [OF assms(1)] json_text_hd [OF assms(2)] by simp

abbreviation entry_text :: "bytes \<times> jvalue \<Rightarrow> bytes" where
  "entry_text x \<equiv> string_text (fst x) @ 58 # json_text (snd x)"

lemma delim_bytes [simp]: "delim (44 # s)" "delim (93 # s)" "delim (125 # s)" "delim []"
  by (simp_all add: delim_def is_digit_def)

lemma string_text_hd [simp]: "string_text s \<noteq> []" "hd (string_text s) = 34"
  by (simp_all add: string_text_def)

lemma reads_entry:
  assumes "\<forall>x\<in>A. ValidString (fst x)" "\<forall>x\<in>B. ValidString (fst x)"
    and "reads json_text delim (snd ` A) (snd ` B)"
  shows "reads entry_text delim A B"
proof -
  have "x = y \<and> s = t" if x: "x \<in> A" and y: "y \<in> B" and f: "delim s" "delim t"
    and eq: "entry_text x @ s = entry_text y @ t" for x y s t
  proof -
    have "string_text (fst x) @ (58 # json_text (snd x) @ s) = string_text (fst y) @ (58 # json_text (snd y) @ t)"
      using eq by simp
    from readsD [OF reads_string this] have "fst x = fst y" "json_text (snd x) @ s = json_text (snd y) @ t"
      using assms(1,2) x y by simp_all
    with readsD [OF assms(3) this(2)] x y f show ?thesis by (simp add: prod_eq_iff)
  qed
  then show ?thesis unfolding reads_def by blast
qed

lemma reads_json: "json_ok v \<Longrightarrow> reads json_text delim {v} {w. json_ok w}"
proof (induction v)
  case (JString x)
  have "JString x = w \<and> s = t" if w: "json_ok w" and eq: "json_text (JString x) @ s = json_text w @ t" for w s t
  proof -
    obtain y where y: "w = JString y" using json_same_kind [OF JString w eq] by (cases w) simp_all
    then show ?thesis using readsD [OF reads_string, of x s y t] eq w JString by simp
  qed
  then show ?case unfolding reads_def by blast
next
  case (JArray vs)
  have "JArray vs = w \<and> s = t" if w: "json_ok w" and eq: "json_text (JArray vs) @ s = json_text w @ t" for w s t
  proof -
    obtain ws where ws: "w = JArray ws" using json_same_kind [OF JArray.prems w eq] by (cases w) simp_all
    have "reads json_text delim (set vs) (set ws)"
      by (rule reads_mono [OF JArray.IH]) (use JArray.prems w ws in \<open>auto simp: list_all_iff\<close>)
    moreover have "\<forall>x\<in>set vs \<union> set ws. json_text x \<noteq> [] \<and> hd (json_text x) \<noteq> 93"
      using JArray.prems w ws json_text_hd by (auto simp: list_all_iff)
    ultimately have "vs = ws \<and> s = t"
      by (rule reads_join [rotated 3]) (use eq ws in simp_all)
    with ws show ?thesis by simp
  qed
  then show ?case unfolding reads_def by blast
next
  case (JObject es)
  have "JObject es = w \<and> s = t" if w: "json_ok w" and eq: "json_text (JObject es) @ s = json_text w @ t" for w s t
  proof -
    obtain fs where fs: "w = JObject fs" using json_same_kind [OF JObject.prems w eq] w by (cases w) simp_all
    have "reads json_text delim (snd ` set es) (snd ` set fs)"
    proof (rule reads_mono)
      show "reads json_text delim {v} {w. json_ok w}" if "v \<in> snd ` set es" for v
        using JObject that by (force simp: list_all_iff snds.simps)
      show "snd ` set fs \<subseteq> {w. json_ok w}" using w fs by (auto simp: list_all_iff)
    qed
    then have "reads entry_text delim (set es) (set fs)"
      by (intro reads_entry) (use JObject.prems w fs in \<open>simp_all add: list_all_iff\<close>)
    moreover have "\<forall>x\<in>set es \<union> set fs. entry_text x \<noteq> [] \<and> hd (entry_text x) \<noteq> 125" by simp
    ultimately have "es = fs \<and> s = t"
      by (rule reads_join [rotated 3]) (use eq fs in simp_all)
    with fs show ?thesis by simp
  qed
  then show ?case unfolding reads_def by blast
next
  case (JInt i)
  have "JInt i = w \<and> s = t" if w: "json_ok w" and f: "delim s" "delim t"
    and eq: "json_text (JInt i) @ s = json_text w @ t" for w s t
  proof -
    obtain j where j: "w = JInt j" using json_same_kind [OF JInt w eq] by (cases w) simp_all
    then show ?thesis using readsD [OF reads_signed, of i s j t] eq f by simp
  qed
  then show ?case unfolding reads_def by blast
next
  case (JBool b)
  have "JBool b = w \<and> s = t" if w: "json_ok w" and eq: "json_text (JBool b) @ s = json_text w @ t" for w s t
    using json_same_kind [OF JBool w eq] eq by (cases w) (auto simp: ascii_def split: if_splits)
  then show ?case unfolding reads_def by blast
next
  case JNull
  have "JNull = w \<and> s = t" if w: "json_ok w" and eq: "json_text JNull @ s = json_text w @ t" for w s t
    using json_same_kind [OF JNull w eq] eq by (cases w) auto
  then show ?case unfolding reads_def by blast
qed simp_all

lemma json_text_inject: "json_ok v \<Longrightarrow> json_ok w \<Longrightarrow> json_text v = json_text w \<longleftrightarrow> v = w"
  using readsD [OF reads_json [of v], of v "[]" w "[]"] by auto


lemma canonical_unique:
  assumes "encodeCanonical v = Inr a"
  shows "encodeCanonical w = Inr a \<longleftrightarrow> json_norm w = json_norm v"
proof -
  have v: "json_ok v" "a = json_text (json_norm v)" using assms by (simp_all add: encode_text)
  have "encodeCanonical w = Inr a \<longleftrightarrow> json_ok w \<and> json_text (json_norm v) = json_text (json_norm w)"
    by (simp add: encode_text v(2))
  also have "\<dots> \<longleftrightarrow> json_ok w \<and> json_norm v = json_norm w"
    using v(1) by (auto simp: json_text_inject json_ok_norm)
  also have "\<dots> \<longleftrightarrow> json_norm w = json_norm v"
    using v(1) json_ok_norm by metis
  finally show ?thesis .
qed

end
