(* ===== verification/Protocol_Properties.thy ===== *)
theory Protocol_Properties
  imports Windows Canonical_Unique Histories Scenario
begin

text \<open>
  Properties of what the program exchanges and throttles: the messages that are signed, the
  public handles, one-time codes and tickets, and the request limiter.
\<close>

section \<open>Signed messages\<close>

lemma wrap_bytes_parts:
  assumes len: "length (in_recipient w) = 32" "length (in_recipient v) = 32"
    "length (in_ek_pub w) = 32" "length (in_ek_pub v) = 32"
    "length (in_sig w) = 64" "length (in_sig v) = 64"
    "length (in_wrap w) < 2 ^ 32" "length (in_wrap v) < 2 ^ 32"
    and eq: "wrap_bytes w @ s = wrap_bytes v @ t"
  shows "(in_recipient w, in_ek_pub w, opk_word (in_opk w), in_wrap w, in_sig w)
       = (in_recipient v, in_ek_pub v, opk_word (in_opk v), in_wrap v, in_sig v) \<and> s = t"
proof -
  have unat32: "unat (uint32 (int a)) = a" if "a < 2 ^ 32" for a
    using that by (simp add: uint32_def unat_of_nat)
  then have u32: "uint32 (int a) = uint32 (int b) \<longleftrightarrow> a = b" if "a < 2 ^ 32" "b < 2 ^ 32" for a b
    using that by metis
  from eq len have "in_recipient w = in_recipient v" "in_ek_pub w = in_ek_pub v"
    "opk_word (in_opk w) = opk_word (in_opk v)" "uint32 (int (length (in_wrap w))) = uint32 (int (length (in_wrap v)))"
    and rest: "in_wrap w @ be32 (uint32 (int (length (in_sig w)))) @ in_sig w @ s =
      in_wrap v @ be32 (uint32 (int (length (in_sig v)))) @ in_sig v @ t"
    by (simp_all add: wrap_bytes_def)
  moreover from this have "length (in_wrap w) = length (in_wrap v)" using u32 len by blast
  ultimately show ?thesis using len by simp
qed

definition wrap_fields :: "wrap_input \<Rightarrow> bytes \<times> bytes \<times> 32 word \<times> bytes \<times> bytes" where
  "wrap_fields w = (in_recipient w, in_ek_pub w, opk_word (in_opk w), in_wrap w, in_sig w)"

definition wrap_sized :: "wrap_input \<Rightarrow> bool" where
  "wrap_sized w \<longleftrightarrow> length (in_recipient w) = 32 \<and> length (in_ek_pub w) = 32 \<and> length (in_sig w) = 64
     \<and> length (in_wrap w) < 2 ^ 32"

lemma concat_wraps:
  "list_all wrap_sized ws \<Longrightarrow> list_all wrap_sized vs \<Longrightarrow>
    concat (map wrap_bytes ws) = concat (map wrap_bytes vs) \<Longrightarrow> map wrap_fields ws = map wrap_fields vs"
proof (induction ws arbitrary: vs)
  case Nil
  then show ?case by (cases vs) (auto simp: wrap_bytes_def wrap_sized_def)
next
  case (Cons w ws)
  show ?case
  proof (cases vs)
    case Nil
    then show ?thesis using Cons.prems by (auto simp: wrap_bytes_def wrap_sized_def)
  next
    case (Cons v vs')
    then have "wrap_fields w = wrap_fields v \<and> concat (map wrap_bytes ws) = concat (map wrap_bytes vs')"
      unfolding wrap_fields_def using Cons.prems by (intro wrap_bytes_parts) (auto simp: wrap_sized_def)
    with Cons.prems Cons.IH [of vs'] Cons show ?thesis by simp
  qed
qed

lemma check_wraps_sized:
  "check_wraps seen ws = None \<Longrightarrow> \<forall>w\<in>set ws. length (in_wrap w) < 2 ^ 32 \<Longrightarrow> list_all wrap_sized ws"
  by (induction seen ws rule: check_wraps.induct) (auto simp: wrap_sized_def split: if_splits)

lemma validated_wraps:
  assumes "SetEpoch_validate E a tk r inp d = Inr req"
  shows "check_wraps [] (se_wraps inp) = None" "length (se_member_set_hash inp) = 32"
  using assms by (auto simp: SetEpoch_validate_def Let_def split: if_splits option.splits)

lemma list_all_sort: "list_all P (sort_key f xs) \<longleftrightarrow> list_all P xs"
  by (simp add: list_all_iff)

text \<open>C4. The signature under a rotation binds the whole request: if two requests that pass the
  checks of \<open>SetEpoch\<close> have the same signed message, and the digest does not collide on their two
  lists of wraps, then they name the same album, the same epoch number (as the 32 bits that are
  signed) and the same wraps field by field, up to the order they are listed in. Wraps longer than
  4 GiB are excluded, as their length field would wrap around.\<close>

theorem epoch_signature_binds:
  assumes "SetEpoch_validate E a tk r inp d = Inr req"
    and "SetEpoch_validate E a' tk' r' inp' d' = Inr req'"
    and "EnvelopeSignMsg a (se_epoch inp) (se_member_set_hash inp) (WrapsHash (cryp E) (se_wraps inp)) =
       EnvelopeSignMsg a' (se_epoch inp') (se_member_set_hash inp') (WrapsHash (cryp E) (se_wraps inp'))"
    and "no_collision (cryp E) (wraps_preimage (se_wraps inp)) (wraps_preimage (se_wraps inp'))"
    and "\<forall>w\<in>set (se_wraps inp) \<union> set (se_wraps inp'). length (in_wrap w) < 2 ^ 32"
  shows "a = a' \<and> uint32 (se_epoch inp) = uint32 (se_epoch inp')
    \<and> map wrap_fields (sort_key in_recipient (se_wraps inp)) = map wrap_fields (sort_key in_recipient (se_wraps inp'))"
proof -
  note v = validated_wraps [OF assms(1)] validated_wraps [OF assms(2)]
  have sized: "list_all wrap_sized (sort_key in_recipient (se_wraps inp))"
    "list_all wrap_sized (sort_key in_recipient (se_wraps inp'))"
    unfolding list_all_sort using v assms(5) by (auto intro: check_wraps_sized)
  have "a = a' \<and> uint32 (se_epoch inp) = uint32 (se_epoch inp')
      \<and> WrapsHash (cryp E) (se_wraps inp) = WrapsHash (cryp E) (se_wraps inp')"
    using assms(3) v(2,4) by (simp add: EnvelopeSignMsg_def)
  moreover from this have "wraps_preimage (se_wraps inp) = wraps_preimage (se_wraps inp')"
    using assms(4) by (simp add: WrapsHash_def no_collision_def)
  then have "concat (map wrap_bytes (sort_key in_recipient (se_wraps inp)))
      = concat (map wrap_bytes (sort_key in_recipient (se_wraps inp')))"
    by (simp add: wraps_preimage_def)
  ultimately show ?thesis using concat_wraps [OF sized] by simp
qed


theorem epoch_signature_binds_witness:
  "map wrap_fields (sort_key in_recipient (se_wraps rotation_request)) =
   map wrap_fields (sort_key in_recipient (rev (se_wraps rotation_request)))"
proof -
  let ?q = "rotation_request\<lparr>se_wraps := rev (se_wraps rotation_request)\<rparr>"
  have "\<not> isl (SetEpoch_validate demo 7 (tok 1) Admin rotation_request shared_album)"
    "\<not> isl (SetEpoch_validate demo 7 (tok 1) Admin ?q shared_album)" by code_simp+
  then obtain r r' where v: "SetEpoch_validate demo 7 (tok 1) Admin rotation_request shared_album = Inr r"
    "SetEpoch_validate demo 7 (tok 1) Admin ?q shared_album = Inr r'"
    by (metis sum.collapse(2))
  have pre: "wraps_preimage (se_wraps rotation_request) = wraps_preimage (se_wraps ?q)" by code_simp
  have "list_all (\<lambda>w. length (in_wrap w) < 100) (se_wraps rotation_request)" by code_simp
  then have "\<forall>w\<in>set (se_wraps rotation_request). length (in_wrap w) < 2 ^ 32"
    by (auto simp: list_all_iff dest!: bspec)
  then show ?thesis
    using epoch_signature_binds [OF v] pre
    by (simp add: WrapsHash_def no_collision_def)
qed

text \<open>C38. The canonical JSON that both sides sign is unambiguous: a value with the bytes of
  another one is that value, up to the order in which the entries of its objects are listed.
  Values that hold a float or a string that is not valid UTF-8 have no bytes at all.\<close>

theorem canonical_json_unique:
  assumes "CanonicalSerialize v = Inr a"
  shows "CanonicalSerialize w = Inr a \<longleftrightarrow> json_norm w = json_norm v"
  using canonical_unique [of v a w] assms by (simp add: CanonicalSerialize_def)

lemmas serialize_defs = CanonicalSerialize_def encode_entry_def ascii_def encodeString_def runes_def
  rune_flags_def ValidString_def encode_char_def encode_rune_def encode_nat_def scalar_def signed_decimal_def

theorem canonical_json_unique_witness:
  "CanonicalSerialize (JObject [([98], JString [34]), ([97], JArray [JBool True, JNull])])
     = Inr (ascii ''{'' @ [34, 97, 34, 58] @ ascii ''[true,null],'' @ [34, 98, 34, 58, 34, 92, 34, 34] @ ascii ''}'')"
proof -
  have "CanonicalSerialize (JObject [([97], JArray [JBool True, JNull]), ([98], JString [34])])
     = Inr (ascii ''{'' @ [34, 97, 34, 58] @ ascii ''[true,null],'' @ [34, 98, 34, 58, 34, 92, 34, 34] @ ascii ''}'')"
    by (simp add: serialize_defs)
  from canonical_json_unique [OF this, THEN iffD2] show ?thesis by simp
qed

section \<open>Handles\<close>

text \<open>C39. Handles read back: what a person types from the displayed form of a generated handle is
  that handle, the generated handles are exactly the canonical ones, different random bits give
  different handles, and normalization yields canonical handles only.\<close>

theorem handle_roundtrip:
  "Normalize (handle_Format (handle_Generate b)) = Inr (handle_Generate b)
   \<and> (canonical_handle h \<longleftrightarrow> (\<exists>!c. handle_Generate c = h))
   \<and> (canonical_handle h \<longleftrightarrow> (\<exists>s. Normalize s = Inr h))"
proof (intro conjI iffI)
  have norm: "Normalize (handle_Format h) = Inr h" if "canonical_handle h" for h
    using that Normalize_Format_canonical by blast
  then show "Normalize (handle_Format (handle_Generate b)) = Inr (handle_Generate b)"
    using Generate_canonical by blast
  show "canonical_handle h \<Longrightarrow> \<exists>s. Normalize s = Inr h" using norm by blast
  show "\<exists>s. Normalize s = Inr h \<Longrightarrow> canonical_handle h" using Normalize_sound by blast
  show "\<exists>!c. handle_Generate c = h \<Longrightarrow> canonical_handle h" using Generate_canonical by blast
  assume "canonical_handle h"
  then obtain c where "handle_Generate c = h" by (rule Generate_surj)
  then show "\<exists>!c. handle_Generate c = h"
    by (intro ex1I [of _ c]) (simp_all add: Generate_inject [symmetric])
qed

section \<open>One-time codes\<close>

text \<open>The answers that the attempts on one address get, in a run of attempts on any addresses.\<close>

fun otp_answers :: "bytes \<Rightarrow> (time \<times> bytes \<times> bytes) list \<Rightarrow> otp_store \<Rightarrow> bool list" where
  "otp_answers key [] s = []"
| "otp_answers key ((t, k, mac) # tries) s =
     (let (ok, s') = CheckOTP t k mac maxOTPAttempts s
      in (if k = key then [ok] else []) @ otp_answers key tries s')"

text \<open>\<open>n\<close> wrong attempts so far on a code that is valid until \<open>e\<close>.\<close>

definition otp_pending :: "bytes \<Rightarrow> bytes \<Rightarrow> time \<Rightarrow> nat \<Rightarrow> otp_store \<Rightarrow> bool" where
  "otp_pending key mac e n s \<longleftrightarrow> n < 5 \<and> otp_codes s key = Some (mac, e)
     \<and> otp_attempts s key = (if n = 0 then None else Some (n, e))"

definition otp_gone :: "bytes \<Rightarrow> time \<Rightarrow> otp_store \<Rightarrow> bool" where
  "otp_gone key t s \<longleftrightarrow> redis_get t (otp_codes s) key = None"

lemma CheckOTP_other:
  assumes "CheckOTP t k m n s = (ok, s')" "k \<noteq> key"
  shows "otp_codes s' key = otp_codes s key" "otp_attempts s' key = otp_attempts s key"
  using assms by (auto simp: CheckOTP_def redis_del_def redis_incr_expire_def Let_def
    split: option.splits if_splits prod.splits)

lemma otp_gone_later: "otp_gone key t s \<Longrightarrow> t \<le> t' \<Longrightarrow> otp_gone key t' s"
  unfolding otp_gone_def by (rule redis_get_expired)

lemma CheckOTP_gone:
  assumes "otp_gone key t s" "CheckOTP t k m n s = (ok, s')"
  shows "otp_gone key t s' \<and> (k = key \<longrightarrow> \<not> ok)"
proof (cases "k = key")
  case True
  then show ?thesis using assms by (auto simp: CheckOTP_def otp_gone_def)
next
  case False
  then show ?thesis using assms CheckOTP_other(1) [OF assms(2) False]
    by (simp add: otp_gone_def redis_get_def)
qed

lemma otp_answers_gone:
  "otp_gone key t s \<Longrightarrow> sorted (t # map fst tries) \<Longrightarrow> set (otp_answers key tries s) \<subseteq> {False}"
proof (induction tries arbitrary: t s)
  case (Cons x tries)
  obtain t' k m ok s' where x: "x = (t', k, m)" "CheckOTP t' k m maxOTPAttempts s = (ok, s')"
    by (metis prod_cases3 surj_pair)
  have "otp_gone key t' s" using Cons.prems x by (auto intro: otp_gone_later)
  from CheckOTP_gone [OF this x(2)] Cons.IH [of t' s'] Cons.prems(2) x
  show ?case by (auto split: if_splits)
qed simp

lemma CheckOTP_pending:
  assumes "otp_pending key mac e n s" "CheckOTP t key m maxOTPAttempts s = (ok, s')"
  shows "ok \<longleftrightarrow> t < e \<and> m = mac"
    "otp_gone key t s' \<or> (\<not> ok \<and> t < e \<and> n < 4 \<and> otp_pending key mac e (Suc n) s')"
    "t < e \<Longrightarrow> m \<noteq> mac \<Longrightarrow> n < 4 \<Longrightarrow> otp_pending key mac e (Suc n) s'"
  using assms
  by (auto simp: CheckOTP_def otp_pending_def otp_gone_def redis_get_def redis_del_def redis_incr_expire_def
      redis_pttl_def maxOTPAttempts_def Let_def split: if_splits)


definition tries_on :: "bytes \<Rightarrow> (time \<times> bytes \<times> bytes) list \<Rightarrow> (time \<times> bytes) list" where
  "tries_on key tries = map (\<lambda>(t, k, m). (t, m)) (filter (\<lambda>(t, k, m). k = key) tries)"

lemma length_otp_answers: "length (otp_answers key tries s) = length (tries_on key tries)"
  by (induction key tries s rule: otp_answers.induct) (auto simp: tries_on_def split: prod.splits)

lemma tries_on_later: "sorted (t # map fst tries) \<Longrightarrow> x \<in> set (tries_on key tries) \<Longrightarrow> t \<le> fst x"
  by (auto simp: tries_on_def)

lemma otp_answers_pending:
  "otp_pending key mac e n s \<Longrightarrow> sorted (map fst tries) \<Longrightarrow> i < length (tries_on key tries) \<Longrightarrow>
    otp_answers key tries s ! i \<longleftrightarrow> i + n < 5 \<and> fst (tries_on key tries ! i) < e
      \<and> snd (tries_on key tries ! i) = mac \<and> (\<forall>j<i. snd (tries_on key tries ! j) \<noteq> mac)"
proof (induction tries arbitrary: s n i)
  case (Cons x tries)
  obtain t k m ok s' where x: "x = (t, k, m)" "CheckOTP t k m maxOTPAttempts s = (ok, s')"
    by (metis prod_cases3 surj_pair)
  show ?case
  proof (cases "k = key")
    case False
    then have "otp_pending key mac e n s'"
      using Cons.prems(1) CheckOTP_other [OF x(2) False] by (simp add: otp_pending_def)
    from Cons.IH [OF this] Cons.prems x False show ?thesis by (simp add: tries_on_def)
  next
    case True
    note c = CheckOTP_pending [OF Cons.prems(1) x(2) [unfolded True]]
    have n: "n < 5" using Cons.prems(1) by (simp add: otp_pending_def)
    have mine: "tries_on key (x # tries) = (t, m) # tries_on key tries"
      "otp_answers key (x # tries) s = ok # otp_answers key tries s'"
      using x True by (simp_all add: tries_on_def)
    show ?thesis
    proof (cases i)
      case 0
      then show ?thesis using c(1) n by (simp add: mine)
    next
      case (Suc i')
      have i': "i' < length (tries_on key tries)" using Cons.prems(3) Suc by (simp add: mine)
      have later: "t \<le> fst (tries_on key tries ! i')"
        using tries_on_later [of t tries, OF _ nth_mem [OF i']] Cons.prems(2) x by simp
      show ?thesis
      proof (cases "t < e \<and> m \<noteq> mac \<and> n < 4")
        case True
        then have "otp_pending key mac e (Suc n) s'" using c(3) by blast
        from Cons.IH [OF this _ i'] Cons.prems(2) True show ?thesis
          by (simp add: mine Suc All_less_Suc2)
      next
        case False
        then have "otp_gone key t s'" using c(1,2) by (auto simp: otp_pending_def)
        then have "set (otp_answers key tries s') \<subseteq> {False}"
          by (rule otp_answers_gone) (use Cons.prems(2) x in simp)
        moreover have "otp_answers key tries s' ! i' \<in> set (otp_answers key tries s')"
          using i' by (intro nth_mem) (simp add: length_otp_answers)
        ultimately have "\<not> otp_answers key tries s' ! i'" by auto
        then show ?thesis using False later by (auto simp: mine Suc All_less_Suc2)
      qed
    qed
  qed
qed (simp add: tries_on_def)

text \<open>C13. Guessing a code: after a code is stored for an address, an attempt on that address is
  accepted exactly when it is among the first five, comes before the code expires, carries the
  code, and no earlier attempt carried it. So a code works once and five guesses void it, whatever
  attempts on other addresses happen in between.\<close>

theorem otp_five_tries:
  assumes "sorted (map fst tries)" "i < length (tries_on key tries)"
  shows "otp_answers key tries (SetOTP now key mac ttl s) ! i \<longleftrightarrow>
    i < maxOTPAttempts \<and> fst (tries_on key tries ! i) < now + ttl \<and> snd (tries_on key tries ! i) = mac
    \<and> (\<forall>j<i. snd (tries_on key tries ! j) \<noteq> mac)"
proof -
  have "otp_pending key mac (now + ttl) 0 (SetOTP now key mac ttl s)"
    by (simp add: otp_pending_def SetOTP_def redis_set_def redis_del_def)
  from otp_answers_pending [OF this assms] show ?thesis by (simp add: maxOTPAttempts_def)
qed

theorem otp_five_tries_witness:
  "otp_answers [1] [(1, [1], [7]), (2, [2], [9]), (3, [1], [9]), (4, [1], [9])] (SetOTP 0 [1] [9] 10 empty_otp) ! 1"
proof -
  let ?t = "[(1, [1], [7]), (2, [2], [9]), (3, [1], [9]), (4, [1], [9])] :: (time \<times> bytes \<times> bytes) list"
  have "sorted (map fst ?t)" "1 < length (tries_on [1] ?t)" by (simp_all add: tries_on_def)
  from otp_five_tries [OF this, of 0 "[9]" 10 empty_otp] show ?thesis
    by (simp add: tries_on_def maxOTPAttempts_def)
qed

section \<open>Tickets\<close>

text \<open>C36. A ticket for the live channel lets in the account it was issued to, within its minute and
  once: after it was consumed, no later attempt gets through, whatever else happens to the store,
  unless the same random bytes are issued again.\<close>

theorem ticket_single_use:
  assumes "uuid_text E" "ticket_Issue E t0 raw u m = ((ticket, expires), m1)"
    and "\<forall>a\<in>set ops. \<not> puts_key ticket a" "t \<le> t'"
  shows "fst (ticket_Consume E t ticket m1) = (if t < expires then Some u else None)
    \<and> fst (ticket_Consume E t' ticket
         (fold (apply_store_op (ticket_Consume E) (ticket_put E)) ops (snd (ticket_Consume E t ticket m1)))) = None"
proof
  have "ticket = RawURLEncode raw" "expires = t0 + ticketTTL" "m1 = ticket_put E t0 ticket u m"
    using assms(2) by (auto simp: ticket_Issue_put)
  then show "fst (ticket_Consume E t ticket m1) = (if t < expires then Some u else None)"
    using assms(1) unfolding tickets.take_result
    by (simp add: ticket_view_def ticket_put_def redis_get_set uuid_text_def)
  show "fst (ticket_Consume E t' ticket
      (fold (apply_store_op (ticket_Consume E) (ticket_put E)) ops (snd (ticket_Consume E t ticket m1)))) = None"
    by (rule tickets.second_take_fails [OF assms(3,4)])
qed

theorem ticket_single_use_witness:
  "fst (ticket_Consume demo 5 (RawURLEncode [1, 2]) (snd (ticket_Issue demo 0 [1, 2] 9 Map.empty))) = Some 9"
proof -
  have parse: "uuid_text demo" by (simp add: uuid_text_def demo_def)
  let ?i = "ticket_Issue demo 0 [1, 2] 9 Map.empty"
  have i: "?i = ((RawURLEncode [1, 2], 0 + ticketTTL), snd ?i)" by (simp add: ticket_Issue_put)
  from ticket_single_use [OF parse i, of "[]" 5 5] show ?thesis
    by (simp add: ticketTTL_def seconds_def)
qed

section \<open>The request limiter\<close>

text \<open>C37. The limiter implements its specification. On a key that is not in use, and for arrivals at
  distinct times in their order, one after the other, it answers as a log of the admitted times does
  that admits an event while fewer than the maximum of them count: those less than the window old,
  exactly, but for a doubt of 512 nanoseconds at the old end of the window (times below
  \<open>2 ^ 62\<close> nanoseconds). When the removals of refused events come late, in any order or never, an
  admitted event still has fewer than the maximum of admitted events in the window before it, up to
  the same doubt, and a refused one at least the maximum of arrivals.\<close>

theorem limiter_refines_window:
  assumes "0 < mx" "0 < w" "s k = None"
  shows "(\<exists>counts. near_window w counts \<and> (\<forall>ts. sorted_wrt (<) ts \<longrightarrow>
      Allow_run \<lparr>lc_key = k, lc_max = mx, lc_window = int w\<rparr> s ts = map Inr (window_log counts mx [] ts)))
    \<and> (\<forall>acts earlier r later. sorted_wrt (<) (arrivals acts) \<and> (\<forall>t\<in>set (arrivals acts). t < 2 ^ 62) \<and>
        limit_run \<lparr>lc_key = k, lc_max = mx, lc_window = int w\<rparr> [] s acts = earlier @ r # later \<longrightarrow>
        window_fair w mx earlier r)"
proof (intro conjI exI allI impI)
  show "near_window w (recent w)" by (rule near_window_recent)
  show "Allow_run \<lparr>lc_key = k, lc_max = mx, lc_window = int w\<rparr> s ts = map Inr (window_log (recent w) mx [] ts)"
    if "sorted_wrt (<) ts" for ts
    by (rule Allow_run_window [OF assms(1,2) that, where l = 0]) (use assms(3) in \<open>simp_all add: window_sim_def\<close>)
  fix acts earlier r later
  assume run: "sorted_wrt (<) (arrivals acts) \<and> (\<forall>t\<in>set (arrivals acts). t < 2 ^ 62) \<and>
    limit_run \<lparr>lc_key = k, lc_max = mx, lc_window = int w\<rparr> [] s acts = earlier @ r # later"
  have "window_fair w mx ([] @ earlier) r"
    by (rule limit_run_fair [where s = s and k = k and pend = "[]" and acts = acts and later = later])
      (use run assms(3) in \<open>simp_all add: late_sim_def\<close>)
  then show "window_fair w mx earlier r" by simp
qed

text \<open>At the times the limiter really sees, and with a refused event whose removal never comes.\<close>

theorem limiter_refines_window_witness:
  "\<exists>r. limit_run \<lparr>lc_key = [1], lc_max = 1, lc_window = 10\<rparr> [] (\<lambda>_. None) [Arrive 20, Arrive 25, Arrive 32]
      = [(20, True, 0), (25, False, 1)] @ r # []
    \<and> window_fair 10 1 [(20, True, 0), (25, False, 1)] r"
proof -
  have f: "f64 10 = 10" "f64 15 = 15" "f64 20 = 20" "f64 22 = 22" "f64 25 = 25" "f64 32 = 32"
    by code_simp+
  have run: "limit_run \<lparr>lc_key = [1], lc_max = 1, lc_window = int 10\<rparr> [] (\<lambda>_. None) [Arrive 20, Arrive 25, Arrive 32]
      = [(20, True, 0), (25, False, 1)] @ (32, False, 1) # []"
    by (simp add: allow_pipeline_def Let_def z_entries_def zadd_def zremrange_def f)
  have "window_fair 10 1 [(20, True, 0), (25, False, 1)] (32, False, 1)"
    by (rule limiter_refines_window [where k = "[1]" and mx = 1 and w = 10 and s = "\<lambda>_. None",
          THEN conjunct2, rule_format, OF _ _ _ conjI [OF _ conjI [OF _ run]]]) simp_all
  then show ?thesis using run by (intro exI [of _ "(32, False, 1)"]) simp
qed


section \<open>Timestamps\<close>

lemma sint_word: "- (2 ^ 63) \<le> k \<Longrightarrow> k < 2 ^ 63 \<Longrightarrow> sint (word_of_int k :: int64) = k"
  by (simp add: signed_of_int signed_take_bit_int_eq_self)

lemma withinSkew_exact:
  assumes "\<bar>now div 1000000000 - sint ts\<bar> \<le> 9223372036"
  shows "withinSkew now ts w \<longleftrightarrow> \<bar>now div 1000000000 - sint ts\<bar> * 1000000000 \<le> w"
proof -
  let ?D = "now div 1000000000 - sint ts"
  have "unix_time now - ts = word_of_int ?D"
    by (simp add: unix_time_def)
  moreover have "abs_delta (word_of_int ?D) = word_of_int \<bar>?D\<bar>"
    using assms by (simp add: abs_delta_def sint_word of_int_minus [symmetric] del: of_int_diff of_int_minus)
  moreover have "word_of_int \<bar>?D\<bar> * (1000000000 :: int64) = word_of_int (\<bar>?D\<bar> * 1000000000)"
    by simp
  moreover have "sint (word_of_int (k * 1000000000) :: int64) = k * 1000000000"
    if "0 \<le> k" "k \<le> 9223372036" for k
    using that by (intro sint_word) simp_all
  from this [of "\<bar>?D\<bar>"] have "sint (word_of_int (\<bar>?D\<bar> * 1000000000) :: int64) = \<bar>?D\<bar> * 1000000000"
    using assms by simp
  ultimately show ?thesis unfolding withinSkew_def by (simp only:)
qed
lemma skew_overflow: "withinSkew 0 9223372037 tsSkewWindow" "withinSkew 0 (- 18446744074) tsSkewWindow"
  by code_simp+

text \<open>C40. The freshness check of a signed prekey is exact for timestamps up to 292 years from the
  clock: it accepts those within five minutes before or after it, and no other. The bound is sharp:
  beyond it the product overflows, and timestamps 292 and 584 years from the clock pass.\<close>

theorem skew_check_exact:
  "(\<bar>now div 1000000000 - sint ts\<bar> \<le> 9223372036 \<longrightarrow>
     (withinSkew now ts tsSkewWindow \<longleftrightarrow> \<bar>now div 1000000000 - sint ts\<bar> \<le> 300))
   \<and> withinSkew 0 9223372037 tsSkewWindow \<and> withinSkew 0 (- 18446744074) tsSkewWindow"
  using withinSkew_exact [of now ts tsSkewWindow] skew_overflow
  by (simp add: tsSkewWindow_def minutes_def)

theorem skew_check_exact_witness:
  "withinSkew 1700000000000000000 1700000300 tsSkewWindow \<and> \<not> withinSkew 1700000000000000000 1700000301 tsSkewWindow"
  using skew_check_exact [of 1700000000000000000 1700000300] skew_check_exact [of 1700000000000000000 1700000301]
  by simp

end
