(* ===== verification/Base64.thy ===== *)
theory Base64
  imports Encoding
begin

text \<open>
  Reading base64: \<^verbatim>\<open>encoding/base64\<close> as the handlers call it, in the standard and the
  URL alphabet, with and without padding, and the readers built on it:
  \<^verbatim>\<open>decodeB64\<close> of the three packages under \<^verbatim>\<open>internal/e2ee\<close>,
  \<^verbatim>\<open>decodeBase64\<close> and \<^verbatim>\<open>decodeMemberTokenPath\<close> of
  \<^verbatim>\<open>handler/album.go\<close> and \<^verbatim>\<open>decodeOptionalBase64\<close> of
  \<^verbatim>\<open>handler/media.go\<close>. Two readers that accept the same text read the same bytes, so a
  member token survives its path whichever of the four forms a client writes.
\<close>

section \<open>Decoding\<close>

definition b64_index :: "bytes \<Rightarrow> byte \<Rightarrow> nat option" where
  "b64_index al c = find (\<lambda>i. al ! i = c) [0..<length al]"

text \<open>The bytes of a quantum of two, three or four digits. The library does not ask the bits that
  are left over to be zero.\<close>

definition quantum2 :: "nat \<Rightarrow> nat \<Rightarrow> bytes" where
  "quantum2 a b = [word_of_nat (a * 4 + b div 16)]"

definition quantum3 :: "nat \<Rightarrow> nat \<Rightarrow> nat \<Rightarrow> bytes" where
  "quantum3 a b c = quantum2 a b @ [word_of_nat (b mod 16 * 16 + c div 4)]"

definition quantum4 :: "nat \<Rightarrow> nat \<Rightarrow> nat \<Rightarrow> nat \<Rightarrow> bytes" where
  "quantum4 a b c d = quantum3 a b c @ [word_of_nat (c mod 4 * 64 + d)]"

text \<open>The digits after line breaks are taken out: with padding every quantum has four characters
  and the last may end in one or two signs \<^verbatim>\<open>=\<close>, without padding the last may be shorter
  and no sign is allowed.\<close>

fun b64_quanta :: "bytes \<Rightarrow> bool \<Rightarrow> bytes \<Rightarrow> bytes option" where
  "b64_quanta al pad [] = Some []"
| "b64_quanta al pad [p] = None"
| "b64_quanta al pad [p, q] =
     (if pad then None else case (b64_index al p, b64_index al q) of
        (Some a, Some b) \<Rightarrow> Some (quantum2 a b) | _ \<Rightarrow> None)"
| "b64_quanta al pad [p, q, r] =
     (if pad then None else case (b64_index al p, b64_index al q, b64_index al r) of
        (Some a, Some b, Some c) \<Rightarrow> Some (quantum3 a b c) | _ \<Rightarrow> None)"
| "b64_quanta al pad (p # q # r # s # rest) =
     (case (b64_index al p, b64_index al q) of
        (Some a, Some b) \<Rightarrow>
          (case b64_index al r of
             None \<Rightarrow> if pad \<and> r = 61 \<and> s = 61 \<and> rest = [] then Some (quantum2 a b) else None
           | Some c \<Rightarrow>
             (case b64_index al s of
                None \<Rightarrow> if pad \<and> s = 61 \<and> rest = [] then Some (quantum3 a b c) else None
              | Some d \<Rightarrow> map_option (\<lambda>bs. quantum4 a b c d @ bs) (b64_quanta al pad rest)))
      | _ \<Rightarrow> None)"

definition b64_decode :: "bytes \<Rightarrow> bool \<Rightarrow> bytes \<Rightarrow> bytes option" where
  "b64_decode al pad s = b64_quanta al pad (filter (\<lambda>c. c \<noteq> 10 \<and> c \<noteq> 13) s)"

definition StdDecode :: "bytes \<Rightarrow> bytes option" where "StdDecode = b64_decode b64_std True"
definition URLDecode :: "bytes \<Rightarrow> bytes option" where "URLDecode = b64_decode b64_url True"
definition RawStdDecode :: "bytes \<Rightarrow> bytes option" where "RawStdDecode = b64_decode b64_std False"
definition RawURLDecode :: "bytes \<Rightarrow> bytes option" where "RawURLDecode = b64_decode b64_url False"

definition RawStdEncode :: "bytes \<Rightarrow> bytes" where
  "RawStdEncode bs = map ((!) b64_std) (sixes (map unat bs))"

section \<open>Readers of the handlers\<close>

definition decodeB64 :: "bytes \<Rightarrow> string \<Rightarrow> err + bytes" where
  "decodeB64 s field =
     (if s = [] then Inl (Api E_VALIDATION (field @ '' is required''))
      else case StdDecode s of
        None \<Rightarrow> Inl (Api E_VALIDATION (field @ '' must be base64'')) | Some b \<Rightarrow> Inr b)"

definition decodeOptionalBase64 :: "bytes \<Rightarrow> string \<Rightarrow> err + bytes" where
  "decodeOptionalBase64 s name =
     (if s = [] then Inr []
      else case StdDecode s of
        None \<Rightarrow> Inl (Api E_VALIDATION (name @ '' must be base64'')) | Some b \<Rightarrow> Inr b)"

definition decodeBase64 :: "bytes \<Rightarrow> bytes option" where
  "decodeBase64 s = (case StdDecode s of Some b \<Rightarrow> Some b | None \<Rightarrow> URLDecode s)"

fun first_decoder :: "(bytes \<Rightarrow> bytes option) list \<Rightarrow> bytes \<Rightarrow> bytes option" where
  "first_decoder [] s = None"
| "first_decoder (f # fs) s = (case f s of Some b \<Rightarrow> Some b | None \<Rightarrow> first_decoder fs s)"

definition decodeMemberTokenPath :: "bytes \<Rightarrow> bytes option" where
  "decodeMemberTokenPath s = first_decoder [RawURLDecode, URLDecode, RawStdDecode, StdDecode] s"

section \<open>The alphabets\<close>

definition b64_alphabet :: "bytes \<Rightarrow> bool" where
  "b64_alphabet al \<longleftrightarrow> al = b64_std \<or> al = b64_url"

lemma b64_alphabetD:
  assumes "b64_alphabet al"
  shows "length al = 64" "distinct al" "61 \<notin> set al" "10 \<notin> set al" "13 \<notin> set al"
  using assms by (auto simp: b64_alphabet_def b64_std_def b64_url_def ascii_def)

lemma b64_index_Some: "b64_index al c = Some i \<Longrightarrow> i < length al \<and> al ! i = c"
  using find_Some_in by (fastforce simp: b64_index_def)

lemma b64_index_nth:
  assumes "distinct al" "i < length al"
  shows "b64_index al (al ! i) = Some i"
proof -
  have "b64_index al (al ! i) \<noteq> None" using assms(2) by (auto simp: b64_index_def find_None_all)
  then obtain j where j: "b64_index al (al ! i) = Some j" by blast
  have "j < length al" "al ! j = al ! i" using b64_index_Some [OF j] by simp_all
  then have "j = i" using assms nth_eq_iff_index_eq by blast
  with j show ?thesis by simp
qed

lemma b64_index_pad: "b64_alphabet al \<Longrightarrow> b64_index al 61 = None"
  using b64_alphabetD(3) b64_index_Some by (metis not_Some_eq nth_mem)

text \<open>The two alphabets differ only in the digits for 62 and 63, and there have no character in
  common.\<close>

lemma b64_index_agree:
  assumes "b64_alphabet al" "b64_alphabet al'" "b64_index al c = Some i" "b64_index al' c = Some j"
  shows "i = j"
proof -
  have same: "list_all (\<lambda>i. case b64_index b64_url (b64_std ! i) of None \<Rightarrow> True | Some j \<Rightarrow> i = j) [0..<64]"
    by code_simp
  have std_url: "i = j" if "b64_index b64_std c = Some i" "b64_index b64_url c = Some j" for i j
  proof -
    have "length b64_std = 64" by (rule b64_alphabetD(1)) (simp add: b64_alphabet_def)
    then have "i < 64" "b64_std ! i = c" using b64_index_Some [OF that(1)] by simp_all
    moreover have "i \<in> set [0..<64]" using \<open>i < 64\<close> by simp
    then have "case b64_index b64_url (b64_std ! i) of None \<Rightarrow> True | Some j \<Rightarrow> i = j"
      using same unfolding list_all_iff by (rule bspec [rotated])
    ultimately show ?thesis using that(2) by simp
  qed
  from assms show ?thesis unfolding b64_alphabet_def by (auto dest: std_url)
qed

section \<open>Readers that accept the same text agree\<close>

lemma b64_quanta_agree:
  "b64_quanta al pad s = Some x \<Longrightarrow> b64_quanta al' pad' s = Some y \<Longrightarrow>
   b64_alphabet al \<Longrightarrow> b64_alphabet al' \<Longrightarrow> x = y"
proof (induction al pad s arbitrary: x y rule: b64_quanta.induct)
  case (5 al pad p q r s rest)
  note agree = b64_index_agree [OF "5.prems"(3,4)] and none = b64_index_pad [OF "5.prems"(3)] b64_index_pad [OF "5.prems"(4)]
  obtain a b where ab: "b64_index al p = Some a" "b64_index al q = Some b"
    using "5.prems"(1) by (auto split: option.splits)
  obtain a' b' where ab': "b64_index al' p = Some a'" "b64_index al' q = Some b'"
    using "5.prems"(2) by (auto split: option.splits)
  have [simp]: "a' = a" "b' = b" using agree [OF ab(1) ab'(1)] agree [OF ab(2) ab'(2)] by simp_all
  show ?case
  proof (cases "b64_index al r")
    case None
    with "5.prems"(1) ab have "r = 61" "x = quantum2 a b" by (auto split: if_splits)
    with "5.prems"(2) ab' none show ?thesis by (auto split: if_splits)
  next
    case c: (Some c)
    then have "b64_index al' r \<noteq> None" using "5.prems"(2) none ab' by (auto split: if_splits option.splits)
    with agree [OF c] have c': "b64_index al' r = Some c" by auto
    show ?thesis
    proof (cases "b64_index al s")
      case None
      with "5.prems"(1) ab c have "s = 61" "x = quantum3 a b c" by (auto split: if_splits)
      with "5.prems"(2) ab' c' none show ?thesis by (auto split: if_splits)
    next
      case d: (Some d)
      then have "b64_index al' s \<noteq> None" using "5.prems"(2) none ab' c' by (auto split: if_splits option.splits)
      with agree [OF d] have "b64_index al' s = Some d" by auto
      with "5.IH" [OF refl ab c d] "5.prems" ab c d ab' c' show ?thesis by auto
    qed
  qed
qed (auto split: if_splits option.splits dest: b64_index_agree)

lemma b64_decode_agree:
  "b64_decode al pad s = Some x \<Longrightarrow> b64_decode al' pad' s = Some y \<Longrightarrow>
   b64_alphabet al \<Longrightarrow> b64_alphabet al' \<Longrightarrow> x = y"
  unfolding b64_decode_def by (rule b64_quanta_agree)

section \<open>Round trips\<close>

lemma six_quanta:
  fixes a b c :: nat
  assumes "a < 256" "b < 256" "c < 256"
  shows "quantum2 (a div 4) (a mod 4 * 16 + b div 16) = [word_of_nat a]"
    "quantum3 (a div 4) (a mod 4 * 16 + b div 16) (b mod 16 * 4 + c div 64) = [word_of_nat a, word_of_nat b]"
    "quantum4 (a div 4) (a mod 4 * 16 + b div 16) (b mod 16 * 4 + c div 64) (c mod 64) =
       [word_of_nat a, word_of_nat b, word_of_nat c]"
proof -
  have lt: "b div 16 < 16" "c div 64 < 4" using assms by (simp_all add: less_mult_imp_div_less)
  have "a div 4 * 4 + (a mod 4 * 16 + b div 16) div 16 = a" using lt by simp
  moreover have "(a mod 4 * 16 + b div 16) mod 16 * 16 + (b mod 16 * 4 + c div 64) div 4 = b"
    using lt by simp
  moreover have "(b mod 16 * 4 + c div 64) mod 4 * 64 + c mod 64 = c" using lt by simp
  ultimately show "quantum2 (a div 4) (a mod 4 * 16 + b div 16) = [word_of_nat a]"
    "quantum3 (a div 4) (a mod 4 * 16 + b div 16) (b mod 16 * 4 + c div 64) = [word_of_nat a, word_of_nat b]"
    "quantum4 (a div 4) (a mod 4 * 16 + b div 16) (b mod 16 * 4 + c div 64) (c mod 64) =
       [word_of_nat a, word_of_nat b, word_of_nat c]"
    by (simp_all only: quantum2_def quantum3_def quantum4_def append.simps)
qed

definition pad_signs :: "nat \<Rightarrow> bytes" where
  "pad_signs n = replicate ((3 - n mod 3) mod 3) 61"

lemma b64_quanta_sixes:
  assumes al: "b64_alphabet al"
  shows "\<forall>x\<in>set xs. x < 256 \<Longrightarrow>
     b64_quanta al False (map ((!) al) (sixes xs)) = Some (map word_of_nat xs) \<and>
     b64_quanta al True (map ((!) al) (sixes xs) @ pad_signs (length xs)) = Some (map word_of_nat xs)"
proof (induction xs rule: sixes.induct)
  case (1 a b c xs)
  note idx = b64_index_nth [OF b64_alphabetD(2) [OF al], unfolded b64_alphabetD(1) [OF al]]
  have lt: "a < 256" "b < 256" "c < 256" using "1.prems" by simp_all
  have "pad_signs (length (a # b # c # xs)) = pad_signs (length xs)" by (simp add: pad_signs_def)
  with 1 show ?case by (simp add: idx six_bounds [OF lt] six_quanta [OF lt])
next
  case (2 a b)
  note idx = b64_index_nth [OF b64_alphabetD(2) [OF al], unfolded b64_alphabetD(1) [OF al]]
  have lt: "a < 256" "b < 256" "(0::nat) < 256" using "2.prems" by simp_all
  note q = six_quanta(2) [OF lt, simplified]
  show ?case by (simp add: pad_signs_def idx six_bounds [OF lt] b64_index_pad [OF al] q)
next
  case (3 a)
  note idx = b64_index_nth [OF b64_alphabetD(2) [OF al], unfolded b64_alphabetD(1) [OF al]]
  have lt: "a < 256" "(0::nat) < 256" "(0::nat) < 256" using "3.prems" by simp_all
  note q = six_quanta(1) [OF lt, simplified]
  show ?case by (simp add: pad_signs_def numeral_2_eq_2 idx six_bounds [OF lt] b64_index_pad [OF al] q)
qed (simp_all add: pad_signs_def)

lemma b64_round_trip:
  assumes al: "b64_alphabet al"
  shows "b64_decode al False (map ((!) al) (sixes (map unat bs))) = Some bs"
    "b64_decode al True (map ((!) al) (sixes (map unat bs)) @ b64_pad bs) = Some bs"
proof -
  let ?e = "map ((!) al) (sixes (map unat bs))"
  have byte: "\<forall>x\<in>set (map unat bs). x < 256" using unsigned_less [where ?'b = 8 and ?'a = nat] by auto
  have words: "map word_of_nat (map unat bs) = bs" by (simp add: map_idI)
  have "set ?e \<subseteq> set al" using sixes_bound [OF byte] b64_alphabetD(1) [OF al] by auto
  then have "\<forall>c\<in>set (?e @ b64_pad bs). c \<noteq> 10 \<and> c \<noteq> 13"
    using b64_alphabetD(4,5) [OF al] by (auto simp: b64_pad_def)
  then have keep: "filter (\<lambda>c. c \<noteq> 10 \<and> c \<noteq> 13) ?e = ?e"
    "filter (\<lambda>c. c \<noteq> 10 \<and> c \<noteq> 13) (?e @ b64_pad bs) = ?e @ b64_pad bs"
    by (simp_all add: filter_id_conv)
  have pad: "pad_signs (length (map unat bs)) = b64_pad bs" by (simp add: b64_pad_def pad_signs_def)
  from b64_quanta_sixes [OF al byte] show "b64_decode al False ?e = Some bs"
    "b64_decode al True (?e @ b64_pad bs) = Some bs"
    by (simp_all only: b64_decode_def keep words pad)
qed

lemma b64_readers [simp]:
  "StdDecode (StdEncode bs) = Some bs" "URLDecode (URLEncode bs) = Some bs"
  "RawStdDecode (RawStdEncode bs) = Some bs" "RawURLDecode (RawURLEncode bs) = Some bs"
  by (simp_all add: StdDecode_def URLDecode_def RawStdDecode_def RawURLDecode_def StdEncode_def
      URLEncode_def RawStdEncode_def RawURLEncode_def b64_round_trip b64_alphabet_def)

lemma StdEncode_Nil [simp]: "StdEncode bs = [] \<longleftrightarrow> bs = []"
proof
  assume "StdEncode bs = []"
  then have "StdDecode [] = Some bs" using b64_readers(1) [of bs] by simp
  then show "bs = []" by (simp add: StdDecode_def b64_decode_def)
qed (simp add: StdEncode_def b64_pad_def)

lemma decodeB64_StdEncode: "bs \<noteq> [] \<Longrightarrow> decodeB64 (StdEncode bs) field = Inr bs"
  by (simp add: decodeB64_def)

lemma decodeOptionalBase64_StdEncode: "decodeOptionalBase64 (StdEncode bs) name = Inr bs"
  by (simp add: decodeOptionalBase64_def)

text \<open>The decoders of the program, and what the first one that accepts reads.\<close>

definition b64_decoder :: "(bytes \<Rightarrow> bytes option) \<Rightarrow> bool" where
  "b64_decoder f \<longleftrightarrow> (\<exists>al pad. b64_alphabet al \<and> f = b64_decode al pad)"

lemma b64_decoders: "b64_decoder StdDecode" "b64_decoder URLDecode" "b64_decoder RawStdDecode" "b64_decoder RawURLDecode"
  by (auto simp: b64_decoder_def b64_alphabet_def StdDecode_def URLDecode_def RawStdDecode_def RawURLDecode_def)

lemma first_decoder_accepts:
  assumes "\<forall>f\<in>set fs. b64_decoder f" "f \<in> set fs" "f s = Some b"
  shows "first_decoder fs s = Some b"
  using assms(1,2)
proof (induction fs)
  case (Cons g fs)
  show ?case
  proof (cases "g s")
    case None
    with Cons assms(3) show ?thesis by auto
  next
    case (Some c)
    have "b64_decoder g" "b64_decoder f" using Cons.prems by auto
    then have "c = b" using b64_decode_agree Some assms(3) unfolding b64_decoder_def by blast
    with Some show ?thesis by simp
  qed
qed simp

lemma decodeMemberTokenPath_accepts:
  assumes "f s = Some b" "f \<in> {RawURLDecode, URLDecode, RawStdDecode, StdDecode}"
  shows "decodeMemberTokenPath s = Some b"
  unfolding decodeMemberTokenPath_def
  by (rule first_decoder_accepts [where f = f]) (use assms b64_decoders in auto)

lemma decodeBase64_accepts:
  assumes "StdDecode s = Some b \<or> URLDecode s = Some b"
  shows "decodeBase64 s = Some b"
  using assms b64_decode_agree [of b64_std True s _ b64_url True b]
  by (auto simp: decodeBase64_def StdDecode_def URLDecode_def b64_alphabet_def split: option.split)

end
