(* ===== verification/Http.thy ===== *)
theory Http
  imports Base64 Prekeys Account_Deletion Auth Rate_Limit
begin

text \<open>
  What the HTTP handlers share. A handler is a function from the context the middleware left, the
  path variables and the decoded body to an answer, the live events it sends and the state. The body
  is the request struct that \<^verbatim>\<open>json.Decode\<close> fills; \<open>None\<close> is a body it refuses. The
  answer is an error, which \<^verbatim>\<open>apierr.Write\<close> turns into an envelope, or a status with a
  JSON body: \<open>json\<close> has the fields the handlers put into their maps, in the order of the source
  (the encoder sorts them). Headers are not part of the answer, except for what the middleware theory
  says of them.
\<close>

section \<open>Answers\<close>

datatype json =
  Null | Bool bool | Num int | Text bytes | Stamp time
| Arr "json list" | Obj "(string \<times> json) list"

record response =
  rs_status :: nat
  rs_body :: "json option"

definition NoContent :: response where "NoContent = \<lparr>rs_status = 204, rs_body = None\<rparr>"

definition ok_json :: "json \<Rightarrow> response" where
  "ok_json j = \<lparr>rs_status = 200, rs_body = Some j\<rparr>"

definition created_json :: "json \<Rightarrow> response" where
  "created_json j = \<lparr>rs_status = 201, rs_body = Some j\<rparr>"

text \<open>\<^verbatim>\<open>apierr.Write\<close>. The detail object, which only the rate limiter fills, is left
  out.\<close>

definition Write :: "err \<Rightarrow> response" where
  "Write e = (let (c, m) = error_envelope e in
     \<lparr>rs_status = http_status c,
      rs_body = Some (Obj [(''code'', Text (ascii (code_string c))), (''message'', Text (ascii m))])\<rparr>)"

definition b64_json :: "bytes \<Rightarrow> json" where "b64_json b = Text (StdEncode b)"

definition uuid_json :: "env \<Rightarrow> uuid \<Rightarrow> json" where "uuid_json E u = Text (uuid_String E u)"

definition role_json :: "role \<Rightarrow> json" where
  "role_json r = Text (ascii (case r of Admin \<Rightarrow> ''admin'' | CoAdmin \<Rightarrow> ''co-admin'' | Member \<Rightarrow> ''member''))"

text \<open>\<^verbatim>\<open>Format(time.RFC3339)\<close> and the layout of the same shape: whole seconds.\<close>

definition rfc3339 :: "time \<Rightarrow> json" where
  "rfc3339 t = Stamp ((t div seconds 1) * seconds 1)"

section \<open>Requests\<close>

text \<open>What the middleware put into the context of a request.\<close>

record req_context =
  cx_user :: "uuid option"
  cx_token :: "bytes option"
  cx_role :: "role option"

definition MustGetUserID :: "req_context \<Rightarrow> err + uuid" where
  "MustGetUserID cx = (case cx_user cx of
     None \<Rightarrow> Inl (Api E_AUTH ''authentication required'') | Some u \<Rightarrow> Inr u)"

text \<open>\<^verbatim>\<open>MustGetMemberToken\<close> with the message of its caller.\<close>

definition MustGetMemberToken :: "string \<Rightarrow> req_context \<Rightarrow> err + bytes" where
  "MustGetMemberToken msg cx = (case cx_token cx of None \<Rightarrow> Inl (Api E_AUTH msg) | Some t \<Rightarrow> Inr t)"

definition decode_body :: "'a option \<Rightarrow> err + 'a" where
  "decode_body b = (case b of
     None \<Rightarrow> Inl (Api E_VALIDATION ''invalid request body'') | Some x \<Rightarrow> Inr x)"

definition parse_uuid :: "env \<Rightarrow> string \<Rightarrow> bytes \<Rightarrow> err + uuid" where
  "parse_uuid E msg raw = (case uuid_Parse E raw of
     None \<Rightarrow> Inl (Api E_VALIDATION msg) | Some u \<Rightarrow> Inr u)"

definition scopedAlbumID :: "env \<Rightarrow> bytes \<Rightarrow> err + uuid" where
  "scopedAlbumID E raw = parse_uuid E ''invalid album id'' raw"

text \<open>\<^verbatim>\<open>albumID\<close> of the epoch and invitation handlers; a missing path variable is
  \<open>None\<close>.\<close>

definition e2ee_albumID :: "env \<Rightarrow> bytes option \<Rightarrow> err + uuid" where
  "e2ee_albumID E raw = (case raw of
     None \<Rightarrow> Inl (Api E_VALIDATION ''missing album id in path'')
   | Some s \<Rightarrow> parse_uuid E ''invalid album id'' s)"

definition parseOptionalUUID :: "env \<Rightarrow> string \<Rightarrow> bytes \<Rightarrow> err + uuid" where
  "parseOptionalUUID E msg raw = (if raw = [] then Inr 0 else parse_uuid E msg raw)"

definition std_field :: "string \<Rightarrow> bytes \<Rightarrow> err + bytes" where
  "std_field name s = (case StdDecode s of
     None \<Rightarrow> Inl (Api E_VALIDATION (name @ '' must be base64'')) | Some b \<Rightarrow> Inr b)"

section \<open>Control flow\<close>

type_synonym 's reply = "(err + response) \<times> emission list \<times> 's"

definition reply_state :: "'s reply \<Rightarrow> 's" where "reply_state r = snd (snd r)"
definition reply_events :: "'s reply \<Rightarrow> emission list" where "reply_events r = fst (snd r)"

text \<open>The early return: a failed check is written and the handler ends.\<close>

definition require :: "err + 'a \<Rightarrow> ('a \<Rightarrow> 's \<Rightarrow> 's reply) \<Rightarrow> 's \<Rightarrow> 's reply" where
  "require x f s = (case x of Inl e \<Rightarrow> (Inl e, [], s) | Inr v \<Rightarrow> f v s)"

definition sum_bind :: "err + 'a \<Rightarrow> ('a \<Rightarrow> err + 'b) \<Rightarrow> err + 'b" where
  "sum_bind x f = (case x of Inl e \<Rightarrow> Inl e | Inr v \<Rightarrow> f v)"

text \<open>The loops that decode the items of a body stop at the first error.\<close>

fun sum_map :: "('a \<Rightarrow> err + 'b) \<Rightarrow> 'a list \<Rightarrow> err + 'b list" where
  "sum_map f [] = Inr []"
| "sum_map f (x # xs) = sum_bind (f x) (\<lambda>y. sum_bind (sum_map f xs) (\<lambda>ys. Inr (y # ys)))"

text \<open>A read that answers.\<close>

definition answer :: "('s \<Rightarrow> err + 'a) \<Rightarrow> ('a \<Rightarrow> response) \<Rightarrow> 's \<Rightarrow> 's reply" where
  "answer q f s = (case q s of Inl e \<Rightarrow> (Inl e, [], s) | Inr v \<Rightarrow> (Inr (f v), [], s))"

text \<open>A transaction that answers; \<open>ev\<close> are the events sent after its commit.\<close>

definition commit :: "(err, 'a, 's) tx \<Rightarrow> ('a \<Rightarrow> response) \<Rightarrow> ('a \<Rightarrow> 's \<Rightarrow> emission list) \<Rightarrow> 's \<Rightarrow> 's reply" where
  "commit t f ev s = (case t s of Inl e \<Rightarrow> (Inl e, [], s) | Inr (v, s') \<Rightarrow> (Inr (f v), ev v s', s'))"

definition no_events :: "'a \<Rightarrow> 's \<Rightarrow> emission list" where "no_events v s = []"

text \<open>A service that reports an error after it changed the state.\<close>

definition finish :: "('a \<Rightarrow> response) \<Rightarrow> (err + 'a) \<times> emission list \<times> 's \<Rightarrow> 's reply" where
  "finish f r = (case r of (Inl e, ev, s) \<Rightarrow> (Inl e, ev, s) | (Inr v, ev, s) \<Rightarrow> (Inr (f v), ev, s))"

definition quiet :: "'a \<times> 's \<Rightarrow> 'a \<times> emission list \<times> 's" where
  "quiet r = (fst r, [], snd r)"

text \<open>The error a handler writes instead of the one it got.\<close>

definition relabel :: "(err \<Rightarrow> err) \<Rightarrow> err + 'a \<Rightarrow> err + 'a" where
  "relabel g x = (case x of Inl e \<Rightarrow> Inl (g e) | Inr v \<Rightarrow> Inr v)"

definition relabel_tx :: "(err \<Rightarrow> err) \<Rightarrow> (err, 'a, 's) tx \<Rightarrow> (err, 'a, 's) tx" where
  "relabel_tx g t s = relabel g (t s)"

section \<open>Reasoning about handlers\<close>

lemma reply_simps [simp]: "reply_state (r, ev, s) = s" "reply_events (r, ev, s) = ev"
  by (simp_all add: reply_state_def reply_events_def)

lemma require_simps [simp]: "require (Inl e) f s = (Inl e, [], s)" "require (Inr v) f s = f v s"
  by (simp_all add: require_def)

lemma relabel_simps [simp]: "relabel g (Inl e) = Inl (g e)" "relabel g (Inr v) = Inr v"
  by (simp_all add: relabel_def)

lemma relabel_Inr: "relabel g x = Inr v \<longleftrightarrow> x = Inr v"
  by (cases x) simp_all

lemma sum_bind_simps [simp]: "sum_bind (Inl e) f = Inl e" "sum_bind (Inr v) f = f v"
  by (simp_all add: sum_bind_def)

lemma sum_bind_Inr: "sum_bind x f = Inr y \<longleftrightarrow> (\<exists>v. x = Inr v \<and> f v = Inr y)"
  by (cases x) simp_all

lemma sum_map_Inr: "sum_map f xs = Inr ys \<Longrightarrow> list_all2 (\<lambda>x y. f x = Inr y) xs ys"
  by (induction xs arbitrary: ys) (auto simp: sum_bind_Inr)

text \<open>A relation on states that every service keeps is kept by the handlers around them.\<close>

lemma require_state:
  "R s s \<Longrightarrow> (\<And>v. x = Inr v \<Longrightarrow> R s (reply_state (f v s))) \<Longrightarrow> R s (reply_state (require x f s))"
  by (cases x) simp_all

lemma answer_state [simp]: "reply_state (answer q f s) = s"
  by (simp add: answer_def split: sum.split)

lemma commit_state: "reply_state (commit t f ev s) = snd (run_tx t s)"
  by (cases t s rule: run_tx_cases) (simp_all add: commit_def)

lemma finish_state [simp]: "reply_state (finish f r) = snd (snd r)"
  by (simp add: finish_def reply_state_def split: prod.split sum.split)

lemma quiet_simps [simp]: "fst (quiet r) = fst r" "fst (snd (quiet r)) = []" "snd (snd (quiet r)) = snd r"
  by (simp_all add: quiet_def)

lemma run_relabel: "snd (run_tx (relabel_tx g t) s) = snd (run_tx t s)"
  by (simp add: run_tx_def relabel_tx_def relabel_def split: sum.split)

end
