(* ===== verification/Album_Routes.thy ===== *)
theory Album_Routes
  imports Http
begin

text \<open>
  \<^verbatim>\<open>handler/album.go\<close>: the routes of an album and its roster, from the path variables
  and the decoded body to the JSON that is written. The decisions are those of
  \<^verbatim>\<open>Albums\<close>; here they get their requests and their answers.
\<close>

section \<open>JSON of albums and members\<close>

definition avatarJSON :: "env \<Rightarrow> avatar_ref \<Rightarrow> json" where
  "avatarJSON E a = Obj [(''avatar_id'', uuid_json E (ar_id a)), (''blob_size'', Num (ar_size a)),
     (''blob_sha256'', b64_json (ar_sha256 a)), (''key_ct'', b64_json (ar_key_ct a))]"

text \<open>The base64 text of no bytes is the empty text.\<close>

definition previewMediaJSON :: "env \<Rightarrow> preview_media list \<Rightarrow> json" where
  "previewMediaJSON E ps = Arr (map (\<lambda>p. Obj
     [(''media_id'', uuid_json E (pm_id p)), (''epoch_tag'', Num (pm_epoch p)),
      (''thumb_wrap_nonce'', b64_json (opt_bytes (pm_nonce p))),
      (''thumb_wrap_tag_ct'', b64_json (opt_bytes (pm_tag_ct p))),
      (''thumb_size'', case pm_size p of None \<Rightarrow> Null | Some n \<Rightarrow> Num n),
      (''thumb_sha256'', b64_json (opt_bytes (pm_sha256 p)))]) ps)"

definition optBase64 :: "bytes \<Rightarrow> json" where
  "optBase64 b = (if b = [] then Null else b64_json b)"

definition memberPreviewsJSON :: "env \<Rightarrow> member_preview list \<Rightarrow> json" where
  "memberPreviewsJSON E ms = Arr (map (\<lambda>m. Obj
     ([(''member_token'', b64_json (mp_token m)), (''name_ct'', optBase64 (opt_bytes (mp_name_ct m)))] @
      (case mp_avatar m of None \<Rightarrow> [] | Some a \<Rightarrow> [(''avatar'', avatarJSON E a)]))) ms)"

definition album_fields :: "env \<Rightarrow> album \<Rightarrow> role \<Rightarrow> bytes \<Rightarrow> (string \<times> json) list" where
  "album_fields E al r token =
     [(''id'', uuid_json E (a_id al)), (''name_ct'', b64_json (name_ct al)),
      (''created_at'', Stamp (a_created_at al)), (''updated_at'', Stamp (a_updated_at al)),
      (''member_token'', b64_json token), (''role'', role_json r)]"

definition shelfJSON :: "env \<Rightarrow> album_info \<Rightarrow> json" where
  "shelfJSON E x = (let su = inf_summary x in Obj (album_fields E (inf_album x) (inf_role x) (inf_token x) @
     [(''media_count'', Num (int (su_media_count su))),
      (''active_member_count'', Num (int (su_active_members su))),
      (''latest_activity_at'', case su_latest su of None \<Rightarrow> Null | Some t \<Rightarrow> Stamp t),
      (''media_generation'', Num (su_generation su)),
      (''rotation_required'', Bool (su_rotation su = Some True)),
      (''preview_media'', previewMediaJSON E (su_media su)),
      (''member_previews'', memberPreviewsJSON E (su_members su))]))"

definition memberJSON :: "env \<Rightarrow> member_profile \<Rightarrow> json" where
  "memberJSON E m = Obj
     [(''member_token'', b64_json (mw_token m)), (''role'', role_json (mw_role m)),
      (''revoked'', Bool (mw_revoked m)), (''joined_at'', Stamp (mw_joined m)),
      (''profile'', Obj ([(''ik_pub'', optBase64 (opt_bytes (mw_ik m))),
         (''lk_pub'', optBase64 (opt_bytes (mw_lk m))),
         (''name_ct'', optBase64 (opt_bytes (mw_name_ct m)))] @
         (case mw_avatar m of None \<Rightarrow> [] | Some a \<Rightarrow> [(''avatar'', avatarJSON E a)])))]"

section \<open>Handlers\<close>

text \<open>The body of the three requests with a name is its \<^verbatim>\<open>name_ct\<close> field.\<close>

definition name_ct_field :: "bytes \<Rightarrow> err + bytes" where
  "name_ct_field s = (case decodeBase64 s of
     None \<Rightarrow> Inl (Api E_VALIDATION ''name_ct must be base64-encoded ciphertext'')
   | Some b \<Rightarrow> if b = [] then Inl (Api E_VALIDATION ''name_ct must be base64-encoded ciphertext'') else Inr b)"

definition http_CreateAlbum ::
  "env \<Rightarrow> time \<Rightarrow> uuid \<Rightarrow> bytes \<Rightarrow> req_context \<Rightarrow> bytes option \<Rightarrow> db \<Rightarrow> db reply" where
  "http_CreateAlbum E now newID token cx body =
     require (MustGetUserID cx) (\<lambda>userID.
     require (decode_body body) (\<lambda>name.
     require (name_ct_field name) (\<lambda>nameCT.
     commit (relabel_tx (\<lambda>_. Api E_INTERNAL ''failed to create album'')
         (CreateAlbum E now newID token nameCT userID))
       (\<lambda>(al, tk, r). created_json (Obj (album_fields E al r tk))) no_events)))"

definition get_album_error :: "err \<Rightarrow> err" where
  "get_album_error e = (if e = Service SvcErrUnauthorized
     then Api E_NOT_MEMBER ''not a member of this album'' else Api E_INTERNAL ''failed to fetch album'')"

definition http_GetAlbum :: "env \<Rightarrow> req_context \<Rightarrow> bytes \<Rightarrow> db \<Rightarrow> db reply" where
  "http_GetAlbum E cx idVar =
     require (MustGetUserID cx) (\<lambda>userID.
     require (scopedAlbumID E idVar) (\<lambda>albumID.
     answer (\<lambda>d. relabel get_album_error (GetAlbum E albumID userID d))
       (\<lambda>(al, r, tk). ok_json (Obj (album_fields E al r tk)))))"

definition http_ListAlbums :: "env \<Rightarrow> req_context \<Rightarrow> db \<Rightarrow> db reply" where
  "http_ListAlbums E cx =
     require (MustGetUserID cx) (\<lambda>userID.
     answer (\<lambda>d. Inr (ListForUser E userID d)) (\<lambda>xs. ok_json (Arr (map (shelfJSON E) xs))))"

definition http_UpdateAlbum ::
  "env \<Rightarrow> time \<Rightarrow> req_context \<Rightarrow> bytes \<Rightarrow> bytes option \<Rightarrow> db \<Rightarrow> db reply" where
  "http_UpdateAlbum E now cx idVar body =
     require (MustGetUserID cx) (\<lambda>userID.
     require (scopedAlbumID E idVar) (\<lambda>albumID.
     require (decode_body body) (\<lambda>name.
     require (name_ct_field name) (\<lambda>nameCT.
     commit (handle_UpdateAlbum E now userID albumID nameCT) (\<lambda>_. NoContent) no_events))))"

text \<open>The objects of a deleted album are queued by its transaction; the cleaner the service has
  takes them from there before the members are told.\<close>

definition http_DeleteAlbum ::
  "env \<Rightarrow> objstore \<Rightarrow> time \<Rightarrow> req_context \<Rightarrow> bytes \<Rightarrow> db \<Rightarrow> db reply" where
  "http_DeleteAlbum E S now cx idVar =
     require (MustGetUserID cx) (\<lambda>userID.
     require (scopedAlbumID E idVar) (\<lambda>albumID d.
     (case handle_DeleteAlbum E now userID albumID d of
        Inl e \<Rightarrow> (Inl e, [], d)
      | Inr ((keys, events), d1) \<Rightarrow> (Inr NoContent, events, snd (cleanupObjectKeys S now keys d1)))))"

definition http_ListAlbumMembers :: "env \<Rightarrow> bytes \<Rightarrow> db \<Rightarrow> db reply" where
  "http_ListAlbumMembers E idVar =
     require (scopedAlbumID E idVar) (\<lambda>albumID.
     answer (\<lambda>d. Inr (repo_ListMembers E albumID d)) (\<lambda>ms. ok_json (Arr (map (memberJSON E) ms))))"

definition http_UpdateMyProfileCT :: "env \<Rightarrow> req_context \<Rightarrow> bytes \<Rightarrow> bytes option \<Rightarrow> db \<Rightarrow> db reply" where
  "http_UpdateMyProfileCT E cx idVar body =
     require (scopedAlbumID E idVar) (\<lambda>albumID.
     require (MustGetMemberToken ''member token missing in context'' cx) (\<lambda>memberToken.
     require (decode_body body) (\<lambda>name.
     require (name_ct_field name) (\<lambda>nameCT.
     commit (relabel_tx (\<lambda>_. Api E_INTERNAL ''failed to update name_ct'')
         (svc_UpdateMemberNameCT albumID memberToken nameCT)) (\<lambda>_. NoContent) no_events))))"

definition token_var :: "bytes \<Rightarrow> err + bytes" where
  "token_var s = (case decodeMemberTokenPath s of
     None \<Rightarrow> Inl (Api E_VALIDATION ''invalid member_token in path'') | Some t \<Rightarrow> Inr t)"

definition http_RemoveAlbumMember ::
  "env \<Rightarrow> time \<Rightarrow> req_context \<Rightarrow> bytes \<Rightarrow> bytes \<Rightarrow> db \<Rightarrow> db reply" where
  "http_RemoveAlbumMember E now cx idVar tokenVar =
     require (MustGetUserID cx) (\<lambda>userID.
     require (scopedAlbumID E idVar) (\<lambda>albumID.
     require (token_var tokenVar) (\<lambda>target.
     commit (handle_RemoveAlbumMember E now userID albumID target) (\<lambda>_. NoContent) (\<lambda>events _. events))))"

lemmas album_route_defs = http_CreateAlbum_def http_GetAlbum_def http_ListAlbums_def
  http_UpdateAlbum_def http_DeleteAlbum_def http_ListAlbumMembers_def http_UpdateMyProfileCT_def
  http_RemoveAlbumMember_def

end
