(* ===== verification/Media_Routes.thy ===== *)
theory Media_Routes
  imports Album_Routes
begin

text \<open>
  \<^verbatim>\<open>handler/media.go\<close> and \<^verbatim>\<open>handler/avatar.go\<close>: the upload, confirmation,
  listing, download and deletion of photos and avatars. The storage keys of a row are no field of
  any answer.
\<close>

section \<open>Photos\<close>

record upload_req =
  q_media_id :: bytes
  q_blob_size :: int
  q_blob_sha256 :: bytes
  q_mime_type :: bytes
  q_media_type :: bytes
  q_wrap_nonce :: bytes
  q_wrap_tag_ct :: bytes
  q_epoch_tag :: int
  q_thumb_size :: int
  q_thumb_sha256 :: bytes
  q_thumb_wrap_nonce :: bytes
  q_thumb_wrap_tag_ct :: bytes

text \<open>The fields in the order in which they are decoded.\<close>

definition decode_upload :: "env \<Rightarrow> upload_req \<Rightarrow> err + upload_input" where
  "decode_upload E q =
     sum_bind (parseOptionalUUID E ''invalid media_id'' (q_media_id q)) (\<lambda>mediaID.
     sum_bind (std_field ''blob_sha256'' (q_blob_sha256 q)) (\<lambda>sha.
     sum_bind (std_field ''wrap_nonce'' (q_wrap_nonce q)) (\<lambda>wrapNonce.
     sum_bind (std_field ''wrap_tag_ct'' (q_wrap_tag_ct q)) (\<lambda>wrapTagCT.
     sum_bind (decodeOptionalBase64 (q_thumb_sha256 q) ''thumb_sha256'') (\<lambda>thumbSHA.
     sum_bind (decodeOptionalBase64 (q_thumb_wrap_nonce q) ''thumb_wrap_nonce'') (\<lambda>thumbNonce.
     sum_bind (decodeOptionalBase64 (q_thumb_wrap_tag_ct q) ''thumb_wrap_tag_ct'') (\<lambda>thumbTagCT.
     Inr \<lparr>up_media_id = mediaID, up_blob_size = q_blob_size q, up_blob_sha256 = sha,
       up_mime_type = q_mime_type q, up_media_type = q_media_type q, up_wrap_nonce = wrapNonce,
       up_wrap_tag_ct = wrapTagCT, up_epoch_tag = q_epoch_tag q, up_thumb_size = q_thumb_size q,
       up_thumb_sha256 = thumbSHA, up_thumb_wrap_nonce = thumbNonce,
       up_thumb_wrap_tag_ct = thumbTagCT\<rparr>)))))))"

definition header_json :: "(bytes \<times> bytes) list \<Rightarrow> json" where
  "header_json hs = Obj (map (\<lambda>(k, v). (map (\<lambda>b. char_of (unat b)) k, Text v)) hs)"

definition upload_json :: "env \<Rightarrow> upload_result \<Rightarrow> json" where
  "upload_json E res = Obj
     ([(''media_id'', uuid_json E (ur_media_id res)), (''upload_url'', Text (ur_url res)),
       (''required_header'', header_json (ur_header res))] @
      (if ur_thumb_url res \<noteq> []
       then [(''thumb_upload_url'', Text (ur_thumb_url res)),
             (''thumb_required_header'', header_json (ur_thumb_header res))] else []))"

definition http_RequestUploadURL ::
  "env \<Rightarrow> objstore \<Rightarrow> time \<Rightarrow> uuid \<Rightarrow> uuid \<Rightarrow> bytes \<Rightarrow> bytes \<Rightarrow> req_context \<Rightarrow> bytes
     \<Rightarrow> upload_req option \<Rightarrow> db \<Rightarrow> db reply" where
  "http_RequestUploadURL E S now newID newRes rnd rndThumb cx idVar body =
     require (scopedAlbumID E idVar) (\<lambda>albumID.
     require (MustGetMemberToken ''member token missing in context'' cx) (\<lambda>memberToken.
     require (decode_body body) (\<lambda>q.
     require (decode_upload E q) (\<lambda>inp d.
     finish (\<lambda>res. created_json (upload_json E res))
       (quiet (RequestUploadURL S now newID newRes rnd rndThumb albumID memberToken inp d))))))"

definition http_ConfirmUpload ::
  "env \<Rightarrow> objstore \<Rightarrow> time \<Rightarrow> req_context \<Rightarrow> bytes \<Rightarrow> bytes option \<Rightarrow> db \<Rightarrow> db \<Rightarrow> db reply" where
  "http_ConfirmUpload E S now cx idVar body d_read =
     require (scopedAlbumID E idVar) (\<lambda>albumID.
     require (MustGetUserID cx) (\<lambda>userID.
     require (MustGetMemberToken ''member token missing in context'' cx) (\<lambda>memberToken.
     require (decode_body body) (\<lambda>rawID.
     require (parse_uuid E ''invalid media_id'' rawID) (\<lambda>mediaID d.
     finish (\<lambda>g. ok_json (Obj [(''media_generation'', Num g)]))
       (ConfirmUpload E S now albumID mediaID userID memberToken d_read d))))))"

definition http_AbortPendingUpload ::
  "env \<Rightarrow> objstore \<Rightarrow> time \<Rightarrow> req_context \<Rightarrow> bytes \<Rightarrow> bytes \<Rightarrow> db \<Rightarrow> db reply" where
  "http_AbortPendingUpload E S now cx idVar midVar =
     require (scopedAlbumID E idVar) (\<lambda>albumID.
     require (MustGetMemberToken ''member token missing in context'' cx) (\<lambda>memberToken.
     require (parse_uuid E ''invalid media id'' midVar) (\<lambda>mediaID d.
     finish (\<lambda>_. NoContent) (quiet (AbortPendingUpload S now albumID mediaID memberToken d)))))"

definition mediaRow :: "env \<Rightarrow> media \<Rightarrow> json" where
  "mediaRow E m = Obj
     ([(''id'', uuid_json E (md_id m)), (''album_id'', uuid_json E (md_album m)),
       (''uploader_token'', b64_json (uploader_token m)), (''wrap_nonce'', b64_json (md_wrap_nonce m)),
       (''wrap_tag_ct'', b64_json (md_wrap_tag_ct m)), (''epoch_tag'', Num (epoch_tag m)),
       (''blob_size'', Num (blob_size m)), (''blob_sha256'', b64_json (blob_sha256 m)),
       (''media_type'', Text (media_type m)),
       (''mime_type'', case mime_type m of None \<Rightarrow> Null | Some t \<Rightarrow> Text t),
       (''created_at'', Stamp (md_created_at m))] @
      (case album_seq m of None \<Rightarrow> [] | Some s \<Rightarrow> [(''album_seq'', Num s)]) @
      (case thumb_size m of None \<Rightarrow> []
       | Some n \<Rightarrow> [(''thumb_wrap_nonce'', b64_json (opt_bytes (thumb_wrap_nonce m))),
           (''thumb_wrap_tag_ct'', b64_json (opt_bytes (thumb_wrap_tag_ct m))),
           (''thumb_size'', Num n), (''thumb_sha256'', b64_json (opt_bytes (thumb_sha256 m)))]))"

definition http_ListMedia :: "env \<Rightarrow> bytes \<Rightarrow> db \<Rightarrow> db reply" where
  "http_ListMedia E idVar =
     require (scopedAlbumID E idVar) (\<lambda>albumID.
     answer (\<lambda>d. Inr (ListConfirmed albumID d)) (\<lambda>rows. ok_json (Arr (map (mediaRow E) rows))))"

definition download_json :: "bytes \<times> time \<Rightarrow> json" where
  "download_json res = Obj [(''url'', Text (fst res)), (''expires_at'', rfc3339 (snd res))]"

text \<open>\<open>query\<close> is the value of \<^verbatim>\<open>?asset=\<close>, empty when it is not there.\<close>

definition http_RequestDownloadURL ::
  "env \<Rightarrow> objstore \<Rightarrow> time \<Rightarrow> bytes \<Rightarrow> bytes \<Rightarrow> bytes \<Rightarrow> db \<Rightarrow> db reply" where
  "http_RequestDownloadURL E S now idVar midVar query =
     require (scopedAlbumID E idVar) (\<lambda>albumID.
     require (parse_uuid E ''invalid media id'' midVar) (\<lambda>mediaID.
     answer (RequestDownloadURL S now albumID mediaID (if query = [] then ascii ''file'' else query))
       (\<lambda>res. ok_json (download_json res))))"

definition http_DeleteMedia ::
  "env \<Rightarrow> objstore \<Rightarrow> time \<Rightarrow> req_context \<Rightarrow> bytes \<Rightarrow> bytes \<Rightarrow> db \<Rightarrow> db reply" where
  "http_DeleteMedia E S now cx idVar midVar =
     require (scopedAlbumID E idVar) (\<lambda>albumID.
     require (MustGetMemberToken ''member token missing in context'' cx) (\<lambda>memberToken.
     require (parse_uuid E ''invalid media id'' midVar) (\<lambda>mediaID d.
     finish (\<lambda>_. NoContent) (DeleteMedia E S now albumID mediaID memberToken d))))"

section \<open>Avatars\<close>

record avatar_req =
  v_avatar_id :: bytes
  v_blob_size :: int
  v_blob_sha256 :: bytes
  v_key_ct :: bytes

definition decode_avatar :: "env \<Rightarrow> avatar_req \<Rightarrow> err + avatar_input" where
  "decode_avatar E q =
     sum_bind (parse_uuid E ''invalid avatar_id'' (v_avatar_id q)) (\<lambda>avatarID.
     sum_bind (std_field ''blob_sha256'' (v_blob_sha256 q)) (\<lambda>sha.
     sum_bind (std_field ''key_ct'' (v_key_ct q)) (\<lambda>keyCT.
     Inr \<lparr>ai_id = avatarID, ai_size = v_blob_size q, ai_sha256 = sha, ai_key_ct = keyCT\<rparr>)))"

definition http_avatar_RequestUploadURL ::
  "env \<Rightarrow> objstore \<Rightarrow> time \<Rightarrow> bytes \<Rightarrow> req_context \<Rightarrow> bytes \<Rightarrow> avatar_req option \<Rightarrow> db \<Rightarrow> db reply" where
  "http_avatar_RequestUploadURL E S now rnd cx idVar body =
     require (scopedAlbumID E idVar) (\<lambda>albumID.
     require (MustGetMemberToken ''member token missing in context'' cx) (\<lambda>memberToken.
     require (decode_body body) (\<lambda>q.
     require (decode_avatar E q) (\<lambda>inp d.
     finish (\<lambda>(url, hdr). ok_json (Obj [(''upload_url'', Text url), (''required_header'', header_json hdr)]))
       (quiet (avatar_RequestUploadURL S now rnd albumID memberToken inp d))))))"

definition http_avatar_Confirm ::
  "env \<Rightarrow> objstore \<Rightarrow> time \<Rightarrow> req_context \<Rightarrow> bytes \<Rightarrow> bytes option \<Rightarrow> db \<Rightarrow> db \<Rightarrow> db reply" where
  "http_avatar_Confirm E S now cx idVar body d_read =
     require (MustGetUserID cx) (\<lambda>userID.
     require (scopedAlbumID E idVar) (\<lambda>albumID.
     require (MustGetMemberToken ''member token missing in context'' cx) (\<lambda>memberToken.
     require (decode_body body) (\<lambda>rawID.
     require (parse_uuid E ''invalid avatar_id'' rawID) (\<lambda>avatarID d.
     finish (\<lambda>_. NoContent) (svc_avatar_Confirm E S now albumID userID memberToken avatarID d_read d))))))"

definition http_avatar_Remove ::
  "env \<Rightarrow> objstore \<Rightarrow> time \<Rightarrow> req_context \<Rightarrow> bytes \<Rightarrow> db \<Rightarrow> db reply" where
  "http_avatar_Remove E S now cx idVar =
     require (MustGetUserID cx) (\<lambda>userID.
     require (scopedAlbumID E idVar) (\<lambda>albumID.
     require (MustGetMemberToken ''member token missing in context'' cx) (\<lambda>memberToken d.
     finish (\<lambda>_. NoContent) (svc_avatar_Remove E S now albumID userID memberToken d))))"

definition http_avatar_DownloadURL ::
  "env \<Rightarrow> objstore \<Rightarrow> time \<Rightarrow> bytes \<Rightarrow> bytes \<Rightarrow> db \<Rightarrow> db reply" where
  "http_avatar_DownloadURL E S now idVar aidVar =
     require (scopedAlbumID E idVar) (\<lambda>albumID.
     require (parse_uuid E ''invalid avatar id'' aidVar) (\<lambda>avatarID.
     answer (avatar_DownloadURL S now albumID avatarID) (\<lambda>res. ok_json (download_json res))))"

lemmas media_route_defs = http_RequestUploadURL_def http_ConfirmUpload_def http_AbortPendingUpload_def
  http_ListMedia_def http_RequestDownloadURL_def http_DeleteMedia_def http_avatar_RequestUploadURL_def
  http_avatar_Confirm_def http_avatar_Remove_def http_avatar_DownloadURL_def

end
