(* ===== verification/Key_Routes.thy ===== *)
theory Key_Routes
  imports Album_Routes
begin

text \<open>
  The HTTP handlers of the three packages under \<^verbatim>\<open>internal/e2ee\<close>: the rotation of an
  album's key and its reading, the delivery of an invitation and its receipt, and the publication
  and the fetching of prekeys. The route by handle and the route by member token answer with what the
  caller sent, never with the identifier of the account.
\<close>

section \<open>Epochs\<close>

record wrap_item =
  wt_recipient :: bytes
  wt_ek_pub :: bytes
  wt_opk :: "int option"
  wt_wrap :: bytes
  wt_sig :: bytes

record set_epoch_req =
  sq_epoch :: int
  sq_member_set_hash :: bytes
  sq_wraps :: "wrap_item list"
  sq_envelope_sig :: bytes

definition decode_wrap :: "wrap_item \<Rightarrow> err + wrap_input" where
  "decode_wrap w =
     sum_bind (decodeB64 (wt_recipient w) ''wraps[].recipient_token'') (\<lambda>rt.
     sum_bind (decodeB64 (wt_ek_pub w) ''wraps[].ek_pub'') (\<lambda>ek.
     sum_bind (decodeB64 (wt_wrap w) ''wraps[].wrap'') (\<lambda>wb.
     sum_bind (decodeB64 (wt_sig w) ''wraps[].sender_sig'') (\<lambda>ss.
     Inr \<lparr>in_recipient = rt, in_ek_pub = ek, in_opk = wt_opk w, in_wrap = wb, in_sig = ss\<rparr>))))"

definition decode_set_epoch :: "set_epoch_req \<Rightarrow> err + set_epoch_input" where
  "decode_set_epoch q =
     sum_bind (decodeB64 (sq_member_set_hash q) ''member_set_hash'') (\<lambda>h.
     sum_bind (decodeB64 (sq_envelope_sig q) ''envelope_sig'') (\<lambda>sg.
     sum_bind (sum_map decode_wrap (sq_wraps q)) (\<lambda>ws.
     Inr \<lparr>se_epoch = sq_epoch q, se_member_set_hash = h, se_wraps = ws, se_envelope_sig = sg\<rparr>)))"

text \<open>A missing role reads as the empty text, which is as little \<^verbatim>\<open>admin\<close> as a plain
  member is.\<close>

definition role_or_member :: "req_context \<Rightarrow> role" where
  "role_or_member cx = (case cx_role cx of None \<Rightarrow> Member | Some r \<Rightarrow> r)"

definition http_SetEpoch ::
  "env \<Rightarrow> time \<Rightarrow> req_context \<Rightarrow> bytes option \<Rightarrow> set_epoch_req option \<Rightarrow> db \<Rightarrow> db reply" where
  "http_SetEpoch E now cx idVar body =
     require (e2ee_albumID E idVar) (\<lambda>albumID.
     require (MustGetMemberToken ''missing member context'' cx) (\<lambda>callerToken.
     require (decode_body body) (\<lambda>q.
     require (decode_set_epoch q) (\<lambda>inp d.
     (case SetEpoch E now albumID callerToken (role_or_member cx) inp d of
        (Inl e, d') \<Rightarrow> (Inl e, [], d')
      | (Inr pending, d') \<Rightarrow>
        (Inr (created_json (Obj [(''epoch'', Num (se_epoch inp)),
            (''pending_members'', Arr (map b64_json pending))])),
         epoch_fanout E albumID (se_epoch inp) (map in_recipient (se_wraps inp)) d', d'))))))"

text \<open>A failed check of the rotation debt is reported as no debt.\<close>

definition GetCurrent :: "uuid \<Rightarrow> db \<Rightarrow> err + (int \<times> time \<times> bool)" where
  "GetCurrent albumID d =
     (case CurrentEpoch albumID d of
        None \<Rightarrow> Inl (Api E_NOT_FOUND ''album has no epoch yet'')
      | Some (cur, started) \<Rightarrow>
        Inr (cur, started, case RotationRequired albumID d of Inl _ \<Rightarrow> False | Inr p \<Rightarrow> p))"

definition http_GetCurrent :: "env \<Rightarrow> bytes option \<Rightarrow> db \<Rightarrow> db reply" where
  "http_GetCurrent E idVar =
     require (e2ee_albumID E idVar) (\<lambda>albumID.
     answer (GetCurrent albumID) (\<lambda>(cur, started, req). ok_json (Obj
       [(''current_epoch'', Num cur), (''started_at'', Stamp started),
        (''rotation_required'', Bool req), (''pending_rotation'', Bool req)])))"

text \<open>\<^verbatim>\<open>strconv.Atoi\<close>: an optional sign and decimal digits, within 64 bits.\<close>

definition Atoi :: "bytes \<Rightarrow> int option" where
  "Atoi s =
     (let ds = (case s of [] \<Rightarrow> [] | c # r \<Rightarrow> if c = 43 \<or> c = 45 then r else s);
          n = foldl (\<lambda>a c. a * 10 + (int (unat c) - 48)) 0 ds;
          v = (if s \<noteq> [] \<and> hd s = 45 then - n else n)
      in if ds = [] \<or> (\<exists>c\<in>set ds. unat c < 48 \<or> 57 < unat c) then None
         else if v < - (2 ^ 63) \<or> 2 ^ 63 \<le> v then None else Some v)"

definition epoch_var :: "bytes option \<Rightarrow> err + int" where
  "epoch_var raw = (case raw of
     None \<Rightarrow> Inl (Api E_VALIDATION ''missing epoch in path'')
   | Some s \<Rightarrow> (case Atoi s of
       None \<Rightarrow> Inl (Api E_VALIDATION ''epoch must be an integer'') | Some n \<Rightarrow> Inr n))"

definition wrap_json :: "wrap \<Rightarrow> json" where
  "wrap_json w = Obj
     ([(''epoch'', Num (w_epoch w)), (''ek_pub'', b64_json (ek_pub w)),
       (''wrap'', b64_json (wrap_blob w)), (''sender_token'', b64_json (sender_token w)),
       (''sender_sig'', b64_json (sender_sig w)), (''delivered_at'', Stamp (delivered_at w))] @
      (case opk_idx_used w of None \<Rightarrow> [] | Some i \<Rightarrow> [(''opk_idx_used'', Num i)]))"

definition http_GetWrap :: "env \<Rightarrow> req_context \<Rightarrow> bytes option \<Rightarrow> bytes option \<Rightarrow> db \<Rightarrow> db reply" where
  "http_GetWrap E cx idVar nVar =
     require (e2ee_albumID E idVar) (\<lambda>albumID.
     require (MustGetMemberToken ''missing member context'' cx) (\<lambda>callerToken.
     require (epoch_var nVar) (\<lambda>n.
     answer (svc_GetWrap albumID n callerToken) (\<lambda>w. ok_json (wrap_json w)))))"

section \<open>Invitations\<close>

record envelope_item =
  et_epoch :: int
  et_nonce :: bytes
  et_tag_ct :: bytes
  et_sig :: bytes

record deliver_req =
  dq_target :: bytes
  dq_ek_pub :: bytes
  dq_opk :: "int option"
  dq_envelopes :: "envelope_item list"

definition decode_envelope :: "envelope_item \<Rightarrow> err + envelope" where
  "decode_envelope e =
     sum_bind (decodeB64 (et_nonce e) ''envelopes[].wrap_nonce'') (\<lambda>nonce.
     sum_bind (decodeB64 (et_tag_ct e) ''envelopes[].wrap_tag_ct'') (\<lambda>tagCT.
     sum_bind (decodeB64 (et_sig e) ''envelopes[].sender_sig'') (\<lambda>sg.
     Inr \<lparr>env_epoch = et_epoch e, env_nonce = nonce, env_tag_ct = tagCT, env_sig = sg\<rparr>)))"

definition decode_deliver :: "deliver_req \<Rightarrow> err + deliver_user_input" where
  "decode_deliver q =
     sum_bind (decodeB64 (dq_ek_pub q) ''ek_pub'') (\<lambda>ek.
     sum_bind (sum_map decode_envelope (dq_envelopes q)) (\<lambda>es.
     Inr \<lparr>du_target = dq_target q, du_ek_pub = ek, du_opk = dq_opk q, du_envelopes = es\<rparr>))"

definition maxEpoch :: "envelope list \<Rightarrow> int" where
  "maxEpoch es = foldl (\<lambda>m e. if env_epoch e > m then env_epoch e else m) (-1) es"

definition http_DeliverExistingUser ::
  "env \<Rightarrow> time \<Rightarrow> bytes \<Rightarrow> req_context \<Rightarrow> bytes option \<Rightarrow> deliver_req option \<Rightarrow> db \<Rightarrow> db reply" where
  "http_DeliverExistingUser E now fresh cx idVar body =
     require (e2ee_albumID E idVar) (\<lambda>albumID.
     require (MustGetMemberToken ''missing member context'' cx) (\<lambda>callerToken.
     require (decode_body body) (\<lambda>q.
     require (decode_deliver q) (\<lambda>inp.
     commit (DeliverExistingUser E now fresh albumID callerToken (role_or_member cx) inp)
       (\<lambda>(token, target). created_json (Obj [(''member_token'', b64_json token)]))
       (\<lambda>(token, target). invite_fanout E albumID (maxEpoch (du_envelopes inp)) target)))))"

record join_req =
  jq_epoch :: int
  jq_ek_pub_admin :: bytes
  jq_sig :: bytes

definition http_JoinComplete ::
  "env \<Rightarrow> time \<Rightarrow> req_context \<Rightarrow> bytes option \<Rightarrow> join_req option \<Rightarrow> db \<Rightarrow> db reply" where
  "http_JoinComplete E now cx idVar body =
     require (e2ee_albumID E idVar) (\<lambda>albumID.
     require (MustGetMemberToken ''missing member context'' cx) (\<lambda>callerToken.
     require (decode_body body) (\<lambda>q.
     require (decodeB64 (jq_ek_pub_admin q) ''ek_pub_admin'') (\<lambda>ek.
     require (decodeB64 (jq_sig q) ''sig'') (\<lambda>sg.
     commit (JoinComplete E now albumID callerToken (jq_epoch q) ek sg) (\<lambda>_. NoContent) no_events)))))"

section \<open>Prekeys\<close>

record identity_req =
  iq_ik :: bytes
  iq_lk :: bytes
  iq_spk :: bytes
  iq_spk_sig :: bytes
  iq_spk_ts :: int64

definition http_UpsertIdentity ::
  "env \<Rightarrow> time \<Rightarrow> req_context \<Rightarrow> identity_req option \<Rightarrow> db \<Rightarrow> db reply" where
  "http_UpsertIdentity E now cx body =
     require (MustGetUserID cx) (\<lambda>userID.
     require (decode_body body) (\<lambda>q.
     require (decodeB64 (iq_ik q) ''ik_pub'') (\<lambda>ik.
     require (decodeB64 (iq_lk q) ''lk_pub'') (\<lambda>lk.
     require (decodeB64 (iq_spk q) ''spk_pub'') (\<lambda>spk.
     require (decodeB64 (iq_spk_sig q) ''spk_sig'') (\<lambda>sg.
     commit (UpsertIdentity E now userID ik lk spk sg (iq_spk_ts q)) (\<lambda>_. NoContent) no_events))))))"

definition own_keys_json :: "identity \<Rightarrow> json" where
  "own_keys_json i = Obj
     ([(''ik_pub'', b64_json (opt_bytes (IKPub i))), (''lk_pub'', b64_json (opt_bytes (LKPub i))),
       (''spk_pub'', b64_json (opt_bytes (SPKPub i)))] @
      (case SPKTs i of None \<Rightarrow> [] | Some ts \<Rightarrow> [(''spk_ts'', Num (sint ts))]))"

definition http_GetOwnKeys :: "req_context \<Rightarrow> db \<Rightarrow> db reply" where
  "http_GetOwnKeys cx =
     require (MustGetUserID cx) (\<lambda>userID.
     answer (\<lambda>d. relabel (\<lambda>e. if e = Repo ErrUserNotFound then Api E_NOT_FOUND ''user not found'' else e)
         (IdentityByID userID d)) (\<lambda>i. ok_json (own_keys_json i)))"

record rotate_req =
  rq_spk :: bytes
  rq_spk_sig :: bytes
  rq_spk_ts :: int64
  rq_rotation_sig :: bytes

definition http_RotateSPK ::
  "env \<Rightarrow> time \<Rightarrow> req_context \<Rightarrow> rotate_req option \<Rightarrow> db \<Rightarrow> db reply" where
  "http_RotateSPK E now cx body =
     require (MustGetUserID cx) (\<lambda>userID.
     require (decode_body body) (\<lambda>q.
     require (decodeB64 (rq_spk q) ''spk_pub'') (\<lambda>spk.
     require (decodeB64 (rq_spk_sig q) ''spk_sig'') (\<lambda>sg.
     require (decodeB64 (rq_rotation_sig q) ''rotation_sig'') (\<lambda>rsig.
     commit (svc_RotateSPK E now userID spk sg (rq_spk_ts q) rsig) (\<lambda>_. NoContent) no_events)))))"

record opk_item =
  ok_idx :: int
  ok_key_pub :: bytes

record replenish_req =
  pq_opks :: "opk_item list"
  pq_sig :: bytes

definition decode_opk :: "opk_item \<Rightarrow> err + opk_upload" where
  "decode_opk o' = sum_bind (decodeB64 (ok_key_pub o') ''opks[].key_pub'')
     (\<lambda>b. Inr \<lparr>opk_Idx = ok_idx o', opk_KeyPub = b\<rparr>)"

definition http_ReplenishOPKs ::
  "env \<Rightarrow> time \<Rightarrow> uuid list \<Rightarrow> req_context \<Rightarrow> replenish_req option \<Rightarrow> db \<Rightarrow> db reply" where
  "http_ReplenishOPKs E now ids cx body =
     require (MustGetUserID cx) (\<lambda>userID.
     require (decode_body body) (\<lambda>q.
     require (sum_map decode_opk (pq_opks q)) (\<lambda>ups.
     require (decodeB64 (pq_sig q) ''replenish_sig'') (\<lambda>rsig.
     commit (ReplenishOPKs E now ids userID ups rsig) (\<lambda>_. \<lparr>rs_status = 201, rs_body = None\<rparr>) no_events))))"

definition http_GetOPKCount :: "req_context \<Rightarrow> db \<Rightarrow> db reply" where
  "http_GetOPKCount cx =
     require (MustGetUserID cx) (\<lambda>userID.
     answer (\<lambda>d. Inr (opk_Count userID d)) (\<lambda>n. ok_json (Obj [(''count'', Num (int n))])))"

definition bundle_json :: "json \<Rightarrow> prekey_bundle \<Rightarrow> json" where
  "bundle_json userIDField b = Obj
     ([(''user_id'', userIDField), (''ik_pub'', b64_json (b_ik b)), (''lk_pub'', b64_json (b_lk b)),
       (''spk_pub'', b64_json (b_spk b)), (''spk_sig'', b64_json (b_spk_sig b)),
       (''spk_ts'', Num (sint (b_spk_ts b)))] @
      (case b_opk b of None \<Rightarrow> []
       | Some o' \<Rightarrow> [(''opk'', Obj [(''idx'', Num (opk_Idx o')), (''key_pub'', b64_json (opk_KeyPub o'))])]))"

definition http_GetPrekeyBundle :: "env \<Rightarrow> nat \<Rightarrow> req_context \<Rightarrow> bytes \<Rightarrow> db \<Rightarrow> db reply" where
  "http_GetPrekeyBundle E pick cx idVar =
     require (MustGetUserID cx) (\<lambda>_.
     require (parse_uuid E ''invalid user id'' idVar) (\<lambda>target.
     commit (GetPrekeyBundle pick target) (\<lambda>b. ok_json (bundle_json (uuid_json E (b_user b)) b))
       (\<lambda>b _. opk_low_fanout b target)))"

definition http_GetPrekeyBundleByHandle :: "nat \<Rightarrow> req_context \<Rightarrow> bytes \<Rightarrow> db \<Rightarrow> db reply" where
  "http_GetPrekeyBundleByHandle pick cx handleVar =
     require (MustGetUserID cx) (\<lambda>_.
     commit (GetPrekeyBundleByHandle pick handleVar) (\<lambda>((norm, b), _). ok_json (bundle_json (Text norm) b))
       (\<lambda>(_, events) _. events))"

definition admin_context :: "req_context \<Rightarrow> err + unit" where
  "admin_context cx = (case cx_role cx of
     None \<Rightarrow> Inl (Api E_AUTH ''missing member context'')
   | Some r \<Rightarrow> if r \<noteq> Admin
       then Inl (Api E_FORBIDDEN (''only the admin can fetch a member'' @ [CHR 39] @ ''s prekey bundle''))
       else Inr ())"

definition http_GetPrekeyBundleByMemberToken ::
  "env \<Rightarrow> nat \<Rightarrow> req_context \<Rightarrow> bytes \<Rightarrow> bytes \<Rightarrow> db \<Rightarrow> db reply" where
  "http_GetPrekeyBundleByMemberToken E pick cx idVar tokenVar =
     require (admin_context cx) (\<lambda>_.
     require (scopedAlbumID E idVar) (\<lambda>albumID.
     require (token_var tokenVar) (\<lambda>token.
     commit (GetPrekeyBundleByMemberToken E pick (cx_role cx) albumID token)
       (\<lambda>((field, b), _). ok_json (bundle_json (Text field) b)) (\<lambda>(_, events) _. events))))"

text \<open>The set and the member of the probe tracker; the clock is after 1970.\<close>

definition KeyByRequesterTargetHourly :: "env \<Rightarrow> time \<Rightarrow> uuid option \<Rightarrow> bytes \<Rightarrow> bytes \<times> bytes" where
  "KeyByRequesterTargetHourly E now uid target =
     (case uid of None \<Rightarrow> ([], [])
      | Some u \<Rightarrow> if target = [] then ([], [])
        else (ascii ''prekey-probe:'' @ uuid_String E u @ ascii '':'' @ decimal (nat (now div hours 1)), target))"

lemmas key_route_defs = http_SetEpoch_def http_GetCurrent_def http_GetWrap_def
  http_DeliverExistingUser_def http_JoinComplete_def http_UpsertIdentity_def http_GetOwnKeys_def
  http_RotateSPK_def http_ReplenishOPKs_def http_GetOPKCount_def http_GetPrekeyBundle_def
  http_GetPrekeyBundleByHandle_def http_GetPrekeyBundleByMemberToken_def

end
