(* ===== verification/Account_Routes.thy ===== *)
theory Account_Routes
  imports Http
begin

text \<open>
  \<^verbatim>\<open>handler/account.go\<close>, \<^verbatim>\<open>handler/auth.go\<close>,
  \<^verbatim>\<open>handler/user.go\<close> with \<^verbatim>\<open>service/user_service.go\<close>,
  \<^verbatim>\<open>handler/ws.go\<close> and the routes of \<^verbatim>\<open>handler/invite.go\<close> that are not
  wired: sign-in, the account itself, its deletion, and the live channel.
\<close>

section \<open>Account deletion\<close>

definition outcome_json :: "outcome \<Rightarrow> json" where
  "outcome_json o' = Text (ascii (case o' of OutcomeLeave \<Rightarrow> ''leave'' | OutcomeDeleteAlbum \<Rightarrow> ''delete_album''
     | OutcomeDeleteShared \<Rightarrow> ''delete_shared'' | OutcomeErase \<Rightarrow> ''erase''))"

definition preflight_json :: "env \<Rightarrow> membership \<times> outcome \<Rightarrow> json" where
  "preflight_json E x = (let (m, o') = x in Obj
     [(''album_id'', uuid_json E (ms_album m)), (''role'', role_json (ms_role m)),
      (''active_member_count'', Num (int (ms_members m))),
      (''own_media_count'', Num (int (ms_own_media m))), (''outcome'', outcome_json o')])"

definition http_DeletionPreflight :: "env \<Rightarrow> req_context \<Rightarrow> db \<Rightarrow> db reply" where
  "http_DeletionPreflight E cx =
     require (MustGetUserID cx) (\<lambda>userID.
     answer (\<lambda>d. Inr (Preflight E userID d))
       (\<lambda>xs. ok_json (Obj [(''albums'', Arr (map (preflight_json E) xs))])))"

definition receipt_var :: "bytes \<Rightarrow> err + bytes" where
  "receipt_var s = (case RawURLDecode s of
     None \<Rightarrow> Inl (Api E_VALIDATION ''receipt must be base64url'') | Some r \<Rightarrow> Inr r)"

record deletion_req =
  xq_shared :: "uuid list"
  xq_receipt :: bytes

definition http_RequestDeletion ::
  "env \<Rightarrow> time \<Rightarrow> req_context \<Rightarrow> deletion_req option \<Rightarrow> db \<Rightarrow> db reply" where
  "http_RequestDeletion E now cx body =
     require (MustGetUserID cx) (\<lambda>userID.
     require (decode_body body) (\<lambda>q.
     require (receipt_var (xq_receipt q)) (\<lambda>r.
     commit (deletion_Request E now userID (xq_shared q) r) (\<lambda>_. \<lparr>rs_status = 202, rs_body = None\<rparr>) no_events)))"

definition http_DeletionReceipt :: "env \<Rightarrow> bytes \<Rightarrow> db \<Rightarrow> db reply" where
  "http_DeletionReceipt E receiptVar =
     require (receipt_var receiptVar) (\<lambda>r. answer (handle_DeletionReceipt E r) (\<lambda>_. NoContent))"

definition http_AbandonDeletion :: "env \<Rightarrow> time \<Rightarrow> bytes \<Rightarrow> db \<Rightarrow> db reply" where
  "http_AbandonDeletion E now receiptVar =
     require (receipt_var receiptVar) (\<lambda>r d.
     finish (\<lambda>_. NoContent) (quiet (handle_AbandonDeletion E now r d)))"

section \<open>Sign-in\<close>

definition http_RequestOTP ::
  "auth_env \<Rightarrow> time \<Rightarrow> nat list \<Rightarrow> bool \<Rightarrow> bytes option \<Rightarrow> otp_store \<Rightarrow> otp_store reply" where
  "http_RequestOTP A now rnd mail_ok body =
     require (decode_body body) (\<lambda>email s.
     finish (\<lambda>_. ok_json (Obj [(''message'', Text (ascii ''OTP sent''))]))
       (quiet (handle_RequestOTP A now rnd mail_ok email s)))"

definition http_VerifyOTP ::
  "auth_env \<Rightarrow> time \<Rightarrow> signin_random \<Rightarrow> (bytes \<times> bytes) option \<Rightarrow> otp_store \<times> db
     \<Rightarrow> (otp_store \<times> db) reply" where
  "http_VerifyOTP A now R body =
     require (decode_body body) (\<lambda>(email, otp) st.
     finish (\<lambda>v. ok_json (Obj [(''user_id'', uuid_json (a_env A) (v_user v)), (''token'', Text (v_token v)),
         (''refreshToken'', Text (v_token v)), (''expiresAt'', rfc3339 (v_expires v))]))
       (quiet (handle_VerifyOTP A now R email otp st)))"

definition http_Refresh :: "env \<Rightarrow> time \<Rightarrow> bytes option \<Rightarrow> db \<Rightarrow> db reply" where
  "http_Refresh E now body =
     require (decode_body body) (\<lambda>refreshToken.
     commit (handle_Refresh E now refreshToken)
       (\<lambda>(token, refresh, expires). ok_json (Obj [(''token'', Text token), (''refreshToken'', Text refresh),
          (''expiresAt'', rfc3339 expires)])) no_events)"

section \<open>The own account\<close>

definition GetUserByID :: "uuid \<Rightarrow> db \<Rightarrow> err + user" where
  "GetUserByID u d = user_GetByID u d"

definition http_GetMe :: "env \<Rightarrow> req_context \<Rightarrow> db \<Rightarrow> db reply" where
  "http_GetMe E cx =
     require (MustGetUserID cx) (\<lambda>userID.
     answer (\<lambda>d. relabel (\<lambda>_. Api E_NOT_FOUND ''user not found'') (GetUserByID userID d))
       (\<lambda>u. ok_json (Obj [(''id'', uuid_json E (u_id u)), (''miuchio_id'', Text (u_miuchio_id u)),
          (''created_at'', Stamp (u_created_at u)), (''updated_at'', Stamp (u_updated_at u))])))"

section \<open>Live channel\<close>

definition http_IssueTicket ::
  "env \<Rightarrow> time \<Rightarrow> bytes \<Rightarrow> req_context \<Rightarrow> bytes ttl_map \<Rightarrow> bytes ttl_map reply" where
  "http_IssueTicket E now raw cx =
     require (MustGetUserID cx) (\<lambda>userID m.
     (case ticket_Issue E now raw userID m of ((ticket, expires), m') \<Rightarrow>
        (Inr (ok_json (Obj [(''ticket'', Text ticket), (''expires_at'', rfc3339 expires)])), [], m')))"

text \<open>\<open>accepted\<close> is what \<^verbatim>\<open>websocket.Accept\<close> did: \<open>None\<close> when the connection was
  upgraded, and otherwise the status it answered with itself. \<open>c\<close> is the new connection; its
  loop is the hub's.\<close>

definition http_ServeWS ::
  "env \<Rightarrow> time \<Rightarrow> nat option \<Rightarrow> nat \<Rightarrow> bytes \<Rightarrow> bytes ttl_map \<times> hub \<Rightarrow> (bytes ttl_map \<times> hub) reply" where
  "http_ServeWS E now accepted c ticket st =
     (let (m, h) = st in
      if ticket = [] then (Inl (Api E_AUTH ''missing ticket''), [], st)
      else case ticket_Consume E now ticket m of
        (None, m') \<Rightarrow> (Inl (Api E_AUTH ''invalid or expired ticket''), [], (m', h))
      | (Some userID, m') \<Rightarrow>
        (case accepted of
           Some status \<Rightarrow> (Inr \<lparr>rs_status = status, rs_body = None\<rparr>, [], (m', h))
         | None \<Rightarrow> (Inr \<lparr>rs_status = 101, rs_body = None\<rparr>, [], (m', Register userID c h))))"

definition err_text :: "err \<Rightarrow> string" where
  "err_text e = (case e of ErrText s \<Rightarrow> s | Api c m \<Rightarrow> m | _ \<Rightarrow> [])"

record emit_req =
  nq_user :: bytes
  nq_type :: string
  nq_payload :: payload

definition http_TestEmitEvent :: "env \<Rightarrow> emit_req option \<Rightarrow> hub \<Rightarrow> hub reply" where
  "http_TestEmitEvent E body =
     require (decode_body body) (\<lambda>q.
     require (parse_uuid E ''invalid user_id'' (nq_user q)) (\<lambda>userID.
     require (relabel (\<lambda>e. Api E_VALIDATION (err_text e)) (NewEvent (nq_type q) (nq_payload q))) (\<lambda>ev h.
     (Inr NoContent, [], Broadcast [userID] ev h))))"

section \<open>Routes that are not wired\<close>

definition http_CreateInvite :: "'s \<Rightarrow> 's reply" where
  "http_CreateInvite s = (Inl (Api E_NOT_IMPLEMENTED ''invite creation lands in P6.2''), [], s)"
definition http_GetPreview :: "'s \<Rightarrow> 's reply" where
  "http_GetPreview s = (Inl (Api E_NOT_IMPLEMENTED ''invite preview lands in P6.2''), [], s)"
definition http_JoinAlbum :: "'s \<Rightarrow> 's reply" where
  "http_JoinAlbum s = (Inl (Api E_NOT_IMPLEMENTED ''join via invite lands in P6.2''), [], s)"
definition http_CreateInviteBlob :: "'s \<Rightarrow> 's reply" where
  "http_CreateInviteBlob s = (Inl (Api E_NOT_IMPLEMENTED ''invite blob creation lands in P6.2''), [], s)"
definition http_GetInviteBlob :: "'s \<Rightarrow> 's reply" where
  "http_GetInviteBlob s = (Inl (Api E_NOT_IMPLEMENTED ''invite blob fetch lands in P6.2''), [], s)"

lemmas account_route_defs = http_DeletionPreflight_def http_RequestDeletion_def http_DeletionReceipt_def
  http_AbandonDeletion_def http_RequestOTP_def http_VerifyOTP_def http_Refresh_def http_GetMe_def
  http_IssueTicket_def http_ServeWS_def http_TestEmitEvent_def http_CreateInvite_def http_GetPreview_def
  http_JoinAlbum_def http_CreateInviteBlob_def http_GetInviteBlob_def

end
