(* ===== verification/Middleware.thy ===== *)
theory Middleware
  imports Http
begin

text \<open>
  \<^verbatim>\<open>middleware/requestid.go\<close>, \<^verbatim>\<open>middleware/accesslog.go\<close>,
  \<^verbatim>\<open>middleware/recover.go\<close> and \<^verbatim>\<open>middleware/cors.go\<close>: what happens to
  the response writer between the socket and a handler. A handler is seen here as the list of its
  calls on the writer and whether it panics after them; the socket is the final status that was
  sent, as \<^verbatim>\<open>net/http\<close> sends it: the first one wins, a status from 100 to 199 other than
  101 is informational and leaves the final one open, and a body without one, or a handler that
  returns without writing, means 200.
\<close>

section \<open>Request identifiers\<close>

definition newRequestID :: "bytes \<Rightarrow> bytes" where "newRequestID rnd = hex rnd"

definition looksLikeRequestID :: "bytes \<Rightarrow> bool" where
  "looksLikeRequestID s \<longleftrightarrow> 16 \<le> length s \<and> length s \<le> 64 \<and>
     list_all (\<lambda>c. (48 \<le> c \<and> c \<le> 57) \<or> (97 \<le> c \<and> c \<le> 102) \<or> (65 \<le> c \<and> c \<le> 70) \<or> c = 45) s"

record trace_context =
  tc_request_id :: bytes
  tc_client_trace_id :: bytes

text \<open>The context of the request; a missing value reads as the empty text.\<close>

definition RequestID :: "bytes \<Rightarrow> bytes \<Rightarrow> trace_context" where
  "RequestID rnd client = \<lparr>tc_request_id = newRequestID rnd,
     tc_client_trace_id = if looksLikeRequestID client then client else []\<rparr>"

section \<open>The status recorder\<close>

datatype writer_call = WriteHeader nat | WriteBody nat | Flush | Hijack bool

text \<open>\<open>wire\<close> is the final status the socket has sent.\<close>

record recorder =
  rc_status :: nat
  rc_bytes :: nat
  rc_written :: bool
  rc_hijacked :: bool
  rc_wire :: "nat option"

definition new_recorder :: recorder where
  "new_recorder = \<lparr>rc_status = 200, rc_bytes = 0, rc_written = False, rc_hijacked = False, rc_wire = None\<rparr>"

definition send_status :: "nat \<Rightarrow> nat option \<Rightarrow> nat option" where
  "send_status code sent = (case sent of
     None \<Rightarrow> if 100 \<le> code \<and> code < 200 \<and> code \<noteq> 101 then None else Some code
   | Some c \<Rightarrow> Some c)"

text \<open>A flush goes straight to the socket, which sends 200 when nothing was written; an upgrade
  takes the socket over.\<close>

fun recorder_call :: "writer_call \<Rightarrow> recorder \<Rightarrow> recorder" where
  "recorder_call (WriteHeader code) r =
     (if rc_written r then r
      else r\<lparr>rc_written := True, rc_status := code, rc_wire := send_status code (rc_wire r)\<rparr>)"
| "recorder_call (WriteBody n) r =
     r\<lparr>rc_written := True, rc_wire := send_status 200 (rc_wire r), rc_bytes := rc_bytes r + n\<rparr>"
| "recorder_call Flush r = r\<lparr>rc_wire := send_status 200 (rc_wire r)\<rparr>"
| "recorder_call (Hijack ok) r =
     (if ok then r\<lparr>rc_hijacked := True, rc_status := 101, rc_wire := send_status 101 (rc_wire r)\<rparr> else r)"

definition level_of_status :: "nat \<Rightarrow> log_level" where
  "level_of_status s = (if s \<ge> 500 then LevelError else if s \<ge> 400 then LevelWarn else LevelInfo)"

record access_entry =
  ac_status :: nat
  ac_bytes :: nat
  ac_hijacked :: bool
  ac_panic :: bool
  ac_level :: log_level
  ac_route :: string

text \<open>\<^verbatim>\<open>routeTemplate\<close>: the template of the matched route, never the resolved path.\<close>

definition routeTemplate :: "string option \<Rightarrow> string" where
  "routeTemplate route = (case route of None \<Rightarrow> ''?'' | Some t \<Rightarrow> if t = [] then ''?'' else t)"

text \<open>The entry that is logged and the writer as the panic, if there was one, goes on with it.\<close>

definition AccessLog :: "string option \<Rightarrow> writer_call list \<Rightarrow> bool \<Rightarrow> access_entry \<times> recorder" where
  "AccessLog route calls panicked =
     (let r = fold recorder_call calls new_recorder;
          status = (if panicked \<and> \<not> rc_written r then 500 else rc_status r)
      in (\<lparr>ac_status = status, ac_bytes = rc_bytes r, ac_hijacked = rc_hijacked r, ac_panic = panicked,
           ac_level = level_of_status status, ac_route = routeTemplate route\<rparr>, r))"

text \<open>\<^verbatim>\<open>Recover\<close>: a panic is answered on the socket itself, past the recorder; on a
  return without a write the server sends 200.\<close>

definition Recover :: "bool \<Rightarrow> recorder \<Rightarrow> nat option" where
  "Recover panicked r =
     (if panicked then send_status (rs_status (Write (Api E_INTERNAL ''internal server error''))) (rc_wire r)
      else send_status 200 (rc_wire r))"

definition CORS :: "string \<Rightarrow> 'a \<Rightarrow> 'a option" where
  "CORS method next = (if method = ''OPTIONS'' then None else Some next)"

section \<open>The log tells the truth\<close>

text \<open>How handlers use the writer: the first status they write is a final one, they flush only after
  a status, and an upgrade is their last call and comes after the status 101, which the socket
  library writes before it takes the connection over. The first argument is the status written so
  far.\<close>

definition final_status :: "nat \<Rightarrow> bool" where
  "final_status c \<longleftrightarrow> c = 101 \<or> (200 \<le> c \<and> c \<le> 999)"

fun writes_ok :: "nat option \<Rightarrow> writer_call list \<Rightarrow> bool" where
  "writes_ok s [] = True"
| "writes_ok s (Flush # cs) = (s \<noteq> None \<and> writes_ok s cs)"
| "writes_ok s (Hijack ok # cs) = (if ok then s = Some 101 \<and> cs = [] else writes_ok s cs)"
| "writes_ok s (WriteHeader c # cs) = ((s = None \<longrightarrow> final_status c) \<and> writes_ok (send_status c s) cs)"
| "writes_ok s (WriteBody n # cs) = writes_ok (send_status 200 s) cs"

definition written_status :: "recorder \<Rightarrow> nat option" where
  "written_status r = (if rc_written r then Some (rc_status r) else None)"

definition truthful :: "recorder \<Rightarrow> bool" where
  "truthful r \<longleftrightarrow> (if rc_written r then rc_wire r = Some (rc_status r)
     else rc_wire r = None \<and> rc_status r = 200)"

lemma send_final: "final_status c \<Longrightarrow> send_status c None = Some c" "send_status c (Some x) = Some x"
  by (auto simp: send_status_def final_status_def)

lemma truthful_step:
  assumes "truthful r" "writes_ok (written_status r) (c # cs)"
  shows "truthful (recorder_call c r)"
    "c \<noteq> Hijack True \<Longrightarrow> writes_ok (written_status (recorder_call c r)) cs"
    "c = Hijack True \<Longrightarrow> cs = []"
proof -
  have final: "final_status 200" by (simp add: final_status_def)
  have flush: "rc_wire (recorder_call Flush r) = send_status 200 (rc_wire r)"
    "rc_written (recorder_call Flush r) = rc_written r"
    "rc_status (recorder_call Flush r) = rc_status r" by simp_all
  note defs = truthful_def written_status_def send_final final
  show "truthful (recorder_call c r)" using assms
    by (cases c) (auto simp del: recorder_call.simps(3) simp add: flush defs split: if_splits)
  show "writes_ok (written_status (recorder_call c r)) cs" if "c \<noteq> Hijack True" using assms that
    by (cases c) (auto simp: defs split: if_splits)
  show "cs = []" if "c = Hijack True" using assms that by (simp add: defs split: if_splits)
qed

lemma truthful_calls: "truthful r \<Longrightarrow> writes_ok (written_status r) cs \<Longrightarrow> truthful (fold recorder_call cs r)"
proof (induction cs arbitrary: r)
  case (Cons c cs)
  note step = truthful_step [OF Cons.prems]
  show ?case
  proof (cases "c = Hijack True")
    case True
    with step(1,3) show ?thesis by simp
  next
    case False
    with step(1,2) Cons.IH show ?thesis by simp
  qed
qed simp

lemma new_recorder_truthful: "truthful new_recorder" "written_status new_recorder = None"
  by (simp_all add: truthful_def written_status_def new_recorder_def)

lemma access_log_truthful:
  assumes "writes_ok None calls" "AccessLog route calls panicked = (entry, r)"
  shows "Recover panicked r = Some (ac_status entry)"
proof -
  have r: "r = fold recorder_call calls new_recorder"
    "ac_status entry = (if panicked \<and> \<not> rc_written r then 500 else rc_status r)"
    using assms(2) by (auto simp: AccessLog_def Let_def)
  have "truthful r" unfolding r(1) by (rule truthful_calls) (use assms(1) new_recorder_truthful in simp_all)
  then show ?thesis
    by (auto simp: r(2) truthful_def Recover_def Write_def send_status_def split: if_splits)
qed

text \<open>A minted identifier has the form that is accepted from a client.\<close>

lemma hexdigit_ok:
  assumes "d < 16"
  shows "(48 \<le> hexdigit d \<and> hexdigit d \<le> 57) \<or> (97 \<le> hexdigit d \<and> hexdigit d \<le> 102)"
  using unat_hexdigit [OF assms] assms by (auto simp: word_le_nat_alt split: if_splits)

lemma newRequestID_accepted: "length rnd = 16 \<Longrightarrow> looksLikeRequestID (newRequestID rnd)"
proof -
  assume len: "length rnd = 16"
  have "(48 \<le> c \<and> c \<le> 57) \<or> (97 \<le> c \<and> c \<le> 102)" if c: "c \<in> set (hex rnd)" for c
  proof -
    have "unat b div 16 < 16" for b :: byte
      using unsigned_less [of b, where ?'a = nat] by (simp add: less_mult_imp_div_less)
    then obtain d where "c = hexdigit d" "d < 16" using c by (auto simp: hex_def)
    then show ?thesis using hexdigit_ok by blast
  qed
  with len show ?thesis by (auto simp: looksLikeRequestID_def newRequestID_def list_all_iff)
qed

end
