(* ===== verification/Router.thy ===== *)
theory Router
  imports Media_Routes Key_Routes Account_Routes Middleware
begin

text \<open>
  \<^verbatim>\<open>cmd/server/main.go\<close>: the route table with the middleware in front of each route.
  The routes come in the three groups of the code's subrouters: public ones, those behind
  \<^verbatim>\<open>Authenticate\<close>, and those of an album, behind \<^verbatim>\<open>RequireMember\<close> as
  well. A call is a matched route with its path variables, its query value and its decoded body.
  \<open>serve\<close> runs one request on the whole state of the server.
\<close>

section \<open>State and environment\<close>

record world =
  w_db :: db
  w_otp :: otp_store
  w_tickets :: "bytes ttl_map"
  w_hub :: hub
  w_limits :: zstore
  w_probes :: "bytes \<Rightarrow> bytes list"

definition empty_world :: world where
  "empty_world = \<lparr>w_db = empty_db, w_otp = empty_otp, w_tickets = (\<lambda>_. None), w_hub = NewHub,
     w_limits = (\<lambda>_. None), w_probes = (\<lambda>_. [])\<rparr>"

record server_env =
  sv_auth :: auth_env
  sv_store :: objstore
  sv_dev :: bool

abbreviation sv_env :: "server_env \<Rightarrow> env" where "sv_env X \<equiv> a_env (sv_auth X)"

text \<open>The clock and the values a request draws: fresh identifiers and bytes, the row a query
  without an order picks, the digits of a code, and what the mail service and the upgrade answer.\<close>

record draws =
  dr_now :: time
  dr_uuid :: uuid
  dr_uuid2 :: uuid
  dr_uuids :: "uuid list"
  dr_token :: bytes
  dr_key :: bytes
  dr_key2 :: bytes
  dr_pick :: nat
  dr_otp :: "nat list"
  dr_mail :: bool
  dr_signin :: signin_random
  dr_accept :: "nat option"
  dr_conn :: nat

section \<open>Calls\<close>

datatype public_call =
  RequestOTP_call "bytes option" | VerifyOTP_call "(bytes \<times> bytes) option" | Refresh_call "bytes option"
| GetPreview_call bytes | DeletionReceipt_call bytes | AbandonDeletion_call bytes | ServeWS_call bytes
| Health_call | TestEmitEvent_call "emit_req option"

datatype authed_call =
  IssueTicket_call | GetMe_call | DeletionPreflight_call | RequestDeletion_call "deletion_req option"
| UpsertIdentity_call "identity_req option" | GetOwnKeys_call | RotateSPK_call "rotate_req option"
| ReplenishOPKs_call "replenish_req option" | GetOPKCount_call | GetPrekeyBundle_call bytes
| GetPrekeyBundleByHandle_call bytes | CreateAlbum_call "bytes option" | ListAlbums_call
| JoinAlbum_call bytes

datatype album_call =
  GetAlbum_call | UpdateAlbum_call "bytes option" | DeleteAlbum_call | ListAlbumMembers_call
| UpdateMyProfileCT_call "bytes option" | AvatarUpload_call "avatar_req option"
| AvatarConfirm_call "bytes option" | AvatarRemove_call | AvatarDownload_call bytes
| RemoveAlbumMember_call bytes | GetPrekeyBundleByMemberToken_call bytes
| DeliverExistingUser_call "deliver_req option" | JoinComplete_call "join_req option"
| CreateInvite_call | CreateInviteBlob_call | GetInviteBlob_call
| RequestUploadURL_call "upload_req option" | ConfirmUpload_call "bytes option" | ListMedia_call
| RequestDownloadURL_call bytes bytes | AbortPendingUpload_call bytes | DeleteMedia_call bytes
| SetEpoch_call "set_epoch_req option" | GetCurrent_call | GetWrap_call bytes

text \<open>A request that matched a route, one that matched none, and one whose method its route does
  not have. An album call carries the text of its \<^verbatim>\<open>{id}\<close>.\<close>

datatype call = Public public_call | Authed authed_call | Scoped bytes album_call | NoRoute | WrongMethod

section \<open>The route table\<close>

fun public_route :: "public_call \<Rightarrow> string \<times> string" where
  "public_route (RequestOTP_call _) = (''POST'', ''/api/v1/auth/otp/request'')"
| "public_route (VerifyOTP_call _) = (''POST'', ''/api/v1/auth/otp/verify'')"
| "public_route (Refresh_call _) = (''POST'', ''/api/v1/auth/otp/refresh'')"
| "public_route (GetPreview_call _) = (''GET'', ''/api/v1/invite/{code}'')"
| "public_route (DeletionReceipt_call _) = (''GET'', ''/api/v1/account-deletions/{receipt}'')"
| "public_route (AbandonDeletion_call _) = (''POST'', ''/api/v1/account-deletions/{receipt}/abandon'')"
| "public_route (ServeWS_call _) = (''GET'', ''/api/v1/ws'')"
| "public_route Health_call = (''GET'', ''/health'')"
| "public_route (TestEmitEvent_call _) = (''POST'', ''/test/emit-event'')"

fun authed_route :: "authed_call \<Rightarrow> string \<times> string" where
  "authed_route IssueTicket_call = (''POST'', ''/api/v1/ws-ticket'')"
| "authed_route GetMe_call = (''GET'', ''/api/v1/users/me'')"
| "authed_route DeletionPreflight_call = (''GET'', ''/api/v1/users/me/deletion'')"
| "authed_route (RequestDeletion_call _) = (''POST'', ''/api/v1/users/me/deletion'')"
| "authed_route (UpsertIdentity_call _) = (''PUT'', ''/api/v1/users/me/keys'')"
| "authed_route GetOwnKeys_call = (''GET'', ''/api/v1/users/me/keys'')"
| "authed_route (RotateSPK_call _) = (''POST'', ''/api/v1/users/me/spk'')"
| "authed_route (ReplenishOPKs_call _) = (''POST'', ''/api/v1/users/me/opks'')"
| "authed_route GetOPKCount_call = (''GET'', ''/api/v1/users/me/opks/count'')"
| "authed_route (GetPrekeyBundle_call _) = (''GET'', ''/api/v1/users/{id}/prekey-bundle'')"
| "authed_route (GetPrekeyBundleByHandle_call _) = (''GET'', ''/api/v1/users/by-handle/{handle}/prekey-bundle'')"
| "authed_route (CreateAlbum_call _) = (''POST'', ''/api/v1/albums'')"
| "authed_route ListAlbums_call = (''GET'', ''/api/v1/albums'')"
| "authed_route (JoinAlbum_call _) = (''POST'', ''/api/v1/invite/{code}/join'')"

fun album_route :: "album_call \<Rightarrow> string \<times> string" where
  "album_route GetAlbum_call = (''GET'', '''')"
| "album_route (UpdateAlbum_call _) = (''PATCH'', '''')"
| "album_route DeleteAlbum_call = (''DELETE'', '''')"
| "album_route ListAlbumMembers_call = (''GET'', ''/members'')"
| "album_route (UpdateMyProfileCT_call _) = (''PUT'', ''/members/me/profile-ct'')"
| "album_route (AvatarUpload_call _) = (''POST'', ''/members/me/avatar/upload-url'')"
| "album_route (AvatarConfirm_call _) = (''POST'', ''/members/me/avatar/confirm'')"
| "album_route AvatarRemove_call = (''DELETE'', ''/members/me/avatar'')"
| "album_route (AvatarDownload_call _) = (''POST'', ''/avatars/{aid}/download-url'')"
| "album_route (RemoveAlbumMember_call _) = (''DELETE'', ''/members/{token}'')"
| "album_route (GetPrekeyBundleByMemberToken_call _) = (''GET'', ''/members/{token}/prekey-bundle'')"
| "album_route (DeliverExistingUser_call _) = (''POST'', ''/invites/existing-user'')"
| "album_route (JoinComplete_call _) = (''POST'', ''/joins'')"
| "album_route CreateInvite_call = (''POST'', ''/invite'')"
| "album_route CreateInviteBlob_call = (''POST'', ''/invite-blob'')"
| "album_route GetInviteBlob_call = (''GET'', ''/invite-blob'')"
| "album_route (RequestUploadURL_call _) = (''POST'', ''/media/upload-url'')"
| "album_route (ConfirmUpload_call _) = (''POST'', ''/media/confirm'')"
| "album_route ListMedia_call = (''GET'', ''/media'')"
| "album_route (RequestDownloadURL_call _ _) = (''POST'', ''/media/{mid}/download-url'')"
| "album_route (AbortPendingUpload_call _) = (''DELETE'', ''/media/{mid}/pending'')"
| "album_route (DeleteMedia_call _) = (''DELETE'', ''/media/{mid}'')"
| "album_route (SetEpoch_call _) = (''POST'', ''/epoch'')"
| "album_route GetCurrent_call = (''GET'', ''/epoch'')"
| "album_route (GetWrap_call _) = (''GET'', ''/epoch/{n}/wrap'')"

fun call_route :: "call \<Rightarrow> (string \<times> string) option" where
  "call_route (Public c) = Some (public_route c)"
| "call_route (Authed c) = Some (authed_route c)"
| "call_route (Scoped _ c) = (let (m, t) = album_route c in Some (m, ''/api/v1/albums/{id}'' @ t))"
| "call_route _ = None"

section \<open>Serving a request\<close>

definition on_db :: "(db \<Rightarrow> db reply) \<Rightarrow> world \<Rightarrow> world reply" where
  "on_db f w = (case f (w_db w) of (r, ev, d) \<Rightarrow> (r, ev, w\<lparr>w_db := d\<rparr>))"

text \<open>A route behind the rate limiter; the limiter reads the clock in nanoseconds.\<close>

definition limited ::
  "draws \<Rightarrow> bytes \<Rightarrow> int \<Rightarrow> time \<Rightarrow> (world \<Rightarrow> world reply) \<Rightarrow> world \<Rightarrow> world reply" where
  "limited T key mx window next w =
     (case limit_middleware (nat (dr_now T)) key mx window (w_limits w) of
        (Inl e, l) \<Rightarrow> (Inl e, [], w\<lparr>w_limits := l\<rparr>)
      | (Inr _, l) \<Rightarrow> next (w\<lparr>w_limits := l\<rparr>))"

definition probed :: "bytes \<times> bytes \<Rightarrow> nat \<Rightarrow> (world \<Rightarrow> world reply) \<Rightarrow> world \<Rightarrow> world reply" where
  "probed km threshold next w =
     next (w\<lparr>w_probes := snd (probe_distinct (fst km) (snd km) threshold (w_probes w))\<rparr>)"

definition MaxHandleLookups :: int where "MaxHandleLookups = 20"
definition HandleLookupsWindow :: time where "HandleLookupsWindow = hours 1"

text \<open>The body of \<^verbatim>\<open>/health\<close> is plain text and left out.\<close>

fun serve_public :: "server_env \<Rightarrow> draws \<Rightarrow> public_call \<Rightarrow> world \<Rightarrow> world reply" where
  "serve_public X T (RequestOTP_call b) w =
     (case http_RequestOTP (sv_auth X) (dr_now T) (dr_otp T) (dr_mail T) b (w_otp w) of
        (r, ev, s) \<Rightarrow> (r, ev, w\<lparr>w_otp := s\<rparr>))"
| "serve_public X T (VerifyOTP_call b) w =
     (case http_VerifyOTP (sv_auth X) (dr_now T) (dr_signin T) b (w_otp w, w_db w) of
        (r, ev, (s, d)) \<Rightarrow> (r, ev, w\<lparr>w_otp := s, w_db := d\<rparr>))"
| "serve_public X T (Refresh_call b) w = on_db (http_Refresh (sv_env X) (dr_now T) b) w"
| "serve_public X T (GetPreview_call _) w = http_GetPreview w"
| "serve_public X T (DeletionReceipt_call r) w = on_db (http_DeletionReceipt (sv_env X) r) w"
| "serve_public X T (AbandonDeletion_call r) w = on_db (http_AbandonDeletion (sv_env X) (dr_now T) r) w"
| "serve_public X T (ServeWS_call ticket) w =
     (case http_ServeWS (sv_env X) (dr_now T) (dr_accept T) (dr_conn T) ticket (w_tickets w, w_hub w) of
        (r, ev, (m, h)) \<Rightarrow> (r, ev, w\<lparr>w_tickets := m, w_hub := h\<rparr>))"
| "serve_public X T Health_call w = (Inr \<lparr>rs_status = 200, rs_body = None\<rparr>, [], w)"
| "serve_public X T (TestEmitEvent_call b) w =
     (if sv_dev X then (case http_TestEmitEvent (sv_env X) b (w_hub w) of (r, ev, h) \<Rightarrow> (r, ev, w\<lparr>w_hub := h\<rparr>))
      else (Inl (Api E_NOT_FOUND ''route not found''), [], w))"

fun serve_authed :: "server_env \<Rightarrow> draws \<Rightarrow> req_context \<Rightarrow> authed_call \<Rightarrow> world \<Rightarrow> world reply" where
  "serve_authed X T cx IssueTicket_call w =
     (case http_IssueTicket (sv_env X) (dr_now T) (dr_token T) cx (w_tickets w) of
        (r, ev, m) \<Rightarrow> (r, ev, w\<lparr>w_tickets := m\<rparr>))"
| "serve_authed X T cx GetMe_call w = on_db (http_GetMe (sv_env X) cx) w"
| "serve_authed X T cx DeletionPreflight_call w = on_db (http_DeletionPreflight (sv_env X) cx) w"
| "serve_authed X T cx (RequestDeletion_call b) w = on_db (http_RequestDeletion (sv_env X) (dr_now T) cx b) w"
| "serve_authed X T cx (UpsertIdentity_call b) w = on_db (http_UpsertIdentity (sv_env X) (dr_now T) cx b) w"
| "serve_authed X T cx GetOwnKeys_call w = on_db (http_GetOwnKeys cx) w"
| "serve_authed X T cx (RotateSPK_call b) w = on_db (http_RotateSPK (sv_env X) (dr_now T) cx b) w"
| "serve_authed X T cx (ReplenishOPKs_call b) w =
     on_db (http_ReplenishOPKs (sv_env X) (dr_now T) (dr_uuids T) cx b) w"
| "serve_authed X T cx GetOPKCount_call w = on_db (http_GetOPKCount cx) w"
| "serve_authed X T cx (GetPrekeyBundle_call idVar) w =
     limited T (KeyByRequesterAndTarget (sv_env X) (cx_user cx) idVar) 5 (seconds 60)
       (probed (KeyByRequesterTargetHourly (sv_env X) (dr_now T) (cx_user cx) idVar) 20
         (on_db (http_GetPrekeyBundle (sv_env X) (dr_pick T) cx idVar))) w"
| "serve_authed X T cx (GetPrekeyBundleByHandle_call handleVar) w =
     limited T (KeyByRequesterHandleLookups (sv_env X) (cx_user cx)) MaxHandleLookups HandleLookupsWindow
       (limited T (KeyByRequesterAndHandle (sv_env X) (cx_user cx) handleVar) 5 (seconds 60)
         (on_db (http_GetPrekeyBundleByHandle (dr_pick T) cx handleVar))) w"
| "serve_authed X T cx (CreateAlbum_call b) w =
     on_db (http_CreateAlbum (sv_env X) (dr_now T) (dr_uuid T) (dr_token T) cx b) w"
| "serve_authed X T cx ListAlbums_call w = on_db (http_ListAlbums (sv_env X) cx) w"
| "serve_authed X T cx (JoinAlbum_call _) w = http_JoinAlbum w"

text \<open>\<open>d_read\<close> is the database the two confirmations read their row in, before the storage
  answered.\<close>

fun serve_album ::
  "server_env \<Rightarrow> draws \<Rightarrow> req_context \<Rightarrow> bytes \<Rightarrow> db \<Rightarrow> album_call \<Rightarrow> world \<Rightarrow> world reply" where
  "serve_album X T cx idVar d_read GetAlbum_call w = on_db (http_GetAlbum (sv_env X) cx idVar) w"
| "serve_album X T cx idVar d_read (UpdateAlbum_call b) w =
     on_db (http_UpdateAlbum (sv_env X) (dr_now T) cx idVar b) w"
| "serve_album X T cx idVar d_read DeleteAlbum_call w =
     on_db (http_DeleteAlbum (sv_env X) (sv_store X) (dr_now T) cx idVar) w"
| "serve_album X T cx idVar d_read ListAlbumMembers_call w = on_db (http_ListAlbumMembers (sv_env X) idVar) w"
| "serve_album X T cx idVar d_read (UpdateMyProfileCT_call b) w =
     on_db (http_UpdateMyProfileCT (sv_env X) cx idVar b) w"
| "serve_album X T cx idVar d_read (AvatarUpload_call b) w =
     on_db (http_avatar_RequestUploadURL (sv_env X) (sv_store X) (dr_now T) (dr_key T) cx idVar b) w"
| "serve_album X T cx idVar d_read (AvatarConfirm_call b) w =
     on_db (http_avatar_Confirm (sv_env X) (sv_store X) (dr_now T) cx idVar b d_read) w"
| "serve_album X T cx idVar d_read AvatarRemove_call w =
     on_db (http_avatar_Remove (sv_env X) (sv_store X) (dr_now T) cx idVar) w"
| "serve_album X T cx idVar d_read (AvatarDownload_call aidVar) w =
     on_db (http_avatar_DownloadURL (sv_env X) (sv_store X) (dr_now T) idVar aidVar) w"
| "serve_album X T cx idVar d_read (RemoveAlbumMember_call tokenVar) w =
     on_db (http_RemoveAlbumMember (sv_env X) (dr_now T) cx idVar tokenVar) w"
| "serve_album X T cx idVar d_read (GetPrekeyBundleByMemberToken_call tokenVar) w =
     limited T (KeyByRequesterAndMemberToken (sv_env X) (cx_user cx) idVar tokenVar) 5 (seconds 60)
       (on_db (http_GetPrekeyBundleByMemberToken (sv_env X) (dr_pick T) cx idVar tokenVar)) w"
| "serve_album X T cx idVar d_read (DeliverExistingUser_call b) w =
     on_db (http_DeliverExistingUser (sv_env X) (dr_now T) (dr_token T) cx (Some idVar) b) w"
| "serve_album X T cx idVar d_read (JoinComplete_call b) w =
     on_db (http_JoinComplete (sv_env X) (dr_now T) cx (Some idVar) b) w"
| "serve_album X T cx idVar d_read CreateInvite_call w = http_CreateInvite w"
| "serve_album X T cx idVar d_read CreateInviteBlob_call w = http_CreateInviteBlob w"
| "serve_album X T cx idVar d_read GetInviteBlob_call w = http_GetInviteBlob w"
| "serve_album X T cx idVar d_read (RequestUploadURL_call b) w =
     on_db (http_RequestUploadURL (sv_env X) (sv_store X) (dr_now T) (dr_uuid T) (dr_uuid2 T) (dr_key T)
       (dr_key2 T) cx idVar b) w"
| "serve_album X T cx idVar d_read (ConfirmUpload_call b) w =
     on_db (http_ConfirmUpload (sv_env X) (sv_store X) (dr_now T) cx idVar b d_read) w"
| "serve_album X T cx idVar d_read ListMedia_call w = on_db (http_ListMedia (sv_env X) idVar) w"
| "serve_album X T cx idVar d_read (RequestDownloadURL_call midVar query) w =
     on_db (http_RequestDownloadURL (sv_env X) (sv_store X) (dr_now T) idVar midVar query) w"
| "serve_album X T cx idVar d_read (AbortPendingUpload_call midVar) w =
     on_db (http_AbortPendingUpload (sv_env X) (sv_store X) (dr_now T) cx idVar midVar) w"
| "serve_album X T cx idVar d_read (DeleteMedia_call midVar) w =
     on_db (http_DeleteMedia (sv_env X) (sv_store X) (dr_now T) cx idVar midVar) w"
| "serve_album X T cx idVar d_read (SetEpoch_call b) w =
     on_db (http_SetEpoch (sv_env X) (dr_now T) cx (Some idVar) b) w"
| "serve_album X T cx idVar d_read GetCurrent_call w = on_db (http_GetCurrent (sv_env X) (Some idVar)) w"
| "serve_album X T cx idVar d_read (GetWrap_call nVar) w =
     on_db (http_GetWrap (sv_env X) cx (Some idVar) (Some nVar)) w"

definition user_context :: "uuid \<Rightarrow> req_context" where
  "user_context u = \<lparr>cx_user = Some u, cx_token = None, cx_role = None\<rparr>"

definition member_context :: "uuid \<Rightarrow> bytes \<Rightarrow> role \<Rightarrow> req_context" where
  "member_context u token r = \<lparr>cx_user = Some u, cx_token = Some token, cx_role = Some r\<rparr>"

definition method_not_allowed :: response where
  "method_not_allowed = \<lparr>rs_status = 405, rs_body = Some (Obj
     [(''code'', Text (ascii ''E_METHOD_NOT_ALLOWED'')), (''message'', Text (ascii ''method not allowed''))])\<rparr>"

text \<open>\<open>hdr\<close> is the \<^verbatim>\<open>Authorization\<close> header.\<close>

fun serve :: "server_env \<Rightarrow> draws \<Rightarrow> bytes \<Rightarrow> db \<Rightarrow> call \<Rightarrow> world \<Rightarrow> world reply" where
  "serve X T hdr d_read (Public c) w = serve_public X T c w"
| "serve X T hdr d_read (Authed c) w =
     require (Authenticate (sv_env X) (dr_now T) hdr (w_db w))
       (\<lambda>u. serve_authed X T (user_context u) c) w"
| "serve X T hdr d_read (Scoped idVar c) w =
     require (Authenticate (sv_env X) (dr_now T) hdr (w_db w)) (\<lambda>u w.
     require (RequireMember (sv_env X) (Some u) (Some idVar) (w_db w))
       (\<lambda>(albumID, token, r). serve_album X T (member_context u token r) idVar d_read c) w) w"
| "serve X T hdr d_read NoRoute w = (Inl (Api E_NOT_FOUND ''route not found''), [], w)"
| "serve X T hdr d_read WrongMethod w = (Inr method_not_allowed, [], w)"

section \<open>The whole server\<close>

definition respond :: "err + response \<Rightarrow> response" where
  "respond r = (case r of Inl e \<Rightarrow> Write e | Inr x \<Rightarrow> x)"

text \<open>The events go to the hub after the commit they follow; a refused one is only logged. A
  request with the method \<^verbatim>\<open>OPTIONS\<close> ends in \<^verbatim>\<open>CORS\<close>.\<close>

definition send_events :: "emission list \<Rightarrow> hub \<Rightarrow> hub" where
  "send_events ev h = fold (\<lambda>em h. snd (EmitToUsers em h)) ev h"

definition handle_request ::
  "server_env \<Rightarrow> draws \<Rightarrow> string \<Rightarrow> bytes \<Rightarrow> db \<Rightarrow> call \<Rightarrow> world \<Rightarrow> response \<times> world" where
  "handle_request X T verb hdr d_read c w =
     (case CORS verb c of
        None \<Rightarrow> (\<lparr>rs_status = 200, rs_body = None\<rparr>, w)
      | Some c \<Rightarrow>
        (case serve X T hdr d_read c w of
           (r, ev, w') \<Rightarrow> (respond r, w'\<lparr>w_hub := send_events ev (w_hub w')\<rparr>)))"

section \<open>The gates\<close>

lemma on_db_simps [simp]:
  "fst (on_db f w) = fst (f (w_db w))" "reply_events (on_db f w) = reply_events (f (w_db w))"
  "w_db (reply_state (on_db f w)) = reply_state (f (w_db w))"
  by (simp_all add: on_db_def reply_state_def reply_events_def split: prod.split)

text \<open>No route behind the authentication is reached without a session, and no route of an album
  without an active membership in it.\<close>

lemma serve_unauthenticated:
  assumes "Authenticate (sv_env X) (dr_now T) hdr (w_db w) = Inl e"
  shows "serve X T hdr d_read (Authed c) w = (Inl e, [], w)"
    "serve X T hdr d_read (Scoped idVar c') w = (Inl e, [], w)"
  using assms by simp_all

lemma serve_not_member:
  assumes "Authenticate (sv_env X) (dr_now T) hdr (w_db w) = Inr u"
    "RequireMember (sv_env X) (Some u) (Some idVar) (w_db w) = Inl e"
  shows "serve X T hdr d_read (Scoped idVar c) w = (Inl e, [], w)"
  using assms by simp

end
