(* ===== verification/Served.thy ===== *)
theory Served
  imports Router Album_Properties
begin

text \<open>
  The bridge between requests and the state machine of \<^verbatim>\<open>Server\<close>: whatever a handler or a
  background job does to the database is a sequence of admissible steps. So every state the whole
  server comes through is a state of a run, and what the property theories prove of runs holds
  behind the routes.
\<close>

section \<open>Sequences of steps\<close>

definition by_steps :: "env \<Rightarrow> db \<Rightarrow> db \<Rightarrow> bool" where
  "by_steps E d d' \<longleftrightarrow> (\<exists>xs. d' = fold (step E) xs d)"

lemma by_steps_refl [simp, intro]: "by_steps E d d"
  unfolding by_steps_def by (rule exI [of _ "[]"]) simp

lemma by_steps_trans [trans]: "by_steps E d d' \<Longrightarrow> by_steps E d' d'' \<Longrightarrow> by_steps E d d''"
  unfolding by_steps_def by (metis fold_append comp_apply)

lemma by_steps_exec: "op_ok E x d \<Longrightarrow> exec E now x d = d' \<Longrightarrow> by_steps E d d'"
  unfolding by_steps_def by (rule exI [of _ "[(now, x)]"]) (simp add: step_def)

lemma by_steps_tx: "(\<And>r d'. t d = Inr (r, d') \<Longrightarrow> by_steps E d d') \<Longrightarrow> by_steps E d (snd (run_tx t d))"
  by (cases t d rule: run_tx_cases) auto

lemma by_steps_run: "by_steps E (run E ops) d' \<Longrightarrow> \<exists>ops'. d' = run E (ops @ ops')"
  unfolding by_steps_def by (auto simp: run_append)

lemma by_steps_wf: "by_steps E d d' \<Longrightarrow> consistent d \<Longrightarrow> consistent d'"
  unfolding by_steps_def using server.inv_run by blast

text \<open>The single transactions.\<close>

named_theorems steps_intro \<open>transactions and services that are sequences of steps\<close>

lemma album_steps [steps_intro]:
  "CreateWithAdmin E now newID token nameCT u d = Inr (x, d') \<Longrightarrow> length token = tokenLen \<Longrightarrow> by_steps E d d'"
  "MarkReceived now t ep d = Inr (y, d') \<Longrightarrow> by_steps E d d'"
  "RevokeMemberTx now a c t d = Inr (z, d') \<Longrightarrow> by_steps E d d'"
  "DeleteAlbumTx E now a c d = Inr (rm, d') \<Longrightarrow> by_steps E d d'"
  "by_steps E d (UpdateName now a n d)"
  "by_steps E d (UpdateMemberNameCT a t n d)"
  using by_steps_exec [of E "Al (ACreate newID token nameCT u)" d now d']
    by_steps_exec [of E "Al (AReceived t ep)" d now d'] by_steps_exec [of E "Al (ARevoke a c t)" d now d']
    by_steps_exec [of E "Al (ADelete a c)" d now d'] by_steps_exec [of E "Al (AName a n)" d now]
    by_steps_exec [of E "Al (AMemberName a t n)" d now] by simp_all

lemma media_steps [steps_intro]:
  "MarkConfirmed x a res d = Inr (g, d') \<Longrightarrow> by_steps E d d'"
  "DeleteOwnedMedia now a x t d = Inr (rm, d') \<Longrightarrow> by_steps E d d'"
  "avatar_Confirm now a t x d = Inr (ks, d') \<Longrightarrow> by_steps E d d'"
  "by_steps E d (snd (QueuePendingCleanup now x a t res d))"
  "by_steps E d (snd (QueueStalePendingCleanup now cutoff n locked d))"
  "by_steps E d (DeleteObjectCleanupKey k d)"
  "by_steps E d (snd (RescheduleObjectCleanupKey now k d))"
  "by_steps E d (snd (avatar_DropPending now a t x d))"
  "by_steps E d (snd (avatar_Remove now a t d))"
  "by_steps E d (snd (avatar_QueueStalePending now cutoff n locked d))"
  using by_steps_exec [of E "Md (MConfirm x a res)" d 0 d'] by_steps_exec [of E "Md (MDelete a x t)" d now d']
    by_steps_exec [of E "Md (VConfirm a t x)" d now d'] by_steps_exec [of E "Md (MAbort x a t res)" d now]
    by_steps_exec [of E "Md (MStale cutoff n locked)" d now] by_steps_exec [of E "Md (MAck k)" d now]
    by_steps_exec [of E "Md (MRetry k)" d now] by_steps_exec [of E "Md (VDrop a t x)" d now]
    by_steps_exec [of E "Md (VRemove a t)" d now] by_steps_exec [of E "Md (VStale cutoff n locked)" d now]
  by simp_all

lemma account_steps [steps_intro]:
  "user_Create now newID u d = Inr (x, d') \<Longrightarrow> by_steps E d d'"
  "PublishOrRefreshIdentity now v ik lk spk sg ts d = Inr (y, d') \<Longrightarrow> by_steps E d d'"
  "repo_RotateSPK now v spk sg ts d = Inr (y, d') \<Longrightarrow> by_steps E d d'"
  "CreateBatchAtomic now v xs d = Inr (y, d') \<Longrightarrow> by_steps E d d'"
  "by_steps E d (snd (PopRandom pick v d))"
  "session_Create now newID v h ex d = Inr (y, d') \<Longrightarrow> by_steps E d d'"
  "ExtendByToken E t ex d = Inr (y, d') \<Longrightarrow> by_steps E d d'"
  "Accept E now v shared h d = Inr (y, d') \<Longrightarrow> by_steps E d d'"
  "by_steps E d (snd (repo_AbandonReceipt now h d))"
  "by_steps E d (PruneReceipts cutoff d)"
  "by_steps E d (snd (ClaimDue now d))"
  "RemoveMembership E now v a d = Inr (rm, d') \<Longrightarrow> by_steps E d d'"
  "by_steps E d (snd (FinishAccount E v d))"
  using by_steps_exec [of E "Ac (UCreate newID u)" d now d'] by_steps_exec [of E "Ac (UPublish v ik lk spk sg ts)" d now d']
    by_steps_exec [of E "Ac (URotate v spk sg ts)" d now d'] by_steps_exec [of E "Ac (UReplenish v xs)" d now d']
    by_steps_exec [of E "Ac (UPop pick v)" d now] by_steps_exec [of E "Ac (SCreate newID v h ex)" d now d']
    by_steps_exec [of E "Ac (SExtend t ex)" d now d'] by_steps_exec [of E "Ac (DAccept v shared h)" d now d']
    by_steps_exec [of E "Ac (DAbandon h)" d now] by_steps_exec [of E "Ac (DPrune cutoff)" d now]
    by_steps_exec [of E "Ac DClaim" d now] by_steps_exec [of E "Ac (DRemove v a)" d now d']
    by_steps_exec [of E "Ac (DFinish v)" d now]
  by simp_all

section \<open>Services\<close>

lemma service_account_steps [steps_intro]:
  "UpsertIdentity E now v ik lk spk sg ts d = Inr (y, d') \<Longrightarrow> by_steps E d d'"
  "svc_RotateSPK E now v spk sg ts rs d = Inr (y, d') \<Longrightarrow> by_steps E d d'"
  "ReplenishOPKs E now ids v ups sg d = Inr (y, d') \<Longrightarrow> by_steps E d d'"
  "GetPrekeyBundle pick v d = Inr (b, d') \<Longrightarrow> by_steps E d d'"
  "deletion_Request E now v shared r d = Inr (y, d') \<Longrightarrow> by_steps E d d'"
  "by_steps E d (snd (svc_AbandonReceipt E now r d))"
  "RefreshSession E now tk d = Inr (x, d') \<Longrightarrow> by_steps E d d'"
proof -
  show "by_steps E d d'" if "UpsertIdentity E now v ik lk spk sg ts d = Inr (y, d')"
    using that by (auto simp: UpsertIdentity_def split: if_splits sum.splits intro: steps_intro)
  show "by_steps E d d'" if "svc_RotateSPK E now v spk sg ts rs d = Inr (y, d')"
    using that by (auto simp: svc_RotateSPK_def Let_def split: if_splits sum.splits intro: steps_intro)
  show "by_steps E d d'" if "ReplenishOPKs E now ids v ups sg d = Inr (y, d')"
    using that by (auto simp: ReplenishOPKs_def Let_def split: if_splits sum.splits option.splits intro: steps_intro)
  show "by_steps E d d'" if t: "GetPrekeyBundle pick v d = Inr (b, d')"
  proof -
    have "d' = snd (PopRandom pick v d)"
      using t by (auto simp: GetPrekeyBundle_def Let_def split: if_splits sum.splits option.splits prod.splits)
    then show ?thesis by (simp add: account_steps)
  qed
  show "by_steps E d d'" if "deletion_Request E now v shared r d = Inr (y, d')"
    using that by (auto simp: deletion_Request_def split: if_splits sum.splits intro: steps_intro)
  show "by_steps E d (snd (svc_AbandonReceipt E now r d))"
    using account_steps(9) [of E d now "del_receiptHash E r"] by (auto simp: svc_AbandonReceipt_def split: prod.split)
  show "by_steps E d d'" if "RefreshSession E now tk d = Inr (x, d')"
    using that by (auto simp: RefreshSession_def split: if_splits sum.splits intro: steps_intro)
qed

lemma create_account_steps: "createWithMiuchioID now newID hs u d = Inr (r, d') \<Longrightarrow> by_steps E d d'"
  by (induction now newID hs u d rule: createWithMiuchioID.induct)
    (auto split: sum.splits if_splits intro: steps_intro)

lemma VerifyOTP_steps: "by_steps (a_env A) d (snd (snd (VerifyOTP A now R email otp (s, d))))"
proof -
  have signin: "by_steps (a_env A) d d1" if "signin_account A now R h d = Inr (u, d1)" for h u d1
    using that by (auto simp: signin_account_def split: sum.splits if_splits intro: create_account_steps)
  have session: "by_steps (a_env A) d d2"
    if "by_steps (a_env A) d d1" "session_Create now i v h ex d1 = Inr (y, d2)" for d1 d2 i v h ex y
    using that(1) account_steps(6) [OF that(2)] by (rule by_steps_trans)
  show ?thesis
    by (auto simp: VerifyOTP_def Let_def split: prod.split sum.split intro: signin session)
qed

lemma cleanup_steps [steps_intro]: "by_steps E d (snd (cleanupObjectKeys S now ks d))"
proof (induction ks arbitrary: d)
  case (Cons k ks)
  have "by_steps E d (snd (RescheduleObjectCleanupKey now k d))" "by_steps E d (DeleteObjectCleanupKey k d)"
    by (rule steps_intro)+
  then show ?case
    by (auto simp: split_beta Let_def intro: by_steps_trans [OF _ Cons.IH])
qed simp

lemma then_cleanup: "by_steps E d d1 \<Longrightarrow> by_steps E d (snd (cleanupObjectKeys S now ks d1))"
  by (rule by_steps_trans [OF _ cleanup_steps])

lemma avatar_cleanup_steps: "by_steps E d d1 \<Longrightarrow> by_steps E d (avatar_cleanup S now ks d1)"
  by (simp add: avatar_cleanup_def then_cleanup)

lemma retire_steps: "by_steps E d d1 \<Longrightarrow> by_steps E d (snd (retirePending S now row d1))"
  unfolding retirePending_def split_beta Let_def
  by (rule then_cleanup) (rule by_steps_trans [OF _ media_steps(4)])

lemma service_media_steps [steps_intro]:
  "by_steps E d (snd (snd (ConfirmUpload E S now a x u t d_read d)))"
  "by_steps E d (snd (AbortPendingUpload S now a x t d))"
  "by_steps E d (snd (snd (DeleteMedia E S now a x t d)))"
  "by_steps E d (snd (snd (svc_avatar_Confirm E S now a u t x d_read d)))"
  "by_steps E d (snd (snd (svc_avatar_Remove E S now a u t d)))"
proof -
  show "by_steps E d (snd (snd (ConfirmUpload E S now a x u t d_read d)))"
    unfolding ConfirmUpload_def
    by (auto split: sum.split option.split prod.split intro: retire_steps media_steps)
  show "by_steps E d (snd (AbortPendingUpload S now a x t d))"
    unfolding AbortPendingUpload_def split_beta Let_def
    by (auto split: sum.split intro: then_cleanup media_steps)
  show "by_steps E d (snd (snd (DeleteMedia E S now a x t d)))"
    unfolding DeleteMedia_def Let_def by (auto split: sum.split intro: then_cleanup media_steps)
  show "by_steps E d (snd (snd (svc_avatar_Confirm E S now a u t x d_read d)))"
    unfolding svc_avatar_Confirm_def avatar_drop_def split_beta Let_def
    by (auto split: sum.split option.split intro: avatar_cleanup_steps media_steps)
  show "by_steps E d (snd (snd (svc_avatar_Remove E S now a u t d)))"
    unfolding svc_avatar_Remove_def split_beta Let_def by (auto intro: avatar_cleanup_steps media_steps)
qed

text \<open>The transactions whose admissibility rests on what the request drew or checked before.\<close>

lemma SetEpoch_steps:
  assumes "no_collision (cryp E) (member_set_preimage (map in_recipient (se_wraps inp)))
      (member_set_preimage (active_tokens d a))"
  shows "by_steps E d (snd (SetEpoch E now a t r inp d))"
proof (cases "SetEpoch E now a t r inp d")
  case (Pair res d')
  show ?thesis
  proof (cases res)
    case (Inl e)
    then show ?thesis using Pair by (auto simp: SetEpoch_def split: sum.splits prod.splits)
  next
    case (Inr pending)
    obtain req where "album_op_ok E (AInsertEpoch req) d" "InsertEpoch E now req d = Inr ((), d')"
      using SetEpoch_admissible [OF _ assms] Pair Inr by metis
    then show ?thesis using by_steps_exec [of E "Al (AInsertEpoch req)" d now d'] Pair by simp
  qed
qed

lemma Deliver_steps:
  assumes "DeliverExistingUser E now fresh a ct cr inp d = Inr (x, d')" "length fresh = tokenLen"
  shows "by_steps E d d'"
proof -
  obtain t u where "x = (t, u)" by (cases x)
  then show ?thesis using assms
    by (auto elim!: DeliverExistingUser_Inr intro!: by_steps_exec [of E "Al (ADeliver fresh _)" d now])
qed

definition token_of_album :: "db \<Rightarrow> uuid \<Rightarrow> bytes \<Rightarrow> bool" where
  "token_of_album d a t \<longleftrightarrow> (\<forall>i\<in>set (amids d). i_token i = t \<longrightarrow> i_album i = a)"

lemma Upload_steps:
  assumes keys: "fresh_key d (newStorageKey rnd)" "fresh_key d (newStorageKey rt)" "newStorageKey rt \<noteq> newStorageKey rnd"
    and own: "token_of_album d a up"
  shows "by_steps E d (snd (RequestUploadURL S now newID newRes rnd rt a up inp d))"
proof -
  let ?m = "upload_row newID (newStorageKey rnd) (newStorageKey rt) a up inp"
  have ok: "media_op_ok (MReserve newID newRes ?m (up_epoch_tag inp)) d"
    using keys own by (simp add: upload_row_def token_of_album_def)
  have reserve: "by_steps E d d1" if "ReserveUploadRow now newID newRes ?m (up_epoch_tag inp) d = Inr (row, d1)" for row d1
    using by_steps_exec [of E "Md (MReserve newID newRes ?m (up_epoch_tag inp))" d now d1] ok that by simp
  have "by_steps E d1 (snd (presign_row S now inp row d1))" for row d1
    unfolding presign_row_def Let_def by (auto split: option.split prod.split intro: retire_steps)
  then show ?thesis unfolding RequestUploadURL_def
    by (auto split: option.split sum.split bool.split prod.split intro: by_steps_trans reserve)
qed

lemma Avatar_steps:
  assumes "fresh_key d (newStorageKey rnd)"
  shows "by_steps E d (snd (avatar_RequestUploadURL S now rnd a t inp d))"
proof -
  have "by_steps E d d1" if "avatar_Reserve now v d = Inr (row, d1)" "av_key v = newStorageKey rnd" for v row d1
    using by_steps_exec [of E "Md (VReserve v)" d now d1] that assms by simp
  then show ?thesis unfolding avatar_RequestUploadURL_def
    by (auto split: sum.split option.split prod.split)
qed

section \<open>Handlers\<close>

lemma require_steps:
  "(\<And>v. x = Inr v \<Longrightarrow> by_steps E d (reply_state (f v d))) \<Longrightarrow> by_steps E d (reply_state (require x f d))"
  by (rule require_state) auto

lemma commit_steps:
  "(\<And>v d'. t d = Inr (v, d') \<Longrightarrow> by_steps E d d') \<Longrightarrow> by_steps E d (reply_state (commit t f ev d))"
  by (simp add: commit_state by_steps_tx)

lemma relabel_tx_Inr: "relabel_tx g t d = Inr x \<longleftrightarrow> t d = Inr x"
  by (simp add: relabel_tx_def relabel_Inr)

lemmas handler_steps = require_steps commit_steps

lemma album_tx_steps [steps_intro]:
  "CreateAlbum E now newID token nameCT u d = Inr (x, d') \<Longrightarrow> length token = tokenLen \<Longrightarrow> by_steps E d d'"
  "handle_UpdateAlbum E now u a nameCT d = Inr (y, d') \<Longrightarrow> by_steps E d d'"
  "handle_DeleteAlbum E now u a d = Inr (z, d') \<Longrightarrow> by_steps E d d'"
  "handle_RemoveAlbumMember E now u a t d = Inr (em, d') \<Longrightarrow> by_steps E d d'"
  "svc_UpdateMemberNameCT a t nameCT d = Inr (y, d') \<Longrightarrow> by_steps E d d'"
  "JoinComplete E now a t ep ek sg d = Inr (y, d') \<Longrightarrow> by_steps E d d'"
proof -
  show "by_steps E d d'" if "CreateAlbum E now newID token nameCT u d = Inr (x, d')" "length token = tokenLen"
    using that by (auto simp: CreateAlbum_def split: if_splits sum.splits intro: album_steps)
  show "by_steps E d d'" if "handle_UpdateAlbum E now u a nameCT d = Inr (y, d')"
    using that by (auto simp: handle_UpdateAlbum_def UpdateAlbum_def split: if_splits sum.splits intro: album_steps)
  show "by_steps E d d'" if "handle_DeleteAlbum E now u a d = Inr (z, d')"
    using that by (auto simp: handle_DeleteAlbum_def DeleteAlbum_def split: if_splits sum.splits intro: album_steps)
  show "by_steps E d d'" if "handle_RemoveAlbumMember E now u a t d = Inr (em, d')"
    using that by (auto simp: handle_RemoveAlbumMember_def RemoveMember_def split: if_splits sum.splits intro: album_steps)
  show "by_steps E d d'" if "svc_UpdateMemberNameCT a t nameCT d = Inr (y, d')"
    using that by (auto simp: svc_UpdateMemberNameCT_def split: if_splits intro: album_steps)
  show "by_steps E d d'" if "JoinComplete E now a t ep ek sg d = Inr (y, d')"
    using that by (auto simp: JoinComplete_def split: if_splits sum.splits intro: album_steps)
qed

lemma bundle_steps [steps_intro]:
  "GetPrekeyBundleByHandle pick raw d = Inr (x, d') \<Longrightarrow> by_steps E d d'"
  "GetPrekeyBundleByMemberToken E' pick cr a t d = Inr (x, d') \<Longrightarrow> by_steps E d d'"
  by (auto simp: GetPrekeyBundleByHandle_def GetPrekeyBundleByMemberToken_def
      split: sum.splits option.splits if_splits intro: service_account_steps)

section \<open>Requests\<close>

text \<open>
  What a request may rely on: the token it draws has 32 bytes, its two object keys are in use
  nowhere (they are 128 random bits each), and the digest of a rotation's recipients does not collide
  with that of the members it is compared with.
\<close>

fun rotation_collision_free :: "env \<Rightarrow> call \<Rightarrow> db \<Rightarrow> bool" where
  "rotation_collision_free E (Scoped idVar (SetEpoch_call (Some q))) d =
     (case (uuid_Parse E idVar, decode_set_epoch q) of
        (Some a, Inr inp) \<Rightarrow> no_collision (cryp E) (member_set_preimage (map in_recipient (se_wraps inp)))
            (member_set_preimage (active_tokens d a))
      | _ \<Rightarrow> True)"
| "rotation_collision_free E _ d = True"

definition draws_ok :: "env \<Rightarrow> draws \<Rightarrow> call \<Rightarrow> db \<Rightarrow> bool" where
  "draws_ok E T c d \<longleftrightarrow> length (dr_token T) = tokenLen
     \<and> fresh_key d (newStorageKey (dr_key T)) \<and> fresh_key d (newStorageKey (dr_key2 T))
     \<and> newStorageKey (dr_key2 T) \<noteq> newStorageKey (dr_key T) \<and> rotation_collision_free E c d"

lemma lookup_owns:
  assumes "wf d" "LookupMember E u a d = Inr (t, r)"
  shows "token_of_album d a t"
proof (rule LookupMember_Inr [OF assms(2)])
  fix i m assume im: "membership_of d (lhash E u) a = Some (i, m)" "i_token i = t"
  note i = membership_of_Some [OF im(1)]
  have "distinct (map i_token (amids d))" using wfD(2) [OF assms(1)] by (simp add: wf_amids_def)
  then show ?thesis using i im(2) unfolding token_of_album_def by (auto dest: distinct_map_eq)
qed

lemma RequireMember_Inr:
  assumes "RequireMember E (Some u) (Some raw) d = Inr (a, t, r)"
  shows "uuid_Parse E raw = Some a" "LookupMember E u a d = Inr (t, r)"
  using assms by (auto simp: RequireMember_def split: if_splits option.splits sum.splits prod.splits)

lemma member_context_simps [simp]:
  "MustGetUserID (member_context u t r) = Inr u" "MustGetMemberToken msg (member_context u t r) = Inr t"
  "cx_user (member_context u t r) = Some u" "cx_role (member_context u t r) = Some r"
  "role_or_member (member_context u t r) = r"
  by (simp_all add: member_context_def MustGetUserID_def MustGetMemberToken_def role_or_member_def)

lemma user_context_simps [simp]:
  "MustGetUserID (user_context u) = Inr u" "cx_user (user_context u) = Some u"
  by (simp_all add: user_context_def MustGetUserID_def)

lemma parse_uuid_Inr: "parse_uuid E msg raw = Inr a \<longleftrightarrow> uuid_Parse E raw = Some a"
  by (simp add: parse_uuid_def split: option.split)

lemma decode_body_Inr: "decode_body b = Inr q \<longleftrightarrow> b = Some q"
  by (simp add: decode_body_def split: option.split)

lemma limited_db: "w_db (reply_state (limited T key mx win f w)) \<in>
    {w_db w} \<union> range (\<lambda>l. w_db (reply_state (f (w\<lparr>w_limits := l\<rparr>))))"
  by (auto simp: limited_def split: prod.split sum.split)

lemma limited_steps:
  "(\<And>w'. w_db w' = w_db w \<Longrightarrow> by_steps E (w_db w') (w_db (reply_state (f w')))) \<Longrightarrow>
   by_steps E (w_db w) (w_db (reply_state (limited T key mx win f w)))"
proof -
  assume f: "\<And>w'. w_db w' = w_db w \<Longrightarrow> by_steps E (w_db w') (w_db (reply_state (f w')))"
  have "by_steps E (w_db w) (w_db (reply_state (f (w\<lparr>w_limits := l\<rparr>))))" for l
    using f [of "w\<lparr>w_limits := l\<rparr>"] by simp
  then show ?thesis using limited_db [of T key mx win f w] by auto
qed

lemma probed_steps:
  assumes "\<And>w'. w_db w' = w_db w \<Longrightarrow> by_steps E (w_db w') (w_db (reply_state (f w')))"
  shows "by_steps E (w_db w) (w_db (reply_state (probed km n f w)))"
  using assms [of "w\<lparr>w_probes := snd (probe_distinct (fst km) (snd km) n (w_probes w))\<rparr>"]
  by (simp add: probed_def)

lemma finish_steps: "by_steps E d (snd (snd r)) \<Longrightarrow> by_steps E d (reply_state (finish f r))"
  by simp

lemma answer_steps: "by_steps E d (reply_state (answer q f d))"
  by simp

text \<open>One lemma per handler, in the order of the sources.\<close>

lemma http_album_steps:
  "length token = tokenLen \<Longrightarrow> by_steps E d (reply_state (http_CreateAlbum E now newID token cx b d))"
  "by_steps E d (reply_state (http_GetAlbum E cx idVar d))"
  "by_steps E d (reply_state (http_ListAlbums E cx d))"
  "by_steps E d (reply_state (http_UpdateAlbum E now cx idVar b d))"
  "by_steps E d (reply_state (http_ListAlbumMembers E idVar d))"
  "by_steps E d (reply_state (http_UpdateMyProfileCT E cx idVar b d))"
  "by_steps E d (reply_state (http_RemoveAlbumMember E now cx idVar tokenVar d))"
  unfolding album_route_defs
  by (intro handler_steps answer_steps; (unfold relabel_tx_Inr)?; erule album_tx_steps; assumption?)+

lemma http_DeleteAlbum_steps: "by_steps E d (reply_state (http_DeleteAlbum E S now cx idVar d))"
  unfolding http_DeleteAlbum_def
  by (intro require_steps) (auto split: sum.split prod.split intro: then_cleanup album_tx_steps)

lemma http_media_steps:
  "by_steps E d (reply_state (http_ConfirmUpload E S now cx idVar b d_read d))"
  "by_steps E d (reply_state (http_AbortPendingUpload E S now cx idVar midVar d))"
  "by_steps E d (reply_state (http_ListMedia E idVar d))"
  "by_steps E d (reply_state (http_RequestDownloadURL E S now idVar midVar query d))"
  "by_steps E d (reply_state (http_DeleteMedia E S now cx idVar midVar d))"
  "by_steps E d (reply_state (http_avatar_Confirm E S now cx idVar b d_read d))"
  "by_steps E d (reply_state (http_avatar_Remove E S now cx idVar d))"
  "by_steps E d (reply_state (http_avatar_DownloadURL E S now idVar aidVar d))"
  unfolding media_route_defs
  by (intro require_steps finish_steps answer_steps; (simp only: quiet_simps)?; rule service_media_steps)+

lemma http_Upload_steps:
  assumes "fresh_key d (newStorageKey rnd)" "fresh_key d (newStorageKey rt)" "newStorageKey rt \<noteq> newStorageKey rnd"
    and "cx_token cx = Some up" "token_of_album d a up" "uuid_Parse E idVar = Some a"
  shows "by_steps E d (reply_state (http_RequestUploadURL E S now newID newRes rnd rt cx idVar b d))"
  unfolding http_RequestUploadURL_def
  by (intro require_steps finish_steps)
    (use assms in \<open>auto simp: scopedAlbumID_def parse_uuid_Inr MustGetMemberToken_def intro: Upload_steps\<close>)

lemma http_Avatar_steps:
  assumes "fresh_key d (newStorageKey rnd)"
  shows "by_steps E d (reply_state (http_avatar_RequestUploadURL E S now rnd cx idVar b d))"
  unfolding http_avatar_RequestUploadURL_def
  by (intro require_steps finish_steps) (use assms in \<open>auto intro: Avatar_steps\<close>)

lemma http_SetEpoch_steps:
  assumes "uuid_Parse E idVar = Some a" "rotation_collision_free E (Scoped idVar (SetEpoch_call b)) d"
  shows "by_steps E d (reply_state (http_SetEpoch E now cx (Some idVar) b d))"
  unfolding http_SetEpoch_def
proof (intro require_steps)
  fix a' t q inp
  assume v: "e2ee_albumID E (Some idVar) = Inr a'" "decode_body b = Inr q" "decode_set_epoch q = Inr inp"
  then have "a' = a" using assms(1) by (simp add: e2ee_albumID_def parse_uuid_Inr)
  then have "by_steps E d (snd (SetEpoch E now a' t (role_or_member cx) inp d))"
    using v assms by (intro SetEpoch_steps) (simp add: decode_body_Inr)
  then show "by_steps E d (reply_state (case SetEpoch E now a' t (role_or_member cx) inp d of
      (Inl e, d') \<Rightarrow> (Inl e, [], d')
    | (Inr pending, d') \<Rightarrow> (Inr (created_json (Obj [(''epoch'', Num (se_epoch inp)),
          (''pending_members'', Arr (map b64_json pending))])),
       epoch_fanout E a' (se_epoch inp) (map in_recipient (se_wraps inp)) d', d')))"
    by (cases "SetEpoch E now a' t (role_or_member cx) inp d") (simp split: sum.split)
qed

lemma http_key_steps:
  "by_steps E d (reply_state (http_GetCurrent E' i d))"
  "by_steps E d (reply_state (http_GetWrap E' cx i n d))"
  "by_steps E d (reply_state (http_JoinComplete E now cx i jb d))"
  "by_steps E d (reply_state (http_UpsertIdentity E now cx ib d))"
  "by_steps E d (reply_state (http_GetOwnKeys cx d))"
  "by_steps E d (reply_state (http_RotateSPK E now cx rb d))"
  "by_steps E d (reply_state (http_ReplenishOPKs E now ids cx pb d))"
  "by_steps E d (reply_state (http_GetOPKCount cx d))"
  "by_steps E d (reply_state (http_GetPrekeyBundle E' pick cx idVar d))"
  "by_steps E d (reply_state (http_GetPrekeyBundleByHandle pick cx handleVar d))"
  "by_steps E d (reply_state (http_GetPrekeyBundleByMemberToken E' pick cx idVar tokenVar d))"
  unfolding key_route_defs
  by (intro handler_steps answer_steps; (erule service_account_steps album_tx_steps bundle_steps)?)+

lemma http_Deliver_steps:
  assumes "length fresh = tokenLen"
  shows "by_steps E d (reply_state (http_DeliverExistingUser E now fresh cx i b d))"
  unfolding http_DeliverExistingUser_def by (intro handler_steps) (erule Deliver_steps [OF _ assms])

lemma http_account_steps:
  "by_steps E d (reply_state (http_DeletionPreflight E cx d))"
  "by_steps E d (reply_state (http_RequestDeletion E now cx b d))"
  "by_steps E d (reply_state (http_DeletionReceipt E r d))"
  "by_steps E d (reply_state (http_GetMe E cx d))"
  unfolding account_route_defs by (intro handler_steps answer_steps; (erule service_account_steps)?)+

lemma http_AbandonDeletion_steps: "by_steps E d (reply_state (http_AbandonDeletion E now r d))"
proof -
  have "by_steps E d (snd (handle_AbandonDeletion E now v d))" for v
    using service_account_steps(6) [of E d now v]
    by (cases "svc_AbandonReceipt E now v d") (auto simp: handle_AbandonDeletion_def split: sum.split)
  then show ?thesis unfolding http_AbandonDeletion_def by (intro require_steps finish_steps) simp
qed

lemma http_Refresh_steps: "by_steps E d (reply_state (http_Refresh E now b d))"
  unfolding http_Refresh_def
  by (intro handler_steps) (auto simp: handle_Refresh_def split: if_splits sum.splits intro: service_account_steps)

lemma serve_album_steps:
  assumes "token_of_album (w_db w) a t" "uuid_Parse (sv_env X) idVar = Some a"
    and "draws_ok (sv_env X) T (Scoped idVar c) (w_db w)"
  shows "by_steps (sv_env X) (w_db w)
     (w_db (reply_state (serve_album X T (member_context u t r) idVar d_read c w)))"
proof (cases c)
  case GetPrekeyBundleByMemberToken_call
  then show ?thesis by (simp only: serve_album.simps) (intro limited_steps, simp add: http_key_steps)
qed (use assms in \<open>simp_all add: draws_ok_def http_album_steps http_DeleteAlbum_steps http_media_steps
      http_key_steps http_Deliver_steps http_SetEpoch_steps http_Avatar_steps
      http_Upload_steps [where a = a and up = t] member_context_def http_CreateInvite_def
      http_CreateInviteBlob_def http_GetInviteBlob_def\<close>)

lemma serve_authed_steps:
  assumes "draws_ok (sv_env X) T (Authed c) (w_db w)"
  shows "by_steps (sv_env X) (w_db w) (w_db (reply_state (serve_authed X T cx c w)))"
proof (cases c)
  case GetPrekeyBundle_call
  then show ?thesis by (simp only: serve_authed.simps) (intro limited_steps probed_steps, simp add: http_key_steps)
next
  case GetPrekeyBundleByHandle_call
  then show ?thesis by (simp only: serve_authed.simps) (intro limited_steps, simp add: http_key_steps)
next
  case IssueTicket_call
  then show ?thesis by (simp split: prod.split)
qed (use assms in \<open>simp_all add: draws_ok_def http_album_steps http_key_steps http_account_steps
      http_JoinAlbum_def\<close>)

lemma http_VerifyOTP_steps:
  "by_steps (a_env A) d (snd (reply_state (http_VerifyOTP A now R b (s, d))))"
proof -
  have "by_steps (a_env A) d (snd (snd (handle_VerifyOTP A now R email otp (s, d))))" for email otp
    using VerifyOTP_steps [of A d now R "norm_email A email" otp s]
    by (cases "VerifyOTP A now R (norm_email A email) otp (s, d)")
      (auto simp: handle_VerifyOTP_def Let_def split: sum.split)
  then show ?thesis unfolding http_VerifyOTP_def
    by (cases "decode_body b") (simp_all split: prod.split)
qed

lemma serve_public_steps:
  "by_steps (sv_env X) (w_db w) (w_db (reply_state (serve_public X T c w)))"
proof (cases c)
  case (VerifyOTP_call b)
  have "by_steps (sv_env X) (w_db w)
      (snd (reply_state (http_VerifyOTP (sv_auth X) (dr_now T) (dr_signin T) b (w_otp w, w_db w))))"
    by (rule http_VerifyOTP_steps)
  then show ?thesis by (auto simp: VerifyOTP_call reply_state_def split: prod.split)
qed (simp_all add: http_Refresh_steps http_account_steps http_AbandonDeletion_steps http_GetPreview_def
      split: prod.split)

text \<open>Every request that is served is a sequence of steps of the state machine.\<close>

lemma serve_steps:
  assumes "wf (w_db w)" "draws_ok (sv_env X) T c (w_db w)"
  shows "by_steps (sv_env X) (w_db w) (w_db (reply_state (serve X T hdr d_read c w)))"
proof (cases c)
  case (Public p)
  then show ?thesis by (simp add: serve_public_steps)
next
  case (Authed p)
  show ?thesis
  proof (cases "Authenticate (sv_env X) (dr_now T) hdr (w_db w)")
    case (Inr u)
    then show ?thesis using assms Authed by (simp add: serve_authed_steps)
  qed (simp add: Authed)
next
  case (Scoped idVar p)
  show ?thesis
  proof (cases "Authenticate (sv_env X) (dr_now T) hdr (w_db w)")
    case u: (Inr u)
    show ?thesis
    proof (cases "RequireMember (sv_env X) (Some u) (Some idVar) (w_db w)")
      case (Inr x)
      obtain a t r where x: "x = (a, t, r)" by (cases x)
      note m = RequireMember_Inr [OF Inr [unfolded x]]
      show ?thesis using serve_album_steps [OF lookup_owns [OF assms(1) m(2)] m(1)] assms(2) u Inr x Scoped
        by simp
    qed (simp add: Scoped u)
  qed (simp add: Scoped)
qed simp_all

section \<open>The whole server\<close>

text \<open>The requests and the three background jobs. The two sweeps run on their
  timers, the deletion worker also when it is woken.\<close>

datatype activity =
  Request draws string bytes db call | SweepUploads time | SweepAvatars time | RunDeletions time

definition act :: "server_env \<Rightarrow> activity \<Rightarrow> world \<Rightarrow> world" where
  "act X a w = (case a of
     Request T verb hdr d_read c \<Rightarrow> snd (handle_request X T verb hdr d_read c w)
   | SweepUploads now \<Rightarrow> w\<lparr>w_db := snd (RunPendingUploadCleanup_round (sv_store X) now (w_db w))\<rparr>
   | SweepAvatars now \<Rightarrow> w\<lparr>w_db := avatar_RunPendingCleanup_round (sv_store X) now (w_db w)\<rparr>
   | RunDeletions now \<Rightarrow>
       (case ProcessDue (sv_env X) (sv_store X) now (w_db w) of
          ((_, ev), d) \<Rightarrow> w\<lparr>w_db := d, w_hub := send_events ev (w_hub w)\<rparr>))"

fun activity_ok :: "server_env \<Rightarrow> activity \<Rightarrow> world \<Rightarrow> bool" where
  "activity_ok X (Request T verb hdr d_read c) w = draws_ok (sv_env X) T c (w_db w)"
| "activity_ok X _ w = True"

text \<open>A history in which every request drew fresh values.\<close>

fun history_ok :: "server_env \<Rightarrow> activity list \<Rightarrow> world \<Rightarrow> bool" where
  "history_ok X [] w = True"
| "history_ok X (a # as) w = (activity_ok X a w \<and> history_ok X as (act X a w))"

lemma handle_request_db:
  "w_db (snd (handle_request X T verb hdr d_read c w)) = w_db w \<or>
   w_db (snd (handle_request X T verb hdr d_read c w)) = w_db (reply_state (serve X T hdr d_read c w))"
  by (simp add: handle_request_def CORS_def split: prod.split)

lemma sweep_steps:
  "by_steps E d (snd (RunPendingUploadCleanup_round S now d))"
  "by_steps E d (avatar_RunPendingCleanup_round S now d)"
  unfolding RunPendingUploadCleanup_round_def SweepStalePendingUploads_def avatar_RunPendingCleanup_round_def
  by (auto simp: split_beta Let_def intro: then_cleanup avatar_cleanup_steps media_steps)

lemma remove_all_steps: "by_steps E d (snd (remove_all E S now u as d))"
proof (induction as arbitrary: d)
  case (Cons a as)
  show ?case
  proof (cases "RemoveMembership E now u a d")
    case (Inr x)
    obtain rm d1 where x: "x = (rm, d1)" by (cases x)
    let ?d2 = "snd (cleanupObjectKeys S now (rm_keys rm) d1)"
    have "by_steps E d ?d2" using Inr x by (intro then_cleanup account_steps) simp
    moreover have "by_steps E ?d2 (snd (remove_all E S now u as ?d2))" by (rule Cons.IH)
    ultimately have "by_steps E d (snd (remove_all E S now u as ?d2))" by (rule by_steps_trans)
    then show ?thesis using Inr x by (cases "remove_all E S now u as ?d2") (simp add: Let_def split: sum.split)
  qed simp
qed simp

lemma process_steps: "by_steps E d (snd (process_passes n E S now u d))"
proof (induction n arbitrary: d)
  case (Suc n)
  obtain r d1 where p: "remove_all E S now u (map ms_album (Memberships E u d)) d = (r, d1)" by fastforce
  then have 1: "by_steps E d d1" using remove_all_steps [of E d S now u] by (metis snd_conv)
  obtain ok d2 where f: "FinishAccount E u d1 = (ok, d2)" by fastforce
  then have "by_steps E d1 d2" using account_steps(13) [of E d1 u] by simp
  with 1 have 2: "by_steps E d d2" by (rule by_steps_trans)
  have 3: "by_steps E d (snd (process_passes n E S now u d2))" by (rule by_steps_trans [OF 2 Suc.IH])
  obtain r3 d3 where q: "process_passes n E S now u d2 = (r3, d3)" by fastforce
  show ?case using 1 2 3 p f q by (simp split: sum.split bool.split prod.split)
qed simp

lemma rounds_steps: "by_steps E d (snd (process_due_rounds n E S now d))"
proof (induction n arbitrary: d)
  case (Suc n)
  obtain j d1 where c: "ClaimDue now d = (j, d1)" by fastforce
  then have 1: "by_steps E d d1" using account_steps(11) [of E d now] by simp
  show ?case
  proof (cases j)
    case (Some u)
    obtain r d2 where p: "process E S now u d1 = (r, d2)" by fastforce
    then have "by_steps E d1 d2" using process_steps [of E d1 maxDeletionPasses S now u] by (simp add: process_def)
    with 1 have "by_steps E d d2" by (rule by_steps_trans)
    then have 3: "by_steps E d (snd (process_due_rounds n E S now d2))" by (rule by_steps_trans [OF _ Suc.IH])
    obtain k d3 where "process_due_rounds n E S now d2 = (k, d3)" by fastforce
    then show ?thesis using 3 c p Some by (simp add: Let_def split: sum.split prod.split bool.split)
  qed (use 1 c in simp)
qed simp

lemma ProcessDue_steps: "by_steps E d (snd (ProcessDue E S now d))"
  unfolding ProcessDue_def Let_def by (rule by_steps_trans [OF account_steps(10) rounds_steps])

lemma act_steps:
  assumes "wf (w_db w)" "activity_ok X a w"
  shows "by_steps (sv_env X) (w_db w) (w_db (act X a w))"
proof (cases a)
  case (Request T verb hdr d_read c)
  then show ?thesis
    using serve_steps [OF assms(1)] assms(2) handle_request_db [of X T verb hdr d_read c w]
    by (auto simp: act_def)
next
  case (RunDeletions now)
  then show ?thesis using ProcessDue_steps [of "sv_env X" "w_db w" "sv_store X" now]
    by (auto simp: act_def split: prod.split)
qed (simp_all add: act_def sweep_steps)

lemma history_steps:
  "consistent (w_db w) \<Longrightarrow> history_ok X as w \<Longrightarrow> by_steps (sv_env X) (w_db w) (w_db (fold (act X) as w))"
proof (induction as arbitrary: w)
  case (Cons a as)
  have 1: "by_steps (sv_env X) (w_db w) (w_db (act X a w))"
    using Cons.prems by (intro act_steps) (simp_all add: consistentD)
  then have "consistent (w_db (act X a w))" using by_steps_wf Cons.prems(1) by blast
  with Cons have "by_steps (sv_env X) (w_db (act X a w)) (w_db (fold (act X) as (act X a w)))" by simp
  with 1 show ?case by (simp add: by_steps_trans)
qed simp

end
