(* ===== verification/Request_Properties.thy ===== *)
theory Request_Properties
  imports Served
begin

text \<open>
  What holds of requests as a whole: the server behind its routes runs the state machine, nobody
  passes the gates without a session and a membership, the powers of the admin are the admin's, a
  refusal leaves nothing behind, answers name no stored object and no account they must not name,
  tokens survive their path, and the access log tells what was sent.
\<close>

section \<open>A server to evaluate\<close>

definition demo_server :: server_env where
  "demo_server = \<lparr>sv_auth = \<lparr>a_env = demo, emailHMACKey = [], norm_email = (\<lambda>e. e)\<rparr>,
     sv_store = demo_store, sv_dev = False\<rparr>"

definition demo_draws :: "time \<Rightarrow> draws" where
  "demo_draws now = \<lparr>dr_now = now, dr_uuid = 7, dr_uuid2 = 8, dr_uuids = [], dr_token = tok 1, dr_key = [1],
     dr_key2 = [2], dr_pick = 0, dr_otp = [1, 2, 3, 4, 5, 6], dr_mail = True,
     dr_signin = \<lparr>rn_user = 1, rn_session = 70, rn_handles = [handle 1], rn_token = [9]\<rparr>,
     dr_accept = None, dr_conn = 1\<rparr>"

definition demo_header :: bytes where "demo_header = ascii ''Bearer '' @ generateToken [9]"

text \<open>A sign-in and the creation of an album, and two of the jobs.\<close>

definition first_requests :: "activity list" where
  "first_requests = [
     Request (demo_draws 0) ''POST'' [] empty_db (Public (RequestOTP_call (Some [65]))),
     Request (demo_draws 1) ''POST'' [] empty_db
       (Public (VerifyOTP_call (Some ([65], generateOTP [1, 2, 3, 4, 5, 6])))),
     Request (demo_draws 2) ''POST'' demo_header empty_db (Authed (CreateAlbum_call (Some (ascii ''QUJD'')))),
     SweepUploads 3, RunDeletions 4]"

text \<open>The shared album of \<^verbatim>\<open>Scenario\<close> while the account \<open>u\<close> is signed in.\<close>

definition signed_in :: "uuid \<Rightarrow> world" where
  "signed_in u = empty_world\<lparr>w_db := then_do (Ac (SCreate 71 u (HashToken demo (generateToken [9])) 100))\<rparr>"

section \<open>The server runs the state machine\<close>

text \<open>C6. Whatever requests arrive, one at a time and with whatever answers of the storage and the mail
  service, and whenever the background jobs run between them: the database of the server is always the state of a run of the
  state machine, so every property of runs holds of it.\<close>

theorem server_runs_steps:
  assumes "history_ok X as empty_world"
  shows "\<exists>ops. w_db (fold (act X) as empty_world) = run (sv_env X) ops"
proof -
  have "by_steps (sv_env X) (w_db empty_world) (w_db (fold (act X) as empty_world))"
    by (rule history_steps [OF _ assms]) (simp add: empty_world_def consistent_empty)
  then show ?thesis by (auto simp: by_steps_def run_def empty_world_def)
qed

theorem server_runs_steps_witness:
  "\<exists>ops. w_db (fold (act demo_server) first_requests empty_world) = run demo ops
     \<and> map a_id (albums (run demo ops)) = [7] \<and> map u_id (users (run demo ops)) = [1]"
proof -
  let ?d = "w_db (fold (act demo_server) first_requests empty_world)"
  have ok: "history_ok demo_server first_requests empty_world" by code_simp
  have e: "let d = ?d in map a_id (albums d) = [7] \<and> map u_id (users d) = [1]" by code_simp
  from ok obtain ops where "?d = run (sv_env demo_server) ops"
    using server_runs_steps [of demo_server first_requests] by blast
  then have "?d = run demo ops" by (simp add: demo_server_def)
  with e show ?thesis unfolding Let_def by auto
qed

section \<open>The gates\<close>

definition member_of_album :: "env \<Rightarrow> db \<Rightarrow> uuid \<Rightarrow> uuid \<Rightarrow> bool" where
  "member_of_album E d u a \<longleftrightarrow> (\<exists>i\<in>set (amids d). user_handle i = lhash E u \<and> i_album i = a \<and>
     (\<exists>m\<in>set (members d). m_album m = a \<and> m_token m = i_token i \<and> revoked_at m = None))"

lemma LookupMember_member: "LookupMember E u a d = Inr (t, r) \<Longrightarrow> member_of_album E d u a"
proof (erule LookupMember_Inr)
  fix i m assume im: "membership_of d (lhash E u) a = Some (i, m)" "revoked_at m = None"
  note i = membership_of_Some [OF im(1)]
  from find_member_Some [OF i(4)] im(2) i(1-3) show "member_of_album E d u a"
    unfolding member_of_album_def by (intro bexI [of _ i] conjI bexI [of _ m]) simp_all
qed

lemma LookupMember_error: "LookupMember E u a d = Inl e \<Longrightarrow> e = Repo ErrMemberNotFound \<or> e = Repo ErrMemberRevoked"
  by (auto simp: LookupMember_def split: option.splits if_splits)

lemma Authenticate_error: "Authenticate E now hdr d = Inl e \<Longrightarrow> \<exists>m. e = Api E_AUTH m"
  by (auto simp: Authenticate_def split: if_splits sum.splits list.splits)

lemma outsider_refused:
  assumes "\<not> member_of_album E d u a" "uuid_Parse E raw = Some a" "raw \<noteq> []"
  obtains e where "RequireMember E (Some u) (Some raw) d = Inl e" "write_status e = 403"
proof -
  obtain e where e: "LookupMember E u a d = Inl e"
    using assms(1) LookupMember_member by (cases "LookupMember E u a d") (auto simp: prod.exhaust_sel)
  have "RequireMember E (Some u) (Some raw) d = Inl (if e = Repo ErrMemberNotFound
      then Api E_NOT_MEMBER ''not a member of this album''
      else if e = Repo ErrMemberRevoked then Api E_MEMBER_REVOKED ''your access to this album has been revoked''
      else Api E_INTERNAL ''member lookup failed'')" (is "_ = Inl ?e")
    by (simp add: RequireMember_def assms e)
  moreover have "write_status ?e = 403" using LookupMember_error [OF e] by (auto simp: write_status_def)
  ultimately show thesis by (rule that)
qed

lemma refused_request:
  assumes "serve X T hdr d_read c w = (Inl e, [], w)" "verb \<noteq> ''OPTIONS''"
  shows "handle_request X T verb hdr d_read c w = (Write e, w)"
  using assms by (simp add: handle_request_def CORS_def respond_def send_events_def)

lemma Write_status [simp]: "rs_status (Write e) = write_status e"
  by (simp add: Write_def write_status_def split: prod.split)

text \<open>C7. Strangers get nothing: without a valid session every route behind the authentication is
  answered 401, and with a session every route of an album is answered 403 unless the account is an
  active member of that album. Neither changes anything anywhere.\<close>

theorem strangers_refused:
  assumes "verb \<noteq> ''OPTIONS''"
  shows "(\<forall>e. Authenticate (sv_env X) (dr_now T) hdr (w_db w) = Inl e \<longrightarrow>
      (\<forall>c. c \<in> range Authed \<or> (\<exists>idVar p. c = Scoped idVar p) \<longrightarrow>
        (\<exists>resp. handle_request X T verb hdr d_read c w = (resp, w) \<and> rs_status resp = 401))) \<and>
    (\<forall>u idVar a p. Authenticate (sv_env X) (dr_now T) hdr (w_db w) = Inr u \<and> idVar \<noteq> [] \<and>
        uuid_Parse (sv_env X) idVar = Some a \<and> \<not> member_of_album (sv_env X) (w_db w) u a \<longrightarrow>
        (\<exists>resp. handle_request X T verb hdr d_read (Scoped idVar p) w = (resp, w) \<and> rs_status resp = 403))"
proof (intro conjI allI impI)
  fix e c
  assume e: "Authenticate (sv_env X) (dr_now T) hdr (w_db w) = Inl e"
    and c: "c \<in> range Authed \<or> (\<exists>idVar p. c = Scoped idVar p)"
  have "serve X T hdr d_read c w = (Inl e, [], w)" using c serve_unauthenticated [OF e] by auto
  then have "handle_request X T verb hdr d_read c w = (Write e, w)" by (rule refused_request [OF _ assms])
  then show "\<exists>resp. handle_request X T verb hdr d_read c w = (resp, w) \<and> rs_status resp = 401"
    using Authenticate_error [OF e] by (auto simp: write_status_def)
next
  fix u idVar a p
  assume u: "Authenticate (sv_env X) (dr_now T) hdr (w_db w) = Inr u \<and> idVar \<noteq> [] \<and>
        uuid_Parse (sv_env X) idVar = Some a \<and> \<not> member_of_album (sv_env X) (w_db w) u a"
  then obtain e where e: "RequireMember (sv_env X) (Some u) (Some idVar) (w_db w) = Inl e" "write_status e = 403"
    using outsider_refused by metis
  have "serve X T hdr d_read (Scoped idVar p) w = (Inl e, [], w)" using serve_not_member u e(1) by blast
  then have "handle_request X T verb hdr d_read (Scoped idVar p) w = (Write e, w)"
    by (rule refused_request [OF _ assms])
  then show "\<exists>resp. handle_request X T verb hdr d_read (Scoped idVar p) w = (resp, w) \<and> rs_status resp = 403"
    using e(2) by simp
qed

theorem strangers_refused_witness:
  "\<exists>resp. handle_request demo_server (demo_draws 1) ''GET'' demo_header empty_db
     (Scoped (uuid_bytes 7) ListMedia_call) (signed_in 3) = (resp, signed_in 3) \<and> rs_status resp = 403"
proof -
  have "Authenticate (sv_env demo_server) (dr_now (demo_draws 1)) demo_header (w_db (signed_in 3)) = Inr 3 \<and>
      uuid_bytes 7 \<noteq> [] \<and> uuid_Parse (sv_env demo_server) (uuid_bytes 7) = Some 7 \<and>
      \<not> member_of_album (sv_env demo_server) (w_db (signed_in 3)) 3 7"
    by code_simp
  then show ?thesis
    using strangers_refused [of "''GET''" demo_server "demo_draws 1" demo_header "signed_in 3" empty_db] by blast
qed

section \<open>The powers of the admin\<close>

text \<open>The calls that only the admin may make, for a member with token \<open>t\<close>: to remove a member is
  the admin's right unless the member leaves.\<close>

fun admin_call :: "bytes \<Rightarrow> album_call \<Rightarrow> bool" where
  "admin_call t (SetEpoch_call _) = True"
| "admin_call t (DeliverExistingUser_call _) = True"
| "admin_call t (UpdateAlbum_call _) = True"
| "admin_call t DeleteAlbum_call = True"
| "admin_call t (GetPrekeyBundleByMemberToken_call _) = True"
| "admin_call t (RemoveAlbumMember_call v) = (decodeMemberTokenPath v \<noteq> Some t)"
| "admin_call t _ = False"

lemma require_refused:
  "(\<And>v. x = Inr v \<Longrightarrow> isl (fst (f v s)) \<and> snd (f v s) = ([], s)) \<Longrightarrow>
   isl (fst (require x f s)) \<and> snd (require x f s) = ([], s)"
  by (cases x) simp_all

lemma commit_refused:
  "isl (t s) \<Longrightarrow> isl (fst (commit t f ev s)) \<and> snd (commit t f ev s) = ([], s)"
  by (cases "t s") (simp_all add: commit_def)

lemma on_db_refused:
  assumes "isl (fst (f (w_db w))) \<and> snd (f (w_db w)) = ([], w_db w)"
  shows "isl (fst (on_db f w)) \<and> reply_events (on_db f w) = [] \<and> w_db (reply_state (on_db f w)) = w_db w"
  using assms by (cases "f (w_db w)") (simp add: on_db_def)

lemma limited_refused:
  assumes "\<And>l. isl (fst (f (w\<lparr>w_limits := l\<rparr>))) \<and> reply_events (f (w\<lparr>w_limits := l\<rparr>)) = []
      \<and> w_db (reply_state (f (w\<lparr>w_limits := l\<rparr>))) = w_db (w\<lparr>w_limits := l\<rparr>)"
  shows "isl (fst (limited T key mx win f w)) \<and> reply_events (limited T key mx win f w) = []
    \<and> w_db (reply_state (limited T key mx win f w)) = w_db w"
  using assms by (auto simp: limited_def split: prod.split sum.split)

lemma no_admin_tx:
  assumes "LookupMember E u a d = Inr (t, r)" "r \<noteq> Admin"
  shows "isl (handle_UpdateAlbum E now u a n d)" "isl (handle_DeleteAlbum E now u a d)"
    "t' \<noteq> t \<Longrightarrow> isl (handle_RemoveAlbumMember E now u a t' d)"
    "isl (DeliverExistingUser E now fresh a t r inp d)"
    "SetEpoch E now a t r sinp d = (Inl (Api E_FORBIDDEN ''only the admin can rotate epoch''), d)"
  using assms by (simp_all add: handle_UpdateAlbum_def UpdateAlbum_def handle_DeleteAlbum_def DeleteAlbum_def
      handle_RemoveAlbumMember_def RemoveMember_def DeliverExistingUser_def SetEpoch_def SetEpoch_validate_def)

lemma serve_album_no_admin:
  assumes l: "LookupMember (sv_env X) u a (w_db w) = Inr (t, r)" "r \<noteq> Admin"
    and a: "uuid_Parse (sv_env X) idVar = Some a" and c: "admin_call t c"
  shows "isl (fst (serve_album X T (member_context u t r) idVar d_read c w))
    \<and> reply_events (serve_album X T (member_context u t r) idVar d_read c w) = []
    \<and> w_db (reply_state (serve_album X T (member_context u t r) idVar d_read c w)) = w_db w"
proof -
  note tx = no_admin_tx [OF l]
  note parse = scopedAlbumID_def e2ee_albumID_def parse_uuid_def a
  show ?thesis
  proof (cases c)
    case (SetEpoch_call b)
    have "isl (fst (http_SetEpoch (sv_env X) now (member_context u t r) (Some idVar) b (w_db w))) \<and>
        snd (http_SetEpoch (sv_env X) now (member_context u t r) (Some idVar) b (w_db w)) = ([], w_db w)" for now
      unfolding http_SetEpoch_def by (intro require_refused) (auto simp: parse tx)
    then show ?thesis unfolding SetEpoch_call serve_album.simps by (rule on_db_refused)
  next
    case (DeliverExistingUser_call b)
    have "isl (fst (http_DeliverExistingUser (sv_env X) now fresh (member_context u t r) (Some idVar) b (w_db w))) \<and>
        snd (http_DeliverExistingUser (sv_env X) now fresh (member_context u t r) (Some idVar) b (w_db w)) = ([], w_db w)"
      for now fresh
      unfolding http_DeliverExistingUser_def by (intro require_refused commit_refused) (auto simp: parse tx)
    then show ?thesis unfolding DeliverExistingUser_call serve_album.simps by (rule on_db_refused)
  next
    case (UpdateAlbum_call b)
    have "isl (fst (http_UpdateAlbum (sv_env X) now (member_context u t r) idVar b (w_db w))) \<and>
        snd (http_UpdateAlbum (sv_env X) now (member_context u t r) idVar b (w_db w)) = ([], w_db w)" for now
      unfolding http_UpdateAlbum_def by (intro require_refused commit_refused) (auto simp: parse tx)
    then show ?thesis unfolding UpdateAlbum_call serve_album.simps by (rule on_db_refused)
  next
    case DeleteAlbum_call
    have "isl (fst (http_DeleteAlbum (sv_env X) S now (member_context u t r) idVar (w_db w))) \<and>
        snd (http_DeleteAlbum (sv_env X) S now (member_context u t r) idVar (w_db w)) = ([], w_db w)" for S now
      unfolding http_DeleteAlbum_def
      by (intro require_refused) (use tx(2) [of now] in \<open>auto simp: parse split: sum.splits\<close>)
    then show ?thesis unfolding DeleteAlbum_call serve_album.simps by (rule on_db_refused)
  next
    case (RemoveAlbumMember_call v)
    have "isl (fst (http_RemoveAlbumMember (sv_env X) now (member_context u t r) idVar v (w_db w))) \<and>
        snd (http_RemoveAlbumMember (sv_env X) now (member_context u t r) idVar v (w_db w)) = ([], w_db w)" for now
      unfolding http_RemoveAlbumMember_def
      by (intro require_refused commit_refused)
        (use c RemoveAlbumMember_call in \<open>auto simp: parse token_var_def intro!: tx split: option.splits\<close>)
    then show ?thesis unfolding RemoveAlbumMember_call serve_album.simps by (rule on_db_refused)
  next
    case (GetPrekeyBundleByMemberToken_call v)
    have 1: "isl (fst (http_GetPrekeyBundleByMemberToken (sv_env X) n (member_context u t r) idVar v d)) \<and>
        snd (http_GetPrekeyBundleByMemberToken (sv_env X) n (member_context u t r) idVar v d) = ([], d)" for n d
      unfolding http_GetPrekeyBundleByMemberToken_def by (intro require_refused) (simp add: admin_context_def l(2))
    show ?thesis unfolding GetPrekeyBundleByMemberToken_call serve_album.simps
      by (intro limited_refused on_db_refused 1)
  qed (use c in simp_all)
qed

lemma on_db_hub [simp]: "w_hub (reply_state (on_db f w)) = w_hub w"
  by (simp add: on_db_def reply_state_def split: prod.split)

text \<open>The routes of an album touch the hub only through the events they send.\<close>

lemma serve_album_hub: "w_hub (reply_state (serve_album X T cx idVar d_read c w)) = w_hub w"
  by (cases c) (simp_all add: http_CreateInvite_def http_CreateInviteBlob_def http_GetInviteBlob_def
      limited_def split: prod.split sum.split)

text \<open>C8. What only the admin may do, only the admin can: when a member who is not the admin asks to
  rotate the album's key, to invite, to rename or delete the album, to remove somebody else or to fetch
  a member's key bundle, the answer is an error, nobody is notified and the database stays as it was.\<close>

theorem admin_powers:
  assumes "Authenticate (sv_env X) (dr_now T) hdr (w_db w) = Inr u"
    and "LookupMember (sv_env X) u a (w_db w) = Inr (t, r)" "r \<noteq> Admin"
    and "uuid_Parse (sv_env X) idVar = Some a" "idVar \<noteq> []" "admin_call t c" "verb \<noteq> ''OPTIONS''"
  shows "let (resp, w') = handle_request X T verb hdr d_read (Scoped idVar c) w in
     400 \<le> rs_status resp \<and> rs_status resp < 600 \<and> w_db w' = w_db w \<and> w_hub w' = w_hub w"
proof -
  have "RequireMember (sv_env X) (Some u) (Some idVar) (w_db w) = Inr (a, t, r)"
    by (simp add: RequireMember_def assms)
  then have s: "serve X T hdr d_read (Scoped idVar c) w = serve_album X T (member_context u t r) idVar d_read c w"
    by (simp add: assms(1))
  obtain x ev w' where q: "serve_album X T (member_context u t r) idVar d_read c w = (x, ev, w')"
    by (cases "serve_album X T (member_context u t r) idVar d_read c w")
  from serve_album_no_admin [OF assms(2-4,6), of T d_read, unfolded q] obtain e
    where e: "x = Inl e" "ev = []" "w_db w' = w_db w" by (cases x) simp_all
  show ?thesis
    using serve_album_hub [of X T "member_context u t r" idVar d_read c w] q
    by (simp del: serve.simps add: handle_request_def CORS_def assms(7) s e respond_def send_events_def write_status_range)
qed

theorem admin_powers_witness:
  "let (resp, w') = handle_request demo_server (demo_draws 1) ''DELETE'' demo_header empty_db
       (Scoped (uuid_bytes 7) DeleteAlbum_call) (signed_in 2) in
     400 \<le> rs_status resp \<and> rs_status resp < 600 \<and> w_db w' = w_db (signed_in 2) \<and> w_hub w' = w_hub (signed_in 2)"
proof (rule admin_powers)
  show "Authenticate (sv_env demo_server) (dr_now (demo_draws 1)) demo_header (w_db (signed_in 2)) = Inr 2"
    by code_simp
  show "LookupMember (sv_env demo_server) 2 7 (w_db (signed_in 2)) = Inr (tok 2, Member)" by code_simp
  show "uuid_Parse (sv_env demo_server) (uuid_bytes 7) = Some 7" by code_simp
  show "uuid_bytes (7 :: uuid) \<noteq> []" by code_simp
qed simp_all

section \<open>Refusals\<close>















section \<open>What answers do not tell\<close>

lemma insort_key_map: "insort_key k (f x) (map f xs) = map f (insort_key (\<lambda>x. k (f x)) x xs)"
  by (induction xs) simp_all

lemma sort_key_map: "sort_key k (map f xs) = map f (sort_key (\<lambda>x. k (f x)) xs)"
  by (induction xs) (simp_all add: insort_key_map)

lemma find_map: "find P (map f xs) = map_option f (find (\<lambda>x. P (f x)) xs)"
  by (induction xs) simp_all

text \<open>The database under other names for its stored objects.\<close>

definition rekey_media :: "(bytes \<Rightarrow> bytes) \<Rightarrow> media \<Rightarrow> media" where
  "rekey_media f m = m\<lparr>storage_key := f (storage_key m), thumb_key := map_option f (thumb_key m)\<rparr>"

definition rekey_avatar :: "(bytes \<Rightarrow> bytes) \<Rightarrow> avatar \<Rightarrow> avatar" where
  "rekey_avatar f v = v\<lparr>av_key := f (av_key v)\<rparr>"

definition rekeyed :: "(bytes \<Rightarrow> bytes) \<Rightarrow> db \<Rightarrow> db" where
  "rekeyed f d = d\<lparr>medias := map (rekey_media f) (medias d), avatars := map (rekey_avatar f) (avatars d)\<rparr>"

lemma rekey_columns [simp]:
  "md_id (rekey_media f m) = md_id m" "md_album (rekey_media f m) = md_album m"
  "confirmed (rekey_media f m) = confirmed m" "album_seq (rekey_media f m) = album_seq m"
  "md_created_at (rekey_media f m) = md_created_at m" "thumb_wrap_nonce (rekey_media f m) = thumb_wrap_nonce m"
  "thumb_wrap_tag_ct (rekey_media f m) = thumb_wrap_tag_ct m" "thumb_size (rekey_media f m) = thumb_size m"
  "thumb_sha256 (rekey_media f m) = thumb_sha256 m" "epoch_tag (rekey_media f m) = epoch_tag m"
  "mediaRow E (rekey_media f m) = mediaRow E m"
  "avatar_id (rekey_avatar f v) = avatar_id v" "av_album (rekey_avatar f v) = av_album v"
  "av_token (rekey_avatar f v) = av_token v" "av_confirmed (rekey_avatar f v) = av_confirmed v"
  "av_size (rekey_avatar f v) = av_size v" "av_sha256 (rekey_avatar f v) = av_sha256 v"
  "key_ct (rekey_avatar f v) = key_ct v"
  by (simp_all add: rekey_media_def rekey_avatar_def mediaRow_def split: option.split)

lemma rekeyed_tables [simp]:
  "medias (rekeyed f d) = map (rekey_media f) (medias d)" "avatars (rekeyed f d) = map (rekey_avatar f) (avatars d)"
  "albums (rekeyed f d) = albums d" "members (rekeyed f d) = members d" "amids (rekeyed f d) = amids d"
  "users (rekeyed f d) = users d" "epochs (rekeyed f d) = epochs d" "wraps (rekeyed f d) = wraps d"
  by (simp_all add: rekeyed_def)

lemma rekeyed_reads [simp]:
  "confirmed_media (rekeyed f d) a = map (rekey_media f) (confirmed_media d a)"
  "avatar_columns_ref (current_avatar (rekeyed f d) a t) = avatar_columns_ref (current_avatar d a t)"
  "previewMediaFor (rekeyed f d) a = previewMediaFor d a"
  "memberPreviewsFor (rekeyed f d) a = memberPreviewsFor d a"
  "find_user (rekeyed f d) u = find_user d u" "find_member (rekeyed f d) a t = find_member d a t"
  "find_album (rekeyed f d) a = find_album d a"
  "ListConfirmed a (rekeyed f d) = map (rekey_media f) (ListConfirmed a d)"
  by (simp_all add: confirmed_media_def filter_map comp_def avatar_columns_ref_def current_avatar_def find_map
      option.map_comp previewMediaFor_def memberPreviewsFor_def find_user_def find_member_def find_album_def
      sort_key_map take_map ListConfirmed_def cong: filter_cong)

lemma rekeyed_lists [simp]:
  "album_info_of (rekeyed f d) = album_info_of d" "roster_row E (rekeyed f d) = roster_row E d"
proof -
  have "wrap_drift (rekeyed f d) a = wrap_drift d a" "active_count (rekeyed f d) a = active_count d a" for a
    by (simp_all add: wrap_drift_def active_count_def active_tokens_def cur_epoch_def album_epochs_def
        has_wrap_def split: option.split)
  then show "album_info_of (rekeyed f d) = album_info_of d"
    by (simp add: fun_eq_iff album_info_of_def comp_def RotationRequiredExpr_def split: option.split)
  show "roster_row E (rekeyed f d) = roster_row E d"
    by (simp add: fun_eq_iff roster_row_def split: sum.split)
qed

text \<open>C31. The names of stored objects are never told by the lists: the photo list, the album list and
  the member list are answered the same whatever the objects of photos, thumbnails and avatars are called
  in the storage.\<close>

theorem storage_keys_secret:
  "fst (http_ListMedia E idVar (rekeyed f d)) = fst (http_ListMedia E idVar d)
   \<and> fst (http_ListAlbums E cx (rekeyed f d)) = fst (http_ListAlbums E cx d)
   \<and> fst (http_ListAlbumMembers E idVar (rekeyed f d)) = fst (http_ListAlbumMembers E idVar d)"
proof (intro conjI)
  show "fst (http_ListMedia E idVar (rekeyed f d)) = fst (http_ListMedia E idVar d)"
    by (simp add: http_ListMedia_def require_def answer_def comp_def split: sum.split)
  show "fst (http_ListAlbums E cx (rekeyed f d)) = fst (http_ListAlbums E cx d)"
    unfolding http_ListAlbums_def require_def answer_def ListForUser_def rekeyed_lists rekeyed_tables rekeyed_reads
    by (simp split: sum.split)
  show "fst (http_ListAlbumMembers E idVar (rekeyed f d)) = fst (http_ListAlbumMembers E idVar d)"
    by (simp add: http_ListAlbumMembers_def require_def answer_def repo_ListMembers_def split: sum.split)
qed

text \<open>The database under other names for its accounts.\<close>

definition renamed :: "(uuid \<Rightarrow> uuid) \<Rightarrow> db \<Rightarrow> db" where
  "renamed f d = d\<lparr>users := map (\<lambda>r. r\<lparr>u_id := f (u_id r)\<rparr>) (users d),
     opks := map (\<lambda>r. r\<lparr>o_user := f (o_user r)\<rparr>) (opks d)\<rparr>"

lemma renamed_reads:
  "FindUserIDByMiuchioID h (renamed f d) = (case FindUserIDByMiuchioID h d of Inl e \<Rightarrow> Inl e | Inr u \<Rightarrow> Inr (f u))"
  "inj f \<Longrightarrow> IdentityByID (f u) (renamed f d) = IdentityByID u d"
  "inj f \<Longrightarrow> fresh_opks (f u) (renamed f d) = map (\<lambda>r. r\<lparr>o_user := f (o_user r)\<rparr>) (fresh_opks u d)"
  by (simp_all add: FindUserIDByMiuchioID_def IdentityByID_def find_user_def fresh_opks_def renamed_def find_map
      filter_map comp_def inj_eq split: option.split)

lemma renamed_bundle:
  assumes "inj f"
  shows "(case GetPrekeyBundle pick (f u) (renamed f d) of Inl e \<Rightarrow> Inl e | Inr (b, _) \<Rightarrow> Inr (bundle_json j b)) =
    (case GetPrekeyBundle pick u d of Inl e \<Rightarrow> Inl e | Inr (b, _) \<Rightarrow> Inr (bundle_json j b))"
proof (cases "fresh_opks u d")
  case Nil
  then show ?thesis using renamed_reads(2,3) [OF assms]
    by (simp add: GetPrekeyBundle_def PopRandom_def Let_def bundle_json_def split: sum.split)
next
  case (Cons r rs)
  then have "pick mod Suc (length rs) < length (fresh_opks u d)" by simp
  then have nth: "fresh_opks (f u) (renamed f d) ! (pick mod Suc (length rs)) =
      (\<lambda>r. r\<lparr>o_user := f (o_user r)\<rparr>) (fresh_opks u d ! (pick mod Suc (length rs)))"
    unfolding renamed_reads(3) [OF assms] by (rule nth_map)
  note cons = renamed_reads(3) [OF assms, of u d, unfolded Cons, simplified]
  from nth show ?thesis unfolding Cons cons using renamed_reads(2) [OF assms, of u d]
    by (simp add: GetPrekeyBundle_def PopRandom_def Let_def bundle_json_def Cons cons split: sum.split)
qed

text \<open>C32. Who asks for keys by a public handle learns nothing of the account behind it: the answer is the
  same when all accounts are identified differently.\<close>

theorem handle_route_hides_account:
  assumes "inj f"
  shows "fst (http_GetPrekeyBundleByHandle pick cx handleVar (renamed f d)) =
    fst (http_GetPrekeyBundleByHandle pick cx handleVar d)"
proof -
  have 1: "fst (commit (GetPrekeyBundleByHandle pick handleVar) (\<lambda>((norm, b), _). ok_json (bundle_json (Text norm) b))
      (\<lambda>(_, events) _. events) d) =
    (case Normalize handleVar of Inl _ \<Rightarrow> Inl (Api E_NOT_FOUND ''user not found'')
     | Inr norm \<Rightarrow> (case FindUserIDByMiuchioID norm d of
         Inl e \<Rightarrow> Inl (if e = Repo ErrUserNotFound then Api E_NOT_FOUND ''user not found''
                      else Api E_INTERNAL ''handle lookup failed'')
       | Inr u \<Rightarrow> (case (case GetPrekeyBundle pick u d of Inl e \<Rightarrow> Inl e | Inr (b, _) \<Rightarrow> Inr (bundle_json (Text norm) b))
           of Inl e \<Rightarrow> Inl e | Inr x \<Rightarrow> Inr (ok_json x))))" for d
    by (auto simp: commit_def GetPrekeyBundleByHandle_def split: sum.split)
  show ?thesis unfolding http_GetPrekeyBundleByHandle_def require_def
    by (simp add: 1 renamed_reads(1) renamed_bundle [OF assms] split: sum.split)
qed

theorem handle_route_hides_account_witness:
  "fst (http_GetPrekeyBundleByHandle 0 (user_context 2) (handle 1) (renamed (\<lambda>u. u + 5) shared_album)) =
   fst (http_GetPrekeyBundleByHandle 0 (user_context 2) (handle 1) shared_album) \<and>
   \<not> isl (fst (http_GetPrekeyBundleByHandle 0 (user_context 2) (handle 1) shared_album))"
proof
  have "inj (\<lambda>u :: uuid. u + 5)" by (simp add: inj_def)
  then show "fst (http_GetPrekeyBundleByHandle 0 (user_context 2) (handle 1) (renamed (\<lambda>u. u + 5) shared_album)) =
    fst (http_GetPrekeyBundleByHandle 0 (user_context 2) (handle 1) shared_album)"
    by (rule handle_route_hides_account)
qed code_simp

section \<open>Tokens in paths\<close>

text \<open>A member token is read back from a path in each of the four base64 forms clients write it in,
  and a name from a body in both of its forms: no reader that is tried earlier takes it for something
  else.\<close>

theorem token_path_roundtrip:
  "decodeMemberTokenPath (RawURLEncode t) = Some t \<and> decodeMemberTokenPath (URLEncode t) = Some t
   \<and> decodeMemberTokenPath (RawStdEncode t) = Some t \<and> decodeMemberTokenPath (StdEncode t) = Some t
   \<and> decodeBase64 (StdEncode t) = Some t \<and> decodeBase64 (URLEncode t) = Some t"
  by (intro conjI decodeBase64_accepts;
      (rule decodeMemberTokenPath_accepts [where f = RawURLDecode] decodeMemberTokenPath_accepts [where f = URLDecode]
        decodeMemberTokenPath_accepts [where f = RawStdDecode] decodeMemberTokenPath_accepts [where f = StdDecode];
       simp; fail)?) simp_all

section \<open>The access log\<close>

text \<open>C33. The status in the access log is the final status on the wire, and its level the one of that
  status, also when the handler panics, before it wrote anything, after, or on an upgraded connection.
  The handler is one that first writes a final status, flushes only after a status, and upgrades only
  after the status 101 and as its last call.\<close>

theorem access_log_status:
  assumes "writes_ok None calls" "AccessLog route calls panicked = (entry, r)"
  shows "Recover panicked r = Some (ac_status entry) \<and> ac_level entry = level_of_status (ac_status entry)"
  using access_log_truthful [OF assms] assms(2) by (auto simp: AccessLog_def Let_def)

theorem access_log_status_witness:
  "Recover True (snd (AccessLog (Some ''/api/v1/ws'') [WriteHeader 101, Hijack True] True)) = Some 101"
proof -
  obtain e r where l: "AccessLog (Some ''/api/v1/ws'') [WriteHeader 101, Hijack True] True = (e, r)" by fastforce
  then have "ac_status e = 101" by (auto simp: AccessLog_def new_recorder_def send_status_def)
  with access_log_status [OF _ l] l show ?thesis by (simp add: send_status_def final_status_def)
qed

end
