(* ===== verification/Test_Vectors.thy ===== *)
theory Test_Vectors
  imports Deployment Canonical_Json "HOL-Library.Monad_Syntax"
begin

text \<open>
  The generators of the frozen test vectors, \<^verbatim>\<open>cmd/genx3dhkat\<close>,
  \<^verbatim>\<open>cmd/genspkrotatekat\<close>, \<^verbatim>\<open>cmd/genjoinkat\<close> and
  \<^verbatim>\<open>cmd/gensignedpayloadkat\<close>. They carry copies of functions of the server, which are
  shown to agree with it, and the messages they froze in the repository are those of this model.
  The curve, the salted HKDF and the signature are parameters; an error of the curve, where the
  program panics, is \<open>None\<close>. What a program prints is the list of its entries.
\<close>

section \<open>Primitives and patterns\<close>

record kat_primitives =
  x25519 :: "bytes \<Rightarrow> bytes \<Rightarrow> bytes option"          \<comment> \<open>scalar, point\<close>
  hkdf_salted :: "bytes \<Rightarrow> bytes \<Rightarrow> bytes \<Rightarrow> bytes"   \<comment> \<open>secret, salt, info: 32 bytes\<close>
  ed25519_sign :: "bytes \<Rightarrow> bytes \<Rightarrow> bytes"          \<comment> \<open>seed, message\<close>

text \<open>\<^verbatim>\<open>curve25519.Basepoint\<close>.\<close>

definition Basepoint :: bytes where "Basepoint = 9 # replicate 31 0"

definition bytesPattern :: "byte \<Rightarrow> nat \<Rightarrow> bytes" where
  "bytesPattern start n = map (\<lambda>i. start + word_of_nat i) [0..<n]"

section \<open>X3DH and safety numbers\<close>

definition kat_pub :: "kat_primitives \<Rightarrow> bytes \<Rightarrow> bytes option" where
  "kat_pub P k = x25519 P k Basepoint"

definition kat_dh :: "kat_primitives \<Rightarrow> bytes \<Rightarrow> bytes \<Rightarrow> bytes option" where
  "kat_dh P k peerPub = x25519 P k peerPub"

definition sharedSecret :: "kat_primitives \<Rightarrow> bytes \<Rightarrow> bytes \<Rightarrow> bytes \<Rightarrow> bytes \<Rightarrow> bytes option" where
  "sharedSecret P km lkPubA lkPubB album =
     (case X3dhInfo lkPubA lkPubB album of
        Inl _ \<Rightarrow> None
      | Inr info \<Rightarrow> Some (hkdf_salted P km SaltX3dh info))"

record x3dh_seeds =
  lkASeed :: bytes
  ekASeed :: bytes
  lkBSeed :: bytes
  spkBSeed :: bytes
  opkBSeed :: bytes
  kat_albumID :: bytes

definition fixed_seeds :: x3dh_seeds where
  "fixed_seeds = \<lparr>lkASeed = bytesPattern 1 32, ekASeed = bytesPattern 160 32, lkBSeed = bytesPattern 64 32,
     spkBSeed = bytesPattern 96 32, opkBSeed = bytesPattern 128 32, kat_albumID = bytesPattern 240 16\<rparr>"

type_synonym kat_entry = "(string \<times> bytes) list"   \<comment> \<open>field, text\<close>

definition emit :: "string \<Rightarrow> bytes \<Rightarrow> string \<times> bytes" where
  "emit name b = (name, hex b)"

text \<open>The two categories of key agreement that are printed.\<close>

definition x3dh_vectors :: "kat_primitives \<Rightarrow> x3dh_seeds \<Rightarrow> (string \<times> kat_entry list) list option" where
  "x3dh_vectors P s =
     do {
       lkAPub \<leftarrow> kat_pub P (lkASeed s);
       ekAPub \<leftarrow> kat_pub P (ekASeed s);
       lkBPub \<leftarrow> kat_pub P (lkBSeed s);
       spkBPub \<leftarrow> kat_pub P (spkBSeed s);
       opkBPub \<leftarrow> kat_pub P (opkBSeed s);
       dh1 \<leftarrow> kat_dh P (lkASeed s) spkBPub;
       dh2 \<leftarrow> kat_dh P (ekASeed s) lkBPub;
       dh3 \<leftarrow> kat_dh P (ekASeed s) spkBPub;
       dh4 \<leftarrow> kat_dh P (ekASeed s) opkBPub;
       let km4 = concat [dh1, dh2, dh3, dh4];
       let km3 = concat [dh1, dh2, dh3];
       shared4 \<leftarrow> sharedSecret P km4 lkAPub lkBPub (kat_albumID s);
       shared3 \<leftarrow> sharedSecret P km3 lkAPub lkBPub (kat_albumID s);
       Some [
         (''x3dh_4dh'', [[(''name'', ascii ''fixed seeds, 4-DH (with OPK)''),
           emit ''lk_a_seed_hex'' (lkASeed s), emit ''ek_a_seed_hex'' (ekASeed s),
           emit ''lk_b_seed_hex'' (lkBSeed s), emit ''spk_b_seed_hex'' (spkBSeed s),
           emit ''opk_b_seed_hex'' (opkBSeed s), emit ''album_id_hex'' (kat_albumID s),
           emit ''lk_a_pub_hex'' lkAPub, emit ''lk_b_pub_hex'' lkBPub, emit ''ek_a_pub_hex'' ekAPub,
           emit ''spk_b_pub_hex'' spkBPub, emit ''opk_b_pub_hex'' opkBPub,
           emit ''shared_secret_hex'' shared4]]),
         (''x3dh_3dh'', [[(''name'', ascii ''fixed seeds, 3-DH (OPK exhausted)''),
           emit ''lk_a_seed_hex'' (lkASeed s), emit ''ek_a_seed_hex'' (ekASeed s),
           emit ''lk_b_seed_hex'' (lkBSeed s), emit ''spk_b_seed_hex'' (spkBSeed s),
           emit ''album_id_hex'' (kat_albumID s),
           emit ''lk_a_pub_hex'' lkAPub, emit ''lk_b_pub_hex'' lkBPub, emit ''ek_a_pub_hex'' ekAPub,
           emit ''spk_b_pub_hex'' spkBPub, emit ''shared_secret_hex'' shared3]])]
     }"

definition kat_safetyNumberDigits :: "crypto \<Rightarrow> bytes \<Rightarrow> bytes \<Rightarrow> bytes \<Rightarrow> bytes" where
  "kat_safetyNumberDigits C ikA ikB album =
     (let (lo, hi) = (if compareBytes ikA ikB > 0 then (ikB, ikA) else (ikA, ikB));
          pre = concat [lo, hi, album];
          s = decimal (be_nat (sha256 C pre));
          s' = (if length s < 78 then replicate (78 - length s) 48 @ s else s)
      in take 30 s')"

definition safety_vectors :: "crypto \<Rightarrow> bytes \<Rightarrow> string \<times> kat_entry list" where
  "safety_vectors C albumID =
     (let ikLow = bytesPattern 0 32; ikHigh = bytesPattern 128 32 in
      (''safety_numbers'', map (\<lambda>(name, a, b).
         [(''name'', name), emit ''ik_pub_a_hex'' a, emit ''ik_pub_b_hex'' b, emit ''album_id_hex'' albumID,
          (''digits'', kat_safetyNumberDigits C a b albumID)])
        [(ascii ''low pub byte vs high pub byte (sort_lex picks low first)'', ikLow, ikHigh),
         (ascii ''reversed input order (must be symmetric)'', ikHigh, ikLow)]))"

section \<open>Signed messages\<close>

record spk_vector =
  sk_name :: bytes
  sk_seed :: bytes
  sk_pub :: bytes
  sk_ts :: int64
  sk_msg :: bytes
  sk_sig :: bytes

definition rotateMsg :: "bytes \<Rightarrow> int64 \<Rightarrow> bytes" where
  "rotateMsg spkPub spkTs = [] @ SaltSpkRotate @ spkPub @ be64 spkTs"

definition spk_vectors :: "kat_primitives \<Rightarrow> spk_vector list" where
  "spk_vectors P = map (\<lambda>(name, seedByte, ts).
     let seed = bytesPattern seedByte 32;
         spkPub = bytesPattern (seedByte + 16) 32;
         msg = rotateMsg spkPub ts
     in \<lparr>sk_name = ascii name, sk_seed = hex seed, sk_pub = hex spkPub, sk_ts = ts, sk_msg = hex msg,
         sk_sig = hex (ed25519_sign P seed msg)\<rparr>)
   [(''rotate-spk basic'', 161, 1714838400), (''rotate-spk +1d'', 178, 1714924800),
    (''rotate-spk +2d'', 195, 1715011200)]"

record join_vector =
  jk_name :: bytes
  jk_seed :: bytes
  jk_album :: bytes
  jk_epoch :: nat
  jk_ek_pub :: bytes
  jk_msg :: bytes
  jk_sig :: bytes

definition join_vectors :: "kat_primitives \<Rightarrow> join_vector list" where
  "join_vectors P = map (\<lambda>(name, seedByte, albumByte, ekByte, ep).
     let seed = replicate 32 seedByte;
         albumBytes = replicate 16 albumByte;
         ekPubAdmin = replicate 32 ekByte;
         msg = JoinCompleteMsg (uuid_of_bytes albumBytes) (int ep) ekPubAdmin
     in \<lparr>jk_name = ascii name, jk_seed = hex seed, jk_album = hex albumBytes, jk_epoch = ep,
         jk_ek_pub = hex ekPubAdmin, jk_msg = hex msg, jk_sig = hex (ed25519_sign P seed msg)\<rparr>)
   [(''join_complete basic'', 193, 177, 81, 0), (''join_complete epoch=3'', 194, 178, 82, 3),
    (''join_complete epoch=42'', 195, 179, 83, 42)]"

record payload_vector =
  pk_name :: bytes
  pk_seed :: bytes
  pk_album :: bytes
  pk_epoch :: "32 word"
  pk_wrap :: bytes
  pk_msg :: bytes
  pk_sig :: bytes

definition signedPayloadMsg :: "crypto \<Rightarrow> bytes \<Rightarrow> 32 word \<Rightarrow> bytes \<Rightarrow> bytes" where
  "signedPayloadMsg C albumID ep wrapBlob = sha256 C (albumID @ be32 ep @ wrapBlob)"

definition payload_vectors :: "crypto \<Rightarrow> kat_primitives \<Rightarrow> payload_vector list" where
  "payload_vectors C P = map (\<lambda>(name, seedByte, albumByte, ep, wrapByte).
     let seed = replicate 32 seedByte;
         albumID = replicate 16 albumByte;
         wrap = (replicate 61 wrapByte)[0 := 1];
         msg = signedPayloadMsg C albumID ep wrap
     in \<lparr>pk_name = ascii name, pk_seed = hex seed, pk_album = hex albumID, pk_epoch = ep,
         pk_wrap = hex wrap, pk_msg = hex msg, pk_sig = hex (ed25519_sign P seed msg)\<rparr>)
   [(''signed_payload basic'', 209, 161, 0, 17), (''signed_payload epoch=1'', 226, 162, 1, 34),
    (''signed_payload epoch=7'', 243, 163, 7, 51)]"

section \<open>The copies agree with the server\<close>

lemma rotateMsg_agrees: "rotateMsg = RotationMsg"
  by (simp add: fun_eq_iff rotateMsg_def RotationMsg_def)

lemma safetyNumberDigits_agrees:
  assumes "length a = 32" "length b = 32" "length album = 16"
  shows "SafetyNumber C a b album = Inr (kat_safetyNumberDigits C a b album)"
  using assms
  by (simp add: SafetyNumber_def kat_safetyNumberDigits_def leading_digits_def safetyNumberPad_def
      safetyNumberDigits_def digit_def Let_def split: prod.split)

text \<open>Both orders of the keys are printed with one number.\<close>

lemma safety_vectors_symmetric:
  "length albumID = 16 \<Longrightarrow> (let (_, vs) = safety_vectors C albumID in snd (last (vs ! 0)) = snd (last (vs ! 1)))"
proof -
  assume len: "length albumID = 16"
  have "length (bytesPattern s 32) = 32" for s by (simp add: bytesPattern_def)
  then have "kat_safetyNumberDigits C (bytesPattern 0 32) (bytesPattern 128 32) albumID =
      kat_safetyNumberDigits C (bytesPattern 128 32) (bytesPattern 0 32) albumID"
    using SafetyNumber_order [of "bytesPattern 0 32" "bytesPattern 128 32" albumID C] len
    by (simp add: safetyNumberDigits_agrees)
  then show ?thesis by (simp add: safety_vectors_def Let_def)
qed

section \<open>The frozen vectors of the repository\<close>

text \<open>The messages in \<^verbatim>\<open>test_vectors/spk_rotate_kat.json\<close> and
  \<^verbatim>\<open>test_vectors/join_complete_kat.json\<close> are those of the model.\<close>

lemma frozen_rotation_messages:
  "hex (rotateMsg (bytesPattern 177 32) 1714838400) = ascii
     ''726f746174652d73706b2d7631b1b2b3b4b5b6b7b8b9babbbcbdbebfc0c1c2c3c4c5c6c7c8c9cacbcccdcecfd00000000066365b80''"
  "hex (rotateMsg (bytesPattern 194 32) 1714924800) = ascii
     ''726f746174652d73706b2d7631c2c3c4c5c6c7c8c9cacbcccdcecfd0d1d2d3d4d5d6d7d8d9dadbdcdddedfe0e1000000006637ad00''"
  "hex (rotateMsg (bytesPattern 211 32) 1715011200) = ascii
     ''726f746174652d73706b2d7631d3d4d5d6d7d8d9dadbdcdddedfe0e1e2e3e4e5e6e7e8e9eaebecedeeeff0f1f2000000006638fe80''"
  by code_simp+

lemma be_nat_inj: "length b = length c \<Longrightarrow> be_nat b = be_nat c \<Longrightarrow> b = c"
proof (induction b arbitrary: c rule: rev_induct)
  case (snoc x b)
  then obtain c' y where c: "c = c' @ [y]" "length c' = length b" by (cases c rule: rev_cases) auto
  have lt: "unat x < 256" "unat y < 256" using unsigned_less [where ?'b = 8 and ?'a = nat] by simp_all
  have eq: "be_nat b * 256 + unat x = be_nat c' * 256 + unat y" using snoc.prems(2) by (simp add: c be_nat_snoc)
  then have "(be_nat b * 256 + unat x) mod 256 = (be_nat c' * 256 + unat y) mod 256" by simp
  then have "unat x = unat y" using lt by simp
  with eq snoc.IH [of c'] show ?case by (simp add: c word_unat_eq_iff)
qed simp

lemma uuid_bytes_of_bytes: "length b = 16 \<Longrightarrow> uuid_bytes (uuid_of_bytes b) = b"
proof (rule be_nat_inj)
  assume len: "length b = 16"
  have "be_nat b < 256 ^ 16" using be_nat_bound [of 0 b] len by (simp add: be_nat_def)
  then show "be_nat (uuid_bytes (uuid_of_bytes b)) = be_nat b"
    by (simp add: uuid_bytes_def uuid_of_bytes_def be_nat_be_bytes unat_of_nat)
qed (simp add: uuid_bytes_def)

lemma frozen_join_messages:
  "hex (JoinCompleteMsg (uuid_of_bytes (replicate 16 177)) 0 (replicate 32 81)) = ascii
     ''6a6f696e2d636f6d706c6574652d7631b1b1b1b1b1b1b1b1b1b1b1b1b1b1b1b1000000005151515151515151515151515151515151515151515151515151515151515151''"
  "hex (JoinCompleteMsg (uuid_of_bytes (replicate 16 178)) 3 (replicate 32 82)) = ascii
     ''6a6f696e2d636f6d706c6574652d7631b2b2b2b2b2b2b2b2b2b2b2b2b2b2b2b2000000035252525252525252525252525252525252525252525252525252525252525252''"
  "hex (JoinCompleteMsg (uuid_of_bytes (replicate 16 179)) 42 (replicate 32 83)) = ascii
     ''6a6f696e2d636f6d706c6574652d7631b3b3b3b3b3b3b3b3b3b3b3b3b3b3b3b30000002a5353535353535353535353535353535353535353535353535353535353535353''"
  by (simp_all only: JoinCompleteMsg_def uuid_bytes_of_bytes length_replicate) code_simp+

text \<open>So are the texts of the category \<^verbatim>\<open>canonical_json\<close> in
  \<^verbatim>\<open>test_vectors/crypto_kat.json\<close>.\<close>

text \<open>A text of printable ASCII characters without quotes and backslashes is copied.\<close>

definition plain :: "bytes \<Rightarrow> bool" where
  "plain s \<longleftrightarrow> list_all (\<lambda>b. 32 \<le> unat b \<and> unat b < 128 \<and> unat b \<noteq> 34 \<and> unat b \<noteq> 92) s"

lemma plain_runes: "\<forall>b\<in>set bs. b < 128 \<Longrightarrow> runes_fuel (length bs) bs = map (\<lambda>b. (b, True)) bs"
  by (induction bs) simp_all

lemma encodeString_plain:
  assumes "plain s"
  shows "encodeString s = Inr (34 # s @ [34])"
proof -
  have flags: "rune_flags s = map (\<lambda>b. (unat b, True)) s"
    using plain_runes [of "map unat s"] assms by (simp add: rune_flags_def plain_def list_all_iff)
  have "encode_char (unat b) = [b]" if "b \<in> set s" for b
    using assms that by (auto simp: plain_def list_all_iff encode_char_def encode_rune_def encode_nat_def scalar_def)
  then have "concat (map encode_char (map unat s)) = s" by (induction s) (simp_all add: comp_def)
  then show ?thesis
    by (simp add: encodeString_def ValidString_def runes_def flags comp_def list_all_iff)
qed
lemma runes_fuel_numeral: "runes_fuel (numeral k) bs = runes_fuel (Suc (pred_numeral k)) bs"
  by (simp only: numeral_eq_Suc)

lemma small_decimals:
  "signed_decimal 1 = [49]" "signed_decimal 2 = [50]" "signed_decimal 3 = [51]" "signed_decimal 4 = [52]"
  "signed_decimal (- 42) = [45,52,50]"
  by (simp_all add: signed_decimal_def digit_def decimal.simps)

lemma frozen_canonical_json:
  "map CanonicalSerialize [
    JObject [],
    JObject [([98], JBool True), ([102], JBool False), ([110], JNull), ([105], JInt (- 42))],
    JObject [([98], JInt 1), ([97], JInt 2), ([66], JInt 3), ([65], JInt 4)],
        JObject [([111, 117, 116, 101, 114], JObject [([122], JInt 1), ([97], JInt 2)]), ([112, 114,
      101, 102, 105, 120], JString [120])],
    JArray [JInt 3, JInt 1, JInt 2],
    JObject [([115], JString [97, 34, 98, 92, 99, 10, 100, 9, 101])],
    JObject [([120], JString [1])],
    JObject [([120], JString [104, 195, 169, 108, 108, 111])]] =
   map Inr [
    [123, 125],
        [123, 34, 98, 34, 58, 116, 114, 117, 101, 44, 34, 102, 34, 58, 102, 97, 108, 115, 101, 44, 34,
      105, 34, 58, 45, 52, 50, 44, 34, 110, 34, 58, 110, 117, 108, 108, 125],
    [123, 34, 65, 34, 58, 52, 44, 34, 66, 34, 58, 51, 44, 34, 97, 34, 58, 50, 44, 34, 98, 34, 58, 49, 125],
        [123, 34, 111, 117, 116, 101, 114, 34, 58, 123, 34, 97, 34, 58, 50, 44, 34, 122, 34, 58, 49,
      125, 44, 34, 112, 114, 101, 102, 105, 120, 34, 58, 34, 120, 34, 125],
    [91, 51, 44, 49, 44, 50, 93],
    [123, 34, 115, 34, 58, 34, 97, 92, 34, 98, 92, 92, 99, 92, 110, 100, 92, 116, 101, 34, 125],
    [123, 34, 120, 34, 58, 34, 92, 117, 48, 48, 48, 49, 34, 125],
    [123, 34, 120, 34, 58, 34, 104, 195, 169, 108, 108, 111, 34, 125]]"
proof -
  have esc: "encodeString [97, 34, 98, 92, 99, 10, 100, 9, 101] =
      Inr [34, 97, 92, 34, 98, 92, 92, 99, 92, 110, 100, 92, 116, 101, 34]"
    "encodeString [1] = Inr [34, 92, 117, 48, 48, 48, 49, 34]"
    "encodeString [104, 195, 169, 108, 108, 111] = Inr [34, 104, 195, 169, 108, 108, 111, 34]"
    by (simp_all add: encodeString_def ValidString_def runes_def rune_flags_def runes_fuel_numeral second_ok_def
        encode_char_def encode_rune_def encode_nat_def scalar_def hex4_def hexdigit_def Let_def)
  show ?thesis
    by (simp add: CanonicalSerialize_def encode_entry_def encodeString_plain plain_def esc small_decimals ascii_def)
qed

end
