(* ===== verification/Deployment_Properties.thy ===== *)
theory Deployment_Properties
  imports Test_Vectors Media_Properties
begin

text \<open>
  What holds of the server as it is started from its environment: outside development mode no
  sign-in code is printed and no key is a placeholder, and the addresses of the storage client bind
  the content that is later confirmed. At the end, the key agreement of the frozen test vectors.
\<close>

section \<open>A start outside development mode\<close>

text \<open>C30. A server that starts without \<^verbatim>\<open>APP_ENV=dev\<close> never prints a sign-in code, does
  not have the route that injects events, and works with the two secrets of its environment, at
  least 32 bytes each, never with the placeholders of the source. Like every server that starts, it
  has applied the migrations of its database and reached Redis before.\<close>

theorem production_start_safe:
  assumes "start_server V D sdk base norm = Inr (X, m)" "V ''APP_ENV'' \<noteq> Some (ascii ''dev'')"
  shows "(\<forall>post email otp e c. CodePrinted e c \<notin> set (snd (SendOTP m post email otp)))
    \<and> (\<forall>T hdr d_read b w. serve X T hdr d_read (Public (TestEmitEvent_call b)) w =
         (Inl (Api E_NOT_FOUND ''route not found''), [], w))
    \<and> (\<exists>raw k. V ''MIUCHIO_EMAIL_HMAC_KEY'' = Some raw \<and> StdDecode raw = Some k \<and> 32 \<le> length k
         \<and> emailHMACKey (sv_auth X) = k)
    \<and> (\<exists>raw k. V ''MIUCHIO_USER_LINK_KEY'' = Some raw \<and> StdDecode raw = Some k \<and> 32 \<le> length k
         \<and> linker_New (cryp base) k = Inr (linker (sv_env X)))
    \<and> (\<exists>cfg opts. LoadConfig (cryp base) V = Inr cfg \<and> mg_up D (DatabaseURL cfg) \<noteq> MigrationError
         \<and> redis_options D (RedisURL cfg) = Inr opts \<and> rd_ping D opts)"
proof (rule start_server_Inr [OF assms(1)])
  fix cfg c h
  assume cfg: "LoadConfig (cryp base) V = Inr cfg" "linker_New (cryp base) (UserLinkKey cfg) = Inr h"
    "m = email_service cfg" "sv_dev X = DevMode cfg"
    "sv_auth X = \<lparr>a_env = base\<lparr>linker := h\<rparr>, emailHMACKey = EmailHMACKey cfg, norm_email = norm\<rparr>"
    and stores: "open_databases D cfg = Inr ()"
  note load = LoadConfig_Inr [OF cfg(1)]
  have dev: "\<not> DevMode cfg" using load(1) assms(2) by simp
  have "ResendAPIKey cfg \<noteq> []" using requireOutsideDev_Inr [OF load(2)] dev by simp
  then have "m = ResendEmailService (ResendAPIKey cfg) (EmailFrom cfg)" by (simp add: cfg(3) email_service_def)
  then have mail: "CodePrinted e c \<notin> set (snd (SendOTP m post email otp))" for post email otp e c
    using Resend_prints_no_code by metis
  have route: "serve X T hdr d_read (Public (TestEmitEvent_call b)) w =
      (Inl (Api E_NOT_FOUND ''route not found''), [], w)" for T hdr d_read b w
    using dev cfg(4) by simp
  have hmac: "\<exists>raw k. V ''MIUCHIO_EMAIL_HMAC_KEY'' = Some raw \<and> StdDecode raw = Some k \<and> 32 \<le> length k
      \<and> emailHMACKey (sv_auth X) = k"
    using loadKey_Inr [OF load(4) [unfolded loadEmailHMACKey_def]] dev cfg(5) by auto
  have link: "\<exists>raw k. V ''MIUCHIO_USER_LINK_KEY'' = Some raw \<and> StdDecode raw = Some k \<and> 32 \<le> length k
      \<and> linker_New (cryp base) k = Inr (linker (sv_env X))"
    using loadKey_Inr [OF load(5)] dev cfg(2,5) by auto
  from mail route hmac link cfg(1) open_databases_Inr [OF stores] show ?thesis by blast
qed

definition demo_sdk :: s3_api where
  "demo_sdk = \<lparr>sdk_presign_put = (\<lambda>p t h. Some (po_key p)), sdk_presign_get = (\<lambda>b k t. Some k),
     sdk_head = (\<lambda>b k. Some (Some 100, None)), sdk_delete = (\<lambda>b k. True), sdk_head_bucket = (\<lambda>b. True),
     sdk_create_bucket = (\<lambda>b. True)\<rparr>"

definition demo_variables :: environment where
  "demo_variables = [''RESEND_API_KEY'' \<mapsto> ascii ''re_1'', ''EMAIL_FROM'' \<mapsto> ascii ''a@b'',
     ''MIUCHIO_EMAIL_HMAC_KEY'' \<mapsto> StdEncode (tok 1), ''MIUCHIO_USER_LINK_KEY'' \<mapsto> StdEncode (tok 2)]"

definition demo_databases :: databases where
  "demo_databases = \<lparr>pg_pool = (\<lambda>u. True), mg_new = (\<lambda>u. True), mg_up = (\<lambda>u. ErrNoChange),
     rd_ParseURL = Some, rd_ping = (\<lambda>opts. opts = ascii ''localhost:6379'')\<rparr>"

theorem production_start_safe_witness:
  "let (X, m) = projr (start_server demo_variables demo_databases (\<lambda>s. Some demo_sdk) demo id) in
     snd (SendOTP m (\<lambda>r. Some (500, [])) [1] [2]) = [ResendFailed 500 []]
     \<and> emailHMACKey (sv_auth X) = tok 1 \<and> linker_New toy (tok 2) = Inr (linker (sv_env X))"
proof -
  let ?s = "start_server demo_variables demo_databases (\<lambda>s. Some demo_sdk) demo id"
  have keys: "demo_variables ''APP_ENV'' = None" "demo_variables ''MIUCHIO_EMAIL_HMAC_KEY'' = Some (StdEncode (tok 1))"
    "demo_variables ''MIUCHIO_USER_LINK_KEY'' = Some (StdEncode (tok 2))"
    by (simp_all add: demo_variables_def)
  have mail: "\<not> isl ?s \<and> snd (SendOTP (snd (projr ?s)) (\<lambda>r. Some (500, [])) [1] [2]) = [ResendFailed 500 []]"
    by code_simp
  obtain X m where s: "?s = Inr (X, m)" using mail by (cases ?s) auto
  have "cryp demo = toy" by (simp add: demo_def)
  with production_start_safe [OF s] keys mail show ?thesis by (simp add: s)
qed

section \<open>Content of uploads\<close>

text \<open>C29. The storage address of a granted upload is signed for one object, one length and one digest,
  those of the row that is reserved; and when the upload is later confirmed, the storage reported that
  length for that object in that bucket, and that digest if it reports digests at all.\<close>

theorem upload_content_bound:
  assumes "RequestUploadURL (s3Adapter c) now newID newRes rnd rt a up inp (run E ops) = (Inr res, d')"
  shows "\<exists>r\<in>set (medias d'). md_id r = ur_media_id res \<and> blob_size r = up_blob_size inp \<and>
    (let put = signed_put c (storage_key r) (content_type inp) (blob_size r) (StdEncode (blob_sha256 r)) in
     sdk_presign_put (sc_presign c) put PresignTTL False = Some (ur_url res) \<and>
     (\<forall>now' u t d_read d2 g ev d3. media_GetByID (md_id r) a d_read = Inr r \<and>
        ConfirmUpload E (s3Adapter c) now' a (md_id r) u t d_read d2 = (Inr g, ev, d3) \<longrightarrow>
        (\<exists>digest. sdk_head (sc_client c) (po_bucket put) (po_key put) = Some (po_content_length put, digest)
           \<and> (opt_bytes digest = [] \<or> digest = po_checksum put))))"
proof -
  from upload_grant_bounds [OF assms] obtain r where size: "0 < up_blob_size inp"
    and r: "r \<in> set (medias d')" "md_id r = ur_media_id res" "\<not> confirmed r" "blob_size r = up_blob_size inp"
    and url: "presign_upload (s3Adapter c) (storage_key r) (content_type inp) (blob_size r) (StdEncode (blob_sha256 r)) =
      Some (ur_url res, ur_header res)" by blast
  define put where "put = signed_put c (storage_key r) (content_type inp) (blob_size r) (StdEncode (blob_sha256 r))"
  have signed: "sdk_presign_put (sc_presign c) put PresignTTL False = Some (ur_url res)"
    using url by (simp add: put_def s3Adapter_def GetPresignedUploadURLWithChecksum_def split: option.splits)
  have "\<exists>digest. sdk_head (sc_client c) (po_bucket put) (po_key put) = Some (po_content_length put, digest)
      \<and> (opt_bytes digest = [] \<or> digest = po_checksum put)"
    if "media_GetByID (md_id r) a d_read = Inr r"
      "ConfirmUpload E (s3Adapter c) now' a (md_id r) u t d_read d2 = (Inr g, ev, d3)" for now' u t d_read d2 g ev d3
  proof -
    have "check_objects (s3Adapter c) r = None"
      using that r(3) by (auto simp: ConfirmUpload_def split: if_splits option.splits prod.splits)
    then obtain sz sha where head: "HeadObject c (storage_key r) = Some (sz, sha)" "sz = blob_size r"
        "sha = [] \<or> sha = StdEncode (blob_sha256 r)"
      by (auto simp: check_objects_def s3Adapter_def split: option.splits if_splits)
    then obtain len digest where h: "sdk_head (sc_client c) (sc_bucket c) (storage_key r) = Some (len, digest)"
        "(case len of None \<Rightarrow> 0 | Some n \<Rightarrow> n) = blob_size r" "sha = opt_bytes digest"
      by (auto simp: HeadObject_def split: option.splits prod.splits)
    have "len = Some (blob_size r)" using h(2) size r(4) by (cases len) simp_all
    moreover have "opt_bytes digest = [] \<or> digest = Some (StdEncode (blob_sha256 r))"
      using head(3) h(3) by (cases digest) (auto simp: opt_bytes_def)
    ultimately show ?thesis using h(1) by (auto simp: put_def signed_put_def)
  qed
  then show ?thesis
    by (intro bexI [OF _ r(1)], unfold Let_def put_def [symmetric]) (use r signed in blast)
qed

theorem upload_content_bound_witness:
  "let c = \<lparr>sc_client = demo_sdk, sc_presign = demo_sdk, sc_bucket = [1]\<rparr>;
       x = RequestUploadURL (s3Adapter c) 0 40 41 [1] [2] 7 (tok 2) upload_request shared_album
   in \<exists>r\<in>set (medias (snd x)). md_id r = ur_media_id (projr (fst x)) \<and> blob_size r = 100
        \<and> sdk_presign_put demo_sdk (signed_put c (storage_key r) (content_type upload_request) (blob_size r)
            (StdEncode (blob_sha256 r))) PresignTTL False = Some (ur_url (projr (fst x)))"
proof -
  let ?c = "\<lparr>sc_client = demo_sdk, sc_presign = demo_sdk, sc_bucket = [1]\<rparr>"
  let ?x = "RequestUploadURL (s3Adapter ?c) 0 40 41 [1] [2] 7 (tok 2) upload_request shared_album"
  have ok: "\<not> isl (fst ?x) \<and> up_blob_size upload_request = 100" by code_simp
  then obtain res where x: "?x = (Inr res, snd ?x)" by (cases ?x; cases "fst ?x") auto
  then have res: "projr (fst ?x) = res" by (metis fst_conv sum.sel(2))
  from upload_content_bound [OF x [unfolded shared_album_def]] ok res show ?thesis
    unfolding Let_def shared_album_def by auto
qed

section \<open>Key agreement of the frozen vectors\<close>

text \<open>The documented property of the curve: both sides of an exchange compute one point. And the
  responder's side of the agreement, from its own private keys and the initiator's public ones.\<close>

definition dh_agrees :: "kat_primitives \<Rightarrow> bool" where
  "dh_agrees P \<longleftrightarrow> (\<forall>a b pa pb. x25519 P a Basepoint = Some pa \<and> x25519 P b Basepoint = Some pb \<longrightarrow>
     x25519 P a pb = x25519 P b pa)"

definition responder_secret :: "kat_primitives \<Rightarrow> x3dh_seeds \<Rightarrow> bool \<Rightarrow> bytes \<Rightarrow> bytes \<Rightarrow> bytes \<Rightarrow> bytes option" where
  "responder_secret P s with_opk lkAPub ekAPub lkBPub =
     do {
       dh1 \<leftarrow> x25519 P (spkBSeed s) lkAPub;
       dh2 \<leftarrow> x25519 P (lkBSeed s) ekAPub;
       dh3 \<leftarrow> x25519 P (spkBSeed s) ekAPub;
       dh4 \<leftarrow> x25519 P (opkBSeed s) ekAPub;
       sharedSecret P (dh1 @ dh2 @ dh3 @ (if with_opk then dh4 else [])) lkAPub lkBPub (kat_albumID s)
     }"

text \<open>The two shared secrets that were frozen are those the responder computes from its private keys
  and the initiator's public keys: both sides of the agreement get the same bytes, with a one-time
  prekey and without.\<close>

theorem x3dh_both_sides:
  assumes "dh_agrees P" "x3dh_vectors P s = Some vs"
  shows "\<exists>lkA ekA lkB s4 s3. kat_pub P (lkASeed s) = Some lkA \<and> kat_pub P (ekASeed s) = Some ekA
    \<and> kat_pub P (lkBSeed s) = Some lkB
    \<and> responder_secret P s True lkA ekA lkB = Some s4 \<and> responder_secret P s False lkA ekA lkB = Some s3
    \<and> map (\<lambda>(c, es). map_of (hd es) ''shared_secret_hex'') vs = [Some (hex s4), Some (hex s3)]"
proof -
  from assms(2) obtain lkA ekA lkB spkB opkB dh1 dh2 dh3 dh4 s4 s3 where
    pub: "kat_pub P (lkASeed s) = Some lkA" "kat_pub P (ekASeed s) = Some ekA" "kat_pub P (lkBSeed s) = Some lkB"
      "kat_pub P (spkBSeed s) = Some spkB" "kat_pub P (opkBSeed s) = Some opkB"
    and dh: "kat_dh P (lkASeed s) spkB = Some dh1" "kat_dh P (ekASeed s) lkB = Some dh2"
      "kat_dh P (ekASeed s) spkB = Some dh3" "kat_dh P (ekASeed s) opkB = Some dh4"
    and secret: "sharedSecret P (concat [dh1, dh2, dh3, dh4]) lkA lkB (kat_albumID s) = Some s4"
      "sharedSecret P (concat [dh1, dh2, dh3]) lkA lkB (kat_albumID s) = Some s3"
    and vs: "map (\<lambda>(c, es). map_of (hd es) ''shared_secret_hex'') vs = [Some (hex s4), Some (hex s3)]"
    unfolding x3dh_vectors_def Let_def Option.bind_eq_Some_conv by (auto simp: emit_def)
  have swap: "x25519 P b pa = Some k"
    if "kat_pub P a = Some pa" "kat_pub P b = Some pb" "kat_dh P a pb = Some k" for a b pa pb k
    using assms(1) that unfolding dh_agrees_def kat_pub_def kat_dh_def by metis
  note mirror = swap [OF pub(1,4) dh(1)] swap [OF pub(2,3) dh(2)] swap [OF pub(2,4) dh(3)] swap [OF pub(2,5) dh(4)]
  have "responder_secret P s True lkA ekA lkB = Some s4" "responder_secret P s False lkA ekA lkB = Some s3"
    using secret by (simp_all add: responder_secret_def mirror)
  then show ?thesis
    by (intro exI [of _ lkA] exI [of _ ekA] exI [of _ lkB] exI [of _ s4] exI [of _ s3] conjI pub vs)
qed

definition toy_primitives :: kat_primitives where
  "toy_primitives = \<lparr>x25519 = (\<lambda>k p. Some (map (\<lambda>i. k ! i * p ! i) [0..<32])), hkdf_salted = (\<lambda>k s i. k @ i),
     ed25519_sign = (\<lambda>k m. m)\<rparr>"

theorem x3dh_both_sides_witness:
  "\<exists>vs lkA ekA lkB s4 s3. x3dh_vectors toy_primitives fixed_seeds = Some vs
    \<and> responder_secret toy_primitives fixed_seeds True lkA ekA lkB = Some s4
    \<and> responder_secret toy_primitives fixed_seeds False lkA ekA lkB = Some s3
    \<and> map (\<lambda>(c, es). map_of (hd es) ''shared_secret_hex'') vs = [Some (hex s4), Some (hex s3)]"
proof -
  have agrees: "dh_agrees toy_primitives"
    by (simp add: dh_agrees_def toy_primitives_def mult.assoc mult.commute mult.left_commute)
  have "x3dh_vectors toy_primitives fixed_seeds \<noteq> None" by code_simp
  then obtain vs where vs: "x3dh_vectors toy_primitives fixed_seeds = Some vs" by auto
  from x3dh_both_sides [OF agrees vs] vs show ?thesis by metis
qed

end
