(* ===== verification/Step_Relations.thy ===== *)
theory Step_Relations
  imports Main
begin

text \<open>
  Components whose steps are a relation, because more than one party acts on their state: the states
  they reach from their initial ones, and the contract of an invariant.
\<close>

inductive reached :: "('s \<Rightarrow> bool) \<Rightarrow> ('s \<Rightarrow> 's \<Rightarrow> bool) \<Rightarrow> 's \<Rightarrow> bool" for init R where
  initial: "init s \<Longrightarrow> reached init R s"
| step: "reached init R s \<Longrightarrow> R s t \<Longrightarrow> reached init R t"

locale step_relation =
  fixes init :: "'s \<Rightarrow> bool" and R :: "'s \<Rightarrow> 's \<Rightarrow> bool" and inv :: "'s \<Rightarrow> bool"
  assumes at_start: "init s \<Longrightarrow> inv s"
    and preserved: "R s t \<Longrightarrow> inv s \<Longrightarrow> inv t"
begin

lemma invariant: "reached init R s \<Longrightarrow> inv s"
  by (induction rule: reached.induct) (blast intro: at_start preserved)+

end

end
