(* ===== verification/Connections.thy ===== *)
theory Connections
  imports Realtime Step_Relations
begin

text \<open>
  \<^verbatim>\<open>ws/conn.go\<close> and the locking of \<^verbatim>\<open>ws/hub.go\<close>: the life of the live
  connections of the server. The write loop of \<^verbatim>\<open>Run\<close> waits for whichever comes first, so
  its rounds are the rules of a step relation, interleaved with the registration of new connections
  and with the sends of the broadcasts. A broadcast holds the read lock of the hub and sends to one
  connection after the other, so any number of broadcasts run side by side; registering and
  unregistering need the write lock and wait until none runs. Beside the hub the state holds what
  was written on each socket, who owns a connection, which loops run and which have ended and are
  still registered, and every broadcast that began with the connections it has still to reach.
\<close>

section \<open>The loop\<close>

text \<open>An entry of the log has the recipients, the event, and the numbers of the broadcasts that had
  ended when it began. \<open>lv_flight\<close> has the remaining sends of the broadcasts that still run.\<close>

record live =
  lv_hub :: hub
  lv_owner :: "nat \<Rightarrow> uuid option"
  lv_open :: "nat set"
  lv_closing :: "nat set"
  lv_written :: "nat \<Rightarrow> event list"
  lv_log :: "(uuid list \<times> event \<times> nat list) list"
  lv_flight :: "nat \<Rightarrow> nat list option"

definition no_connections :: live where
  "no_connections = \<lparr>lv_hub = NewHub, lv_owner = (\<lambda>_. None), lv_open = {}, lv_closing = {},
     lv_written = (\<lambda>_. []), lv_log = [], lv_flight = (\<lambda>_. None)\<rparr>"

definition recipients :: "live \<Rightarrow> nat \<Rightarrow> uuid list" where
  "recipients s i = fst (lv_log s ! i)"

definition sent_event :: "live \<Rightarrow> nat \<Rightarrow> event" where
  "sent_event s i = fst (snd (lv_log s ! i))"

definition ended_before :: "live \<Rightarrow> nat \<Rightarrow> nat list" where
  "ended_before s i = snd (snd (lv_log s ! i))"

text \<open>\<^verbatim>\<open>NewConn\<close> makes an empty outbox, then the handler registers the connection and
  starts its loop.\<close>

definition NewConn :: "nat \<Rightarrow> hub \<Rightarrow> hub" where
  "NewConn c h = h\<lparr>outbox := (outbox h)(c := [])\<rparr>"

definition open_conn :: "uuid \<Rightarrow> nat \<Rightarrow> live \<Rightarrow> live" where
  "open_conn u c s = s\<lparr>lv_hub := Register u c (NewConn c (lv_hub s)), lv_owner := (lv_owner s)(c := Some u),
     lv_open := insert c (lv_open s)\<rparr>"

text \<open>The loop returns; its deferred call unregisters the connection once it has the lock.\<close>

definition end_loop :: "nat \<Rightarrow> live \<Rightarrow> live" where
  "end_loop c s = s\<lparr>lv_open := lv_open s - {c}, lv_closing := insert c (lv_closing s)\<rparr>"

definition close_conn :: "uuid \<Rightarrow> nat \<Rightarrow> live \<Rightarrow> live" where
  "close_conn u c s = s\<lparr>lv_hub := Unregister u c (lv_hub s), lv_closing := lv_closing s - {c}\<rparr>"

text \<open>A broadcast takes the read lock, sends, and gives it back. While it holds the lock the
  connections of its recipients do not change.\<close>

definition begin_broadcast :: "uuid list \<Rightarrow> event \<Rightarrow> live \<Rightarrow> live" where
  "begin_broadcast us ev s =
     (let n = length (lv_log s)
      in s\<lparr>lv_log := lv_log s @ [(us, ev, filter (\<lambda>i. lv_flight s i = None) [0..<n])],
           lv_flight := (lv_flight s)(n \<mapsto> concat (map (conns (lv_hub s)) us))\<rparr>)"

definition send_next :: "nat \<Rightarrow> nat \<Rightarrow> nat list \<Rightarrow> live \<Rightarrow> live" where
  "send_next i c cs s = s\<lparr>lv_hub := send (sent_event s i) c (lv_hub s), lv_flight := (lv_flight s)(i \<mapsto> cs)\<rparr>"

definition end_broadcast :: "nat \<Rightarrow> live \<Rightarrow> live" where
  "end_broadcast i s = s\<lparr>lv_flight := (lv_flight s)(i := None)\<rparr>"

text \<open>The channel is never closed, so a receive always has an event. \<open>marshal_failed\<close> is the
  \<^verbatim>\<open>continue\<close> of the loop.\<close>

inductive live_step :: "live \<Rightarrow> live \<Rightarrow> bool" where
  accepted: "lv_owner s c = None \<Longrightarrow> (\<And>i. lv_flight s i = None) \<Longrightarrow> live_step s (open_conn u c s)"
| began: "NewEvent typ payload = Inr ev \<Longrightarrow> live_step s (begin_broadcast us ev s)"
| sent: "lv_flight s i = Some (c # cs) \<Longrightarrow> live_step s (send_next i c cs s)"
| ended: "lv_flight s i = Some [] \<Longrightarrow> live_step s (end_broadcast i s)"
| cancelled: "c \<in> lv_open s \<Longrightarrow> live_step s (end_loop c s)"
| ping_answered: "c \<in> lv_open s \<Longrightarrow> live_step s s"
| ping_failed: "c \<in> lv_open s \<Longrightarrow> live_step s (end_loop c s)"
| written: "c \<in> lv_open s \<Longrightarrow> conn_receive c (lv_hub s) = (Some ev, h) \<Longrightarrow>
    live_step s (s\<lparr>lv_hub := h, lv_written := (lv_written s)(c := lv_written s c @ [ev])\<rparr>)"
| write_failed: "c \<in> lv_open s \<Longrightarrow> conn_receive c (lv_hub s) = (Some ev, h) \<Longrightarrow>
    live_step s (end_loop c (s\<lparr>lv_hub := h\<rparr>))"
| marshal_failed: "c \<in> lv_open s \<Longrightarrow> conn_receive c (lv_hub s) = (Some ev, h) \<Longrightarrow>
    live_step s (s\<lparr>lv_hub := h\<rparr>)"
| unregistered: "c \<in> lv_closing s \<Longrightarrow> lv_owner s c = Some u \<Longrightarrow> (\<And>i. lv_flight s i = None) \<Longrightarrow>
    live_step s (close_conn u c s)"

abbreviation live_reachable :: "live \<Rightarrow> bool" where
  "live_reachable \<equiv> reached (\<lambda>s. s = no_connections) live_step"

text \<open>A broadcast whose sends nothing interrupts does what \<^verbatim>\<open>Broadcast\<close> does.\<close>

lemma sends_alone:
  assumes "lv_flight s i = Some cs"
  shows "\<exists>t. live_step\<^sup>*\<^sup>* s t \<and> lv_hub t = fold (send (sent_event s i)) cs (lv_hub s) \<and> lv_flight t i = None"
  using assms
proof (induction cs arbitrary: s)
  case Nil
  then have "live_step s (end_broadcast i s)" by (rule live_step.ended)
  then show ?case by (intro exI [of _ "end_broadcast i s"]) (simp add: end_broadcast_def r_into_rtranclp)
next
  case (Cons c cs)
  have "live_step s (send_next i c cs s)" using Cons.prems by (rule live_step.sent)
  moreover have "lv_flight (send_next i c cs s) i = Some cs"
    "sent_event (send_next i c cs s) i = sent_event s i"
    "lv_hub (send_next i c cs s) = send (sent_event s i) c (lv_hub s)"
    by (simp_all add: send_next_def sent_event_def)
  ultimately show ?case using Cons.IH [of "send_next i c cs s"] by (metis converse_rtranclp_into_rtranclp fold_simps(2))
qed

lemma broadcast_alone:
  assumes "NewEvent typ payload = Inr ev"
  shows "\<exists>t. live_step\<^sup>*\<^sup>* s t \<and> lv_hub t = Broadcast us ev (lv_hub s)"
proof -
  let ?s = "begin_broadcast us ev s" and ?i = "length (lv_log s)"
  have s: "lv_flight ?s ?i = Some (concat (map (conns (lv_hub s)) us))" "sent_event ?s ?i = ev" "lv_hub ?s = lv_hub s"
    by (simp_all add: begin_broadcast_def sent_event_def Let_def)
  have "live_step s ?s" using assms by (rule live_step.began)
  then show ?thesis using sends_alone [OF s(1)] unfolding s(2,3) Broadcast_sends
    by (metis converse_rtranclp_into_rtranclp)
qed

section \<open>What a connection was sent\<close>

text \<open>The sends a broadcast has still to do to a connection.\<close>

definition still_to_send :: "live \<Rightarrow> nat \<Rightarrow> nat \<Rightarrow> nat" where
  "still_to_send s i c = (case lv_flight s i of None \<Rightarrow> 0 | Some cs \<Rightarrow> count_list cs c)"

text \<open>The broadcasts \<open>is\<close> account for what a connection of \<open>u\<close> has got: their events are the ones
  written or waiting, in this order; none is sent more often than it names the user; and none comes
  after one that began when it had ended.\<close>

definition accounts_for :: "live \<Rightarrow> nat \<Rightarrow> uuid \<Rightarrow> nat list \<Rightarrow> bool" where
  "accounts_for s c u is \<longleftrightarrow>
     lv_written s c @ outbox (lv_hub s) c = map (sent_event s) is
     \<and> (\<forall>i\<in>set is. i < length (lv_log s))
     \<and> (\<forall>i<length (lv_log s). count_list is i + still_to_send s i c \<le> count_list (recipients s i) u)
     \<and> sorted_wrt (\<lambda>i j. j \<notin> set (ended_before s i)) is"

definition registered_once :: "live \<Rightarrow> bool" where
  "registered_once s \<longleftrightarrow> lv_open s \<inter> lv_closing s = {} \<and> (\<forall>c u. count_list (conns (lv_hub s) u) c =
     (if c \<in> lv_open s \<union> lv_closing s \<and> lv_owner s c = Some u then 1 else 0))"

definition broadcasts_ok :: "live \<Rightarrow> bool" where
  "broadcasts_ok s \<longleftrightarrow> (\<forall>i. lv_flight s i \<noteq> None \<longrightarrow> i < length (lv_log s)) \<and>
     (\<forall>k<length (lv_log s). \<forall>i\<in>set (ended_before s k). i < k \<and> lv_flight s i = None)"

definition delivered_in_order :: "live \<Rightarrow> bool" where
  "delivered_in_order s \<longleftrightarrow> (\<forall>c.
     (lv_owner s c = None \<longrightarrow> lv_written s c = [] \<and> c \<notin> lv_open s \<and> c \<notin> lv_closing s) \<and>
     (\<forall>u. lv_owner s c = Some u \<longrightarrow> (\<exists>is. accounts_for s c u is)) \<and>
     length (outbox (lv_hub s) c) \<le> sendBufSize)"

definition live_inv :: "live \<Rightarrow> bool" where
  "live_inv s \<longleftrightarrow> registered_once s \<and> broadcasts_ok s \<and> delivered_in_order s"

section \<open>Hub operations, one connection at a time\<close>

lemma Register_simps [simp]:
  "outbox (Register u c h) = outbox h" "conns (Register u c h) = (conns h)(u := conns h u @ [c])"
  by (simp_all add: Register_def)

lemma Unregister_simps [simp]:
  "outbox (Unregister u c h) = outbox h" "conns (Unregister u c h) = (conns h)(u := filter (\<lambda>e. e \<noteq> c) (conns h u))"
  by (simp_all add: Unregister_def)

lemma NewConn_simps [simp]: "conns (NewConn c h) = conns h" "outbox (NewConn c h) = (outbox h)(c := [])"
  by (simp_all add: NewConn_def)

lemma conn_receive_Some:
  assumes "conn_receive c h = (Some ev, h')"
  shows "outbox h c = ev # outbox h' c" "conns h' = conns h" "k \<noteq> c \<Longrightarrow> outbox h' k = outbox h k"
  using assms by (auto simp: conn_receive_def split: list.splits)

lemma count_filter: "count_list (filter (\<lambda>e. e \<noteq> c) xs) k = (if k = c then 0 else count_list xs k)"
  by (induction xs) simp_all

lemma count_concat: "count_list (concat xss) k = sum_list (map (\<lambda>xs. count_list xs k) xss)"
  by (induction xss) simp_all

text \<open>The connections a broadcast reaches: the recipient's, once for each time it is named.\<close>

lemma count_reached:
  assumes "registered_once s"
  shows "count_list (concat (map (conns (lv_hub s)) us)) c
    \<le> (case lv_owner s c of None \<Rightarrow> 0 | Some u \<Rightarrow> count_list us u)"
proof -
  have count: "count_list (conns (lv_hub s) v) c = (if c \<in> lv_open s \<union> lv_closing s \<and> lv_owner s c = Some v then 1 else 0)" for v
    using assms unfolding registered_once_def by blast
  show ?thesis unfolding count_concat by (induction us) (auto simp: count split: option.splits)
qed

section \<open>The invariant of the loops\<close>

lemma registered_once_step:
  assumes "live_step s t" "live_inv s"
  shows "registered_once t"
proof -
  have reg: "registered_once s" and none: "lv_owner s c = None \<Longrightarrow> c \<notin> lv_open s \<and> c \<notin> lv_closing s" for c
    using assms(2) unfolding live_inv_def delivered_in_order_def by blast+
  from assms(1) show ?thesis
  proof cases
    case (accepted c u)
    then have "count_list (conns (lv_hub s) v) c = 0" for v using reg by (simp add: registered_once_def)
    with reg accepted none [of c] show ?thesis by (auto simp: registered_once_def open_conn_def)
  qed (use reg in \<open>auto simp: registered_once_def close_conn_def end_loop_def begin_broadcast_def Let_def
      send_next_def end_broadcast_def count_filter conn_receive_Some(2)\<close>)
qed

lemma broadcasts_ok_step:
  assumes "live_step s t" "broadcasts_ok s"
  shows "broadcasts_ok t"
  using assms
proof cases
  case (began ty payload ev us)
  have "\<forall>i\<in>set (ended_before t k). i < k \<and> lv_flight t i = None" if "k < length (lv_log t)" for k
  proof (cases "k < length (lv_log s)")
    case True
    then show ?thesis using assms(2)
      by (fastforce simp: began(1) begin_broadcast_def Let_def broadcasts_ok_def ended_before_def nth_append)
  next
    case False
    then have "k = length (lv_log s)" using that by (simp add: began(1) begin_broadcast_def Let_def)
    then show ?thesis by (simp add: began(1) begin_broadcast_def Let_def ended_before_def)
  qed
  moreover have "i < length (lv_log t)" if "lv_flight t i \<noteq> None" for i
    using that assms(2) by (auto simp: began(1) begin_broadcast_def Let_def broadcasts_ok_def less_Suc_eq split: if_splits)
  ultimately show ?thesis unfolding broadcasts_ok_def by blast
next
  case (sent i c cs)
  then show ?thesis using assms(2)
    by (auto simp: broadcasts_ok_def send_next_def ended_before_def)
qed (auto simp: broadcasts_ok_def ended_before_def open_conn_def close_conn_def end_loop_def end_broadcast_def)

text \<open>Receives take the oldest event of the outbox; a send adds one while there is room.\<close>

lemma accounts_same:
  assumes "accounts_for s c u is" "lv_written t c = lv_written s c" "outbox (lv_hub t) c = outbox (lv_hub s) c"
    "lv_log t = lv_log s" "\<And>i. still_to_send t i c \<le> still_to_send s i c"
  shows "accounts_for t c u is"
proof -
  have "count_list is i + still_to_send t i c \<le> count_list (recipients t i) u" if "i < length (lv_log s)" for i
  proof -
    have "count_list is i + still_to_send s i c \<le> count_list (recipients s i) u"
      using assms(1) that by (simp add: accounts_for_def)
    then show ?thesis using assms(5) [of i] by (simp add: recipients_def assms(4))
  qed
  moreover have "sent_event t = sent_event s" "ended_before t = ended_before s"
    by (simp_all add: fun_eq_iff sent_event_def ended_before_def assms(4))
  ultimately show ?thesis using assms(1-4) by (simp add: accounts_for_def)
qed

lemma accounts_dropped:
  assumes a: "accounts_for s c u is" and out: "outbox (lv_hub s) c = ev # outbox (lv_hub t) c"
    and same: "lv_written t c = lv_written s c" "lv_log t = lv_log s" "lv_flight t = lv_flight s"
  shows "\<exists>is'. accounts_for t c u is'"
proof -
  let ?n = "length (lv_written s c)"
  have m: "lv_written s c @ ev # outbox (lv_hub t) c = map (sent_event s) is"
    using a out by (simp add: accounts_for_def)
  define xs ys where "xs = take ?n is" and "ys = drop ?n is"
  have "map (sent_event s) xs = lv_written s c" "map (sent_event s) ys = ev # outbox (lv_hub t) c"
    by (simp_all add: xs_def ys_def flip: take_map drop_map m)
  moreover from this obtain y zs where ys: "ys = y # zs" by (cases ys) auto
  ultimately have e: "map (sent_event s) xs = lv_written s c" "map (sent_event s) zs = outbox (lv_hub t) c" by simp_all
  have "is = xs @ y # zs" using append_take_drop_id [of ?n "is"] by (simp add: ys [symmetric] xs_def ys_def)
  note parts = a [unfolded accounts_for_def this]
  have "count_list (xs @ zs) i + still_to_send t i c \<le> count_list (recipients t i) u" if "i < length (lv_log s)" for i
  proof -
    have "count_list (xs @ y # zs) i + still_to_send s i c \<le> count_list (recipients s i) u"
      using parts that by blast
    then show ?thesis by (simp add: recipients_def still_to_send_def same split: if_splits)
  qed
  moreover have "sorted_wrt (\<lambda>i j. j \<notin> set (ended_before s i)) (xs @ zs)"
    using parts by (simp add: sorted_wrt_append)
  moreover have "sent_event t = sent_event s" "ended_before t = ended_before s"
    by (simp_all add: fun_eq_iff sent_event_def ended_before_def same)
  moreover have "\<forall>i\<in>set (xs @ zs). i < length (lv_log s)" using parts by simp
  ultimately show ?thesis using e by (intro exI [of _ "xs @ zs"]) (simp add: accounts_for_def same)
qed

lemma accounts_written:
  assumes "accounts_for s c u is" "outbox (lv_hub s) c = ev # outbox h c"
  shows "accounts_for (s\<lparr>lv_hub := h, lv_written := (lv_written s)(c := lv_written s c @ [ev])\<rparr>) c u is"
  using assms by (simp add: accounts_for_def sent_event_def [abs_def] ended_before_def [abs_def]
      recipients_def still_to_send_def)

lemma accounts_sent:
  assumes a: "accounts_for s k u is" and ok: "broadcasts_ok s" and i: "lv_flight s i = Some (c # cs)"
  shows "\<exists>is'. accounts_for (send_next i c cs s) k u is'"
proof (cases "k = c \<and> length (outbox (lv_hub s) c) < sendBufSize")
  case True
  let ?t = "send_next i c cs s"
  have lt: "i < length (lv_log s)" using ok i unfolding broadcasts_ok_def by blast
  have fresh: "\<forall>j<length (lv_log s). i \<notin> set (ended_before s j)" using ok i unfolding broadcasts_ok_def by force
  have fields: "sent_event ?t = sent_event s" "ended_before ?t = ended_before s" "recipients ?t = recipients s"
    "lv_log ?t = lv_log s" "lv_written ?t = lv_written s"
    by (simp_all add: fun_eq_iff send_next_def sent_event_def ended_before_def recipients_def)
  have out: "outbox (lv_hub ?t) k = outbox (lv_hub s) k @ [sent_event s i]"
    using True by (simp add: send_next_def outbox_send)
  have "count_list (is @ [i]) j + still_to_send ?t j k \<le> count_list (recipients s j) u" if "j < length (lv_log s)" for j
  proof -
    have "count_list is j + still_to_send s j k \<le> count_list (recipients s j) u" using a that by (simp add: accounts_for_def)
    then show ?thesis using i True by (auto simp: still_to_send_def send_next_def)
  qed
  moreover have "sorted_wrt (\<lambda>i j. j \<notin> set (ended_before s i)) (is @ [i])"
    using a fresh by (simp add: accounts_for_def sorted_wrt_append)
  ultimately have "accounts_for ?t k u (is @ [i])"
    using a lt out unfolding accounts_for_def fields by (simp add: append_assoc [symmetric] del: append_assoc)
  then show ?thesis ..
next
  case False
  then have "accounts_for (send_next i c cs s) k u is" using a i
    by (intro accounts_same [OF a]) (auto simp: send_next_def outbox_send still_to_send_def)
  then show ?thesis ..
qed

lemma accounts_began:
  assumes a: "accounts_for s c u is" and ok: "broadcasts_ok s" and reg: "registered_once s" and own: "lv_owner s c = Some u"
  shows "accounts_for (begin_broadcast us ev s) c u is"
proof -
  let ?t = "begin_broadcast us ev s" and ?n = "length (lv_log s)"
  have old: "sent_event ?t i = sent_event s i" "ended_before ?t i = ended_before s i" "recipients ?t i = recipients s i"
    "still_to_send ?t i c = still_to_send s i c" if "i < ?n" for i
    using that by (simp_all add: begin_broadcast_def Let_def sent_event_def ended_before_def recipients_def
        still_to_send_def nth_append)
  have all: "\<forall>i\<in>set is. i < ?n" using a by (simp add: accounts_for_def)
  then have "?n \<notin> set is" by blast
  then have "count_list is ?n = 0" by (simp add: count_list_0_iff)
  moreover have "still_to_send ?t ?n c \<le> count_list us u" "recipients ?t ?n = us"
    using count_reached [OF reg, of us c] own
    by (simp_all add: still_to_send_def begin_broadcast_def Let_def recipients_def)
  ultimately have "count_list is i + still_to_send ?t i c \<le> count_list (recipients ?t i) u" if "i < Suc ?n" for i
    using that a old by (cases "i = ?n") (simp_all add: accounts_for_def)
  moreover have "map (sent_event ?t) is = map (sent_event s) is" using all old(1) by auto
  moreover have "sorted_wrt (\<lambda>i j. j \<notin> set (ended_before ?t i)) is"
    using a all old(2) by (auto simp: accounts_for_def elim: sorted_wrt_mono_rel [rotated])
  ultimately show ?thesis using a all
    by (simp add: accounts_for_def begin_broadcast_def Let_def less_Suc_eq)
qed

lemma accounts_opened:
  assumes "lv_written s c = []" "\<And>i. lv_flight s i = None"
  shows "accounts_for (open_conn u c s) c u []"
  using assms by (simp add: accounts_for_def open_conn_def still_to_send_def)

lemma live_invD:
  assumes "live_inv s"
  shows "registered_once s" "broadcasts_ok s" "length (outbox (lv_hub s) c) \<le> sendBufSize"
    "lv_owner s c = Some u \<Longrightarrow> \<exists>is. accounts_for s c u is"
    "lv_owner s c = None \<Longrightarrow> lv_written s c = [] \<and> c \<notin> lv_open s \<and> c \<notin> lv_closing s"
  using assms unfolding live_inv_def delivered_in_order_def by blast+

lemma accounted_same:
  assumes "\<exists>is. accounts_for s c u is" "lv_written t c = lv_written s c" "outbox (lv_hub t) c = outbox (lv_hub s) c"
    "lv_log t = lv_log s" "\<And>i. still_to_send t i c \<le> still_to_send s i c"
  shows "\<exists>is. accounts_for t c u is"
  using assms(1) accounts_same [OF _ assms(2-5)] by blast

lemma accounted_flight:
  "lv_flight t = lv_flight s \<Longrightarrow> still_to_send t i c \<le> still_to_send s i c"
  "t = end_broadcast j s \<Longrightarrow> still_to_send t i c \<le> still_to_send s i c"
  by (simp_all add: still_to_send_def end_broadcast_def)

lemma accounted_loop: "accounts_for (end_loop c s) k u = accounts_for s k u"
  by (simp add: fun_eq_iff end_loop_def accounts_for_def sent_event_def [abs_def] ended_before_def [abs_def]
      recipients_def still_to_send_def)

lemma accounted_received:
  assumes inv: "live_inv s" and r: "conn_receive c (lv_hub s) = (Some ev, h)"
  shows "lv_owner s k = Some u \<Longrightarrow> \<exists>is. accounts_for (s\<lparr>lv_hub := h\<rparr>) k u is"
    and "length (outbox h k) \<le> sendBufSize"
proof -
  note rec = conn_receive_Some [OF r]
  show "\<exists>is. accounts_for (s\<lparr>lv_hub := h\<rparr>) k u is" if k: "lv_owner s k = Some u"
  proof (cases "k = c")
    case True
    obtain "is" where "accounts_for s k u is" using live_invD(4) [OF inv k] by blast
    then show ?thesis by (rule accounts_dropped [where ev = ev]) (use rec(1) True in simp_all)
  next
    case False
    then show ?thesis by (intro accounted_same [OF live_invD(4) [OF inv k]] accounted_flight(1)) (use rec(3) in simp_all)
  qed
  show "length (outbox h k) \<le> sendBufSize"
    using live_invD(3) [OF inv, of k] rec(1,3) by (cases "k = c") simp_all
qed

text \<open>Steps of the loops, then registration and broadcasts.\<close>

lemma delivered_written:
  assumes inv: "live_inv s" and c: "c \<in> lv_open s" and r: "conn_receive c (lv_hub s) = (Some ev, h)"
  shows "delivered_in_order (s\<lparr>lv_hub := h, lv_written := (lv_written s)(c := lv_written s c @ [ev])\<rparr>)"
    (is "delivered_in_order ?t")
proof -
  note rec = conn_receive_Some [OF r]
  have "\<exists>is. accounts_for ?t k v is" if k: "lv_owner s k = Some v" for k v
  proof (cases "k = c")
    case True
    then show ?thesis using live_invD(4) [OF inv k] accounts_written rec(1) by blast
  next
    case False
    then show ?thesis by (intro accounted_same [OF live_invD(4) [OF inv k]] accounted_flight(1)) (use rec(3) in simp_all)
  qed
  moreover have "lv_owner s c \<noteq> None" using live_invD(5) [OF inv] c by blast
  ultimately show ?thesis using accounted_received(2) [OF inv r] live_invD(5) [OF inv]
    by (auto simp: delivered_in_order_def)
qed

lemma delivered_opened:
  assumes inv: "live_inv s" and new: "lv_owner s c = None" and lock: "\<And>i. lv_flight s i = None"
  shows "delivered_in_order (open_conn u c s)"
proof -
  let ?t = "open_conn u c s"
  have "\<exists>is. accounts_for ?t k v is" if k: "lv_owner ?t k = Some v" for k v
  proof (cases "k = c")
    case True
    then have "v = u" using k by (simp add: open_conn_def)
    then show ?thesis using accounts_opened live_invD(5) [OF inv] new lock True by blast
  next
    case False
    then have "lv_owner s k = Some v" using k by (simp add: open_conn_def)
    from live_invD(4) [OF inv this] show ?thesis
      by (rule accounted_same) (use False in \<open>simp_all add: open_conn_def still_to_send_def\<close>)
  qed
  then show ?thesis using live_invD(3,5) [OF inv] new
    by (simp add: delivered_in_order_def) (simp add: open_conn_def)
qed

lemma delivered_in_order_step:
  assumes "live_step s t" and inv: "live_inv s"
  shows "delivered_in_order t"
proof -
  note ok = live_invD(1,2) [OF inv] and len = live_invD(3) [OF inv] and own = live_invD(4) [OF inv] and none = live_invD(5) [OF inv]
  from assms(1) show ?thesis
  proof cases
    case (accepted c u)
    then show ?thesis using delivered_opened [OF inv] by blast
  next
    case (began ty payload ev us)
    have "\<exists>is. accounts_for t k v is" if "lv_owner s k = Some v" for k v
      using own [OF that] accounts_began [OF _ ok(2,1) that] began(1) by blast
    then show ?thesis using none len by (simp add: began(1) delivered_in_order_def) (simp add: begin_broadcast_def Let_def)
  next
    case (sent i c cs)
    have "\<exists>is. accounts_for t k v is" if "lv_owner s k = Some v" for k v
      using own [OF that] accounts_sent [OF _ ok(2) sent(2)] sent(1) by blast
    then show ?thesis using none len
      by (simp add: sent(1) delivered_in_order_def) (simp add: send_next_def outbox_send)
  next
    case (ended i)
    have "\<exists>is. accounts_for t k v is" if "lv_owner s k = Some v" for k v
      by (rule accounted_same [OF own [OF that] _ _ _ accounted_flight(2) [OF ended(1)]])
        (simp_all add: ended(1) end_broadcast_def)
    then show ?thesis using none len by (simp add: ended(1) delivered_in_order_def) (simp add: end_broadcast_def)
  next
    case (written c ev h)
    then show ?thesis using delivered_written [OF inv] by simp
  next
    case (write_failed c ev h)
    then show ?thesis using accounted_received [OF inv write_failed(3)] none
      by (auto simp: delivered_in_order_def accounted_loop) (auto simp: end_loop_def)
  next
    case (marshal_failed c ev h)
    then show ?thesis using accounted_received [OF inv marshal_failed(3)] none by (auto simp: delivered_in_order_def)
  next
    case (unregistered c u)
    have "\<exists>is. accounts_for t k v is" if "lv_owner s k = Some v" for k v
      by (rule accounted_same [OF own [OF that]])
        (simp_all add: unregistered(1) close_conn_def still_to_send_def)
    then show ?thesis using none len by (simp add: unregistered(1) delivered_in_order_def) (auto simp: close_conn_def)
  qed (use own none len in \<open>auto simp: delivered_in_order_def accounted_loop\<close>; auto simp: end_loop_def)+
qed

interpretation live_law: step_relation "\<lambda>s. s = no_connections" live_step live_inv
proof (standard, goal_cases)
  case (1 s)
  then show ?case
    by (simp add: live_inv_def registered_once_def broadcasts_ok_def delivered_in_order_def no_connections_def NewHub_def)
next
  case (2 s t)
  then show ?case
    using registered_once_step broadcasts_ok_step delivered_in_order_step by (auto simp: live_inv_def)
qed

section \<open>Delivery\<close>

text \<open>C20. What a live connection has got, on its socket and in its outbox, are the events of broadcasts
  to its owner: no broadcast reaches it more often than it names the owner, and an event never comes
  after one whose broadcast began only when its own had ended. Broadcasts that overlap may come in
  either order, on each connection its own. Events may be missing: a full outbox or a failed write drops
  them. At most 64 events wait, and a connection whose loop has
  ended and which has unregistered is registered nowhere.\<close>

theorem live_delivery:
  assumes "live_reachable s"
  shows "(\<forall>c u. lv_owner s c = Some u \<longrightarrow> (\<exists>is.
       lv_written s c @ outbox (lv_hub s) c = map (sent_event s) is
       \<and> (\<forall>i\<in>set is. i < length (lv_log s) \<and> count_list is i \<le> count_list (recipients s i) u)
       \<and> sorted_wrt (\<lambda>i j. j \<notin> set (ended_before s i)) is))
    \<and> (\<forall>c. length (outbox (lv_hub s) c) \<le> sendBufSize)
    \<and> (\<forall>c u. c \<notin> lv_open s \<and> c \<notin> lv_closing s \<longrightarrow> c \<notin> set (conns (lv_hub s) u))"
proof -
  note inv = live_law.invariant [OF assms]
  have "count_list (conns (lv_hub s) u) c = 0" if "c \<notin> lv_open s \<and> c \<notin> lv_closing s" for c u
    using live_invD(1) [OF inv] that by (simp add: registered_once_def)
  then have "\<forall>c u. c \<notin> lv_open s \<and> c \<notin> lv_closing s \<longrightarrow> c \<notin> set (conns (lv_hub s) u)"
    by (simp add: count_list_0_iff)
  moreover have "\<exists>is. lv_written s c @ outbox (lv_hub s) c = map (sent_event s) is
       \<and> (\<forall>i\<in>set is. i < length (lv_log s) \<and> count_list is i \<le> count_list (recipients s i) u)
       \<and> sorted_wrt (\<lambda>i j. j \<notin> set (ended_before s i)) is" if "lv_owner s c = Some u" for c u
    using live_invD(4) [OF inv that] unfolding accounts_for_def by (meson add_leD1)
  ultimately show ?thesis using live_invD(3) [OF inv] by blast
qed

theorem live_delivery_witness:
  "\<exists>s a b. live_reachable s \<and> a \<noteq> b \<and> outbox (lv_hub s) 3 = [a, b] \<and> outbox (lv_hub s) 4 = [b, a] \<and>
     (\<exists>is. [b, a] = map (sent_event s) is \<and> sorted_wrt (\<lambda>i j. j \<notin> set (ended_before s i)) is)"
proof -
  define a where "a = projr (NewEvent EventOPKLow [])"
  define b where "b = projr (NewEvent EventAlbumDeleted [])"
  let ?s2 = "open_conn 6 4 (open_conn 5 3 no_connections)"
  let ?s3 = "begin_broadcast [6, 5] b (begin_broadcast [5, 6] a ?s2)"
  let ?s = "send_next 1 3 [] (send_next 0 4 [] (send_next 1 4 [3] (send_next 0 3 [4] ?s3)))"
  have ev: "NewEvent EventOPKLow [] = Inr a" "NewEvent EventAlbumDeleted [] = Inr b" "a \<noteq> b"
    unfolding a_def b_def by code_simp+
  note defs = send_next_def begin_broadcast_def open_conn_def no_connections_def NewHub_def Let_def
  note go = reached.step [where init = "\<lambda>s. s = no_connections" and R = live_step]
  have "live_reachable ?s3"
    by (intro go [OF _ live_step.began [OF ev(2)]] go [OF _ live_step.began [OF ev(1)]] go [OF _ live_step.accepted]
        reached.initial) (simp_all add: open_conn_def no_connections_def)
  then have "live_reachable ?s"
    by (intro go [OF _ live_step.sent]) (simp_all add: defs)
  moreover have "outbox (lv_hub ?s) 3 = [a, b]" "outbox (lv_hub ?s) 4 = [b, a]" "lv_owner ?s 4 = Some 6" "lv_written ?s 4 = []"
    by (simp_all add: defs sent_event_def send_def sendBufSize_def)
  ultimately obtain s where s: "live_reachable s" "outbox (lv_hub s) 3 = [a, b]" "outbox (lv_hub s) 4 = [b, a]"
    "lv_owner s 4 = Some 6" "lv_written s 4 = []" by blast
  note order = live_delivery [OF s(1), THEN conjunct1, THEN spec, THEN spec, THEN mp, OF s(4)]
  then obtain "is" where "[b, a] = map (sent_event s) is" "sorted_wrt (\<lambda>i j. j \<notin> set (ended_before s i)) is"
    unfolding s(3,5) append_Nil by (elim exE conjE) (rule that)
  with s(1-3) ev(3) show ?thesis by (intro exI conjI)
qed

end
