(* ===== verification/Worker.thy ===== *)
theory Worker
  imports Served Deletion_Properties Step_Relations
begin

text \<open>
  The deletion worker beside the requests: \<^verbatim>\<open>Run\<close>, \<^verbatim>\<open>Kick\<close>,
  \<^verbatim>\<open>ProcessDue\<close> and \<^verbatim>\<open>process\<close> of
  \<^verbatim>\<open>service/account_deletion.go\<close>, one transaction at a time. The worker sleeps until
  its timer or its wake channel, which holds one token; a request commits first and wakes the worker
  afterwards. Requests come between any two transactions of the worker, the clock moves on, and every
  query of the worker may fail, before or after the database has done it.
\<close>

section \<open>The worker and the requests\<close>

text \<open>Where the worker is: between two claims; about to start a pass over the memberships of an
  account, with so many passes left; in a pass with the albums still to leave; deleting the objects of
  one membership that it has removed; waiting; or stopped, when its context is cancelled.\<close>

datatype phase =
    Working
  | Pass uuid nat
  | Removing uuid nat "uuid list"
  | Cleaning uuid nat "uuid list" membership_removal "bytes list"
  | Waiting
  | Stopped

text \<open>\<open>wk_requests\<close> are the accounts whose request has committed and not yet called
  \<^verbatim>\<open>Kick\<close>, \<open>wk_unanswered\<close> those whose request took its commit for failed, so that it
  never calls \<^verbatim>\<open>Kick\<close>. \<open>wk_failed\<close> says that the last run ended because a claim
  failed, and \<open>wk_events\<close> has the live events the worker has sent.\<close>

record worker =
  wk_db :: db
  wk_clock :: time
  wk_phase :: phase
  wk_wake :: bool
  wk_requests :: "uuid list"
  wk_unanswered :: "uuid list"
  wk_failed :: bool
  wk_events :: "emission list"

text \<open>A send that does not block, on a channel for one token.\<close>

definition Kick :: "worker \<Rightarrow> worker" where
  "Kick s = s\<lparr>wk_wake := True\<rparr>"

definition go :: "phase \<Rightarrow> db \<Rightarrow> worker \<Rightarrow> worker" where
  "go p d s = s\<lparr>wk_phase := p, wk_db := d\<rparr>"

text \<open>What \<^verbatim>\<open>ProcessDue\<close> does before its rounds; a failure to prune is only logged.\<close>

definition start_round :: "bool \<Rightarrow> worker \<Rightarrow> worker" where
  "start_round pruned s = s\<lparr>wk_phase := Working, wk_failed := False,
     wk_db := (if pruned then PruneReceipts (wk_clock s - DeletionReceiptRetention) (wk_db s) else wk_db s)\<rparr>"

text \<open>The transactions that only the deletion of accounts uses.\<close>

fun deletion_op :: "op \<Rightarrow> bool" where
  "deletion_op (Ac (DAccept u shared h)) = True"
| "deletion_op (Ac DClaim) = True"
| "deletion_op (Ac (DRemove u a)) = True"
| "deletion_op (Ac (DFinish u)) = True"
| "deletion_op _ = False"

text \<open>What a transaction leaves when the worker takes it for failed: nothing, or its commit.\<close>

definition either :: "db \<Rightarrow> db \<Rightarrow> db \<Rightarrow> bool" where
  "either d d' e \<longleftrightarrow> e = d \<or> e = d'"

inductive worker_step :: "env \<Rightarrow> worker \<Rightarrow> worker \<Rightarrow> bool" for E where
  served: "\<not> deletion_op x \<Longrightarrow> worker_step E s (s\<lparr>wk_db := step E (wk_clock s, x) (wk_db s)\<rparr>)"
| later: "wk_clock s \<le> t \<Longrightarrow> worker_step E s (s\<lparr>wk_clock := t\<rparr>)"
| committed: "deletion_Request E (wk_clock s) u conf r (wk_db s) = Inr ((), d) \<Longrightarrow>
    worker_step E s (s\<lparr>wk_db := d, wk_requests := u # wk_requests s\<rparr>)"
| unanswered: "deletion_Request E (wk_clock s) u conf r (wk_db s) = Inr ((), d) \<Longrightarrow>
    worker_step E s (s\<lparr>wk_db := d, wk_unanswered := u # wk_unanswered s\<rparr>)"
| kicked: "u \<in> set (wk_requests s) \<Longrightarrow>
    worker_step E s (Kick (s\<lparr>wk_requests := remove1 u (wk_requests s)\<rparr>))"
| claimed: "wk_phase s = Working \<Longrightarrow> ClaimDue (wk_clock s) (wk_db s) = (Some u, d) \<Longrightarrow>
    worker_step E s (go (Pass u maxDeletionPasses) d s)"
| drained: "wk_phase s = Working \<Longrightarrow> ClaimDue (wk_clock s) (wk_db s) = (None, d) \<Longrightarrow>
    worker_step E s (go Waiting d s)"
| claim_failed: "wk_phase s = Working \<Longrightarrow> either (wk_db s) (snd (ClaimDue (wk_clock s) (wk_db s))) d \<Longrightarrow>
    worker_step E s ((go Waiting d s)\<lparr>wk_failed := True\<rparr>)"
| listed: "wk_phase s = Pass u (Suc n) \<Longrightarrow>
    worker_step E s (go (Removing u n (map ms_album (Memberships E u (wk_db s)))) (wk_db s) s)"
| list_failed: "wk_phase s = Pass u (Suc n) \<Longrightarrow> worker_step E s (go Working (wk_db s) s)"
| passes_over: "wk_phase s = Pass u 0 \<Longrightarrow> worker_step E s (go Working (wk_db s) s)"
| removed: "wk_phase s = Removing u n (a # as) \<Longrightarrow>
    RemoveMembership E (wk_clock s) u a (wk_db s) = Inr (rm, d) \<Longrightarrow>
    worker_step E s (go (Cleaning u n as rm (rm_keys rm)) d s)"
| remove_failed: "wk_phase s = Removing u n (a # as) \<Longrightarrow>
    either (wk_db s) (snd (run_tx (RemoveMembership E (wk_clock s) u a) (wk_db s))) d \<Longrightarrow>
    worker_step E s (go Working d s)"
| key_kept: "wk_phase s = Cleaning u n as rm (k # ks) \<Longrightarrow>
    either (wk_db s) (snd (RescheduleObjectCleanupKey (wk_clock s) k (wk_db s))) d \<Longrightarrow>
    worker_step E s (go (Cleaning u n as rm ks) d s)"
| key_deleted: "wk_phase s = Cleaning u n as rm (k # ks) \<Longrightarrow>
    either (wk_db s) (DeleteObjectCleanupKey k (wk_db s)) d \<Longrightarrow>
    worker_step E s (go (Cleaning u n as rm ks) d s)"
| notified: "wk_phase s = Cleaning u n as rm [] \<Longrightarrow>
    worker_step E s ((go (Removing u n as) (wk_db s) s)\<lparr>wk_events := wk_events s @ afterRemoval E rm\<rparr>)"
| finished: "wk_phase s = Removing u n [] \<Longrightarrow> FinishAccount E u (wk_db s) = (over, d) \<Longrightarrow>
    worker_step E s (go (if over then Working else Pass u n) d s)"
| finish_failed: "wk_phase s = Removing u n [] \<Longrightarrow> either (wk_db s) (snd (FinishAccount E u (wk_db s))) d \<Longrightarrow>
    worker_step E s (go Working d s)"
| ticked: "wk_phase s = Waiting \<Longrightarrow> worker_step E s (start_round pruned s)"
| woken: "wk_phase s = Waiting \<Longrightarrow> wk_wake s \<Longrightarrow> worker_step E s (start_round pruned (s\<lparr>wk_wake := False\<rparr>))"
| cancelled: "worker_step E s (s\<lparr>wk_phase := Stopped\<rparr>)"

text \<open>A process starts on whatever an earlier one left: jobs that were never claimed are due, and no
  lease is longer than the longest there is.\<close>

definition queued_by :: "time \<Rightarrow> db \<Rightarrow> bool" where
  "queued_by t d \<longleftrightarrow> (\<forall>j\<in>set (deletions d).
     (d_attempts j = 0 \<longrightarrow> d_next_attempt_at j \<le> t) \<and> d_next_attempt_at j \<le> t + hours 6)"

definition start_worker :: "bool \<Rightarrow> time \<Rightarrow> db \<Rightarrow> worker" where
  "start_worker pruned t d = start_round pruned \<lparr>wk_db = d, wk_clock = t, wk_phase = Waiting, wk_wake = False,
     wk_requests = [], wk_unanswered = [], wk_failed = False, wk_events = []\<rparr>"

definition worker_started :: "env \<Rightarrow> worker \<Rightarrow> bool" where
  "worker_started E s \<longleftrightarrow> (\<exists>pruned t ops. queued_by t (run E ops) \<and> s = start_worker pruned t (run E ops))"

abbreviation worker_reachable :: "env \<Rightarrow> worker \<Rightarrow> bool" where
  "worker_reachable E \<equiv> reached (worker_started E) (worker_step E)"

section \<open>A job that nothing interrupts\<close>

text \<open>The steps of one job in a row, with the storage answering as \<open>S\<close> says, do what
  \<^verbatim>\<open>process\<close> does as a whole.\<close>

lemma go_simps [simp]:
  "wk_db (go p d s) = d" "wk_phase (go p d s) = p" "wk_clock (go p d s) = wk_clock s" "wk_wake (go p d s) = wk_wake s"
  "wk_requests (go p d s) = wk_requests s" "wk_unanswered (go p d s) = wk_unanswered s"
  "wk_failed (go p d s) = wk_failed s" "wk_events (go p d s) = wk_events s"
  "go p d (go p' d' s) = go p d s" "(go p d s)\<lparr>wk_events := es\<rparr> = go p d (s\<lparr>wk_events := es\<rparr>)"
  by (cases s; simp add: go_def)+

lemma either_simps [simp, intro]: "either d d' d" "either d d' d'"
  by (simp_all add: either_def)

lemma cleaning_alone:
  "(worker_step E)\<^sup>*\<^sup>* (go (Cleaning u n as rm ks) d s)
     (go (Cleaning u n as rm []) (snd (cleanupObjectKeys S (wk_clock s) ks d)) s)"
proof (induction ks arbitrary: d)
  case (Cons k ks)
  let ?d = "if delete_ok S k then DeleteObjectCleanupKey k d else snd (RescheduleObjectCleanupKey (wk_clock s) k d)"
  let ?s = "go (Cleaning u n as rm (k # ks)) d s"
  have "worker_step E ?s (go (Cleaning u n as rm ks) ?d ?s)"
  proof (cases "delete_ok S k")
    case True
    then show ?thesis by (intro worker_step.key_deleted [where k = k]) simp_all
  next
    case False
    then show ?thesis by (intro worker_step.key_kept [where k = k]) simp_all
  qed
  moreover have "go (Cleaning u n as rm ks) ?d ?s = go (Cleaning u n as rm ks) ?d s" by simp
  moreover have "snd (cleanupObjectKeys S (wk_clock s) (k # ks) d) = snd (cleanupObjectKeys S (wk_clock s) ks ?d)"
    by (simp add: split_beta Let_def)
  ultimately show ?case using Cons.IH [of ?d] by (metis converse_rtranclp_into_rtranclp)
qed simp

lemma removing_alone:
  assumes "remove_all E S (wk_clock s) u as d = (Inr em, d')"
  shows "(worker_step E)\<^sup>*\<^sup>* (go (Removing u n as) d s)
     ((go (Removing u n []) d' s)\<lparr>wk_events := wk_events s @ em\<rparr>)"
  using assms
proof (induction as arbitrary: d em s)
  case (Cons a as)
  obtain rm d1 where rm: "RemoveMembership E (wk_clock s) u a d = Inr (rm, d1)"
    using Cons.prems by (auto split: sum.splits)
  define d2 where "d2 = snd (cleanupObjectKeys S (wk_clock s) (rm_keys rm) d1)"
  obtain em' where em: "remove_all E S (wk_clock s) u as d2 = (Inr em', d')" "em = afterRemoval E rm @ em'"
    using Cons.prems rm by (auto simp: d2_def Let_def split: sum.splits prod.splits)
  let ?s = "s\<lparr>wk_events := wk_events s @ afterRemoval E rm\<rparr>"
  have "worker_step E (go (Removing u n (a # as)) d s) (go (Cleaning u n as rm (rm_keys rm)) d1 s)"
    using worker_step.removed [where s = "go (Removing u n (a # as)) d s" and E = E] rm by simp
  also have "(worker_step E)\<^sup>*\<^sup>* \<dots> (go (Cleaning u n as rm []) d2 s)"
    unfolding d2_def by (rule cleaning_alone)
  also have "worker_step E \<dots> (go (Removing u n as) d2 ?s)"
    using worker_step.notified [where s = "go (Cleaning u n as rm []) d2 s" and E = E] by simp
  also have "(worker_step E)\<^sup>*\<^sup>* \<dots> ((go (Removing u n []) d' ?s)\<lparr>wk_events := wk_events ?s @ em'\<rparr>)"
    using em(1) by (intro Cons.IH) simp
  finally show ?case by (simp add: em(2))
qed simp

lemma passes_alone:
  assumes "process_passes n E S (wk_clock s) u d = (Inr (over, em), d')"
  shows "(worker_step E)\<^sup>*\<^sup>* (go (Pass u n) d s) ((go Working d' s)\<lparr>wk_events := wk_events s @ em\<rparr>)"
  using assms
proof (induction n arbitrary: d em s)
  case 0
  then show ?case
    using worker_step.passes_over [where s = "go (Pass u 0) d s" and E = E] by auto
next
  case (Suc n)
  let ?as = "map ms_album (Memberships E u d)"
  obtain em1 d1 where r: "remove_all E S (wk_clock s) u ?as d = (Inr em1, d1)"
    using Suc.prems by (auto split: sum.splits prod.splits)
  obtain ov d2 where f: "FinishAccount E u d1 = (ov, d2)" by fastforce
  let ?s = "s\<lparr>wk_events := wk_events s @ em1\<rparr>"
  have "worker_step E (go (Pass u (Suc n)) d s) (go (Removing u n ?as) d s)"
    using worker_step.listed [where s = "go (Pass u (Suc n)) d s" and E = E] by simp
  also have "(worker_step E)\<^sup>*\<^sup>* \<dots> (go (Removing u n []) d1 ?s)"
    using removing_alone [OF r, of n] by simp
  also have "worker_step E \<dots> (go (if ov then Working else Pass u n) d2 ?s)"
    using worker_step.finished [where s = "go (Removing u n []) d1 ?s" and E = E] f by simp
  finally have 1: "(worker_step E)\<^sup>*\<^sup>* (go (Pass u (Suc n)) d s) (go (if ov then Working else Pass u n) d2 ?s)" .
  show ?case
  proof (cases ov)
    case True
    then show ?thesis using 1 Suc.prems r f by simp
  next
    case False
    then obtain em2 where "process_passes n E S (wk_clock s) u d2 = (Inr (over, em2), d')" "em = em1 @ em2"
      using Suc.prems r f by (auto split: sum.splits prod.splits)
    then have "(worker_step E)\<^sup>*\<^sup>* (go (Pass u n) d2 ?s) ((go Working d' s)\<lparr>wk_events := wk_events s @ em\<rparr>)"
      using Suc.IH [of ?s d2 em2] by simp
    with 1 False show ?thesis by simp
  qed
qed

section \<open>What leaves the queue alone\<close>

lemma deletions_tx: "(\<And>r d'. f d = Inr (r, d') \<Longrightarrow> deletions d' = deletions d) \<Longrightarrow> deletions (snd (run_tx f d)) = deletions d"
  by (cases f d rule: run_tx_cases) auto

lemma publish_deletions [simp]:
  "deletions (snd (publish_new now u ik lk spk sg ts d)) = deletions d"
  "deletions (snd (publish_refresh now u ik lk spk sg ts d)) = deletions d"
  by (simp_all add: publish_new_def publish_refresh_def Let_def)

lemma tx_deletions:
  "user_Create now newID u d = Inr (w, d') \<Longrightarrow> deletions d' = deletions d"
  "PublishOrRefreshIdentity now v ik lk spk sg ts d = Inr (y, d') \<Longrightarrow> deletions d' = deletions d"
  "repo_RotateSPK now v spk sg ts d = Inr (y, d') \<Longrightarrow> deletions d' = deletions d"
  "session_Create now newID v h ex d = Inr (y, d') \<Longrightarrow> deletions d' = deletions d"
  "ExtendByToken E t ex d = Inr (y, d') \<Longrightarrow> deletions d' = deletions d"
  "create_opk now v x d = Inr d' \<Longrightarrow> deletions d' = deletions d"
proof -
  show "user_Create now newID u d = Inr (w, d') \<Longrightarrow> deletions d' = deletions d"
    by (auto simp: user_Create_def Let_def split: if_splits)
  show "PublishOrRefreshIdentity now v ik lk spk sg ts d = Inr (y, d') \<Longrightarrow> deletions d' = deletions d"
    unfolding PublishOrRefreshIdentity_def Let_def split_beta
    by (simp split: if_splits) (metis publish_deletions)+
  show "repo_RotateSPK now v spk sg ts d = Inr (y, d') \<Longrightarrow> deletions d' = deletions d"
    by (erule repo_RotateSPK_Inr) simp
  show "session_Create now newID v h ex d = Inr (y, d') \<Longrightarrow> deletions d' = deletions d"
    by (auto simp: session_Create_def split: if_splits)
  show "ExtendByToken E t ex d = Inr (y, d') \<Longrightarrow> deletions d' = deletions d"
    by (auto simp: ExtendByToken_def Let_def split: if_splits)
  show "create_opk now v x d = Inr d' \<Longrightarrow> deletions d' = deletions d"
    by (auto simp: create_opk_def split_beta split: if_splits option.splits)
qed

lemma CreateBatchAtomic_deletions: "CreateBatchAtomic now v xs d = Inr (y, d') \<Longrightarrow> deletions d' = deletions d"
  by (induction xs arbitrary: d) (auto split: sum.splits dest: tx_deletions(6))

lemma account_exec_deletions:
  assumes "\<not> deletion_op (Ac x)"
  shows "deletions (account_exec E now x d) = deletions d"
proof (cases x)
  case (UPop pick u)
  then show ?thesis by (cases "fresh_opks u d") (simp_all add: PopRandom_def Let_def)
next
  case (DAbandon h)
  then show ?thesis by (cases "find_receipt h d") (simp_all add: repo_AbandonReceipt_def)
next
  case (SDelete t)
  then show ?thesis by (simp add: DeleteByToken_def)
next
  case (DPrune cutoff)
  then show ?thesis by (simp add: PruneReceipts_def)
qed (use assms in \<open>auto simp only: deletion_op.simps account_exec.simps not_True_eq_False
    intro!: deletions_tx elim: tx_deletions(1-5) CreateBatchAtomic_deletions\<close>)

lemma step_deletions:
  assumes "wf d" "\<not> deletion_op x"
  shows "deletions (step E (now, x) d) = deletions d"
proof (cases x)
  case (Al y)
  then show ?thesis using album_exec_accounts [OF assms(1)] by (simp add: step_def)
next
  case (Md y)
  then show ?thesis using media_exec_accounts [OF assms(1)] by (simp add: step_def same_accounts_def)
next
  case (Ac y)
  then show ?thesis using account_exec_deletions assms(2) by (simp add: step_def)
qed

section \<open>The queue, step by step\<close>

text \<open>What an accepted request adds, and what a claim and the transactions of a job do to the queue.\<close>

lemma Request_queue:
  assumes "deletion_Request E now u conf r d = Inr ((), d')"
  shows "deletions d' = deletions d \<or> deletions d' = queue_deletion now u (deletions d)" "by_steps E d d'"
proof -
  have a: "Accept E now u conf (del_receiptHash E r) d = Inr ((), d')"
    using assms by (auto simp: deletion_Request_def split: if_splits sum.splits)
  show "deletions d' = deletions d \<or> deletions d' = queue_deletion now u (deletions d)"
    using a by (rule Accept_Inr) simp_all
  show "by_steps E d d'" by (rule account_steps(8) [OF a])
qed

lemma deletion_backoff_most: "deletion_backoff n \<le> hours 6"
  by (simp add: deletion_backoff_def minutes_def hours_def)

lemma ClaimDue_queue:
  assumes "ClaimDue now d = (w, d')"
  shows "w = None \<Longrightarrow> d' = d \<and> (\<forall>j\<in>set (deletions d). now < d_next_attempt_at j)"
    "j \<in> set (deletions d') \<Longrightarrow> j \<in> set (deletions d) \<or> d_attempts j \<noteq> 0 \<and> d_next_attempt_at j \<le> now + hours 6"
proof -
  have "set (due_jobs now d) = {j \<in> set (deletions d). d_next_attempt_at j \<le> now}" by (auto simp: due_jobs_def)
  then show "w = None \<Longrightarrow> d' = d \<and> (\<forall>j\<in>set (deletions d). now < d_next_attempt_at j)"
    using assms by (auto simp: ClaimDue_def split: list.splits)
  show "j \<in> set (deletions d') \<Longrightarrow> j \<in> set (deletions d) \<or> d_attempts j \<noteq> 0 \<and> d_next_attempt_at j \<le> now + hours 6"
    using assms by (cases "due_jobs now d") (auto simp: ClaimDue_def sql_update_def deletion_backoff_most)
qed

lemma queued_by_claim: "queued_by t d \<Longrightarrow> queued_by t (snd (ClaimDue t d))"
  using ClaimDue_queue(2) [OF surjective_pairing] by (fastforce simp: queued_by_def)

definition own_tx :: "env \<Rightarrow> db \<Rightarrow> db \<Rightarrow> bool" where
  "own_tx E d d' \<longleftrightarrow> by_steps E d d' \<and> set (deletions d') \<subseteq> set (deletions d)"

lemma own_tx_refl [simp]: "own_tx E d d"
  by (simp add: own_tx_def)

lemma own_tx_either: "own_tx E d d' \<Longrightarrow> either d d' e \<Longrightarrow> own_tx E d e"
  by (auto simp: either_def)

lemma own_tx_ops:
  assumes "wf d"
  shows "own_tx E d (snd (run_tx (RemoveMembership E now u a) d))" "own_tx E d (snd (RescheduleObjectCleanupKey now k d))"
    "own_tx E d (DeleteObjectCleanupKey k d)" "own_tx E d (snd (FinishAccount E u d))"
proof -
  have "deletions (snd (run_tx (RemoveMembership E now u a) d)) = deletions d"
    using assms by (cases rule: RemoveMembership_Inr [where E = E and now = now and u = u and a = a])
      (simp_all add: enqueueObjectCleanup_def drop_album_def drop_identity_def require_rotation_def)
  then show "own_tx E d (snd (run_tx (RemoveMembership E now u a) d))"
    by (simp add: own_tx_def by_steps_tx account_steps(12))
  obtain q where "snd (RescheduleObjectCleanupKey now k d) = d\<lparr>cleanup := q\<rparr>" by (rule RescheduleObjectCleanupKey_snd)
  then show "own_tx E d (snd (RescheduleObjectCleanupKey now k d))"
    using media_steps(7) [of E d now k] by (simp add: own_tx_def)
  show "own_tx E d (DeleteObjectCleanupKey k d)"
    using media_steps(6) [of E d k] by (simp add: own_tx_def DeleteObjectCleanupKey_def)
  have "set (deletions (snd (FinishAccount E u d))) \<subseteq> set (deletions d)"
    by (auto simp: FinishAccount_def delete_user_def split: option.splits)
  then show "own_tx E d (snd (FinishAccount E u d))" using account_steps(13) [of E d u] by (simp add: own_tx_def)
qed

section \<open>No job is forgotten\<close>

text \<open>A job that was never claimed is due, and while the worker sleeps without a token its request
  has still to wake it or never learnt that it was committed.\<close>

definition never_claimed :: "deletion \<Rightarrow> bool" where
  "never_claimed j \<longleftrightarrow> d_attempts j = 0"

definition watched :: "worker \<Rightarrow> bool" where
  "watched s \<longleftrightarrow> consistent (wk_db s) \<and> queued_by (wk_clock s) (wk_db s) \<and>
     (wk_phase s = Waiting \<longrightarrow> \<not> wk_wake s \<longrightarrow> \<not> wk_failed s \<longrightarrow>
       (\<forall>j\<in>set (deletions (wk_db s)). never_claimed j \<longrightarrow>
          d_user j \<in> set (wk_requests s) \<or> d_user j \<in> set (wk_unanswered s)))"

lemma queued_by_queue: "queued_by t d \<Longrightarrow> deletions d' = queue_deletion t u (deletions d) \<Longrightarrow> queued_by t d'"
  by (auto simp: queued_by_def queue_deletion_def hours_def)

lemma queued_by_fewer: "queued_by t d \<Longrightarrow> set (deletions d') \<subseteq> set (deletions d) \<Longrightarrow> queued_by t d'"
  by (auto simp: queued_by_def)

lemma queue_members: "j \<in> set (queue_deletion now u q) \<Longrightarrow> j \<in> set q \<or> d_user j = u"
  by (auto simp: queue_deletion_def split: if_splits)

lemma PruneReceipts_deletions [simp]: "deletions (PruneReceipts c d) = deletions d"
  by (simp add: PruneReceipts_def)

lemma start_round_watched:
  assumes "consistent (wk_db s)" "queued_by (wk_clock s) (wk_db s)"
  shows "watched (start_round pruned s)"
  using assms by_steps_wf [OF account_steps(10) assms(1)]
  by (simp add: watched_def start_round_def queued_by_fewer)

lemma own_watched:
  assumes "watched s" "own_tx E (wk_db s) d" "p \<noteq> Waiting"
  shows "watched (go p d s)"
  using assms by_steps_wf [of E "wk_db s" d] queued_by_fewer [of "wk_clock s" "wk_db s" d]
  by (simp add: watched_def own_tx_def)

lemma watched_events [simp]: "watched (s\<lparr>wk_events := es\<rparr>) = watched s"
  by (simp add: watched_def)

lemma asleep_claimed:
  assumes "watched s" "ClaimDue (wk_clock s) (wk_db s) = (None, d)"
  shows "watched (go Waiting d s)"
proof -
  have d: "d = wk_db s" "\<forall>j\<in>set (deletions (wk_db s)). wk_clock s < d_next_attempt_at j"
    using ClaimDue_queue(1) [OF assms(2)] by simp_all
  then have "\<not> never_claimed j" if "j \<in> set (deletions (wk_db s))" for j
    using assms(1) that unfolding watched_def queued_by_def never_claimed_def by (meson leD)
  then show ?thesis using assms(1) by (simp add: watched_def d(1))
qed

lemma requested_watched:
  assumes w: "watched s" and r: "deletion_Request E (wk_clock s) u conf r (wk_db s) = Inr ((), d)"
    and t: "wk_db t = d" "wk_clock t = wk_clock s" "wk_phase t = wk_phase s" "wk_wake t = wk_wake s" "wk_failed t = wk_failed s"
      "set (wk_requests t) \<union> set (wk_unanswered t) = insert u (set (wk_requests s) \<union> set (wk_unanswered s))"
  shows "watched t"
proof -
  note req = Request_queue [OF r]
  have "queued_by (wk_clock s) d"
    using w req(1) queued_by_fewer [of _ "wk_db s" d] queued_by_queue by (auto simp: watched_def)
  moreover have "consistent d" using by_steps_wf [OF req(2)] w by (simp add: watched_def)
  moreover have "d_user j \<in> set (wk_requests t) \<union> set (wk_unanswered t)"
    if "wk_phase s = Waiting" "\<not> wk_wake s" "\<not> wk_failed s" "j \<in> set (deletions d)" "never_claimed j" for j
  proof -
    have "j \<in> set (deletions (wk_db s)) \<or> d_user j = u" using req(1) that(4) queue_members by metis
    then show ?thesis using w that(1-3,5) unfolding t(6) watched_def by blast
  qed
  ultimately show ?thesis unfolding watched_def t(1-5) by blast
qed

lemma step_watched:
  assumes "worker_step E s t" "watched s"
  shows "watched t"
proof -
  have ok: "consistent (wk_db s)" and q: "queued_by (wk_clock s) (wk_db s)"
    using assms(2) unfolding watched_def by blast+
  note own = own_watched [OF assms(2)] and tx = own_tx_ops [OF consistentD(1) [OF ok]]
  note failed = own_watched [OF assms(2) own_tx_either]
  from assms(1) show ?thesis
  proof cases
    case (served x)
    have "by_steps E (wk_db s) (step E (wk_clock s, x) (wk_db s))"
      unfolding by_steps_def by (rule exI [of _ "[(wk_clock s, x)]"]) simp
    then have "consistent (wk_db t)" using by_steps_wf ok by (simp add: served(1))
    moreover have "deletions (wk_db t) = deletions (wk_db s)"
      using step_deletions [OF consistentD(1) [OF ok] served(2)] by (simp add: served(1))
    ultimately show ?thesis using assms(2) served(1) by (simp add: watched_def queued_by_def)
  next
    case (later c)
    then have "queued_by c (wk_db s)" using q by (fastforce simp: queued_by_def)
    then show ?thesis using assms(2) later(1) by (simp add: watched_def)
  next
    case (committed u conf r d)
    then show ?thesis by (intro requested_watched [OF assms(2)]) simp_all
  next
    case (unanswered u conf r d)
    then show ?thesis by (intro requested_watched [OF assms(2)]) simp_all
  next
    case (claimed u d)
    then show ?thesis using queued_by_claim [OF q] by_steps_wf [OF account_steps(11) ok, of "wk_clock s"] by (simp add: watched_def)
  next
    case (claim_failed d)
    then show ?thesis using ok q queued_by_claim [OF q] by_steps_wf [OF account_steps(11) ok, of "wk_clock s"]
      by (auto simp: watched_def either_def)
  next
    case (drained d)
    then show ?thesis using asleep_claimed [OF assms(2)] by simp
  next
    case (removed u n a as rm d)
    then show ?thesis using own tx(1) [of E "wk_clock s" u a] by (simp add: run_tx_def)
  next
    case (finished u n over d)
    then show ?thesis using own tx(4) [of E u] by simp
  next
    case woken
    then show ?thesis using start_round_watched [of "s\<lparr>wk_wake := False\<rparr>"] ok q by simp
  next
    case kicked
    then show ?thesis using ok q by (simp add: watched_def Kick_def)
  next
    case remove_failed
    show ?thesis unfolding remove_failed(1) by (rule failed [OF tx(1) remove_failed(3)]) simp
  next
    case key_kept
    show ?thesis unfolding key_kept(1) by (rule failed [OF tx(2) key_kept(3)]) simp
  next
    case key_deleted
    show ?thesis unfolding key_deleted(1) by (rule failed [OF tx(3) key_deleted(3)]) simp
  next
    case finish_failed
    show ?thesis unfolding finish_failed(1) by (rule failed [OF tx(4) finish_failed(3)]) simp
  next
    case notified
    have "watched (s\<lparr>wk_events := es\<rparr>)" for es using assms(2) by simp
    from own_watched [OF this, where d = "wk_db s"] show ?thesis unfolding notified(1) by simp
  next
    case cancelled
    then show ?thesis using ok q by (simp add: watched_def)
  qed (use own [OF own_tx_refl] start_round_watched [OF ok q] in simp_all)
qed

lemma started_watched: "worker_started E s \<Longrightarrow> watched s"
  unfolding worker_started_def start_worker_def by (auto intro!: start_round_watched simp: consistent_run)

interpretation worker_law: step_relation "worker_started E" "worker_step E" watched for E
  by standard (blast intro: started_watched step_watched)+

section \<open>The wake-up\<close>

text \<open>C21. No accepted deletion sleeps, however requests, clock and worker interleave and wherever
  queries of the worker fail: while the worker waits without a token in its wake channel, every job
  that was never claimed belongs to a request that has committed and is about to wake it. Only a last
  run that ended in a failed claim, and a request that took its commit for failed, leave a job to the
  timer; and no job is ever due later than six hours from now.\<close>

theorem no_lost_wakeup:
  assumes "worker_reachable E s" "j \<in> set (deletions (wk_db s))"
  shows "(wk_phase s = Waiting \<and> \<not> wk_wake s \<and> \<not> wk_failed s \<and> d_attempts j = 0
      \<longrightarrow> d_user j \<in> set (wk_requests s) \<or> d_user j \<in> set (wk_unanswered s))
    \<and> d_next_attempt_at j \<le> wk_clock s + hours 6"
  using worker_law.invariant [OF assms(1)] assms(2) by (auto simp: watched_def never_claimed_def queued_by_def)

theorem no_lost_wakeup_witness:
  "\<exists>s. worker_reachable demo s \<and> wk_phase s = Waiting \<and> map d_user (deletions (wk_db s)) = [1] \<and> 1 \<in> set (wk_requests s)"
proof -
  let ?x = "deletion_Request demo 0 1 [7] (replicate 32 0) shared_album" and ?s0 = "start_worker False 0 shared_album"
  let ?s1 = "go Waiting shared_album ?s0"
  let ?s2 = "?s1\<lparr>wk_db := snd (projr ?x), wk_requests := 1 # wk_requests ?s1\<rparr>"
  have "\<not> isl ?x" by code_simp
  then have x: "?x = Inr ((), snd (projr ?x))" by (cases ?x) auto
  have q: "deletions (snd (projr ?x)) = [\<lparr>d_user = 1, d_attempts = 0, d_next_attempt_at = 0\<rparr>]" by code_simp
  have none: "deletions shared_album = []" by (simp add: shared_album_code empty_db_def)
  have s0: "wk_db ?s0 = shared_album" "wk_clock ?s0 = 0" "wk_phase ?s0 = Working" "wk_unanswered ?s0 = []"
      "\<not> wk_wake ?s0" "\<not> wk_failed ?s0"
    by (simp_all add: start_worker_def start_round_def)
  have "worker_started demo ?s0" unfolding worker_started_def shared_album_def
    by (rule exI, rule exI, rule exI, rule conjI [OF _ refl]) (simp add: none queued_by_def flip: shared_album_def)
  then have "worker_reachable demo ?s0" by (rule reached.initial)
  moreover have "worker_step demo ?s0 ?s1"
    using s0 none by (intro worker_step.drained) (simp_all add: ClaimDue_def due_jobs_def)
  ultimately have "worker_reachable demo ?s1" by (rule reached.step)
  moreover have "worker_step demo ?s1 ?s2" using x s0 by (intro worker_step.committed) simp
  ultimately have r: "worker_reachable demo ?s2" by (rule reached.step)
  have "\<lparr>d_user = 1, d_attempts = 0, d_next_attempt_at = 0\<rparr> \<in> set (deletions (wk_db ?s2))" using q by simp
  from no_lost_wakeup [OF r this] have "1 \<in> set (wk_requests ?s2)" using s0 by simp
  with r q show ?thesis by (intro exI [of _ ?s2]) simp
qed

end
