(* ===== verification/Direct_Queries.thy ===== *)
theory Direct_Queries
  imports Integrity
begin

text \<open>
  Repository methods that no route and no background job of the server calls: the bare insertion of
  a member, the bare deletion of an album and the batch of prekeys that takes no retries. They are
  modelled beside the operations that replaced them, with what the replacements add.
\<close>

section \<open>Definitions\<close>

definition AddMember :: "env \<Rightarrow> time \<Rightarrow> bytes \<Rightarrow> uuid \<Rightarrow> uuid \<Rightarrow> role \<Rightarrow> (err, bytes, db) tx" where
  "AddMember E now token albumID userID newRole d =
     (case lseal E userID token of Inl e \<Rightarrow> Inl e
      | Inr sealed \<Rightarrow>
        (case insert_amid \<lparr>i_token = token, user_handle = lhash E userID, user_id_enc = sealed,
            i_album = albumID, joined_at = trunc_hour now, last_received_epoch = None,
            last_received_at = None\<rparr> d of
           None \<Rightarrow> Inl DbError
         | Some d1 \<Rightarrow>
           (case insert_member \<lparr>m_album = albumID, m_token = token, role = newRole,
               revoked_at = None, m_name_ct = None\<rparr> d1 of
              Inl e \<Rightarrow> Inl e | Inr d2 \<Rightarrow> Inr (token, d2))))"

definition album_Delete :: "uuid \<Rightarrow> (err, unit, db) tx" where
  "album_Delete a d = (case delete_album a d of Inl e \<Rightarrow> Inl e | Inr d' \<Rightarrow> Inr ((), d'))"

text \<open>A row of the batch: its identifier, the one drawn for it if it has none, its account, and the
  prekey.\<close>

fun CreateBatch :: "time \<Rightarrow> (uuid \<times> uuid \<times> uuid \<times> opk_upload) list \<Rightarrow> (err, unit, db) tx" where
  "CreateBatch now [] d = Inr ((), d)"
| "CreateBatch now ((rowID, newID, u, up) # xs) d =
     (let i = (if rowID = 0 then newID else rowID) in
      if \<not> int4 (opk_Idx up) \<or> find_user d u = None
         \<or> sql_exists (\<lambda>r. o_id r = i \<or> (o_user r = u \<and> opk_idx r = opk_Idx up)) (opks d)
      then Inl DbError
      else CreateBatch now xs (d\<lparr>opks := sql_insert \<lparr>o_id = i, o_user = u, opk_idx = opk_Idx up,
             key_pub = opk_KeyPub up, consumed = False, o_created_at = trunc_hour now\<rparr> (opks d)\<rparr>))"

definition SpkRotationCount :: "uuid \<Rightarrow> db \<Rightarrow> nat" where
  "SpkRotationCount u d = sql_count (\<lambda>r. r_user r = u) (spk_rotations d)"

section \<open>Beside their replacements\<close>

lemma AddMember_wf:
  assumes "wf d" "AddMember E now token a u newRole d = Inr (t, d')"
  shows "wf d'"
proof -
  let ?m = "\<lparr>m_album = a, m_token = token, role = newRole, revoked_at = None, m_name_ct = None\<rparr>"
  obtain i d1 where i: "insert_amid i d = Some d1" "i_token i = token" "i_album i = a"
    and m: "insert_member ?m d1 = Inr d'"
    using assms(2) by (auto simp: AddMember_def split: sum.splits option.splits)
  note ia = insert_amid_Some [OF i(1)] and im = insert_member_Inr [OF m]
  have "find_album d1 a \<noteq> None" using m by (auto simp: insert_member_def split: if_splits)
  then have "a \<in> a_id ` set (albums d)" by (auto simp: ia(1) find_album_def dest!: find_Some_in)
  then have "wf (d\<lparr>amids := sql_insert i (amids d), members := sql_insert ?m (members d)\<rparr>)"
    using wf_new_member [OF assms(1), of i ?m] ia im i by simp
  then show ?thesis by (simp add: ia(1) im(1))
qed

text \<open>Where the batch goes through, the one that accepts retries does the same.\<close>

lemma CreateBatch_agrees:
  "CreateBatch now (map (\<lambda>(n, up). (0, n, u, up)) xs) d = Inr ((), d') \<Longrightarrow> CreateBatchAtomic now u xs d = Inr ((), d')"
proof (induction xs arbitrary: d)
  case (Cons x xs)
  obtain n up where x: "x = (n, up)" by (cases x)
  have "find (\<lambda>r. o_user r = u \<and> opk_idx r = opk_Idx up) (opks d) = None"
    using Cons.prems by (auto simp: x Let_def find_None_iff split: if_splits)
  then show ?case using Cons by (auto simp: x Let_def create_opk_def split: if_splits)
qed simp

text \<open>The bare deletion puts no stored object of the album into the cleanup queue.\<close>

lemma album_Delete_queues_nothing: "album_Delete a d = Inr ((), d') \<Longrightarrow> cleanup d' = cleanup d"
  by (auto simp: album_Delete_def delete_album_def Let_def split: if_splits)

end
