(* ===== verification/Spec2Isabelle.thy ===== *)
theory Spec2Isabelle
  imports Album_Properties Media_Properties Deletion_Properties Account_Properties Protocol_Properties
    Request_Properties Deployment_Properties Connections Worker
    Direct_Queries
begin

text \<open>
  \<^bold>\<open>Shared albums with end-to-end encryption: the server.\<close>

  The repository is a photo-sharing application. Its server, in Go under
  \<^verbatim>\<open>src/server\<close>, stores ciphertext only; what it has to get right is who is in an album,
  which key epoch an upload may use, that no stored object is lost or deleted while in use, who is
  signed in, and that an accepted account deletion finishes. This development models the server from
  its repositories and services up to the route table and its start from the environment as HOL
  functions, and proves those promises.

  \<^bold>\<open>How code becomes definitions.\<close> A Go string or byte slice is a list of bytes
  (\<open>bytes\<close>), a UUID a 128-bit word, machine integers are words or \<open>int\<close> with the range
  check of the column (\<open>int4\<close>). An error is a value of \<open>err\<close> (one constructor per package, with
  the sentinels of that package), a fallible function returns \<open>err + 'a\<close>. The database is the record
  \<open>db\<close> of tables as lists of rows. A repository method is one transaction: a function from the
  state to an error (the transaction rolled back) or a result and a new state; the row locks it takes
  make it atomic. Services and handlers are compositions of such transactions. Constraint
  violations of the database are the error \<open>DbError\<close>. A sequence of PostgreSQL does not roll back: the
  draws of the activity sequence are part of the transactions that commit, in the order of the commits
  (two that overlap, of different albums, may really draw the other way round),
  and the draw of one that is rolled back is the operation \<open>ADrawSeq\<close>. Where a query has
  \<^verbatim>\<open>SKIP LOCKED\<close>, the rows that others hold are the argument \<open>locked\<close> (the
  sweeps); the queue of deletions is locked by its one worker only, so nothing is passed over there. The clock, random bytes and the row a query
  without an order picks are arguments. Redis keys with a time to live are maps to a value and an
  expiry, the object store is the parameter \<open>objstore\<close>, the primitives of cryptography are the
  record \<open>crypto\<close> and \<^verbatim>\<open>uuid.String/Parse\<close> are fields of \<open>env\<close>; a result that
  needs more of them than being functions has a hypothesis (\<open>no_collision\<close>, \<open>aead_correct\<close>,
  \<open>uuid_text\<close>), and witnesses instantiate them with concrete functions.

  \<^bold>\<open>Theories of the model\<close>, in the order the code has its packages:
  \<^item> \<open>Prelude\<close>: bytes, big-endian forms, SQL-like list operations, \<open>sort_key\<close>, the locales
    \<open>transition_system\<close> (invariants of runs) and \<open>take_once\<close> (a store that hands out a value once).
  \<^item> \<open>Api_Errors\<close> (\<^verbatim>\<open>apierr\<close>), \<open>Wire\<close>, \<open>Utf8\<close>, \<open>Encoding\<close>,
    \<open>Canonical_Json\<close> (\<^verbatim>\<open>crypto\<close>), \<open>Userlink\<close> (\<^verbatim>\<open>userlink\<close>),
    \<open>Handles\<close> (\<^verbatim>\<open>handle\<close>).
  \<^item> \<open>Database\<close> (\<^verbatim>\<open>model\<close>, migrations, the queries shared by repositories), \<open>Users\<close>,
    \<open>Epochs\<close> (\<^verbatim>\<open>e2ee/epoch\<close>), \<open>Invites\<close> (\<^verbatim>\<open>e2ee/invite\<close>), \<open>Albums\<close>
    (\<^verbatim>\<open>repository/album_repo.go\<close>, \<^verbatim>\<open>removal_repo.go\<close>, \<^verbatim>\<open>service/album_service.go\<close>,
    \<^verbatim>\<open>middleware/membership.go\<close>, \<^verbatim>\<open>handler/album.go\<close>), \<open>Media\<close>
    (\<^verbatim>\<open>media_repo.go\<close>, \<^verbatim>\<open>media_service.go\<close>), \<open>Avatars\<close>,
    \<open>Account_Deletion\<close>, \<open>Prekeys\<close> (\<^verbatim>\<open>e2ee/prekey\<close>), \<open>Auth\<close>
    (\<^verbatim>\<open>otp_repo.go\<close>, \<^verbatim>\<open>session_repo.go\<close>, \<^verbatim>\<open>auth_service.go\<close>,
    \<^verbatim>\<open>middleware/auth.go\<close>, \<^verbatim>\<open>handler/auth.go\<close>), \<open>Realtime\<close> and
    \<open>Connections\<close> (\<^verbatim>\<open>ws\<close>: the hub, outboxes and tickets; the write loops and the
    single sends of broadcasts that overlap under the read lock, as a step relation),
    \<open>Rate_Limit\<close> (\<^verbatim>\<open>middleware/ratelimit.go\<close>).
  \<^item> \<open>Server\<close>: the server as a machine. Its operations are the transactions of all repositories,
    \<open>step E\<close> runs one, \<open>run E ops\<close> runs a sequence from the empty database. Because every request
    is a sequence of transactions, every interleaving of concurrent requests is such a sequence.
    \<open>op_ok\<close> states what callers guarantee: fresh identifiers and storage keys, 32-byte tokens,
    and no SHA-256 collision between the member sets of one rotation.

  \<^item> The HTTP layer: \<open>Base64\<close> (the codec and the readers of the handlers), \<open>Http\<close>
    (answers as JSON values, the context of a request, the combinators every handler is written
    with), \<open>Album_Routes\<close>, \<open>Media_Routes\<close>, \<open>Key_Routes\<close>, \<open>Account_Routes\<close>
    (\<^verbatim>\<open>handler\<close> and the handlers of \<^verbatim>\<open>e2ee\<close>; \<open>http_X\<close> is the
    handler \<^verbatim>\<open>X\<close>: the fields it reads, in their order, the service it calls, the errors
    it rewrites, the body it answers), \<open>Middleware\<close> (request identifiers, access log, recovery,
    CORS) and \<open>Router\<close> (\<^verbatim>\<open>cmd/server/main.go\<close>: which handler serves which route
    behind which gates; \<open>serve\<close> runs a request on the state \<open>world\<close> of the whole server,
    \<open>handle_request\<close> adds the error envelope and the live events).
  \<^item> \<open>Step_Relations\<close>: reachable states of step relations and their invariants (the locale
    \<open>step_relation\<close>), for \<open>Connections\<close> and \<open>Worker\<close>.
  \<^item> \<open>Worker\<close>: the deletion worker with its wake channel and the requests as a step relation, one
    transaction at a time; a query may fail at any point, and a job that nothing interrupts does what
    \<open>process\<close> of \<open>Account_Deletion\<close> does (\<open>passes_alone\<close>);
    \<open>Direct_Queries\<close>: repository methods that only the tests of the repository call.
  \<^item> \<open>Deployment\<close> (\<^verbatim>\<open>config\<close>, \<^verbatim>\<open>storage\<close>,
    \<^verbatim>\<open>service/email_service.go\<close>, the start with its checks of the databases and the end
    of the process) and
    \<open>Test_Vectors\<close> (the generators under \<^verbatim>\<open>cmd\<close>; the messages and canonical
    texts frozen in the repository's vectors are proved to be those of this model).

  \<^bold>\<open>From requests to steps.\<close> \<open>Served\<close> shows that whatever a handler or a background
  job does to the database is a sequence of admissible steps of \<open>Server\<close>
  (\<open>serve_steps\<close>, \<open>history_steps\<close>), provided the request drew fresh values
  (\<open>draws_ok\<close>). So what is proved of runs holds behind the routes. One request is served at a
  time there; only the two confirmations, which talk to the storage between reading and writing, take
  the database they read as an argument of its own. Interleavings of transactions are covered by
  \<open>run\<close>, which admits any sequence of them.

  \<^bold>\<open>Theories of the proofs.\<close> \<open>Schema\<close> is the well-formedness of the tables (keys and foreign
  keys); \<open>Effects\<close> turns each transaction into what it checked and what it changed; \<open>Integrity\<close>
  proves that every transaction keeps the schema. \<open>Invariants\<close> and \<open>Frames\<close> hold the interface
  of an album invariant (the locale \<open>album_invariant\<close>) and what transactions leave alone; it is
  interpreted for the sequence of epochs (\<open>Rotation\<close>), the roster (\<open>Roster\<close>), the coverage of
  members by wrapped keys (\<open>Coverage\<close>) and the freeze after a departure (\<open>Freeze\<close>).
  \<open>Feed\<close> is the numbering of photos, \<open>Objects\<close> the life of stored objects, \<open>Accounts\<close> the
  deletion marks, \<open>Histories\<close> facts about whole runs (identities, used prekeys, receipts),
  \<open>Reachable\<close> collects the invariants for every reachable state. \<open>Canonical_Unique\<close> is the
  unique readability of canonical JSON and \<open>Windows\<close> the limiter against its specification, up to the
  rounding of its scores (512 nanoseconds), and with its removals coming late.
  \<open>Scenario\<close> is a concrete run with an album, two members, an epoch and a photo, which the
  witnesses evaluate.

  \<^bold>\<open>Properties.\<close> \<open>Album_Properties\<close>: epochs, roster, rotation, removal, invitation.
  \<open>Media_Properties\<close>: uploads, feed, deletion, the cleanup of objects, avatars.
  \<open>Deletion_Properties\<close>: deletion jobs finish, and exactly the marked accounts have one. \<open>Account_Properties\<close>: accounts,
  identities, prekeys, sessions, receipts. \<open>Protocol_Properties\<close>: signed messages, handles, codes,
  tickets, the limiter, timestamps. \<open>Request_Properties\<close>: requests as a whole, who is refused,
  what an answer does not tell, the access log. \<open>Deployment_Properties\<close>: production start, the
  content an upload address is signed for, both sides of the key agreement. \<open>Connections\<close>: events
  reach their addressees only, once for each time they are named, and in order when their broadcasts do
  not overlap. \<open>Worker\<close>: no accepted deletion is left asleep.

  \<^bold>\<open>Bounds.\<close> A deletion job makes at most \<open>maxDeletionPasses\<close> = 5 passes, as the code does;
  \<open>deletion_completes\<close> shows that one is enough in a reachable state. The worker's loop is given one
  round more than there are jobs, and \<open>process_due_finishes\<close> shows that it stops by itself within
  them. Both take the clock as standing still
  for one run; in \<open>Worker\<close> it moves on between any two steps. The loop over a string is given as many rounds as it has bytes (each round consumes one).

  \<^bold>\<open>Not modelled.\<close> The client (Dart, Kotlin, Swift) and the tools in Python; what the
  migrations do (only whether they succeed) and the time-outs of the HTTP server; the socket behind a live connection (its pings and writes
  succeed or fail as \<open>live_step\<close> allows). Third-party
  code is a parameter: the parsing of JSON bodies (a handler takes the decoded fields, \<open>None\<close> when
  the body does not parse), the matching of paths by the router (a call names its route and
  variables), the storage SDK, the mail call, the primitives. Of responses the header fields, the
  order of JSON entries, the text of \<^verbatim>\<open>/health\<close> and the detail of a rate-limit answer
  are left out, as are informational answers (of the statuses 100 to 199 only 101 is final), and log lines other than the access log's and the mail service's.
\<close>

end
